(* ===== verification/Prelude.thy ===== *)
theory Prelude
  imports Main "HOL-Library.Sublist"
begin

text \<open>
  Shared vocabulary of the development. JavaScript strings are lists of UTF-16 code
  units, a code unit being an \<open>int\<close>; \<open>js\<close> turns an ASCII literal into such a
  list. JavaScript \<open>Set\<close>s keep insertion order, so they are lists extended with
  \<open>set_add\<close>; \<open>Map\<close>s whose order no code observes are HOL maps. An exception is
  the left side of a sum.
\<close>

section \<open>Strings of code units\<close>

type_synonym jstr = "int list"

definition js :: "string \<Rightarrow> jstr" where
  "js s = map of_char s"

lemma js_append: "js (s @ t) = js s @ js t"
  by (simp add: js_def)

lemma length_js [simp]: "length (js s) = length s"
  by (simp add: js_def)

lemma js_eq_Nil [simp]: "js s = [] \<longleftrightarrow> s = []"
  by (simp add: js_def)

text \<open>
  Literals outside ASCII: \<open>uni\<close> reads \<open>{hhhh}\<close> as the code unit with that
  hexadecimal number and every other character as itself.
\<close>

definition hex_val :: "char \<Rightarrow> int" where
  "hex_val c = (let n = of_char c :: int in if 65 \<le> n then n - 55 else n - 48)"

fun uni :: "string \<Rightarrow> jstr" where
  "uni [] = []"
| "uni (c # cs) =
     (if c = CHR ''{'' then
        (case cs of
           h1 # h2 # h3 # h4 # close # rest \<Rightarrow>
             (((hex_val h1 * 16 + hex_val h2) * 16 + hex_val h3) * 16 + hex_val h4) # uni rest
         | _ \<Rightarrow> [])
      else of_char c # uni cs)"

fun starts_with :: "'a list \<Rightarrow> 'a list \<Rightarrow> bool" where
  "starts_with [] s = True"
| "starts_with (p # ps) [] = False"
| "starts_with (p # ps) (c # cs) = (p = c \<and> starts_with ps cs)"

lemma starts_with_prefix: "starts_with p s = prefix p s"
  by (induction p s rule: starts_with.induct) auto

lemma starts_with_append [simp]: "starts_with p (p @ s)"
  by (simp add: starts_with_prefix)

text \<open>\<open>String.prototype.includes\<close>: the needle occurs somewhere.\<close>

fun str_includes :: "'a list \<Rightarrow> 'a list \<Rightarrow> bool" where
  "str_includes n [] = (n = [])"
| "str_includes n (c # cs) = (starts_with n (c # cs) \<or> str_includes n cs)"

lemma includes_sublist: "str_includes n s = sublist n s"
proof (induction s)
  case Nil
  then show ?case by simp
next
  case (Cons c cs)
  then show ?case by (simp add: starts_with_prefix sublist_Cons_right)
qed

fun join :: "'a list \<Rightarrow> 'a list list \<Rightarrow> 'a list" where
  "join sep [] = []"
| "join sep [x] = x"
| "join sep (x # y # zs) = x @ sep @ join sep (y # zs)"

text \<open>
  \<open>a || b\<close> on strings (the empty string is falsy) and on a possibly undefined
  string, where \<open>undefined\<close> is falsy too.
\<close>

definition or_str :: "jstr \<Rightarrow> jstr \<Rightarrow> jstr" where
  "or_str s t = (if s = [] then t else s)"

definition or_opt :: "jstr option \<Rightarrow> jstr \<Rightarrow> jstr" where
  "or_opt s t = (case s of None \<Rightarrow> t | Some x \<Rightarrow> or_str x t)"

text \<open>A string or \<open>undefined\<close> is truthy when it is a non-empty string.\<close>

definition truthy :: "jstr option \<Rightarrow> bool" where
  "truthy s = (case s of None \<Rightarrow> False | Some x \<Rightarrow> x \<noteq> [])"

text \<open>\<open>a ?? b\<close>\<close>

definition nullish :: "'a option \<Rightarrow> 'a \<Rightarrow> 'a" where
  "nullish a b = (case a of None \<Rightarrow> b | Some x \<Rightarrow> x)"

lemma nullish_simps [simp]: "nullish None b = b" "nullish (Some x) b = x"
  by (simp_all add: nullish_def)

lemma or_str_nonempty: "t \<noteq> [] \<Longrightarrow> or_str s t \<noteq> []"
  by (simp add: or_str_def)

section \<open>Decimal numerals\<close>

fun nat_str :: "nat \<Rightarrow> jstr" where
  "nat_str n = (if n < 10 then [48 + int n] else nat_str (n div 10) @ [48 + int (n mod 10)])"

declare nat_str.simps [simp del]

definition int_str :: "int \<Rightarrow> jstr" where
  "int_str i = (if i < 0 then 45 # nat_str (nat (- i)) else nat_str (nat i))"

lemma nat_str_nonempty [simp]: "nat_str n \<noteq> []"
  by (subst nat_str.simps) simp

lemma int_str_nonempty [simp]: "int_str i \<noteq> []"
  by (simp add: int_str_def)

text \<open>A numeral below \<open>10 ^ k\<close> prints in at most \<open>k\<close> digits.\<close>

lemma nat_str_length: "n < 10 ^ k \<Longrightarrow> 0 < k \<Longrightarrow> length (nat_str n) \<le> k"
proof (induction n arbitrary: k rule: nat_str.induct)
  case (1 n)
  show ?case
  proof (cases "n < 10")
    case True
    with "1.prems" show ?thesis by (simp add: nat_str.simps [of n])
  next
    case False
    with "1.prems" obtain k' where k: "k = Suc k'" and "0 < k'"
      by (cases k; cases "k - 1") auto
    have "n div 10 < 10 ^ k'" using "1.prems"(1) k by (simp add: less_mult_imp_div_less mult.commute)
    with False \<open>0 < k'\<close> have "length (nat_str (n div 10)) \<le> k'" by (intro "1.IH")
    with False k show ?thesis by (simp add: nat_str.simps [of n])
  qed
qed

section \<open>Characters\<close>

text \<open>
  The class \<open>\\s\<close> of regular expressions, which is also what \<open>trim\<close> removes:
  the white space and line terminators of ECMAScript.
\<close>

definition is_space :: "int \<Rightarrow> bool" where
  "is_space c \<longleftrightarrow> 9 \<le> c \<and> c \<le> 13 \<or> c = 32 \<or> c = 160 \<or> c = 5760 \<or> 8192 \<le> c \<and> c \<le> 8202
     \<or> c = 8232 \<or> c = 8233 \<or> c = 8239 \<or> c = 8287 \<or> c = 12288 \<or> c = 65279"

definition is_upper :: "int \<Rightarrow> bool" where
  "is_upper c \<longleftrightarrow> 65 \<le> c \<and> c \<le> 90"

definition is_lower :: "int \<Rightarrow> bool" where
  "is_lower c \<longleftrightarrow> 97 \<le> c \<and> c \<le> 122"

definition is_digit :: "int \<Rightarrow> bool" where
  "is_digit c \<longleftrightarrow> 48 \<le> c \<and> c \<le> 57"

text \<open>The class \<open>\\w\<close>.\<close>

definition is_word :: "int \<Rightarrow> bool" where
  "is_word c \<longleftrightarrow> is_upper c \<or> is_lower c \<or> is_digit c \<or> c = 95"

definition upper_ascii :: "int \<Rightarrow> int" where
  "upper_ascii c = (if is_lower c then c - 32 else c)"

text \<open>
  \<open>toLowerCase\<close> on the blocks that English and Vietnamese text uses (ASCII,
  Latin-1, Latin Extended-A, the horned letters of Latin Extended-B, Latin Extended
  Additional). Letters of other scripts are left as they are.
\<close>

definition lower_cu :: "int \<Rightarrow> int" where
  "lower_cu c =
    (if is_upper c then c + 32
     else if 192 \<le> c \<and> c \<le> 222 \<and> c \<noteq> 215 then c + 32
     else if (256 \<le> c \<and> c \<le> 303 \<or> 306 \<le> c \<and> c \<le> 311 \<or> 330 \<le> c \<and> c \<le> 375
              \<or> 416 \<le> c \<and> c \<le> 421 \<or> 7680 \<le> c \<and> c \<le> 7829 \<or> 7840 \<le> c \<and> c \<le> 7935)
             \<and> even c then c + 1
     else if (313 \<le> c \<and> c \<le> 328 \<or> 377 \<le> c \<and> c \<le> 382 \<or> c = 431) \<and> odd c then c + 1
     else if c = 376 then 255
     else c)"

definition to_lower :: "jstr \<Rightarrow> jstr" where
  "to_lower s = map lower_cu s"

definition trim_start :: "jstr \<Rightarrow> jstr" where
  "trim_start s = dropWhile is_space s"

definition trim_end :: "jstr \<Rightarrow> jstr" where
  "trim_end s = rev (dropWhile is_space (rev s))"

definition trim :: "jstr \<Rightarrow> jstr" where
  "trim s = trim_end (trim_start s)"

text \<open>\<open>text.replace(/\\s+/g, r)\<close>: every run of white space becomes \<open>r\<close>.\<close>

fun replace_spaces :: "jstr \<Rightarrow> bool \<Rightarrow> jstr \<Rightarrow> jstr" where
  "replace_spaces r in_run [] = []"
| "replace_spaces r in_run (c # cs) =
     (if is_space c then (if in_run then [] else r) @ replace_spaces r True cs
      else c # replace_spaces r False cs)"

section \<open>Sets in insertion order\<close>

definition set_add :: "'a \<Rightarrow> 'a list \<Rightarrow> 'a list" where
  "set_add x xs = (if x \<in> set xs then xs else xs @ [x])"

lemma set_set_add [simp]: "set (set_add x xs) = insert x (set xs)"
  by (auto simp: set_add_def)

lemma distinct_set_add [simp]: "distinct (set_add x xs) = distinct xs"
  by (auto simp: set_add_def)

lemma prefix_set_add: "prefix xs (set_add x xs)"
  by (simp add: set_add_def)

definition set_add_all :: "'a list \<Rightarrow> 'a list \<Rightarrow> 'a list" where
  "set_add_all ys xs = foldl (\<lambda>acc y. set_add y acc) xs ys"

lemma set_add_all_simps [simp]:
  "set_add_all [] xs = xs"
  "set_add_all (y # ys) xs = set_add_all ys (set_add y xs)"
  by (simp_all add: set_add_all_def)

lemma set_set_add_all [simp]: "set (set_add_all ys xs) = set xs \<union> set ys"
  by (induction ys arbitrary: xs) auto

lemma distinct_set_add_all [simp]: "distinct (set_add_all ys xs) = distinct xs"
  by (induction ys arbitrary: xs) auto

lemma prefix_set_add_all: "prefix xs (set_add_all ys xs)"
  by (induction ys arbitrary: xs) (auto intro: prefix_order.trans prefix_set_add)

section \<open>Counting and searching\<close>

text \<open>\<open>Array.prototype.find\<close> is the library's \<open>find\<close>.\<close>

lemma find_Some_in: "find P xs = Some x \<Longrightarrow> x \<in> set xs \<and> P x"
  by (induction xs) (auto split: if_splits)

lemma distinct_map_filter: "distinct (map f xs) \<Longrightarrow> distinct (map f (filter P xs))"
  by (induction xs) auto

end
