(* ===== verification/Regex.thy ===== *)
theory Regex
  imports Prelude
begin

text \<open>
  The regular expressions of the program. The code matches SQL text and tool names
  with JavaScript regular expressions; this theory gives the part of their semantics
  the code uses, as a backtracking matcher. \<open>rmatch\<close> returns the ways an
  expression can match at a position in the order in which JavaScript tries them
  (greedy repetitions longest first, an optional part taken before it is skipped), so
  the head of the list is JavaScript's match. A state is the text already consumed
  (reversed), the text to come and the captured groups.
\<close>

section \<open>Expressions\<close>

datatype rx =
    Lit "int \<Rightarrow> bool"        \<comment> \<open>one code unit of a class\<close>
  | Many "int \<Rightarrow> bool"       \<comment> \<open>a class, \<open>*\<close>, greedy\<close>
  | Many1 "int \<Rightarrow> bool"      \<comment> \<open>a class, \<open>+\<close>, greedy\<close>
  | Opt rx                       \<comment> \<open>\<open>?\<close>, greedy\<close>
  | Grp nat rx                   \<comment> \<open>capturing group\<close>
  | Seq "rx list"
  | NotAhead rx                  \<comment> \<open>\<open>(?!...)\<close>\<close>
  | WordEdge                     \<comment> \<open>\<open>\\b\<close>\<close>
  | AtEnd                        \<comment> \<open>\<open>$\<close> without the m flag\<close>

type_synonym captures = "nat \<rightharpoonup> jstr"

record mstate =
  done_rev :: jstr
  todo :: jstr
  caps :: captures

definition advance :: "nat \<Rightarrow> mstate \<Rightarrow> mstate" where
  "advance n s = s\<lparr>done_rev := rev (take n (todo s)) @ done_rev s, todo := drop n (todo s)\<rparr>"

text \<open>The numbers of code units a greedy class can take, longest first.\<close>

definition runs_down :: "nat \<Rightarrow> nat list" where
  "runs_down n = rev [0..<Suc n]"

definition run_length :: "(int \<Rightarrow> bool) \<Rightarrow> jstr \<Rightarrow> nat" where
  "run_length p s = length (takeWhile p s)"

definition word_edge :: "mstate \<Rightarrow> bool" where
  "word_edge s =
    ((case done_rev s of [] \<Rightarrow> False | c # _ \<Rightarrow> is_word c) \<noteq>
     (case todo s of [] \<Rightarrow> False | c # _ \<Rightarrow> is_word c))"

fun rmatch :: "rx \<Rightarrow> mstate \<Rightarrow> mstate list" where
  "rmatch (Lit p) s =
     (case todo s of [] \<Rightarrow> [] | c # _ \<Rightarrow> if p c then [advance 1 s] else [])"
| "rmatch (Many p) s = map (\<lambda>n. advance n s) (runs_down (run_length p (todo s)))"
| "rmatch (Many1 p) s =
     map (\<lambda>n. advance n s) (filter (\<lambda>n. 0 < n) (runs_down (run_length p (todo s))))"
| "rmatch (Opt r) s = rmatch r s @ [s]"
| "rmatch (Grp k r) s =
     map (\<lambda>t. t\<lparr>caps := (caps t)(k \<mapsto> take (length (todo s) - length (todo t)) (todo s))\<rparr>)
       (rmatch r s)"
| "rmatch (Seq []) s = [s]"
| "rmatch (Seq (r # rs)) s = concat (map (rmatch (Seq rs)) (rmatch r s))"
| "rmatch (NotAhead r) s = (if rmatch r s = [] then [s] else [])"
| "rmatch WordEdge s = (if word_edge s then [s] else [])"
| "rmatch AtEnd s = (if todo s = [] then [s] else [])"

definition at_start :: "jstr \<Rightarrow> mstate" where
  "at_start t = \<lparr>done_rev = [], todo = t, caps = Map.empty\<rparr>"

text \<open>A match anchored by \<open>^\<close>: the first way to match from the start of the text.\<close>

definition match_start :: "rx \<Rightarrow> jstr \<Rightarrow> mstate option" where
  "match_start r t = (case rmatch r (at_start t) of [] \<Rightarrow> None | s # _ \<Rightarrow> Some s)"

text \<open>An unanchored \<open>test\<close>: a match from some position.\<close>

fun test_from :: "rx \<Rightarrow> jstr \<Rightarrow> jstr \<Rightarrow> bool" where
  "test_from r prev [] = (rmatch r \<lparr>done_rev = prev, todo = [], caps = Map.empty\<rparr> \<noteq> [])"
| "test_from r prev (c # cs) =
     (rmatch r \<lparr>done_rev = prev, todo = c # cs, caps = Map.empty\<rparr> \<noteq> []
      \<or> test_from r (c # prev) cs)"

definition rtest :: "rx \<Rightarrow> jstr \<Rightarrow> bool" where
  "rtest r t = test_from r [] t"

definition group :: "nat \<Rightarrow> mstate \<Rightarrow> jstr option" where
  "group k s = caps s k"

text \<open>A keyword under the \<open>i\<close> flag, as a sequence of case-insensitive letters.\<close>

definition kw :: "string \<Rightarrow> rx list" where
  "kw w = map (\<lambda>c. Lit (\<lambda>x. upper_ascii x = upper_ascii (of_char c))) w"

abbreviation spaces0 :: rx where "spaces0 \<equiv> Many is_space"
abbreviation spaces1 :: rx where "spaces1 \<equiv> Many1 is_space"
abbreviation nonspaces1 :: rx where "nonspaces1 \<equiv> Many1 (\<lambda>c. \<not> is_space c)"
abbreviation anything0 :: rx where "anything0 \<equiv> Many (\<lambda>c. True)"
abbreviation anything1 :: rx where "anything1 \<equiv> Many1 (\<lambda>c. True)"

section \<open>What a match preserves\<close>

text \<open>
  The text of a state never changes: what is consumed and what is to come always
  append to the same string, and matching only moves forward.
\<close>

definition whole :: "mstate \<Rightarrow> jstr" where
  "whole s = rev (done_rev s) @ todo s"

lemma whole_at_start [simp]: "whole (at_start t) = t"
  by (simp add: whole_def at_start_def)

lemma whole_advance [simp]: "whole (advance n s) = whole s"
  by (simp add: whole_def advance_def)

lemma todo_advance [simp]: "todo (advance n s) = drop n (todo s)"
  by (simp add: advance_def)

lemma done_advance: "rev (done_rev (advance n s)) = rev (done_rev s) @ take n (todo s)"
  by (simp add: advance_def)

lemma rmatch_whole: "t \<in> set (rmatch r s) \<Longrightarrow> whole t = whole s"
proof (induction r s arbitrary: t rule: rmatch.induct)
  case (5 k r s)
  then show ?case by (auto simp: whole_def)
next
  case (7 r rs s)
  then show ?case by fastforce
qed (auto split: list.splits if_splits)

lemma rmatch_suffix: "t \<in> set (rmatch r s) \<Longrightarrow> suffix (todo t) (todo s)"
proof (induction r s arbitrary: t rule: rmatch.induct)
  case (7 r rs s)
  then show ?case by (fastforce intro: suffix_order.trans)
qed (auto split: list.splits if_splits simp: suffix_drop)

lemma match_start_in: "match_start r t = Some s \<Longrightarrow> s \<in> set (rmatch r (at_start t))"
  by (auto simp: match_start_def split: list.splits)

lemma match_start_whole: "match_start r t = Some s \<Longrightarrow> rev (done_rev s) @ todo s = t"
  using match_start_in [of r t s] rmatch_whole [of s r "at_start t"]
  by (simp add: whole_def at_start_def)

text \<open>
  Peeling a sequence: a match of \<open>r\<close> followed by \<open>rs\<close> is a match of \<open>r\<close> and from
  there one of \<open>rs\<close>.
\<close>

lemma rmatch_SeqE:
  assumes "t \<in> set (rmatch (Seq (r # rs)) s)"
  obtains u where "u \<in> set (rmatch r s)" "t \<in> set (rmatch (Seq rs) u)"
  using assms by auto

lemma rmatch_kw_consumes:
  assumes "t \<in> set (rmatch (Seq (kw w @ rs)) s)"
  shows "length w \<le> length (todo s) \<and>
    map upper_ascii (take (length w) (todo s)) = map (\<lambda>c. upper_ascii (of_char c)) w"
  using assms
proof (induction w arbitrary: s)
  case Nil
  then show ?case by simp
next
  case (Cons c w)
  then obtain u where u: "u \<in> set (rmatch (Lit (\<lambda>x. upper_ascii x = upper_ascii (of_char c))) s)"
    and t: "t \<in> set (rmatch (Seq (kw w @ rs)) u)"
    by (auto simp: kw_def)
  from u obtain x xs where s: "todo s = x # xs" and x: "upper_ascii x = upper_ascii (of_char c)"
    and "todo u = xs"
    by (cases "todo s") (auto split: if_splits)
  with Cons.IH [OF t] show ?case by simp
qed

text \<open>An anchored match of an expression that begins with a keyword: the text begins with it.\<close>

lemma match_start_kw:
  assumes "match_start (Seq (kw w @ rs)) t = Some s"
  shows "map upper_ascii (take (length w) t) = map (\<lambda>c. upper_ascii (of_char c)) w"
  using rmatch_kw_consumes [of s w rs "at_start t"] match_start_in [OF assms]
  by (simp add: at_start_def)

end
