(* ===== verification/Sql_Text.thy ===== *)
theory Sql_Text
  imports Regex
begin

text \<open>
  The SQL text heuristics of the risk gate: splitting an INSERT into its rows
  (\<open>executor/parse-insert-values.util.ts\<close>) and classifying a write query
  (\<open>llm/write-query-preview.util.ts\<close>).
\<close>

section \<open>parse-insert-values.util.ts\<close>

record parsed_insert =
  insertPrefix :: jstr
  tableSignature :: jstr
  tuples :: "jstr list"

text \<open>
  The scanner of \<open>extractTopLevelTuples\<close>. \<open>current\<close> is the text since
  \<open>tupleStart\<close> (reversed), \<open>None\<close> for \<open>tupleStart = -1\<close>; it is extended with each
  code unit the loop passes, so that \<open>valuesText.slice(tupleStart, i + 1)\<close> is its
  reverse at the closing bracket.
\<close>

definition push :: "int list \<Rightarrow> jstr option \<Rightarrow> jstr option" where
  "push xs cur = map_option (\<lambda>r. rev xs @ r) cur"

fun scan_tuples :: "jstr \<Rightarrow> nat \<Rightarrow> jstr option \<Rightarrow> bool \<Rightarrow> jstr list" where
  "scan_tuples [] depth cur inString = []"
| "scan_tuples (c # cs) depth cur True =
     (if c = 39 then
        (case cs of
           d # ds \<Rightarrow>
             if d = 39 then scan_tuples ds depth (push [c, d] cur) True
             else scan_tuples cs depth (push [c] cur) False
         | [] \<Rightarrow> scan_tuples cs depth (push [c] cur) False)
      else scan_tuples cs depth (push [c] cur) True)"
| "scan_tuples (c # cs) depth cur False =
     (if c = 39 then scan_tuples cs depth (push [c] cur) True
      else if c = 40 then
        scan_tuples cs (depth + 1) (push [c] (if depth = 0 then Some [] else cur)) False
      else if c = 41 then
        (case push [c] cur of
           Some t \<Rightarrow>
             if depth - 1 = 0 then rev t # scan_tuples cs (depth - 1) None False
             else scan_tuples cs (depth - 1) (Some t) False
         | None \<Rightarrow> scan_tuples cs (depth - 1) None False)
      else if c = 59 \<and> depth = 0 then []
      else scan_tuples cs depth (push [c] cur) False)"

definition extractTopLevelTuples :: "jstr \<Rightarrow> jstr list" where
  "extractTopLevelTuples valuesText = scan_tuples valuesText 0 None False"

text \<open>\<open>/^INSERT\\s+INTO\\s+(\\S+)\\s*(\\([^)]*\\))?\\s*VALUES\\s*/i\<close>\<close>

definition column_list :: rx where
  "column_list = Seq [Lit (\<lambda>c. c = 40), Many (\<lambda>c. c \<noteq> 41), Lit (\<lambda>c. c = 41)]"

definition insert_values_rx :: rx where
  "insert_values_rx = Seq
     (kw ''INSERT'' @ [spaces1] @ kw ''INTO'' @
      [spaces1, Grp 1 nonspaces1, spaces0, Opt (Grp 2 column_list), spaces0] @
      kw ''VALUES'' @ [spaces0])"

definition parseInsertValues :: "jstr \<Rightarrow> parsed_insert option" where
  "parseInsertValues query =
    (let trimmed = trim query in
     case match_start insert_values_rx trimmed of
       None \<Rightarrow> None
     | Some m \<Rightarrow>
         (let prefixText = rev (done_rev m);
              table = nullish (group 1 m) [];
              columns = group 2 m;
              ts = extractTopLevelTuples (drop (length prefixText) trimmed)
          in if ts = [] then None
             else Some \<lparr>insertPrefix = trim (take (length prefixText) trimmed),
                        tableSignature = to_lower table @ js ''|'' @
                          to_lower (replace_spaces [] False (nullish columns [])),
                        tuples = ts\<rparr>))"

section \<open>write-query-preview.util.ts\<close>

datatype destructive_operation = TRUNCATE | DROP

datatype write_query_target =
    ExistingRows jstr "jstr option"              \<comment> \<open>table, whereClause\<close>
  | InsertRows jstr nat                          \<comment> \<open>table, rowCount\<close>
  | WholeTableDestructive jstr destructive_operation

text \<open>
  \<open>replace(/\\s+(?:CASCADE|RESTRICT)\\s*$/i, '')\<close>: the leftmost match is removed, and
  the expression ends in \<open>$\<close>.
\<close>

definition cascade_rx :: "string \<Rightarrow> rx" where
  "cascade_rx w = Seq ([spaces1] @ kw w @ [spaces0, AtEnd])"

definition ends_in_cascade :: "jstr \<Rightarrow> bool" where
  "ends_in_cascade t \<longleftrightarrow>
     match_start (cascade_rx ''CASCADE'') t \<noteq> None \<or> match_start (cascade_rx ''RESTRICT'') t \<noteq> None"

fun drop_cascade :: "jstr \<Rightarrow> jstr" where
  "drop_cascade [] = []"
| "drop_cascade (c # cs) = (if ends_in_cascade (c # cs) then [] else c # drop_cascade cs)"

text \<open>\<open>String.prototype.split\<close> on one code unit.\<close>

fun split_on :: "int \<Rightarrow> jstr \<Rightarrow> jstr list" where
  "split_on sep [] = [[]]"
| "split_on sep (c # cs) =
     (if c = sep then [] # split_on sep cs
      else (case split_on sep cs of [] \<Rightarrow> [[c]] | x # xs \<Rightarrow> (c # x) # xs))"

definition parseTableList :: "jstr \<Rightarrow> jstr" where
  "parseTableList tableListText =
     join (js '', '') (filter (\<lambda>t. t \<noteq> []) (map trim (split_on 44 (drop_cascade tableListText))))"

text \<open>
  \<open>isWhereKeywordAt(text, index)\<close>, given the code unit before the index (if any) and
  the text from the index on.
\<close>

definition is_word_char :: "jstr \<Rightarrow> bool" where
  "is_word_char s = (case s of [] \<Rightarrow> False | c # _ \<Rightarrow> is_word c)"

definition isWhereKeywordAt :: "int option \<Rightarrow> jstr \<Rightarrow> bool" where
  "isWhereKeywordAt prev rest =
    (if map upper_ascii (take 5 rest) \<noteq> js ''WHERE'' then False
     else \<not> (case prev of None \<Rightarrow> False | Some c \<Rightarrow> is_word c) \<and> \<not> is_word_char (drop 5 rest))"

fun split_at_where :: "int \<Rightarrow> int option \<Rightarrow> jstr \<Rightarrow> jstr option" where
  "split_at_where depth prev [] = None"
| "split_at_where depth prev (c # cs) =
     (if c = 40 then split_at_where (depth + 1) (Some c) cs
      else if c = 41 then split_at_where (depth - 1) (Some c) cs
      else if depth = 0 \<and> isWhereKeywordAt prev (c # cs) then
        (let clause = trim (drop 5 (c # cs)) in if clause = [] then None else Some clause)
      else split_at_where depth (Some c) cs)"

definition splitAtWhere :: "jstr \<Rightarrow> jstr option" where
  "splitAtWhere text = split_at_where 0 None text"

fun count_tuples :: "jstr \<Rightarrow> int \<Rightarrow> nat \<Rightarrow> bool \<Rightarrow> nat option" where
  "count_tuples [] depth count openedAtDepth0 = (if depth = 0 \<and> count > 0 then Some count else None)"
| "count_tuples (c # cs) depth count openedAtDepth0 =
     (if c = 40 then
        count_tuples cs (depth + 1) count (if depth = 0 then True else openedAtDepth0)
      else if c = 41 then
        (if depth - 1 < 0 then None
         else if depth - 1 = 0 \<and> openedAtDepth0 then count_tuples cs (depth - 1) (count + 1) False
         else count_tuples cs (depth - 1) count openedAtDepth0)
      else count_tuples cs depth count openedAtDepth0)"

definition countTopLevelTuples :: "jstr \<Rightarrow> nat option" where
  "countTopLevelTuples valuesText = count_tuples valuesText 0 0 False"

text \<open>
  \<open>query.trim().replace(/;\\s*$/, '')\<close>: the leftmost semicolon followed only by white
  space is removed with what follows.
\<close>

fun drop_last_semicolon :: "jstr \<Rightarrow> jstr" where
  "drop_last_semicolon [] = []"
| "drop_last_semicolon (c # cs) =
     (if c = 59 \<and> list_all is_space cs then [] else c # drop_last_semicolon cs)"

definition truncate_rx :: rx where
  "truncate_rx = Seq (kw ''TRUNCATE'' @ [spaces1] @ kw ''TABLE'' @ [spaces1, Grp 1 anything1, AtEnd])"

definition drop_rx :: rx where
  "drop_rx = Seq (kw ''DROP'' @ [spaces1] @ kw ''TABLE'' @
     [spaces1, Opt (Seq (kw ''IF'' @ [spaces1] @ kw ''EXISTS'' @ [spaces1])), Grp 1 anything1, AtEnd])"

definition update_rx :: rx where
  "update_rx = Seq (kw ''UPDATE'' @
     [spaces1, Grp 1 nonspaces1,
      Opt (Seq [spaces1, Opt (Seq (kw ''AS'' @ [spaces1])),
                NotAhead (Seq (kw ''SET'' @ [WordEdge])), nonspaces1]),
      spaces1] @ kw ''SET'' @ [spaces1, Grp 2 anything1, AtEnd])"

definition delete_rx :: rx where
  "delete_rx = Seq (kw ''DELETE'' @ [spaces1] @ kw ''FROM'' @
     [spaces1, Grp 1 nonspaces1, Grp 2 anything0, AtEnd])"

definition insert_rx :: rx where
  "insert_rx = Seq (kw ''INSERT'' @ [spaces1] @ kw ''INTO'' @
     [spaces1, Grp 1 nonspaces1, spaces0, Opt column_list, spaces0] @
     kw ''VALUES'' @ [spaces0, Grp 2 anything1, AtEnd])"

definition extractWriteQueryPreviewTarget :: "jstr \<Rightarrow> write_query_target option" where
  "extractWriteQueryPreviewTarget query =
    (let trimmed = drop_last_semicolon (trim query); g = (\<lambda>k m. nullish (group k m) []) in
     if 59 \<in> set trimmed then None
     else case match_start truncate_rx trimmed of
       Some m \<Rightarrow> Some (WholeTableDestructive (parseTableList (g 1 m)) TRUNCATE)
     | None \<Rightarrow> (case match_start drop_rx trimmed of
       Some m \<Rightarrow> Some (WholeTableDestructive (parseTableList (g 1 m)) DROP)
     | None \<Rightarrow> (case match_start update_rx trimmed of
       Some m \<Rightarrow> Some (ExistingRows (g 1 m) (splitAtWhere (g 2 m)))
     | None \<Rightarrow> (case match_start delete_rx trimmed of
       Some m \<Rightarrow> Some (ExistingRows (g 1 m) (splitAtWhere (g 2 m)))
     | None \<Rightarrow> (case match_start insert_rx trimmed of
       Some m \<Rightarrow>
         (case countTopLevelTuples (g 2 m) of
            Some rowCount \<Rightarrow> Some (InsertRows (g 1 m) rowCount)
          | None \<Rightarrow> None)
     | None \<Rightarrow> None)))))"

section \<open>Rows re-read\<close>

text \<open>
  A row is self-delimiting: scanning it again, whatever follows, finds exactly it and
  goes on behind it at depth 0.
\<close>

definition self_delimiting :: "jstr \<Rightarrow> bool" where
  "self_delimiting t \<longleftrightarrow>
     (\<forall>rest. scan_tuples (t @ rest) 0 None False = t # scan_tuples rest 0 None False)"

lemma push_simps [simp]: "push xs None = None" "push xs (Some r) = Some (rev xs @ r)"
  by (simp_all add: push_def)

text \<open>
  \<open>closes u d q\<close>: read from bracket depth \<open>d\<close> (inside a string literal when \<open>q\<close>),
  \<open>u\<close> ends with the bracket that closes depth 1.
\<close>

fun closes :: "jstr \<Rightarrow> nat \<Rightarrow> bool \<Rightarrow> bool" where
  "closes [] d q = False"
| "closes (c # cs) d True =
     (if c \<noteq> 39 then closes cs d True
      else (case cs of [] \<Rightarrow> False
            | e # ds \<Rightarrow> if e = 39 then closes ds d True else closes cs d False))"
| "closes (c # cs) d False =
     (if c = 39 then closes cs d True
      else if c = 40 then closes cs (d + 1) False
      else if c = 41 then (if d = 1 then cs = [] else closes cs (d - 1) False)
      else closes cs d False)"

lemma scan_closes:
  "closes u d q \<Longrightarrow> 0 < d \<Longrightarrow>
   scan_tuples (u @ rest) d (Some r) q = (rev r @ u) # scan_tuples rest 0 None False"
  by (induction u d q arbitrary: r rule: closes.induct) (auto split: list.splits if_splits)

definition has_close :: "jstr \<Rightarrow> nat \<Rightarrow> bool \<Rightarrow> bool" where
  "has_close s d q \<longleftrightarrow> (\<exists>u v. s = u @ v \<and> closes u d q)"

lemma has_closeI: "closes u d q \<Longrightarrow> has_close (u @ v) d q"
  by (auto simp: has_close_def)

lemma has_close_Cons:
  assumes "has_close cs d' q'" and "\<And>u. closes u d' q' \<Longrightarrow> closes (c # u) d q"
  shows "has_close (c # cs) d q"
  using assms by (metis append_Cons has_close_def)

lemma has_close_quote_pair: "has_close ds d True \<Longrightarrow> has_close (39 # 39 # ds) d True"
proof -
  assume "has_close ds d True"
  then obtain u v where "ds = u @ v" "closes u d True" by (auto simp: has_close_def)
  then show ?thesis using has_closeI [of "39 # 39 # u" d True v] by simp
qed

lemma has_close_string_end:
  "has_close (e # ds) d False \<Longrightarrow> e \<noteq> 39 \<Longrightarrow> has_close (39 # e # ds) d True"
proof -
  assume "has_close (e # ds) d False" "e \<noteq> 39"
  then obtain u v where uv: "e # ds = u @ v" "closes u d False" by (auto simp: has_close_def)
  then obtain u' where u: "u = e # u'" by (cases u) auto
  then have "closes (39 # u) d True" using uv(2) \<open>e \<noteq> 39\<close> by simp
  with uv(1) show ?thesis by (metis append_Cons has_closeI)
qed

lemma scan_nonempty_closes:
  "scan_tuples s d (Some r) q \<noteq> [] \<Longrightarrow> 0 < d \<Longrightarrow> has_close s d q"
proof (induction s d "Some r" q arbitrary: r rule: scan_tuples.induct)
  case (2 c cs d r)
  show ?case
  proof (cases "c = 39")
    case True
    then obtain e ds where cs: "cs = e # ds" using "2.prems"(1) by (cases cs) auto
    show ?thesis
    proof (cases "e = 39")
      case True
      with 2 cs \<open>c = 39\<close> show ?thesis by (auto intro: has_close_quote_pair)
    next
      case False
      with 2 cs \<open>c = 39\<close> show ?thesis by (auto intro: has_close_string_end)
    qed
  next
    case False
    with 2 show ?thesis by (auto intro: has_close_Cons [of _ d True])
  qed
next
  case (3 c cs d r)
  show ?case
  proof (cases "c = 41 \<and> d = 1")
    case True
    then show ?thesis using has_closeI [of "[c]" d False cs] by simp
  next
    case False
    with 3 show ?thesis
      by (auto split: if_splits intro: has_close_Cons [of _ d True] has_close_Cons [of _ "d + 1" False]
          has_close_Cons [of _ "d - 1" False] has_close_Cons [of _ d False])
  qed
qed simp

lemma scan_outside:
  assumes "\<not> (c = 40 \<and> \<not> q)" and "t \<in> set (scan_tuples (c # cs) 0 None q)"
  shows "(\<exists>ds. cs = 39 # ds \<and> t \<in> set (scan_tuples ds 0 None True)) \<or>
    (\<exists>q'. t \<in> set (scan_tuples cs 0 None q'))"
proof (cases "c = 39 \<and> q \<and> (\<exists>ds. cs = 39 # ds)")
  case True
  with assms(2) show ?thesis by auto
next
  case False
  have "scan_tuples (c # cs) 0 None q \<in> {[], scan_tuples cs 0 None (if q then c \<noteq> 39 else c = 39)}"
    using assms(1) False by (cases q; cases cs) auto
  with assms(2) show ?thesis by auto
qed

lemma scan_rows_self_delimiting:
  "t \<in> set (scan_tuples s 0 None q) \<Longrightarrow> self_delimiting t"
proof (induction "length s" arbitrary: s q rule: less_induct)
  case less
  have row: "self_delimiting (40 # u)" if "closes u 1 False" for u
    using scan_closes [OF that, of _ "[40]"] by (simp add: self_delimiting_def)
  show ?case
  proof (cases s)
    case Nil
    with less.prems show ?thesis by simp
  next
    case s: (Cons c cs)
    show ?thesis
    proof (cases "c = 40 \<and> \<not> q")
      case True
      with less.prems s have t: "t \<in> set (scan_tuples cs 1 (Some [40]) False)" by simp
      then have "scan_tuples cs 1 (Some [40]) False \<noteq> []" by auto
      then have "has_close cs 1 False" by (rule scan_nonempty_closes) simp
      then obtain u v where uv: "cs = u @ v" "closes u 1 False" by (auto simp: has_close_def)
      with t scan_closes [OF uv(2), of v "[40]"] have "t = 40 # u \<or> t \<in> set (scan_tuples v 0 None False)"
        by simp
      with row [OF uv(2)] less.hyps [of v False] uv(1) s show ?thesis by auto
    next
      case False
      then obtain s' q' where "length s' < length s" "t \<in> set (scan_tuples s' 0 None q')"
        using scan_outside [OF False, of t cs] less.prems s by fastforce
      then show ?thesis by (rule less.hyps)
    qed
  qed
qed

text \<open>
  Rows joined by a comma and a blank, as \<open>mergedQuery\<close> joins them, are read back as
  exactly these rows.
\<close>

lemma scan_join_rows:
  "\<forall>t \<in> set ts. self_delimiting t \<Longrightarrow> scan_tuples (join (js '', '') ts) 0 None False = ts"
proof (induction "js '', ''" ts rule: join.induct)
  case (2 x)
  then have "scan_tuples (x @ []) 0 None False = x # scan_tuples [] 0 None False"
    unfolding self_delimiting_def by (metis list.set_intros(1))
  then show ?case by simp
next
  case (3 x y zs)
  then show ?case by (simp add: self_delimiting_def js_def)
qed simp

lemma extract_join_rows:
  "set ts \<subseteq> set (extractTopLevelTuples v) \<Longrightarrow>
   extractTopLevelTuples (join (js '', '') ts) = ts"
  by (auto simp: extractTopLevelTuples_def intro!: scan_join_rows dest: scan_rows_self_delimiting)

section \<open>What a recognised query is\<close>

lemma parseInsertValues_rows:
  assumes "parseInsertValues q = Some p"
  shows "tuples p \<noteq> []" "\<forall>t \<in> set (tuples p). self_delimiting t"
  using assms scan_rows_self_delimiting
  by (auto simp: parseInsertValues_def extractTopLevelTuples_def Let_def split: option.splits if_splits)

text \<open>
  \<open>begins_with_kw w t\<close>: the text begins with the keyword, whatever the case of its
  letters.
\<close>

definition begins_with_kw :: "string \<Rightarrow> jstr \<Rightarrow> bool" where
  "begins_with_kw w t \<longleftrightarrow> map upper_ascii (take (length w) t) = map (\<lambda>c. upper_ascii (of_char c)) w"

lemma insert_rows_shape:
  assumes "extractWriteQueryPreviewTarget q = Some (InsertRows t n)"
  shows "begins_with_kw ''INSERT'' (drop_last_semicolon (trim q))"
    and "59 \<notin> set (drop_last_semicolon (trim q))"
    and "0 < n"
proof -
  let ?t = "drop_last_semicolon (trim q)"
  obtain m where m: "match_start insert_rx ?t = Some m" and no: "59 \<notin> set ?t"
    and n: "countTopLevelTuples (nullish (group 2 m) []) = Some n"
    using assms by (auto simp: extractWriteQueryPreviewTarget_def Let_def split: if_splits option.splits)
  show "begins_with_kw ''INSERT'' ?t"
    using match_start_kw [OF m [unfolded insert_rx_def]] by (simp add: begins_with_kw_def)
  show "59 \<notin> set ?t" by (rule no)
  have "0 < n" if "count_tuples s d k b = Some n" for s d k b
    using that by (induction s d k b rule: count_tuples.induct) (auto split: if_splits)
  with n show "0 < n" by (simp add: countTopLevelTuples_def)
qed

end
