(* ===== verification/Json.thy ===== *)
theory Json
  imports Prelude
begin

text \<open>
  JSON values and the three library functions the program applies to them:
  \<open>JSON.stringify\<close>, \<open>JSON.stringify(_, null, 2)\<close> and \<open>JSON.parse\<close>. An object is the
  list of its properties in enumeration order; a number is kept as the numeral that
  denotes it.
\<close>

datatype json =
    JNull
  | JBool bool
  | JNum jstr
  | JStr jstr
  | JArr "json list"
  | JObj "(jstr \<times> json) list"

type_synonym args = "(jstr \<times> json) list"

section \<open>Printing\<close>

definition hex_digit :: "int \<Rightarrow> int" where
  "hex_digit n = (if n < 10 then 48 + n else 87 + n)"

definition hex4 :: "int \<Rightarrow> jstr" where
  "hex4 c = [hex_digit (c div 4096 mod 16), hex_digit (c div 256 mod 16),
             hex_digit (c div 16 mod 16), hex_digit (c mod 16)]"

definition escape_cu :: "int \<Rightarrow> jstr" where
  "escape_cu c =
    (if c = 34 then [92, 34] else if c = 92 then [92, 92]
     else if c = 8 then [92, 98] else if c = 9 then [92, 116] else if c = 10 then [92, 110]
     else if c = 12 then [92, 102] else if c = 13 then [92, 114]
     else if 0 \<le> c \<and> c < 32 then 92 # 117 # hex4 c
     else [c])"

definition quote :: "jstr \<Rightarrow> jstr" where
  "quote s = 34 # concat (map escape_cu s) @ [34]"

fun stringify :: "json \<Rightarrow> jstr" where
  "stringify JNull = js ''null''"
| "stringify (JBool b) = (if b then js ''true'' else js ''false'')"
| "stringify (JNum n) = n"
| "stringify (JStr s) = quote s"
| "stringify (JArr xs) = [91] @ join [44] (map stringify xs) @ [93]"
| "stringify (JObj kvs) = [123] @ join [44] (map (\<lambda>(k, v). quote k @ [58] @ stringify v) kvs) @ [125]"

definition newline :: "nat \<Rightarrow> jstr" where
  "newline indent = 10 # replicate indent 32"

fun pretty :: "nat \<Rightarrow> json \<Rightarrow> jstr" where
  "pretty ind JNull = js ''null''"
| "pretty ind (JBool b) = (if b then js ''true'' else js ''false'')"
| "pretty ind (JNum n) = n"
| "pretty ind (JStr s) = quote s"
| "pretty ind (JArr xs) =
     (if xs = [] then js ''[]''
      else [91] @ newline (ind + 2) @ join (44 # newline (ind + 2)) (map (pretty (ind + 2)) xs)
           @ newline ind @ [93])"
| "pretty ind (JObj kvs) =
     (if kvs = [] then uni ''{007B}{007D}''
      else [123] @ newline (ind + 2) @
           join (44 # newline (ind + 2)) (map (\<lambda>(k, v). quote k @ [58, 32] @ pretty (ind + 2) v) kvs)
           @ newline ind @ [125])"

section \<open>Objects\<close>

definition get_prop :: "args \<Rightarrow> jstr \<Rightarrow> json option" where
  "get_prop kvs k = map_of kvs k"

text \<open>Assignment \<open>obj.k = v\<close>: in place when the property exists, else at the end.\<close>

definition set_prop :: "jstr \<Rightarrow> json \<Rightarrow> args \<Rightarrow> args" where
  "set_prop k v kvs =
     (if k \<in> set (map fst kvs) then map (\<lambda>(k', w). if k' = k then (k', v) else (k', w)) kvs
      else kvs @ [(k, v)])"

text \<open>\<open>{ ...a, ...b }\<close>\<close>

definition spread :: "args \<Rightarrow> args \<Rightarrow> args" where
  "spread a b = foldl (\<lambda>acc (k, v). set_prop k v acc) a b"

lemma map_of_update_value:
  "map_of (map (\<lambda>(k', w). if k' = k then (k', v) else (k', w)) kvs) x
   = (if x = k then map_option (\<lambda>_. v) (map_of kvs k) else map_of kvs x)"
  by (induction kvs) auto

lemma get_prop_set_prop [simp]: "get_prop (set_prop k v kvs) x = (if x = k then Some v else get_prop kvs x)"
proof (cases "k \<in> set (map fst kvs)")
  case True
  then obtain w where "map_of kvs k = Some w" by (metis map_of_eq_None_iff list.set_map not_None_eq)
  with True show ?thesis by (simp add: get_prop_def set_prop_def map_of_update_value)
next
  case False
  then have "map_of kvs k = None" by (simp add: map_of_eq_None_iff)
  with False show ?thesis
    by (auto simp: get_prop_def set_prop_def map_add_def split: option.split)
qed

lemma keys_set_prop [simp]: "fst ` set (set_prop k v kvs) = insert k (fst ` set kvs)"
  by (force simp: set_prop_def)

lemma get_prop_None: "get_prop kvs k = None \<longleftrightarrow> k \<notin> fst ` set kvs"
  by (simp add: get_prop_def map_of_eq_None_iff)

lemma get_prop_spread:
  "distinct (map fst b) \<Longrightarrow>
   get_prop (spread a b) k = (case get_prop b k of Some v \<Rightarrow> Some v | None \<Rightarrow> get_prop a k)"
proof (induction b arbitrary: a)
  case Nil
  then show ?case by (simp add: spread_def get_prop_def)
next
  case (Cons kv b)
  obtain k' v where kv: "kv = (k', v)" by (cases kv)
  have step: "spread a (kv # b) = spread (set_prop k' v a) b" by (simp add: spread_def kv)
  have IH: "get_prop (spread (set_prop k' v a) b) k
      = (case get_prop b k of Some w \<Rightarrow> Some w | None \<Rightarrow> if k = k' then Some v else get_prop a k)"
    using Cons by (auto simp: kv split: option.split)
  have "get_prop b k' = None" using Cons.prems by (simp add: kv get_prop_None)
  then show ?case unfolding step IH
    by (auto simp: kv get_prop_def split: option.split)
qed

lemma keys_spread: "fst ` set (spread a b) = fst ` set a \<union> fst ` set b"
proof (induction b arbitrary: a)
  case (Cons kv b)
  have "spread a (kv # b) = spread (set_prop (fst kv) (snd kv) a) b"
    by (simp add: spread_def case_prod_beta)
  with Cons show ?case by auto
qed (simp add: spread_def)

end
