(* ===== verification/Agent_Types.thy ===== *)
theory Agent_Types
  imports Json
begin

text \<open>
  The data of the agent layer: the enumerations of
  \<open>libs/constants/src/types/orchestration.enum.ts\<close>, the limits of
  \<open>ORCHESTRATION_CONSTANTS\<close> and the request and response shapes of
  \<open>apps/orchestration/src/dto\<close>.
\<close>

section \<open>Enumerations\<close>

datatype approval_action = Approve | Reject | Clarify | EditAndApprove

datatype checkpoint_kind = Approval | Clarification

datatype risk_level = Medium | High

datatype step_status = Success | Error | AwaitingApproval

datatype verdict = Continue | Replan | Finalize | Done

datatype breaker_state = Open | HalfOpen | Closed

text \<open>Risk levels are ordered as their names say.\<close>

instantiation risk_level :: linorder
begin

fun less_eq_risk_level :: "risk_level \<Rightarrow> risk_level \<Rightarrow> bool" where
  "less_eq_risk_level High Medium = False"
| "less_eq_risk_level _ _ = True"

definition less_risk_level :: "risk_level \<Rightarrow> risk_level \<Rightarrow> bool" where
  "less_risk_level a b \<longleftrightarrow> a \<le> b \<and> \<not> b \<le> (a :: risk_level)"

instance
proof
  fix x y z :: risk_level
  show "(x < y) = (x \<le> y \<and> \<not> y \<le> x)" by (rule less_risk_level_def)
  show "x \<le> x" by (cases x) auto
  show "x \<le> y \<Longrightarrow> y \<le> z \<Longrightarrow> x \<le> z" by (cases x; cases y; cases z) auto
  show "x \<le> y \<Longrightarrow> y \<le> x \<Longrightarrow> x = y" by (cases x; cases y) auto
  show "x \<le> y \<or> y \<le> x" by (cases x; cases y) auto
qed

end

section \<open>Limits\<close>

definition MAX_REACT_STEPS :: nat where "MAX_REACT_STEPS = 8"
definition MAX_SUPERVISOR_ROUNDS :: nat where "MAX_SUPERVISOR_ROUNDS = 5"
definition MAX_REAL_STEPS_PER_TURN :: nat where "MAX_REAL_STEPS_PER_TURN = 15"
definition MAX_QUANTITY_CONTINUATION_ROUNDS :: nat where "MAX_QUANTITY_CONTINUATION_ROUNDS = 10"
definition MAX_LLM_CALL_RETRY_ATTEMPTS :: nat where "MAX_LLM_CALL_RETRY_ATTEMPTS = 2"
definition MAX_SAME_TOOL_CALL_REPEATS :: nat where "MAX_SAME_TOOL_CALL_REPEATS = 1"
definition MAX_TRANSIENT_TOOL_RETRY_ATTEMPTS :: nat where "MAX_TRANSIENT_TOOL_RETRY_ATTEMPTS = 2"
definition CHECKPOINT_EXPIRY_MS :: int where "CHECKPOINT_EXPIRY_MS = 24 * 60 * 60 * 1000"
definition STALLED_EXECUTION_TTL_MS :: int where "STALLED_EXECUTION_TTL_MS = 30 * 60 * 1000"
definition CIRCUIT_BREAKER_ERROR_THRESHOLD_PERCENTAGE :: int where
  "CIRCUIT_BREAKER_ERROR_THRESHOLD_PERCENTAGE = 50"
definition CIRCUIT_BREAKER_VOLUME_THRESHOLD :: int where "CIRCUIT_BREAKER_VOLUME_THRESHOLD = 20"
definition CIRCUIT_BREAKER_RESET_TIMEOUT_MS :: int where "CIRCUIT_BREAKER_RESET_TIMEOUT_MS = 30000"
definition CIRCUIT_BREAKER_VOLUME_WINDOW_SEC :: int where "CIRCUIT_BREAKER_VOLUME_WINDOW_SEC = 10"
definition CIRCUIT_BREAKER_PROBE_LOCK_TTL_MS :: int where "CIRCUIT_BREAKER_PROBE_LOCK_TTL_MS = 60000"

lemmas limit_defs =
  MAX_REACT_STEPS_def MAX_SUPERVISOR_ROUNDS_def MAX_REAL_STEPS_PER_TURN_def
  MAX_QUANTITY_CONTINUATION_ROUNDS_def MAX_LLM_CALL_RETRY_ATTEMPTS_def
  MAX_SAME_TOOL_CALL_REPEATS_def MAX_TRANSIENT_TOOL_RETRY_ATTEMPTS_def

section \<open>Tool calls\<close>

text \<open>\<open>ToolCallTraceDto\<close>\<close>

record tool_trace =
  tt_tool :: jstr
  tt_status :: step_status
  tt_resultPreview :: "jstr option"
  tt_argsPreview :: "jstr option"

text \<open>\<open>LlmToolCall\<close>, \<open>LlmToolResult\<close> and \<open>LlmTurnResult\<close>\<close>

record llm_call =
  lc_name :: jstr
  lc_args :: args
  lc_id :: "jstr option"

record llm_result =
  lr_id :: "jstr option"
  lr_name :: jstr
  lr_content :: jstr

record llm_turn =
  lt_text :: jstr
  lt_toolCalls :: "llm_call list"

text \<open>\<open>McpToolDto\<close> (the parts the agent loop reads) and \<open>CallToolResponseDto\<close>\<close>

record mcp_tool =
  mt_name :: jstr
  destructiveHint :: "bool option"  \<comment> \<open>\<open>annotations?.destructiveHint\<close>\<close>

record mcp_part =
  part_type :: jstr
  part_text :: "jstr option"

record mcp_response =
  content :: "mcp_part list option"
  isError :: "bool option"

text \<open>\<open>PendingToolCall\<close>\<close>

record pending_tool =
  pt_provider :: jstr
  pt_name :: jstr
  pt_args :: args

section \<open>Supervisor data\<close>

record agent =
  provider :: jstr
  label :: jstr
  description :: jstr

record delegation =
  dg_agent :: jstr
  dg_task :: jstr
  dg_mustExecute :: "bool option"

record round =
  rd_agent :: jstr
  rd_task :: jstr
  rd_result :: jstr

datatype plan_action = Respond | MakePlan

record plan =
  pl_action :: plan_action
  pl_answer :: "jstr option"
  pl_rememberFact :: "jstr option"
  pl_steps :: "delegation list option"
  pl_ambiguous :: "agent list option"

text \<open>\<open>AnswerResult\<close> and \<open>buildAnswer\<close>\<close>

record answer =
  an_content :: jstr
  an_toolCalls :: "tool_trace list option"

definition buildAnswer :: "jstr \<Rightarrow> tool_trace list \<Rightarrow> answer" where
  "buildAnswer c tcs = \<lparr>an_content = c, an_toolCalls = (if length tcs > 0 then Some tcs else None)\<rparr>"

section \<open>Errors\<close>

text \<open>
  What the agent loop catches. \<open>ApprovalRequired\<close> and \<open>TurnCancelled\<close> are the two
  error classes with a meaning of their own; any other exception is \<open>Failure\<close> with its
  message.
\<close>

datatype agent_error =
    ApprovalRequired pending_tool "tool_trace list"
  | TurnCancelled "jstr option"
  | Failure jstr

section \<open>extractTextFromMcpResult\<close>

definition extractTextFromMcpResult :: "mcp_response \<Rightarrow> jstr" where
  "extractTextFromMcpResult r =
    (case content r of
       None \<Rightarrow> []
     | Some parts \<Rightarrow>
         if parts = [] then []
         else join [10] (map (\<lambda>c. nullish (part_text c) [])
                (filter (\<lambda>c. part_type c = js ''text'' \<and> truthy (part_text c)) parts)))"

end
