(* ===== verification/Risk_Gate.thy ===== *)
theory Risk_Gate
  imports Sql_Text Agent_Types
begin

text \<open>
  The gate before a tool runs: the create-tool heuristic
  (\<open>memory/create-tool-heuristic.util.ts\<close>), the accumulator that merges INSERT rows
  spread over several calls (\<open>llm/insert-accumulator.ts\<close>) and the decisions of
  \<open>llm/tool-risk-gate.ts\<close>.
\<close>

section \<open>create-tool-heuristic.util.ts\<close>

definition CREATE_VERBS :: "jstr list" where
  "CREATE_VERBS = [(js ''create''), (js ''insert''), (js ''append''), (js ''add'')]"

fun camel_split :: "int option \<Rightarrow> jstr \<Rightarrow> jstr" where
  "camel_split prev [] = []"
| "camel_split prev (c # cs) =
     (if is_upper c \<and> (case prev of None \<Rightarrow> False | Some p \<Rightarrow> is_lower p \<or> is_digit p)
      then 32 # c # camel_split (Some c) cs else c # camel_split (Some c) cs)"

text \<open>\<open>split(/\\s+/).filter(Boolean)\<close>: the maximal runs without white space.\<close>

fun words_acc :: "jstr \<Rightarrow> jstr \<Rightarrow> jstr list" where
  "words_acc w [] = (if w = [] then [] else [rev w])"
| "words_acc w (c # cs) =
     (if is_space c then (if w = [] then words_acc [] cs else rev w # words_acc [] cs)
      else words_acc (c # w) cs)"

definition words :: "jstr \<Rightarrow> jstr list" where
  "words s = words_acc [] s"

definition splitToolNameWords :: "jstr \<Rightarrow> jstr list" where
  "splitToolNameWords name =
     words (to_lower (camel_split None (map (\<lambda>c. if c = 46 \<or> c = 95 then 32 else c) name)))"

definition hasCreateVerb :: "jstr \<Rightarrow> bool" where
  "hasCreateVerb toolName \<longleftrightarrow> (\<exists>w \<in> set (splitToolNameWords toolName). w \<in> set CREATE_VERBS)"

definition sql_insert_rx :: rx where
  "sql_insert_rx = Seq (kw ''insert'' @ [spaces1] @ kw ''into'' @ [WordEdge])"

definition isLikelyCreateToolCall :: "jstr \<Rightarrow> jstr option \<Rightarrow> bool" where
  "isLikelyCreateToolCall tool argsPreview \<longleftrightarrow>
     hasCreateVerb tool \<or> (truthy argsPreview \<and> rtest sql_insert_rx (nullish argsPreview []))"

section \<open>insert-accumulator.ts\<close>

record table_entry =
  te_insertPrefix :: jstr
  te_tuples :: "jstr list"

type_synonym accumulator = "jstr \<rightharpoonup> table_entry"

datatype shortfall_outcome = MergedQuery jstr | ShortfallMessage jstr

definition tableKeyFor :: "jstr \<Rightarrow> jstr option" where
  "tableKeyFor query = map_option tableSignature (parseInsertValues query)"

definition shortfall_text :: "nat \<Rightarrow> int \<Rightarrow> jstr" where
  "shortfall_text have_rows required =
     (uni ''{0110}{00E3} ghi nh{1EAD}n '') @ nat_str have_rows @ (js ''/'') @ int_str required @
     (uni '' d{00F2}ng y{00EA}u c{1EA7}u (c{1ED9}ng d{1ED3}n qua c{00E1}c l{1EA7}n g{1ECD}i tr{01B0}{1EDB}c n{1EBF}u c{00F3}). Vi{1EBF}t ti{1EBF}p c{00E1}c d{00F2}ng C{00D2}N THI{1EBE}U (kh{00F4}ng l{1EB7}p l{1EA1}i d{00F2}ng {0111}{00E3} g{1EED}i) trong 1 c{00E2}u ghi duy nh{1EA5}t, r{1ED3}i g{1ECD}i l{1EA1}i.'')"

definition checkShortfall ::
    "jstr \<Rightarrow> int \<Rightarrow> accumulator \<Rightarrow> shortfall_outcome option \<times> accumulator" where
  "checkShortfall query requiredCount tables =
    (case parseInsertValues query of
       None \<Rightarrow> (None, tables)
     | Some parsed \<Rightarrow>
         (let sig = tableSignature parsed;
              entry = nullish (tables sig) \<lparr>te_insertPrefix = insertPrefix parsed, te_tuples = []\<rparr>;
              entry = entry\<lparr>te_tuples := set_add_all (tuples parsed) (te_tuples entry)\<rparr>;
              rows = te_tuples entry
          in (Some (if int (length rows) \<ge> requiredCount
                    then MergedQuery (te_insertPrefix entry @ [32] @ join (js '', '') rows)
                    else ShortfallMessage (shortfall_text (length rows) requiredCount)),
              tables(sig \<mapsto> entry))))"

definition clear_table :: "jstr \<Rightarrow> accumulator \<Rightarrow> accumulator" where
  "clear_table query tables =
    (case parseInsertValues query of
       None \<Rightarrow> tables
     | Some parsed \<Rightarrow> if tableSignature parsed = [] then tables else tables(tableSignature parsed := None))"

section \<open>tool-risk-gate.ts\<close>

text \<open>\<open>AGENT_REGISTRY[provider]?.perWorkspaceInstance\<close>\<close>

definition perWorkspaceInstance :: "jstr \<Rightarrow> bool" where
  "perWorkspaceInstance p \<longleftrightarrow> p = (js ''sql_server_edge'')"

definition isDestructive :: "mcp_tool list \<Rightarrow> jstr \<Rightarrow> bool" where
  "isDestructive mcpTools name =
    (case find (\<lambda>t. mt_name t = name) mcpTools of
       None \<Rightarrow> False
     | Some t \<Rightarrow> destructiveHint t = Some True)"

text \<open>\<open>typeof args.query === 'string' ? args.query : undefined\<close>, kept when not empty\<close>

definition query_of :: "args \<Rightarrow> jstr option" where
  "query_of a = (case get_prop a (js ''query'') of Some (JStr q) \<Rightarrow> if q = [] then None else Some q | _ \<Rightarrow> None)"

definition isAutoApprovableInsert :: "jstr \<Rightarrow> jstr \<Rightarrow> args \<Rightarrow> bool" where
  "isAutoApprovableInsert prov name a =
    (if prov \<noteq> (js ''sql_server'') \<or> name \<noteq> (js ''execute_write_query'') \<or> perWorkspaceInstance prov then False
     else (case query_of a of
             None \<Rightarrow> False
           | Some q \<Rightarrow> (case extractWriteQueryPreviewTarget q of
                          Some (InsertRows _ _) \<Rightarrow> True | _ \<Rightarrow> False)))"

text \<open>
  \<open>checkBulkInsertShortfall\<close> up to the point where it needs the required count: whether
  it asks for it at all; and the rest, with the count in hand. The rest may overwrite
  \<open>args.query\<close>.
\<close>

definition needs_required_count :: "jstr \<Rightarrow> jstr \<Rightarrow> args \<Rightarrow> jstr option" where
  "needs_required_count displayName argsPreview a =
    (case query_of a of
       None \<Rightarrow> None
     | Some q \<Rightarrow> if isLikelyCreateToolCall displayName (Some argsPreview) then Some q else None)"

definition checkBulkInsertShortfall ::
    "jstr \<Rightarrow> int \<Rightarrow> args \<Rightarrow> accumulator \<Rightarrow> jstr option \<times> args \<times> accumulator" where
  "checkBulkInsertShortfall q requiredCount a tables =
    (if requiredCount \<le> 0 then (None, a, tables)
     else case checkShortfall q requiredCount tables of
       (None, tables') \<Rightarrow> (None, a, tables')
     | (Some (MergedQuery m), tables') \<Rightarrow> (None, set_prop (js ''query'') (JStr m) a, tables')
     | (Some (ShortfallMessage msg), tables') \<Rightarrow> (Some msg, a, tables'))"

section \<open>Rows are never lost\<close>

definition rows_of :: "accumulator \<Rightarrow> jstr \<Rightarrow> jstr list" where
  "rows_of tables sig = (case tables sig of None \<Rightarrow> [] | Some e \<Rightarrow> te_tuples e)"

definition accumulator_wf :: "accumulator \<Rightarrow> bool" where
  "accumulator_wf tables \<longleftrightarrow>
     (\<forall>sig e. tables sig = Some e \<longrightarrow> distinct (te_tuples e) \<and> (\<forall>t \<in> set (te_tuples e). self_delimiting t))"

lemma accumulator_wf_empty [simp]: "accumulator_wf Map.empty"
  by (simp add: accumulator_wf_def)

lemma accumulator_wf_clear: "accumulator_wf tables \<Longrightarrow> accumulator_wf (clear_table q tables)"
  by (auto simp: accumulator_wf_def clear_table_def split: option.splits)

lemma rows_of_wf:
  "accumulator_wf tables \<Longrightarrow> distinct (rows_of tables sig) \<and> (\<forall>t \<in> set (rows_of tables sig). self_delimiting t)"
  by (auto simp: accumulator_wf_def rows_of_def split: option.splits)

text \<open>The step every check makes, written on the rows of a table.\<close>

lemma checkShortfall_parsed:
  assumes "parseInsertValues q = Some p" and "checkShortfall q n tables = (r, tables')"
  shows "rows_of tables' (tableSignature p) = set_add_all (tuples p) (rows_of tables (tableSignature p))"
    and "sig \<noteq> tableSignature p \<Longrightarrow> tables' sig = tables sig"
    and "int (length (rows_of tables' (tableSignature p))) < n \<Longrightarrow>
          r = Some (ShortfallMessage (shortfall_text (length (rows_of tables' (tableSignature p))) n))"
    and "n \<le> int (length (rows_of tables' (tableSignature p))) \<Longrightarrow>
          \<exists>pre. r = Some (MergedQuery (pre @ [32] @ join (js '', '') (rows_of tables' (tableSignature p))))"
  using assms
  by (auto simp: checkShortfall_def rows_of_def Let_def nullish_def split: option.splits)

lemma checkShortfall_unparsed:
  "parseInsertValues q = None \<Longrightarrow> checkShortfall q n tables = (None, tables)"
  by (simp add: checkShortfall_def)

lemma checkShortfall_wf:
  assumes "accumulator_wf tables" and "checkShortfall q n tables = (r, tables')"
  shows "accumulator_wf tables'"
proof (cases "parseInsertValues q")
  case None
  with assms show ?thesis by (simp add: checkShortfall_unparsed)
next
  case (Some p)
  let ?rows = "set_add_all (tuples p) (rows_of tables (tableSignature p))"
  have rows: "distinct ?rows" "\<forall>t \<in> set ?rows. self_delimiting t"
    using rows_of_wf [OF assms(1)] parseInsertValues_rows(2) [OF Some] by auto
  show ?thesis
    unfolding accumulator_wf_def
  proof (intro allI impI)
    fix sig e
    assume e: "tables' sig = Some e"
    show "distinct (te_tuples e) \<and> (\<forall>t \<in> set (te_tuples e). self_delimiting t)"
    proof (cases "sig = tableSignature p")
      case True
      with e checkShortfall_parsed(1) [OF Some assms(2)] have "te_tuples e = ?rows"
        by (simp add: rows_of_def)
      with rows show ?thesis by simp
    next
      case False
      with e checkShortfall_parsed(2) [OF Some assms(2)] have "tables sig = Some e" by simp
      with assms(1) show ?thesis by (simp add: accumulator_wf_def)
    qed
  qed
qed

text \<open>A sequence of checks, with the counts they were asked for.\<close>

fun check_all :: "(jstr \<times> int) list \<Rightarrow> accumulator \<Rightarrow> accumulator" where
  "check_all [] tables = tables"
| "check_all ((q, n) # qs) tables = check_all qs (snd (checkShortfall q n tables))"

definition rows_sent :: "jstr \<Rightarrow> jstr \<Rightarrow> jstr set" where
  "rows_sent sig q =
    (case parseInsertValues q of
       Some p \<Rightarrow> if tableSignature p = sig then set (tuples p) else {} | None \<Rightarrow> {})"

lemma checkShortfall_rows:
  "set (rows_of (snd (checkShortfall q n tables)) sig) = set (rows_of tables sig) \<union> rows_sent sig q"
proof (cases "parseInsertValues q")
  case None
  then show ?thesis by (simp add: checkShortfall_unparsed rows_sent_def)
next
  case (Some p)
  obtain r tables' where res: "checkShortfall q n tables = (r, tables')" by fastforce
  show ?thesis
    using checkShortfall_parsed(1,2) [OF Some res] Some res
    by (cases "tableSignature p = sig") (auto simp: rows_sent_def rows_of_def)
qed

lemma check_all_rows:
  "set (rows_of (check_all qs tables) sig) = set (rows_of tables sig) \<union> (\<Union>(q, n) \<in> set qs. rows_sent sig q)"
  by (induction qs tables rule: check_all.induct) (auto simp: checkShortfall_rows)

lemma check_all_wf: "accumulator_wf tables \<Longrightarrow> accumulator_wf (check_all qs tables)"
proof (induction qs tables rule: check_all.induct)
  case (2 q n qs tables)
  then show ?case using checkShortfall_wf [of tables q n] by (cases "checkShortfall q n tables") auto
qed simp

section \<open>Decisions of the gate\<close>

lemma auto_approved_query:
  assumes "isAutoApprovableInsert prov name a"
  obtains q t n where "prov = (js ''sql_server'')" "name = (js ''execute_write_query'')"
    "get_prop a (js ''query'') = Some (JStr q)" "extractWriteQueryPreviewTarget q = Some (InsertRows t n)"
  using assms
  by (auto simp: isAutoApprovableInsert_def query_of_def
      split: if_splits option.splits json.splits write_query_target.splits)

end
