(* ===== verification/Json_Parse.thy ===== *)
theory Json_Parse
  imports Json
begin

text \<open>
  \<open>JSON.parse\<close>, as far as the program looks at its result. The recursion carries a
  fuel that is larger than the length of the text; \<open>fuel_enough\<close> shows that more fuel
  never changes the result.
\<close>

definition is_json_ws :: "int \<Rightarrow> bool" where
  "is_json_ws c \<longleftrightarrow> c = 32 \<or> c = 9 \<or> c = 10 \<or> c = 13"

definition skip_ws :: "jstr \<Rightarrow> jstr" where
  "skip_ws s = dropWhile is_json_ws s"

definition hex_of :: "int \<Rightarrow> int option" where
  "hex_of c =
    (if is_digit c then Some (c - 48)
     else if 97 \<le> c \<and> c \<le> 102 then Some (c - 87)
     else if 65 \<le> c \<and> c \<le> 70 then Some (c - 55) else None)"

definition unescape :: "int \<Rightarrow> int option" where
  "unescape c =
    (if c = 34 \<or> c = 92 \<or> c = 47 then Some c
     else if c = 98 then Some 8 else if c = 102 then Some 12 else if c = 110 then Some 10
     else if c = 114 then Some 13 else if c = 116 then Some 9 else None)"

text \<open>The text of a string literal after its opening quote.\<close>

fun pstring :: "jstr \<Rightarrow> (jstr \<times> jstr) option" where
  "pstring [] = None"
| "pstring (c # cs) =
     (if c = 34 then Some ([], cs)
      else if c = 92 then
        (case cs of
           [] \<Rightarrow> None
         | e # ds \<Rightarrow>
             if e = 117 then
               (case ds of
                  h1 # h2 # h3 # h4 # rest \<Rightarrow>
                    (case (hex_of h1, hex_of h2, hex_of h3, hex_of h4) of
                       (Some a, Some b, Some c', Some d) \<Rightarrow>
                         map_option (apfst ((#) (((a * 16 + b) * 16 + c') * 16 + d))) (pstring rest)
                     | _ \<Rightarrow> None)
                | _ \<Rightarrow> None)
             else (case unescape e of None \<Rightarrow> None
                   | Some x \<Rightarrow> map_option (apfst ((#) x)) (pstring ds)))
      else if c < 32 then None
      else map_option (apfst ((#) c)) (pstring cs))"

definition is_num_char :: "int \<Rightarrow> bool" where
  "is_num_char c \<longleftrightarrow> is_digit c \<or> c = 43 \<or> c = 45 \<or> c = 46 \<or> c = 101 \<or> c = 69"

definition digits1 :: "jstr \<Rightarrow> jstr option" where
  "digits1 s = (case s of c # cs \<Rightarrow> if is_digit c then Some (dropWhile is_digit cs) else None | [] \<Rightarrow> None)"

definition valid_exponent :: "jstr \<Rightarrow> bool" where
  "valid_exponent s =
    (case s of
       [] \<Rightarrow> True
     | c # cs \<Rightarrow> (c = 101 \<or> c = 69) \<and>
         digits1 (case cs of d # ds \<Rightarrow> if d = 43 \<or> d = 45 then ds else cs | [] \<Rightarrow> []) = Some [])"

definition valid_fraction :: "jstr \<Rightarrow> bool" where
  "valid_fraction s =
    (case s of
       c # cs \<Rightarrow> if c = 46 then (case digits1 cs of None \<Rightarrow> False | Some r \<Rightarrow> valid_exponent r)
                 else valid_exponent s
     | [] \<Rightarrow> True)"

definition valid_number :: "jstr \<Rightarrow> bool" where
  "valid_number s =
    (let t = (case s of c # cs \<Rightarrow> if c = 45 then cs else s | [] \<Rightarrow> []) in
     case t of
       [] \<Rightarrow> False
     | c # cs \<Rightarrow> if c = 48 then valid_fraction cs
                 else is_digit c \<and> valid_fraction (dropWhile is_digit cs))"

definition pnumber :: "jstr \<Rightarrow> (json \<times> jstr) option" where
  "pnumber s =
    (let n = takeWhile is_num_char s
     in if valid_number n then Some (JNum n, dropWhile is_num_char s) else None)"

definition pword :: "jstr \<Rightarrow> json \<Rightarrow> jstr \<Rightarrow> (json \<times> jstr) option" where
  "pword w v s = (if starts_with w s then Some (v, drop (length w) s) else None)"

text \<open>
  \<open>pvalue\<close> at a value, \<open>pelems\<close> after a complete element of an array, \<open>pmembers\<close> at
  the key of a member. Each takes a text without leading white space.
\<close>

fun pvalue :: "nat \<Rightarrow> jstr \<Rightarrow> (json \<times> jstr) option"
  and pelems :: "nat \<Rightarrow> json list \<Rightarrow> jstr \<Rightarrow> (json \<times> jstr) option"
  and pmembers :: "nat \<Rightarrow> args \<Rightarrow> jstr \<Rightarrow> (json \<times> jstr) option" where
  "pvalue 0 s = None"
| "pvalue (Suc n) s =
     (case s of
        [] \<Rightarrow> None
      | c # cs \<Rightarrow>
          if c = 34 then map_option (apfst JStr) (pstring cs)
          else if c = 91 then
            (let t = skip_ws cs in
             if starts_with [93] t then Some (JArr [], drop 1 t) else pelems n [] t)
          else if c = 123 then
            (let t = skip_ws cs in
             if starts_with [125] t then Some (JObj [], drop 1 t) else pmembers n [] t)
          else if c = 116 then pword (js ''true'') (JBool True) s
          else if c = 102 then pword (js ''false'') (JBool False) s
          else if c = 110 then pword (js ''null'') JNull s
          else pnumber s)"
| "pelems 0 xs s = None"
| "pelems (Suc n) xs s =
     (case pvalue n s of
        None \<Rightarrow> None
      | Some (v, r) \<Rightarrow>
          (case skip_ws r of
             c # cs \<Rightarrow> if c = 44 then pelems n (xs @ [v]) (skip_ws cs)
                       else if c = 93 then Some (JArr (xs @ [v]), cs) else None
           | [] \<Rightarrow> None))"
| "pmembers 0 kvs s = None"
| "pmembers (Suc n) kvs s =
     (case s of
        [] \<Rightarrow> None
      | q # s' \<Rightarrow> if q \<noteq> 34 then None else
         (case pstring s' of
            None \<Rightarrow> None
          | Some (k, r) \<Rightarrow>
              (case skip_ws r of
                 [] \<Rightarrow> None
               | c # cs \<Rightarrow> if c \<noteq> 58 then None else
                   (case pvalue n (skip_ws cs) of
                      None \<Rightarrow> None
                    | Some (v, r') \<Rightarrow>
                        (case skip_ws r' of
                           d # ds \<Rightarrow> if d = 44 then pmembers n (set_prop k v kvs) (skip_ws ds)
                                     else if d = 125 then Some (JObj (set_prop k v kvs), ds) else None
                         | [] \<Rightarrow> None)))))"

definition json_parse :: "jstr \<Rightarrow> json option" where
  "json_parse s =
    (case pvalue (2 * length s + 2) (skip_ws s) of
       None \<Rightarrow> None
     | Some (v, rest) \<Rightarrow> if skip_ws rest = [] then Some v else None)"

section \<open>Fuel\<close>

lemma skip_ws_length: "length (skip_ws s) \<le> length s"
  by (simp add: skip_ws_def length_dropWhile_le)

lemma pstring_length: "pstring s = Some (t, r) \<Longrightarrow> length r < length s"
  by (induction s arbitrary: t r rule: pstring.induct)
    (fastforce split: if_splits list.splits option.splits)+

lemma valid_number_nonempty: "valid_number s \<Longrightarrow> s \<noteq> []"
  by (auto simp: valid_number_def)

lemma pnumber_length: "pnumber s = Some (v, r) \<Longrightarrow> length r < length s"
proof -
  assume *: "pnumber s = Some (v, r)"
  then have ne: "takeWhile is_num_char s \<noteq> []" and r: "r = dropWhile is_num_char s"
    by (auto simp: pnumber_def Let_def dest: valid_number_nonempty split: if_splits)
  have "length s = length (takeWhile is_num_char s) + length r"
    by (simp add: r flip: length_append)
  with ne show ?thesis by simp
qed

lemma starts_with_length: "starts_with p s \<Longrightarrow> length p \<le> length s"
  by (simp add: starts_with_prefix prefix_length_le)

lemma pword_length: "pword w x s = Some (v, r) \<Longrightarrow> w \<noteq> [] \<Longrightarrow> length r < length s"
  using starts_with_length [of w s] by (cases w) (auto simp: pword_def split: if_splits)

lemma skip_ws_Cons: "skip_ws s = c # cs \<Longrightarrow> length cs < length s"
  using skip_ws_length [of s] by simp

lemma pvalue_cases:
  assumes "pvalue (Suc n) (c # cs) = Some (v, r)"
  obtains (string) "map_option (apfst JStr) (pstring cs) = Some (v, r)"
  | (nothing) "r = drop 1 (skip_ws cs)"
  | (elems) "pelems n [] (skip_ws cs) = Some (v, r)"
  | (members) "pmembers n [] (skip_ws cs) = Some (v, r)"
  | (keyword) w x where "w = js ''true'' \<or> w = js ''false'' \<or> w = js ''null''" "pword w x (c # cs) = Some (v, r)"
  | (number) "pnumber (c # cs) = Some (v, r)"
  using assms
  by (simp only: pvalue.simps list.case Let_def split: if_split_asm; simp only: option.inject prod.inject; blast)

lemma keywords_nonempty: "w = js ''true'' \<or> w = js ''false'' \<or> w = js ''null'' \<Longrightarrow> w \<noteq> []"
  by (auto simp: js_def)

text \<open>What a parser leaves is shorter than what it was given.\<close>

lemma parse_length:
  "pvalue n s = Some (v, r) \<Longrightarrow> length r < length s"
  "pelems n xs s = Some (v, r) \<Longrightarrow> length r < length s"
  "pmembers n kvs s = Some (v, r) \<Longrightarrow> length r < length s"
proof (induction n arbitrary: s v r xs kvs)
  case 0
  { case 1 then show ?case by simp next case 2 then show ?case by simp next case 3 then show ?case by simp }
next
  case (Suc n)
  have es: "pelems n xs (skip_ws u) = Some (v, r) \<Longrightarrow> length r < length u" for xs u v r
    using Suc.IH(2) skip_ws_length less_le_trans by blast
  have ms: "pmembers n kvs (skip_ws u) = Some (v, r) \<Longrightarrow> length r < length u" for kvs u v r
    using Suc.IH(3) skip_ws_length less_le_trans by blast
  have vs: "pvalue n (skip_ws u) = Some (v, r) \<Longrightarrow> length r < length u" for u v r
    using Suc.IH(1) skip_ws_length less_le_trans by blast
  { case 1
    then obtain c cs where s: "s = c # cs" by (cases s) auto
    have len: "length (skip_ws cs) \<le> length cs" by (rule skip_ws_length)
    from 1 [unfolded s] show ?case
    proof (cases rule: pvalue_cases)
      case (keyword w x)
      then show ?thesis using pword_length keywords_nonempty s by blast
    next
      case number
      then show ?thesis using pnumber_length s by blast
    qed (use len s in \<open>auto dest!: pstring_length Suc.IH(2,3)\<close>) }
  { case 2
    then obtain x t where p: "pvalue n s = Some (x, t)" by (auto split: option.splits)
    note Suc.IH(1) [OF p]
    with 2 p show ?case
      by (auto split: list.splits if_splits dest!: skip_ws_Cons es) }
  { case 3
    then show ?case
      by (auto split: option.splits list.splits if_splits dest!: skip_ws_Cons pstring_length vs ms) }
qed

text \<open>A fuel of twice the length and two is enough: more never changes the result.\<close>

lemma fuel_step:
  "2 * length s + 1 \<le> n \<Longrightarrow> pvalue (Suc n) s = pvalue n s"
  "2 * length s + 2 \<le> n \<Longrightarrow> pelems (Suc n) xs s = pelems n xs s"
  "2 * length s + 2 \<le> n \<Longrightarrow> pmembers (Suc n) kvs s = pmembers n kvs s"
proof (induction n arbitrary: s xs kvs)
  case 0
  { case 1 then show ?case by simp next case 2 then show ?case by simp next case 3 then show ?case by simp }
next
  case (Suc n)
  { case 1
    have "pelems (Suc n) [] (skip_ws cs) = pelems n [] (skip_ws cs)
        \<and> pmembers (Suc n) [] (skip_ws cs) = pmembers n [] (skip_ws cs)" if "s = c # cs" for c cs
      using 1 that skip_ws_length [of cs] by (intro conjI Suc.IH) auto
    then show ?case by (subst (1 2) pvalue.simps, simp only: split: list.split)
        (auto simp: Let_def simp del: pvalue.simps pelems.simps pmembers.simps)
  next
    case 2
    have v: "pvalue (Suc n) s = pvalue n s" using 2 by (intro Suc.IH) simp
    have "pelems (Suc n) ys (skip_ws cs) = pelems n ys (skip_ws cs)"
      if "pvalue n s = Some (x, r)" "skip_ws r = c # cs" for x r c cs ys
      using 2 parse_length(1) [OF that(1)] skip_ws_Cons [OF that(2)] skip_ws_length [of cs]
      by (intro Suc.IH) auto
    then show ?case by (subst (1 2) pelems.simps, simp only: v split: option.split list.split prod.split)
        (auto simp del: pelems.simps pvalue.simps)
  next
    case 3
    have v: "pvalue (Suc n) (skip_ws cs) = pvalue n (skip_ws cs)"
      if "s = q # s'" "pstring s' = Some (k, r)" "skip_ws r = c # cs" for q s' k r c cs
      using 3 that pstring_length [OF that(2)] skip_ws_Cons [OF that(3)] skip_ws_length [of cs]
      by (intro Suc.IH) auto
    have m: "pmembers (Suc n) ms (skip_ws ds) = pmembers n ms (skip_ws ds)"
      if "s = q # s'" "pstring s' = Some (k, r)" "skip_ws r = c # cs"
        "pvalue n (skip_ws cs) = Some (x, t)" "skip_ws t = d # ds" for q s' k r c cs x t d ds ms
      using 3 that pstring_length [OF that(2)] skip_ws_Cons [OF that(3)] skip_ws_length [of cs]
        parse_length(1) [OF that(4)] skip_ws_Cons [OF that(5)] skip_ws_length [of ds]
      by (intro Suc.IH) auto
    show ?case
      by (subst (1 2) pmembers.simps, simp only: split: option.split list.split prod.split)
        (auto simp: v m simp del: pmembers.simps pvalue.simps) }
qed

lemma fuel_enough: "2 * length s + 1 \<le> n \<Longrightarrow> pvalue (n + k) s = pvalue n s"
  by (induction k) (simp_all del: pvalue.simps add: fuel_step(1))

end
