(* ===== verification/Result_Cap.thy ===== *)
theory Result_Cap
  imports Risk_Gate Json_Parse
begin

text \<open>
  How much of a tool result or of the results of earlier rounds reaches a model:
  \<open>executor/tool-result-size-cap.util.ts\<close>, \<open>executor/read-only-round-heuristic.util.ts\<close>,
  the model registry of \<open>libs/constants\<close> and \<open>buildBudget\<close> of
  \<open>memory/memory-manager.service.ts\<close>. The parser library that compresses a payload
  is a parameter. The factors 0.6, 0.4, 0.3, 0.1 are written as fractions: on the integers
  below \<open>2 ^ 30\<close> that occur the floor of the floating point product is the same number.
\<close>

section \<open>Reading rounds\<close>

text \<open>
  Letters and digits (\<open>\\p{L}\<close>, \<open>\\p{N}\<close>) of the blocks English and Vietnamese text uses,
  as for \<open>to_lower\<close>, and every code unit from U+3040 to U+D7A3 for the scripts of East Asia.
\<close>

definition is_letter_number :: "int \<Rightarrow> bool" where
  "is_letter_number c \<longleftrightarrow> is_upper c \<or> is_lower c \<or> is_digit c
     \<or> c \<in> {170, 178, 179, 181, 185, 186, 188, 189, 190}
     \<or> 192 \<le> c \<and> c \<le> 591 \<and> c \<noteq> 215 \<and> c \<noteq> 247
     \<or> 7680 \<le> c \<and> c \<le> 7935 \<or> 12352 \<le> c \<and> c \<le> 55203"

definition splitWords :: "jstr \<Rightarrow> jstr list" where
  "splitWords t = words (map (\<lambda>c. if is_letter_number c then c else 32) (to_lower t))"

definition READ_ONLY_VERBS :: "jstr list" where
  "READ_ONLY_VERBS =
     [(js ''xem''), (js ''tra''), (uni ''ki{1EC3}m''), (uni ''l{1EA5}y''), (uni ''t{00EC}m''), (uni ''li{1EC7}t''), (uni ''k{00EA}''), (js ''get''), (js ''list''), (js ''show''), (js ''query''),
      (js ''search''), (js ''fetch''), (js ''describe''), (js ''select'')]"

definition isLikelyReadOnlyRound :: "jstr \<Rightarrow> bool" where
  "isLikelyReadOnlyRound task \<longleftrightarrow> list_ex (\<lambda>w. w \<in> set READ_ONLY_VERBS) (splitWords task)"

section \<open>One result\<close>

definition MAX_TOOL_RESULT_CHARS :: int where "MAX_TOOL_RESULT_CHARS = 6000"
definition TRUNCATION_MARKER_OVERHEAD_RESERVE :: int where "TRUNCATION_MARKER_OVERHEAD_RESERVE = 40"

text \<open>\<open>agentic-io-parser\<close>: a raw string is a \<open>JStr\<close>.\<close>

record parser_lib =
  lib_minify :: "json \<Rightarrow> json"
  lib_clean :: "json \<Rightarrow> json"
  lib_compress :: "json \<Rightarrow> json \<times> args"             \<comment> \<open>the payload and its dictionary\<close>
  lib_cap :: "int \<Rightarrow> int \<Rightarrow> int \<Rightarrow> json \<Rightarrow> json"   \<comment> \<open>maxLength, headLength, tailLength\<close>

definition is_object :: "json \<Rightarrow> bool" where
  "is_object j = (case j of JArr _ \<Rightarrow> True | JObj _ \<Rightarrow> True | _ \<Rightarrow> False)"

definition payload_text :: "json \<Rightarrow> jstr" where
  "payload_text j = (case j of JStr s \<Rightarrow> s | _ \<Rightarrow> stringify j)"

definition substring_from :: "int \<Rightarrow> 'a list \<Rightarrow> 'a list" where
  "substring_from i s = drop (nat (max 0 i)) s"

definition truncation_marker :: "int \<Rightarrow> jstr" where
  "truncation_marker n = (uni ''{000A}...[truncated '') @ int_str n @ (uni '' chars]...{000A}'')"

text \<open>The whole of the library's work, with the dictionary appended.\<close>

definition compact :: "parser_lib \<Rightarrow> int \<Rightarrow> int \<Rightarrow> int \<Rightarrow> jstr \<Rightarrow> jstr" where
  "compact lib maxChars headLength tailLength t =
    (let payload = lib_clean lib (lib_minify lib (case json_parse t of None \<Rightarrow> JStr t | Some j \<Rightarrow> j));
         (payload, dictionaryStr) =
           (if is_object payload \<and> int (length (stringify payload)) > maxChars
            then (let (c, d) = lib_compress lib payload
                  in (c, if length d > 0 then (uni ''{000A}[MAPPING_KEYS: '') @ stringify (JObj d) @ (js '']'') else []))
            else (payload, []))
     in payload_text (lib_cap lib maxChars headLength tailLength payload) @ dictionaryStr)"

definition capToolResultSize :: "parser_lib \<Rightarrow> jstr \<Rightarrow> int \<Rightarrow> jstr" where
  "capToolResultSize lib t maxChars =
    (if maxChars \<le> TRUNCATION_MARKER_OVERHEAD_RESERVE
     then if int (length t) > maxChars then take (nat (max 0 maxChars)) t else t
     else
       (let effectiveMaxChars = maxChars - TRUNCATION_MARKER_OVERHEAD_RESERVE;
            headLength = effectiveMaxChars * 3 div 5;
            tailLength = effectiveMaxChars * 2 div 5;
            resultStr = compact lib maxChars headLength tailLength t
        in if int (length resultStr) > maxChars
           then take (nat headLength) resultStr
                @ truncation_marker (int (length resultStr) - maxChars)
                @ substring_from (int (length resultStr) - tailLength) resultStr
           else resultStr))"

section \<open>Budgets\<close>

definition CHARS_PER_TOKEN_ESTIMATE :: int where "CHARS_PER_TOKEN_ESTIMATE = 4"
definition MAX_DATA_CHARS_CEILING :: int where "MAX_DATA_CHARS_CEILING = 200000"

definition LLM_MODEL_REGISTRY :: "(jstr \<times> int) list" where   \<comment> \<open>\<open>contextWindowTokens\<close>\<close>
  "LLM_MODEL_REGISTRY =
     [((js ''gemini-2.0-flash''), 1048576), ((js ''gemini-2.5-flash''), 1048576), ((js ''gemini-2.5-pro''), 1048576),
      ((js ''gemini-3.5-flash''), 1048576), ((js ''gpt-4o-mini''), 128000), ((js ''gpt-4.1-nano''), 1047576),
      ((js ''gpt-4o''), 128000), ((js ''claude-haiku''), 200000), ((js ''claude-sonnet''), 200000)]"

definition resolveDataCharBudget :: "jstr \<Rightarrow> int" where
  "resolveDataCharBudget modelId =
    (case map_of LLM_MODEL_REGISTRY modelId of
       None \<Rightarrow> MAX_TOOL_RESULT_CHARS
     | Some contextWindowTokens \<Rightarrow>
         min (contextWindowTokens * CHARS_PER_TOKEN_ESTIMATE * 3 div 10) MAX_DATA_CHARS_CEILING)"

definition resolveMemoryCharBudget :: "jstr \<Rightarrow> int" where
  "resolveMemoryCharBudget modelId = resolveDataCharBudget modelId div 10"

definition resolveHistoryCharBudget :: "jstr \<Rightarrow> int" where
  "resolveHistoryCharBudget modelId = resolveDataCharBudget modelId div 2"

record context_budget =
  toolResultCharBudget :: int
  memoryCharBudget :: int
  historyCharBudget :: int

definition buildBudget :: "jstr \<Rightarrow> context_budget" where
  "buildBudget modelId =
     \<lparr>toolResultCharBudget = resolveDataCharBudget modelId,
      memoryCharBudget = resolveMemoryCharBudget modelId,
      historyCharBudget = resolveHistoryCharBudget modelId\<rparr>"

section \<open>Several rounds\<close>

definition capRoundResults :: "parser_lib \<Rightarrow> round list \<Rightarrow> int \<Rightarrow> round list" where
  "capRoundResults lib rounds totalBudget =
    (if length rounds = 0 then []
     else map (\<lambda>r. r\<lparr>rd_result := capToolResultSize lib (rd_result r) (totalBudget div int (length rounds))\<rparr>) rounds)"

definition IRREPLACEABLE_WEIGHT :: int where "IRREPLACEABLE_WEIGHT = 2"

definition weight :: "round \<Rightarrow> int" where
  "weight r = (if isLikelyReadOnlyRound (rd_task r) then 1 else IRREPLACEABLE_WEIGHT)"

definition capRoundResultsWeighted :: "parser_lib \<Rightarrow> round list \<Rightarrow> int \<Rightarrow> round list" where
  "capRoundResultsWeighted lib rounds totalBudget =
    (if length rounds = 0 then []
     else (let totalWeight = sum_list (map weight rounds)
           in map (\<lambda>r. r\<lparr>rd_result := capToolResultSize lib (rd_result r) (totalBudget * weight r div totalWeight)\<rparr>) rounds))"

section \<open>Bounds\<close>

lemma truncation_marker_length:
  assumes "0 \<le> n" "n < 10 ^ 14"
  shows "length (truncation_marker n) \<le> 40"
proof -
  have "nat n < 10 ^ 14" using assms by (simp add: nat_less_iff)
  then have "length (nat_str (nat n)) \<le> 14" by (intro nat_str_length) auto
  moreover have "length (uni ''{000A}...[truncated '') = 15" "length (uni '' chars]...{000A}'') = 11"
    by code_simp+
  ultimately show ?thesis using assms(1) by (simp add: truncation_marker_def int_str_def)
qed

lemma cap_above_reserve:
  assumes "40 < m"
  obtains h l where "0 \<le> h" "0 \<le> l" "h + l \<le> m - 40"
    "capToolResultSize lib t m =
       (let s = compact lib m h l t
        in if int (length s) > m
           then take (nat h) s @ truncation_marker (int (length s) - m) @ substring_from (int (length s) - l) s
           else s)"
proof
  show "0 \<le> (m - 40) * 3 div 5" "0 \<le> (m - 40) * 2 div 5" "(m - 40) * 3 div 5 + (m - 40) * 2 div 5 \<le> m - 40"
    using assms by auto
  show "capToolResultSize lib t m =
       (let s = compact lib m ((m - 40) * 3 div 5) ((m - 40) * 2 div 5) t
        in if int (length s) > m
           then take (nat ((m - 40) * 3 div 5)) s @ truncation_marker (int (length s) - m)
                @ substring_from (int (length s) - (m - 40) * 2 div 5) s
           else s)"
    unfolding capToolResultSize_def Let_def TRUNCATION_MARKER_OVERHEAD_RESERVE_def
    using assms by simp
qed

lemma capped_length:
  assumes "\<And>h l. int (length (compact lib m h l t)) < 10 ^ 14"
  shows "int (length (capToolResultSize lib t m)) \<le> max 0 m"
proof (cases "m \<le> 40")
  case True
  then show ?thesis by (auto simp: capToolResultSize_def TRUNCATION_MARKER_OVERHEAD_RESERVE_def)
next
  case False
  then obtain h l where hl: "0 \<le> h" "0 \<le> l" "h + l \<le> m - 40" and
    eq: "capToolResultSize lib t m =
       (let s = compact lib m h l t
        in if int (length s) > m
           then take (nat h) s @ truncation_marker (int (length s) - m) @ substring_from (int (length s) - l) s
           else s)"
    using cap_above_reserve by (metis not_le)
  define s where "s = compact lib m h l t"
  show ?thesis
  proof (cases "int (length s) > m")
    case True
    have "length (truncation_marker (int (length s) - m)) \<le> 40"
      using True False assms [of h l] by (intro truncation_marker_length) (auto simp: s_def)
    then show ?thesis
      using hl True False by (simp add: eq substring_from_def nat_diff_distrib flip: s_def)
  qed (use False in \<open>simp add: eq flip: s_def\<close>)
qed

text \<open>Above the reserve a text that lost something says so.\<close>

lemma truncation_marker_includes: "str_includes (js ''...[truncated '') (x @ truncation_marker n @ y)"
proof -
  have "(uni ''{000A}...[truncated '') = 10 # (js ''...[truncated '')" by code_simp
  then have "x @ truncation_marker n @ y = (x @ [10]) @ (js ''...[truncated '') @ (int_str n @ (uni '' chars]...{000A}'') @ y)"
    by (simp add: truncation_marker_def)
  then show ?thesis unfolding includes_sublist sublist_def by blast
qed

lemma cap_is_announced:
  assumes "40 < m"
  shows "(\<exists>h l. capToolResultSize lib t m = compact lib m h l t)
    \<or> str_includes (js ''...[truncated '') (capToolResultSize lib t m)"
proof -
  from cap_above_reserve [OF assms] obtain h l where
    eq: "capToolResultSize lib t m =
       (let s = compact lib m h l t
        in if int (length s) > m
           then take (nat h) s @ truncation_marker (int (length s) - m) @ substring_from (int (length s) - l) s
           else s)" by metis
  show ?thesis unfolding eq Let_def using truncation_marker_includes by auto
qed

lemma weight_range: "1 \<le> weight r" "weight r \<le> 2"
  by (auto simp: weight_def IRREPLACEABLE_WEIGHT_def)

lemma total_weight_bounds:
  "int (length rs) \<le> sum_list (map weight rs)" "sum_list (map weight rs) \<le> 2 * int (length rs)"
  by (induction rs) (use weight_range in \<open>auto simp: add_mono\<close>)

text \<open>Shares rounded down never add up to more than the whole.\<close>

lemma shares_fit:
  fixes B W :: int
  assumes "0 \<le> B" "0 < W" "\<forall>x \<in> set ws. 0 \<le> x" "sum_list ws \<le> W"
  shows "sum_list (map (\<lambda>w. max 0 (B * w div W)) ws) \<le> B"
proof -
  have "sum_list (map (\<lambda>w. max 0 (B * w div W)) ws) * W \<le> B * sum_list ws"
    using assms(3)
  proof (induction ws)
    case (Cons w ws)
    have "max 0 (B * w div W) * W \<le> B * w"
      using assms(1,2) Cons.prems by (simp add: max_def pos_imp_zdiv_nonneg_iff)
        (metis div_mult_mod_eq le_add_same_cancel1 pos_mod_sign)
    then show ?case using Cons by (simp add: distrib_left distrib_right)
  qed simp
  also have "\<dots> \<le> B * W" using assms(1,4) by (simp add: mult_left_mono)
  finally show ?thesis using assms(2) by simp
qed

lemma budget_at_least: "6000 \<le> resolveDataCharBudget modelId"
proof (cases "map_of LLM_MODEL_REGISTRY modelId")
  case (Some v)
  then have "(modelId, v) \<in> set LLM_MODEL_REGISTRY" by (rule map_of_SomeD)
  then have "128000 \<le> v" unfolding LLM_MODEL_REGISTRY_def list.set by fastforce
  then show ?thesis
    using Some by (simp add: resolveDataCharBudget_def CHARS_PER_TOKEN_ESTIMATE_def MAX_DATA_CHARS_CEILING_def)
qed (simp add: resolveDataCharBudget_def MAX_TOOL_RESULT_CHARS_def)


text \<open>
  In a turn of at most seventy rounds no round is cut without a mark, whatever model
  is asked: a result is all the library made of it or contains the mark of the cut.
\<close>

theorem no_round_cut_silently:
  assumes "length rounds \<le> 70" "i < length rounds"
  shows "let t = rd_result (capRoundResultsWeighted lib rounds (resolveDataCharBudget modelId) ! i)
         in (\<exists>m h l. t = compact lib m h l (rd_result (rounds ! i)))
            \<or> str_includes (js ''...[truncated '') t"
proof -
  define W where "W = sum_list (map weight rounds)"
  define m where "m = resolveDataCharBudget modelId * weight (rounds ! i) div W"
  have "int (length rounds) \<le> W" "W \<le> 2 * int (length rounds)"
    using total_weight_bounds [of rounds] by (auto simp: W_def)
  then have W: "0 < W" "W \<le> 140" using assms by linarith+
  have "41 * W \<le> 6000" using W by linarith
  also have "\<dots> \<le> resolveDataCharBudget modelId" by (rule budget_at_least)
  also have "\<dots> \<le> resolveDataCharBudget modelId * weight (rounds ! i)"
    using weight_range(1) budget_at_least [of modelId] by (simp add: mult_le_cancel_left1)
  finally have "41 * W div W \<le> m" using W(1) unfolding m_def by (rule zdiv_mono1)
  then have m: "40 < m" using W(1) by simp
  have eq: "rd_result (capRoundResultsWeighted lib rounds (resolveDataCharBudget modelId) ! i)
      = capToolResultSize lib (rd_result (rounds ! i)) m"
    using assms(2) by (auto simp: capRoundResultsWeighted_def Let_def m_def W_def)
  show ?thesis unfolding eq Let_def using cap_is_announced [OF m] by blast
qed

text \<open>A library that keeps everything, for the witnesses.\<close>

definition plain_lib :: parser_lib where
  "plain_lib = \<lparr>lib_minify = (\<lambda>j. j), lib_clean = (\<lambda>j. j), lib_compress = (\<lambda>j. (JNull, [])),
     lib_cap = (\<lambda>m h l j. JStr (js ''kept''))\<rparr>"

lemma plain_compact: "compact plain_lib m h l t = js ''kept''"
  by (simp add: compact_def plain_lib_def payload_text_def Let_def)


lemma no_round_cut_silently_witness:
  "let t = rd_result (capRoundResultsWeighted plain_lib
       [\<lparr>rd_agent = js ''notion'', rd_task = js ''get it'', rd_result = js ''x''\<rparr>] (resolveDataCharBudget (js ''gpt-4o'')) ! 0)
   in (\<exists>m h l. t = compact plain_lib m h l (js ''x'')) \<or> str_includes (js ''...[truncated '') t"
  using no_round_cut_silently [of "[\<lparr>rd_agent = js ''notion'', rd_task = js ''get it'', rd_result = js ''x''\<rparr>]" 0 plain_lib "js ''gpt-4o''"]
  by simp

end
