(* ===== verification/Agent_Ranking.thy ===== *)
theory Agent_Ranking
  imports Result_Cap "HOL-Library.AList"
begin

text \<open>
  Which agents the supervisor is shown and which of them it cannot tell apart:
  \<open>llm/agent-ranking.service.ts\<close>. The semantic index is a parameter.
\<close>

definition MAX_AGENTS_BEFORE_RANKING :: nat where "MAX_AGENTS_BEFORE_RANKING = 8"
definition MAX_PROMPT_CLAUSES_FOR_RANKING :: nat where "MAX_PROMPT_CLAUSES_FOR_RANKING = 6"
definition MIN_AGENT_LABEL_LENGTH_FOR_RESCUE :: nat where "MIN_AGENT_LABEL_LENGTH_FOR_RESCUE = 3"

section \<open>Clauses of a prompt\<close>

text \<open>\<open>split\<close> by the first of several expressions that matches a non-empty text.\<close>

definition match_len :: "rx list \<Rightarrow> jstr \<Rightarrow> jstr \<Rightarrow> nat" where
  "match_len rs prev t =
    (case concat (map (\<lambda>r. rmatch r \<lparr>done_rev = prev, todo = t, caps = Map.empty\<rparr>) rs) of
       [] \<Rightarrow> 0
     | s # _ \<Rightarrow> length t - length (todo s))"

fun split_from :: "rx list \<Rightarrow> jstr \<Rightarrow> jstr \<Rightarrow> nat \<Rightarrow> jstr \<Rightarrow> jstr list" where
  "split_from rs prev acc k [] = [rev acc]"
| "split_from rs prev acc (Suc k) (c # cs) = split_from rs (c # prev) acc k cs"
| "split_from rs prev acc 0 (c # cs) =
     (let n = match_len rs prev (c # cs)
      in if n > 0 then rev acc # split_from rs (c # prev) [] (n - 1) cs
         else split_from rs (c # prev) (c # acc) 0 cs)"

text \<open>A literal under the \<open>i\<close> flag.\<close>

definition lit :: "jstr \<Rightarrow> rx list" where
  "lit w = map (\<lambda>c. Lit (\<lambda>x. lower_cu x = lower_cu c)) w"

definition bounded :: "jstr \<Rightarrow> rx" where
  "bounded w = Seq (WordEdge # lit w @ [WordEdge])"

definition clause_separators :: "rx list" where
  "clause_separators =
     [bounded (uni ''r{1ED3}i''), bounded (uni ''sau {0111}{00F3}''), bounded (js ''then''), bounded (js ''after that''), Lit (\<lambda>c. c = 59)]"

definition splitPromptClauses :: "jstr \<Rightarrow> jstr list" where
  "splitPromptClauses prompt =
    (let parts = filter (\<lambda>p. length p > 0) (map trim (split_from clause_separators [] [] 0 prompt));
         clauses = set_add_all (prompt # parts) []
     in if length clauses > MAX_PROMPT_CLAUSES_FOR_RANKING
        then take MAX_PROMPT_CLAUSES_FOR_RANKING clauses else clauses)"

section \<open>Ranking\<close>

definition rescueNamedAgents :: "jstr \<Rightarrow> agent list \<Rightarrow> agent list \<Rightarrow> agent list" where
  "rescueNamedAgents prompt agents shown =
    (let promptLower = to_lower prompt;
         rescued = filter (\<lambda>a. provider a \<notin> provider ` set shown
             \<and> length (label a) \<ge> MIN_AGENT_LABEL_LENGTH_FOR_RESCUE
             \<and> str_includes (to_lower (label a)) promptLower) agents
     in if length rescued = 0 then shown else shown @ rescued)"

text \<open>
  \<open>search\<close> is \<open>index.search\<close> over the index of the agents for one clause; \<open>None\<close> when
  building the index or a search throws.
\<close>

definition rankAgentsForPrompt :: "(jstr \<Rightarrow> agent list option) \<Rightarrow> jstr \<Rightarrow> agent list \<Rightarrow> agent list \<times> int" where
  "rankAgentsForPrompt search prompt agents =
    (if length agents \<le> MAX_AGENTS_BEFORE_RANKING then (agents, 0)
     else
       (let found = map search (splitPromptClauses prompt)
        in if None \<in> set found then (agents, 0)
           else (let ranked = foldl (\<lambda>m a. AList.update (provider a) a m) [] (concat (map the found))
                 in if length ranked = 0 then (agents, 0)
                    else (let shown = rescueNamedAgents prompt agents (map snd ranked)
                          in (shown, int (length agents) - int (length shown))))))"

section \<open>Ambiguity\<close>

definition tokenize :: "jstr \<Rightarrow> jstr list" where
  "tokenize t = set_add_all (splitWords t) []"

definition wordsMatch :: "jstr \<Rightarrow> jstr \<Rightarrow> bool" where
  "wordsMatch x y \<longleftrightarrow> x = y \<or> x @ js ''s'' = y \<or> y @ js ''s'' = x"

text \<open>The threshold 0.3 as a comparison of integers.\<close>

definition jaccard_below :: "jstr list \<Rightarrow> jstr list \<Rightarrow> bool" where
  "jaccard_below xs ys =
    (let intersectionSize = length (filter (\<lambda>t. t \<in> set ys) xs);
         unionSize = length (set_add_all ys xs)
     in unionSize = 0 \<or> 10 * intersectionSize < 3 * unionSize)"

definition findAmbiguousAgentCluster :: "jstr \<Rightarrow> agent list \<Rightarrow> jstr \<Rightarrow> agent list option" where
  "findAmbiguousAgentCluster prompt agents chosenProvider =
    (case find (\<lambda>a. provider a = chosenProvider) agents of
       None \<Rightarrow> None
     | Some chosen \<Rightarrow>
         (let chosenTokens = tokenize (description chosen);
              promptTokens = tokenize prompt;
              chosenLabelTokens = tokenize (label chosen);
              namesWord = (\<lambda>ws. list_ex (\<lambda>w. list_ex (\<lambda>pt. wordsMatch pt w) promptTokens) ws);
              similar = (\<lambda>a.
                if provider a = chosenProvider then False
                else if jaccard_below chosenTokens (tokenize (description a)) then False
                else
                  (let otherLabelTokens = tokenize (label a);
                       chosenOnly = filter (\<lambda>t. length t \<ge> MIN_AGENT_LABEL_LENGTH_FOR_RESCUE \<and> t \<notin> set otherLabelTokens) chosenLabelTokens;
                       otherOnly = filter (\<lambda>t. length t \<ge> MIN_AGENT_LABEL_LENGTH_FOR_RESCUE \<and> t \<notin> set chosenLabelTokens) otherLabelTokens
                   in \<not> (namesWord chosenOnly \<and> \<not> namesWord otherOnly)));
              similarOthers = filter similar agents
          in if length similarOthers = 0 then None else Some (chosen # similarOthers)))"

section \<open>Properties\<close>

lemma rescue_named:
  assumes "a \<in> set agents" "3 \<le> length (label a)" "str_includes (to_lower (label a)) (to_lower prompt)"
  shows "provider a \<in> provider ` set (rescueNamedAgents prompt agents shown)"
  using assms by (auto simp: rescueNamedAgents_def Let_def MIN_AGENT_LABEL_LENGTH_FOR_RESCUE_def filter_empty_conv)

text \<open>
  An agent whose name occurs in the prompt is always shown to the supervisor, whatever
  the semantic index finds or however it fails.
\<close>

theorem named_agent_is_shown:
  assumes "a \<in> set agents" "3 \<le> length (label a)" "str_includes (to_lower (label a)) (to_lower prompt)"
  shows "provider a \<in> provider ` set (fst (rankAgentsForPrompt search prompt agents))"
  using assms rescue_named by (auto simp: rankAgentsForPrompt_def Let_def)

lemma named_agent_is_shown_witness:
  "js ''notion'' \<in> provider ` set (fst (rankAgentsForPrompt (\<lambda>c. None) (js ''ask notion'')
      [\<lparr>provider = js ''notion'', label = js ''Notion'', description = []\<rparr>]))"
proof -
  have i: "str_includes (to_lower (js ''Notion'')) (to_lower (js ''ask notion''))" by code_simp
  show ?thesis
    using named_agent_is_shown [of "\<lparr>provider = js ''notion'', label = js ''Notion'', description = []\<rparr>"
        "[\<lparr>provider = js ''notion'', label = js ''Notion'', description = []\<rparr>]" "js ''ask notion''" "\<lambda>c. None"]
    by (simp add: i)
qed

lemma clauses_bounded: "length (splitPromptClauses prompt) \<le> 6"
  by (auto simp: splitPromptClauses_def Let_def MAX_PROMPT_CLAUSES_FOR_RANKING_def)

text \<open>
  \<open>\\b\<close> knows only ASCII words, so "sau do" (with its accents) ends at no word boundary when a space or
  the end of the prompt follows and never separates two clauses, as "roi" does.
\<close>

theorem sau_do_never_separates:
  "rmatch (bounded (uni ''sau {0111}{00F3}'')) \<lparr>done_rev = before, todo = (uni ''sau {0111}{00F3}'') @ 32 # rest, caps = m\<rparr> = [] \<and>
   splitPromptClauses (uni ''xem kho sau {0111}{00F3} g{1EED}i mail'') = [(uni ''xem kho sau {0111}{00F3} g{1EED}i mail'')] \<and>
   splitPromptClauses (uni ''xem kho r{1ED3}i g{1EED}i mail'') = [(uni ''xem kho r{1ED3}i g{1EED}i mail''), (js ''xem kho''), (uni ''g{1EED}i mail'')]"
proof (intro conjI)
  show "rmatch (bounded (uni ''sau {0111}{00F3}'')) \<lparr>done_rev = before, todo = (uni ''sau {0111}{00F3}'') @ 32 # rest, caps = m\<rparr> = []"
    by (simp add: bounded_def lit_def word_edge_def advance_def is_word_def is_upper_def is_lower_def
        is_digit_def hex_val_def lower_cu_def)
qed code_simp+

end
