(* ===== verification/Circuit_Breaker.thy ===== *)
theory Circuit_Breaker
  imports Agent_Types
begin

text \<open>
  \<open>common/circuit-breaker.service.ts\<close> and its Lua script. The state of a circuit is five
  Redis keys; every Redis command is one atomic step, and the requests that share a
  circuit interleave at every \<open>await\<close>. Time is in milliseconds. Redis itself does not
  fail here.
\<close>

section \<open>One circuit in Redis\<close>

record cell =
  cl_state :: "breaker_state option"
  cl_openedAt :: "int option"
  cl_total :: "(int \<times> int) option"       \<comment> \<open>value and the time its key expires\<close>
  cl_failures :: "(int \<times> int) option"
  cl_lock :: "int option"                 \<comment> \<open>when the probe lock expires\<close>
  cl_metric :: "breaker_state option"     \<comment> \<open>the last state given to \<open>setBreakerState\<close>\<close>

definition new_cell :: cell where
  "new_cell = \<lparr>cl_state = None, cl_openedAt = None, cl_total = None, cl_failures = None,
               cl_lock = None, cl_metric = None\<rparr>"

definition live :: "int \<Rightarrow> (int \<times> int) option \<Rightarrow> int option" where
  "live now x = (case x of None \<Rightarrow> None | Some (v, e) \<Rightarrow> if now < e then Some v else None)"

text \<open>\<open>INCR\<close>, and \<open>EXPIRE\<close> when that created the key.\<close>

definition incr_expire :: "int \<Rightarrow> (int \<times> int) option \<Rightarrow> int \<times> (int \<times> int) option" where
  "incr_expire now x =
    (case live now x of
       None \<Rightarrow> (1, Some (1, now + CIRCUIT_BREAKER_VOLUME_WINDOW_SEC * 1000))
     | Some v \<Rightarrow> (v + 1, map_option (\<lambda>(_, e). (v + 1, e)) x))"

definition report_script :: "int \<Rightarrow> bool \<Rightarrow> cell \<Rightarrow> breaker_state \<times> cell" where
  "report_script now failed c =
    (let (total, t) = incr_expire now (cl_total c);
         c = c\<lparr>cl_total := t\<rparr>
     in if failed then
          (let (failures, f) = incr_expire now (cl_failures c);
               c = c\<lparr>cl_failures := f\<rparr>
           in if total \<ge> CIRCUIT_BREAKER_VOLUME_THRESHOLD \<and>
                 failures * 100 \<ge> CIRCUIT_BREAKER_ERROR_THRESHOLD_PERCENTAGE * total
              then (Open, c\<lparr>cl_state := Some Open, cl_openedAt := Some now,
                            cl_total := None, cl_failures := None\<rparr>)
              else (Closed, c))
        else (Closed, c))"

definition getState :: "cell \<Rightarrow> breaker_state" where
  "getState c = nullish (cl_state c) Closed"

definition logAndEmit :: "breaker_state \<Rightarrow> breaker_state \<Rightarrow> cell \<Rightarrow> cell" where
  "logAndEmit prev next c = (if next \<noteq> prev then c\<lparr>cl_metric := Some next\<rparr> else c)"

definition lock_held :: "int \<Rightarrow> cell \<Rightarrow> bool" where
  "lock_held now c \<longleftrightarrow> (case cl_lock c of None \<Rightarrow> False | Some e \<Rightarrow> now < e)"

section \<open>One request\<close>

datatype run_outcome = Succeeded | Failed | AbortedByCaller

datatype decision = Allowed | Probe | Blocked

text \<open>
  Where a request stands: every constructor but the last two is the Redis command it
  issues next. A probe carries the time it took the lock.
\<close>

datatype cb_pc =
    AtGetState
  | AtGetOpenedAt
  | AtSetLock
  | AtSetHalfOpen int
  | Running "int option"
  | AtGetPrev "int option" bool
  | AtDelLock int breaker_state bool
  | AtDelAll breaker_state
  | AtSetOpen breaker_state
  | AtSetOpenedAt breaker_state
  | AtEval breaker_state bool
  | AtAbortDelLock int
  | Refused
  | Completed

fun cb_step :: "int \<Rightarrow> run_outcome \<Rightarrow> cb_pc \<Rightarrow> cell \<Rightarrow> cb_pc \<times> cell" where
  "cb_step now out AtGetState c =
     (case cl_state c of
        Some Open \<Rightarrow> (AtGetOpenedAt, c)
      | Some HalfOpen \<Rightarrow> (AtSetLock, c)
      | _ \<Rightarrow> (Running None, c))"
| "cb_step now out AtGetOpenedAt c =
     (if now - nullish (cl_openedAt c) 0 < CIRCUIT_BREAKER_RESET_TIMEOUT_MS then (Refused, c)
      else (AtSetLock, c))"
| "cb_step now out AtSetLock c =
     (if lock_held now c then (Refused, c)
      else (AtSetHalfOpen now, c\<lparr>cl_lock := Some (now + CIRCUIT_BREAKER_PROBE_LOCK_TTL_MS)\<rparr>))"
| "cb_step now out (AtSetHalfOpen t) c = (Running (Some t), c\<lparr>cl_state := Some HalfOpen\<rparr>)"
| "cb_step now out (Running p) c =
     (case out of
        Succeeded \<Rightarrow> (AtGetPrev p True, c)
      | Failed \<Rightarrow> (AtGetPrev p False, c)
      | AbortedByCaller \<Rightarrow> (case p of None \<Rightarrow> Completed | Some t \<Rightarrow> AtAbortDelLock t, c))"
| "cb_step now out (AtGetPrev p ok) c =
     (case p of
        Some t \<Rightarrow> (AtDelLock t (getState c) ok, c)
      | None \<Rightarrow> (AtEval (getState c) ok, c))"
| "cb_step now out (AtDelLock t prev ok) c =
     (if ok then AtDelAll prev else AtSetOpen prev, c\<lparr>cl_lock := None\<rparr>)"
| "cb_step now out (AtDelAll prev) c =
     (Completed, logAndEmit prev Closed
        (c\<lparr>cl_state := None, cl_openedAt := None, cl_total := None, cl_failures := None\<rparr>))"
| "cb_step now out (AtSetOpen prev) c = (AtSetOpenedAt prev, c\<lparr>cl_state := Some Open\<rparr>)"
| "cb_step now out (AtSetOpenedAt prev) c =
     (Completed, logAndEmit prev Open (c\<lparr>cl_openedAt := Some now\<rparr>))"
| "cb_step now out (AtEval prev ok) c =
     (let (result, c) = report_script now (\<not> ok) c
      in (Completed, logAndEmit prev (if result = Open then Open else Closed) c))"
| "cb_step now out (AtAbortDelLock t) c = (Completed, c\<lparr>cl_lock := None\<rparr>)"
| "cb_step now out Refused c = (Refused, c)"
| "cb_step now out Completed c = (Completed, c)"

section \<open>All requests\<close>

record cb_system =
  sys_now :: int
  sys_cells :: "jstr \<Rightarrow> cell"
  sys_reqs :: "(jstr \<times> cb_pc) list"

datatype cb_action =
    Arrive jstr                  \<comment> \<open>\<open>run(key, action)\<close> is called\<close>
  | Advance nat run_outcome      \<comment> \<open>request i makes its next step\<close>
  | Tick int                     \<comment> \<open>time passes\<close>

definition start_system :: "int \<Rightarrow> cb_system" where
  "start_system t = \<lparr>sys_now = t, sys_cells = (\<lambda>_. new_cell), sys_reqs = []\<rparr>"

fun cb_apply :: "cb_action \<Rightarrow> cb_system \<Rightarrow> cb_system" where
  "cb_apply (Arrive k) s = s\<lparr>sys_reqs := sys_reqs s @ [(k, AtGetState)]\<rparr>"
| "cb_apply (Tick n) s = (if 0 \<le> n then s\<lparr>sys_now := sys_now s + n\<rparr> else s)"
| "cb_apply (Advance i out) s =
     (if i < length (sys_reqs s) then
        (let (k, p) = sys_reqs s ! i;
             (p', c) = cb_step (sys_now s) out p (sys_cells s k)
         in s\<lparr>sys_cells := (sys_cells s)(k := c), sys_reqs := (sys_reqs s)[i := (k, p')]\<rparr>)
      else s)"

fun cb_run :: "cb_action list \<Rightarrow> cb_system \<Rightarrow> cb_system" where
  "cb_run [] s = s"
| "cb_run (a # as) s = cb_run as (cb_apply a s)"

text \<open>When the probe a request is took its lock, until it gives the lock back.\<close>

definition probe_since :: "cb_pc \<Rightarrow> int option" where
  "probe_since p =
    (case p of
       AtSetHalfOpen t \<Rightarrow> Some t
     | Running q \<Rightarrow> q
     | AtGetPrev q _ \<Rightarrow> q
     | AtDelLock t _ _ \<Rightarrow> Some t
     | AtAbortDelLock t \<Rightarrow> Some t
     | _ \<Rightarrow> None)"

text \<open>Probes are prompt when each gives its lock back before the lock expires.\<close>

definition prompt_now :: "cb_system \<Rightarrow> bool" where
  "prompt_now s \<longleftrightarrow>
     list_all (\<lambda>(k, p). case probe_since p of None \<Rightarrow> True
                       | Some t \<Rightarrow> sys_now s < t + CIRCUIT_BREAKER_PROBE_LOCK_TTL_MS) (sys_reqs s)"

fun prompt_run :: "cb_action list \<Rightarrow> cb_system \<Rightarrow> bool" where
  "prompt_run [] s = prompt_now s"
| "prompt_run (a # as) s = (prompt_now s \<and> prompt_run as (cb_apply a s))"

definition probing :: "cb_system \<Rightarrow> jstr \<Rightarrow> nat list" where
  "probing s k = filter (\<lambda>i. fst (sys_reqs s ! i) = k \<and> probe_since (snd (sys_reqs s ! i)) \<noteq> None)
     [0..<length (sys_reqs s)]"

section \<open>One lock, one probe\<close>

text \<open>Each probe owns the lock: its expiry is the time the probe took it plus the TTL.\<close>

definition lock_inv :: "cb_system \<Rightarrow> bool" where
  "lock_inv s \<longleftrightarrow>
     (\<forall>i < length (sys_reqs s). \<forall>t. probe_since (snd (sys_reqs s ! i)) = Some t \<longrightarrow>
        cl_lock (sys_cells s (fst (sys_reqs s ! i))) = Some (t + CIRCUIT_BREAKER_PROBE_LOCK_TTL_MS)) \<and>
     (\<forall>i < length (sys_reqs s). \<forall>j < length (sys_reqs s). i \<noteq> j \<longrightarrow>
        fst (sys_reqs s ! i) = fst (sys_reqs s ! j) \<longrightarrow> probe_since (snd (sys_reqs s ! i)) \<noteq> None \<longrightarrow>
        probe_since (snd (sys_reqs s ! j)) = None)"

lemmas cb_splits = option.splits breaker_state.splits run_outcome.splits if_splits prod.splits

lemma cl_lock_logAndEmit [simp]: "cl_lock (logAndEmit p n c) = cl_lock c"
  by (simp add: logAndEmit_def)

lemma cl_lock_report_script [simp]: "cl_lock (snd (report_script now f c)) = cl_lock c"
  by (auto simp: report_script_def Let_def split: cb_splits)

lemma report_script_lock: "report_script now f c = (r, c') \<Longrightarrow> cl_lock c' = cl_lock c"
  using cl_lock_report_script [of now f c] by simp

text \<open>
  What a step does to the lock: a request becomes a probe only by taking a free lock,
  only a probe gives the lock back, and no other step touches it.
\<close>

lemma cb_step_lock:
  assumes "cb_step now out p c = (p', c')"
  shows "probe_since p = None \<Longrightarrow> probe_since p' = Some t \<Longrightarrow>
      \<not> lock_held now c \<and> t = now \<and> cl_lock c' = Some (now + CIRCUIT_BREAKER_PROBE_LOCK_TTL_MS)"
    and "probe_since p = None \<Longrightarrow> probe_since p' = None \<Longrightarrow> cl_lock c' = cl_lock c"
    and "probe_since p = Some t \<Longrightarrow> probe_since p' = Some u \<Longrightarrow> u = t \<and> cl_lock c' = cl_lock c"
  using assms
  by (cases p; auto simp: probe_since_def Let_def report_script_lock split: cb_splits)+

abbreviation key_of :: "cb_system \<Rightarrow> nat \<Rightarrow> jstr" where
  "key_of s i \<equiv> fst (sys_reqs s ! i)"

abbreviation since :: "cb_system \<Rightarrow> nat \<Rightarrow> int option" where
  "since s i \<equiv> probe_since (snd (sys_reqs s ! i))"

lemma lock_inv_own:
  "lock_inv s \<Longrightarrow> i < length (sys_reqs s) \<Longrightarrow> since s i = Some t \<Longrightarrow>
   cl_lock (sys_cells s (key_of s i)) = Some (t + CIRCUIT_BREAKER_PROBE_LOCK_TTL_MS)"
  unfolding lock_inv_def by blast

lemma lock_inv_one:
  "lock_inv s \<Longrightarrow> i < length (sys_reqs s) \<Longrightarrow> j < length (sys_reqs s) \<Longrightarrow> i \<noteq> j \<Longrightarrow>
   key_of s i = key_of s j \<Longrightarrow> since s i \<noteq> None \<Longrightarrow> since s j = None"
  unfolding lock_inv_def by blast

lemma prompt_now_nth:
  assumes "prompt_now s" "i < length (sys_reqs s)" "since s i = Some t"
  shows "sys_now s < t + CIRCUIT_BREAKER_PROBE_LOCK_TTL_MS"
proof -
  have "(case sys_reqs s ! i of (k, p) \<Rightarrow> case probe_since p of None \<Rightarrow> True
           | Some t \<Rightarrow> sys_now s < t + CIRCUIT_BREAKER_PROBE_LOCK_TTL_MS)"
    using assms(1,2) by (simp add: prompt_now_def list_all_length)
  then show ?thesis using assms(3) by (simp add: case_prod_beta)
qed

lemma lock_inv_held:
  "lock_inv s \<Longrightarrow> prompt_now s \<Longrightarrow> i < length (sys_reqs s) \<Longrightarrow> since s i \<noteq> None \<Longrightarrow>
   lock_held (sys_now s) (sys_cells s (key_of s i))"
  by (auto simp: lock_held_def lock_inv_own prompt_now_nth)

text \<open>After a step that leaves request \<open>i\<close> a probe, no other request of its key is one.\<close>

lemma lock_inv_alone:
  assumes "lock_inv s" "prompt_now s" "i < length (sys_reqs s)" "sys_reqs s ! i = (k, p)"
    and "cb_step (sys_now s) out p (sys_cells s k) = (p', c')" "probe_since p' \<noteq> None"
    and "j < length (sys_reqs s)" "j \<noteq> i" "key_of s j = k"
  shows "since s j = None"
proof (cases "probe_since p")
  case None
  with assms(6) cb_step_lock(1) [OF assms(5)] have "\<not> lock_held (sys_now s) (sys_cells s k)" by auto
  then show ?thesis using lock_inv_held [OF assms(1,2,7)] assms(9) by blast
next
  case (Some t)
  then show ?thesis using lock_inv_one [OF assms(1,3,7)] assms(4,8,9) by simp
qed

text \<open>Of the requests of one key only a probe changes the lock under it.\<close>

lemma lock_inv_own_step:
  assumes "lock_inv s" "prompt_now s" "i < length (sys_reqs s)" "sys_reqs s ! i = (k, p)"
    and st: "cb_step (sys_now s) out p (sys_cells s k) = (p', c')"
    and j: "j < length (sys_reqs s)" "j \<noteq> i" "key_of s j = k" "since s j = Some t"
  shows "cl_lock c' = Some (t + CIRCUIT_BREAKER_PROBE_LOCK_TTL_MS)"
proof -
  have "probe_since p' = None"
    using lock_inv_alone [OF assms(1-5) _ j(1-3)] j(4) by (cases "probe_since p'") simp_all
  moreover have "probe_since p = None" using lock_inv_one [OF assms(1) j(1) assms(3)] j assms(4) by auto
  ultimately show ?thesis using cb_step_lock(2) [OF st] lock_inv_own [OF assms(1) j(1,4)] j(3) by simp
qed

lemma lock_inv_advance:
  assumes "lock_inv s" "prompt_now s" "i < length (sys_reqs s)" "sys_reqs s ! i = (k, p)"
    and st: "cb_step (sys_now s) out p (sys_cells s k) = (p', c')"
  shows "lock_inv (s\<lparr>sys_cells := (sys_cells s)(k := c'), sys_reqs := (sys_reqs s)[i := (k, p')]\<rparr>)"
    (is "lock_inv ?t")
proof -
  have self: "cl_lock c' = Some (t + CIRCUIT_BREAKER_PROBE_LOCK_TTL_MS)" if "probe_since p' = Some t" for t
    using cb_step_lock(1,3) [OF st] that lock_inv_own [OF assms(1,3)] assms(4)
    by (cases "probe_since p") auto
  have "cl_lock (sys_cells ?t (key_of ?t j)) = Some (t + CIRCUIT_BREAKER_PROBE_LOCK_TTL_MS)"
    if j: "j < length (sys_reqs ?t)" "since ?t j = Some t" for j t
  proof (cases "j = i")
    case True
    then show ?thesis using self j by simp
  next
    case False
    then show ?thesis
      using j lock_inv_own_step [OF assms _ False] lock_inv_own [OF assms(1), of j] by simp
  qed
  moreover have "since ?t j' = None"
    if h: "j < length (sys_reqs ?t)" "j' < length (sys_reqs ?t)" "j \<noteq> j'" "key_of ?t j = key_of ?t j'" "since ?t j \<noteq> None"
    for j j'
  proof -
    consider "j = i" "j' \<noteq> i" | "j \<noteq> i" "j' = i" | "j \<noteq> i" "j' \<noteq> i" using h(3) by blast
    then show ?thesis
    proof cases
      case 1
      then show ?thesis using lock_inv_alone [OF assms, of j'] h by simp
    next
      case 2
      then show ?thesis using lock_inv_alone [OF assms, of j] h by (cases "probe_since p'") simp_all
    next
      case 3
      then show ?thesis using lock_inv_one [OF assms(1), of j j'] h by simp
    qed
  qed
  ultimately show ?thesis unfolding lock_inv_def by blast
qed

lemma lock_inv_step:
  assumes "lock_inv s" "prompt_now s"
  shows "lock_inv (cb_apply a s)"
proof (cases a)
  case (Advance i out)
  obtain k p where kp: "sys_reqs s ! i = (k, p)" by (cases "sys_reqs s ! i")
  obtain p' c' where st: "cb_step (sys_now s) out p (sys_cells s k) = (p', c')"
    by (cases "cb_step (sys_now s) out p (sys_cells s k)")
  show ?thesis
  proof (cases "i < length (sys_reqs s)")
    case True
    show ?thesis using lock_inv_advance [OF assms True kp st] by (simp add: Advance True kp st)
  next
    case False
    then show ?thesis using assms(1) by (simp add: Advance)
  qed
next
  case (Arrive k)
  let ?t = "cb_apply (Arrive k) s"
  have old: "i < length (sys_reqs s) \<and> since s i = Some t \<and> key_of ?t i = key_of s i"
    if "i < length (sys_reqs ?t)" "since ?t i = Some t" for i t
    using that by (cases "i < length (sys_reqs s)") (auto simp: nth_append probe_since_def less_Suc_eq)
  have "cl_lock (sys_cells ?t (key_of ?t i)) = Some (t + CIRCUIT_BREAKER_PROBE_LOCK_TTL_MS)"
    if "i < length (sys_reqs ?t)" "since ?t i = Some t" for i t
    using old [OF that] lock_inv_own [OF assms(1)] by simp
  moreover have "since ?t j = None"
    if "i < length (sys_reqs ?t)" "j < length (sys_reqs ?t)" "i \<noteq> j" "key_of ?t i = key_of ?t j" "since ?t i \<noteq> None"
    for i j
    using old [OF that(1)] old [OF that(2)] lock_inv_one [OF assms(1), of i j] that(3-5)
    by (cases "since ?t i"; cases "since ?t j") simp_all
  ultimately show ?thesis unfolding Arrive lock_inv_def by blast
next
  case (Tick n)
  then show ?thesis using assms(1) by (simp add: lock_inv_def)
qed

lemma lock_inv_run: "lock_inv s \<Longrightarrow> prompt_run as s \<Longrightarrow> lock_inv (cb_run as s)"
  by (induction as arbitrary: s) (auto intro: lock_inv_step)

lemma lock_inv_start: "lock_inv (start_system t)"
  by (simp add: lock_inv_def start_system_def)

lemma probing_one:
  assumes "lock_inv s"
  shows "length (probing s k) \<le> 1"
proof -
  have d: "distinct (probing s k)" by (simp add: probing_def)
  have same: "i = j" if "i \<in> set (probing s k)" "j \<in> set (probing s k)" for i j
  proof (rule ccontr)
    assume "i \<noteq> j"
    with that lock_inv_one [OF assms, of i j] have "since s j = None" unfolding probing_def by simp
    with that show False unfolding probing_def by simp
  qed
  show ?thesis
  proof (cases "probing s k")
    case (Cons i rest)
    have "j = i" if "j \<in> set rest" for j using same [of j i] that Cons by simp
    then have "set rest \<subseteq> {i}" by blast
    then have "rest = []" using d Cons by (cases rest) simp_all
    with Cons show ?thesis by simp
  qed simp
qed

section \<open>When the circuit opens\<close>

lemma report_script_opens:
  "fst (report_script now failed c) = Open \<longleftrightarrow>
     failed \<and> (let total = fst (incr_expire now (cl_total c)); failures = fst (incr_expire now (cl_failures c))
               in 20 \<le> total \<and> total \<le> 2 * failures)"
  by (auto simp: report_script_def Let_def CIRCUIT_BREAKER_VOLUME_THRESHOLD_def
      CIRCUIT_BREAKER_ERROR_THRESHOLD_PERCENTAGE_def split: prod.splits)

text \<open>A step of a request that is not a probe and does not become one, on an open circuit.\<close>

lemma cb_step_other_key:
  "fst (sys_reqs s ! i) \<noteq> k \<Longrightarrow> sys_cells (cb_apply (Advance i out) s) k = sys_cells s k"
  by (auto simp: Let_def split: prod.splits)

section \<open>The wrapper around an action\<close>

text \<open>
  \<open>run\<close> as its callers see it, with the three Redis phases given: a refused call never
  starts the action, and an error passes through unchanged after the report.
\<close>

definition circuit_run ::
    "(jstr \<Rightarrow> 'w \<Rightarrow> decision \<times> 'w) \<Rightarrow> (jstr \<Rightarrow> decision \<Rightarrow> run_outcome \<Rightarrow> 'w \<Rightarrow> 'w) \<Rightarrow> ('w \<Rightarrow> bool) \<Rightarrow>
     jstr \<Rightarrow> ('w \<Rightarrow> (agent_error + 'a) \<times> 'w) \<Rightarrow> 'w \<Rightarrow> (agent_error + 'a) \<times> 'w" where
  "circuit_run acquire report aborted key action w =
    (case acquire key w of
       (Blocked, w) \<Rightarrow>
         (Inl (Failure (js ''THIS PROVIDER IS TEMPORARILY UNAVAILABLE (CIRCUIT BREAKER OPEN) (key='' @ key @ js '')'')), w)
     | (d, w) \<Rightarrow>
         (case action w of
            (Inr x, w) \<Rightarrow> (Inr x, report key d Succeeded w)
          | (Inl e, w) \<Rightarrow> (Inl e, report key d (if aborted w then AbortedByCaller else Failed) w)))"

section \<open>Properties\<close>

text \<open>
  C28: as long as every probe gives its lock back before the lock expires, at most one
  request at a time probes a broken provider, however the requests interleave.
\<close>

theorem one_probe_at_a_time:
  assumes "prompt_run as (start_system t)"
  shows "length (probing (cb_run as (start_system t)) k) \<le> 1"
  using assms by (intro probing_one lock_inv_run lock_inv_start)

text \<open>After the reset timeout of an open circuit two requests meet at the lock.\<close>

definition full_run :: "nat \<Rightarrow> nat \<Rightarrow> run_outcome \<Rightarrow> cb_action list" where
  "full_run i steps out = replicate steps (Advance i out)"

definition twenty_failures :: "cb_action list" where
  "twenty_failures = concat (map (\<lambda>i. Arrive (js ''llm'') # full_run i 4 Failed) [0..<20])"

definition opened_system :: cb_system where
  "opened_system = \<lparr>sys_now = 30000,
     sys_cells = (\<lambda>_. new_cell\<lparr>cl_state := Some Open, cl_openedAt := Some 0\<rparr>), sys_reqs = []\<rparr>"

definition two_requests :: "cb_action list" where
  "two_requests = [Arrive (js ''llm''), Arrive (js ''llm'')] @ full_run 0 4 Failed @ full_run 1 3 Failed"

theorem one_probe_at_a_time_witness:
  "length (probing (cb_run (twenty_failures @ [Tick 30000, Arrive (js ''llm'')] @ full_run 20 4 Failed) (start_system 0)) (js ''llm'')) \<le> 1"
  by (rule one_probe_at_a_time) code_simp

text \<open>
  A probe may outlive its lock: two attempts of 30 seconds and a back-off of one
  second are longer than the 60 seconds of the lock, and then a second request probes
  beside the first; when the first ends it deletes the lock of the second.
\<close>

theorem slow_probe_loses_its_lock:
  "let slow = two_requests @ [Tick 61000, Arrive (js ''llm'')] @ full_run 2 3 Failed;
       ended = slow @ full_run 0 3 Failed
   in probing (cb_run slow opened_system) (js ''llm'') = [0, 2] \<and>
      cl_lock (sys_cells (cb_run slow opened_system) (js ''llm'')) = Some 151000 \<and>
      cl_lock (sys_cells (cb_run ended opened_system) (js ''llm'')) = None \<and>
      probing (cb_run ended opened_system) (js ''llm'') = [2]"
  by code_simp

text \<open>
  The counters of all requests and of the failures expire at different times, so the
  circuit opens although only one of the last twenty requests, all of them in the
  current window of ten seconds, failed.
\<close>

fun report_all :: "(int \<times> bool) list \<Rightarrow> cell \<Rightarrow> cell" where
  "report_all [] c = c"
| "report_all ((now, failed) # rs) c = report_all rs (snd (report_script now failed c))"

theorem opens_on_five_percent:
  "let earlier = (0, False) # replicate 9 (9000, True); window = replicate 19 (10000, False) @ [(10000, True)];
       c = report_all earlier new_cell
   in cl_state c = None \<and> live 10000 (cl_total c) = None \<and>
      cl_state (report_all window c) = Some Open"
  by code_simp

text \<open>
  On an open circuit no request reaches the provider within the reset timeout: it is
  refused at its second step, and refusing it changes nothing in Redis.
\<close>

theorem open_circuit_refuses:
  assumes "cl_state c = Some Open" "cl_openedAt c = Some t0" "now2 < t0 + 30000"
  shows "cb_step now1 out AtGetState c = (AtGetOpenedAt, c) \<and>
    cb_step now2 out AtGetOpenedAt c = (Refused, c) \<and>
    (\<forall>now. cb_step now out Refused c = (Refused, c))"
  using assms by (simp add: CIRCUIT_BREAKER_RESET_TIMEOUT_MS_def)

theorem open_circuit_refuses_witness:
  "cb_step 31 Failed AtGetOpenedAt (new_cell\<lparr>cl_state := Some Open, cl_openedAt := Some 30\<rparr>) =
     (Refused, new_cell\<lparr>cl_state := Some Open, cl_openedAt := Some 30\<rparr>)"
  using open_circuit_refuses [of "new_cell\<lparr>cl_state := Some Open, cl_openedAt := Some 30\<rparr>" 30 31 30 Failed]
  by simp

text \<open>
  A request that is not a probe opens the circuit exactly when it failed, at least
  twenty requests are counted and at least half as many failures.
\<close>

theorem opens_at_threshold:
  "fst (report_script now failed c) = Open \<longleftrightarrow>
     failed \<and> 20 \<le> nullish (live now (cl_total c)) 0 + 1 \<and>
     nullish (live now (cl_total c)) 0 + 1 \<le> 2 * (nullish (live now (cl_failures c)) 0 + 1)"
  by (auto simp: report_script_opens incr_expire_def Let_def split: option.split)

text \<open>
  A request that was let through before the circuit opened and reports success while
  it is open sets the metric to closed, and the circuit stays open.
\<close>

theorem late_success_emits_closed:
  "let late = [Arrive (js ''llm''), Advance 0 Failed] @
         concat (map (\<lambda>i. Arrive (js ''llm'') # full_run i 4 Failed) [1..<21]);
       ended = late @ full_run 0 3 Succeeded;
       cell = (\<lambda>as. sys_cells (cb_run as (start_system 0)) (js ''llm''))
   in cl_metric (cell late) = Some Open \<and>
      cl_state (cell ended) = Some Open \<and> cl_metric (cell ended) = Some Closed"
  by code_simp

end
