(* ===== verification/Llm_Call.thy ===== *)
theory Llm_Call
  imports Circuit_Breaker
begin

text \<open>
  One call of a language model: the timeout (\<open>llm/with-timeout.util.ts\<close>), the retry
  (\<open>llm/with-llm-retry.util.ts\<close>) and the two quantity questions
  (\<open>llm/quantity-check.util.ts\<close>).
\<close>

section \<open>Promises with a deadline\<close>

text \<open>
  A promise settles after some milliseconds or never. \<open>withTimeout\<close> settles with the
  promise if that is in time, else it rejects and aborts the attempt; a promise that
  settles exactly at the deadline comes too late, its timer being older.
\<close>

type_synonym 'a promise = "(int \<times> (agent_error + 'a)) option"

definition withTimeout :: "int \<Rightarrow> jstr \<Rightarrow> 'a promise \<Rightarrow> agent_error + 'a" where
  "withTimeout ms message p =
    (case p of
       Some (t, r) \<Rightarrow> if t < ms then r else Inl (Failure message)
     | None \<Rightarrow> Inl (Failure message))"

definition LLM_CALL_TIMEOUT_MS :: int where "LLM_CALL_TIMEOUT_MS = 30000"

section \<open>Retry\<close>

text \<open>
  One attempt gives its promise, whether it had streamed a token when it settled, and
  the world after it.
\<close>

type_synonym ('w, 'a) attempt = "'w \<Rightarrow> 'a promise \<times> bool \<times> 'w"

record 'w retry_env =
  callerAborted :: "'w \<Rightarrow> bool"
  backoff :: "'w \<Rightarrow> (agent_error + unit) \<times> 'w"     \<comment> \<open>\<open>abortableSleep\<close>\<close>

function retry_from ::
    "'w retry_env \<Rightarrow> nat \<Rightarrow> bool \<Rightarrow> jstr \<Rightarrow> ('w, 'a) attempt \<Rightarrow> nat \<Rightarrow> 'w \<Rightarrow> (agent_error + 'a) \<times> 'w" where
  "retry_from env maxAttempts streams message fn n w =
    (if callerAborted env w then (Inl (Failure (js ''Aborted'')), w)
     else (let (p, streamed, w) = fn w
           in case withTimeout LLM_CALL_TIMEOUT_MS message p of
                Inr x \<Rightarrow> (Inr x, w)
              | Inl e \<Rightarrow>
                  if callerAborted env w \<or> maxAttempts \<le> n \<or> streams \<and> streamed then (Inl e, w)
                  else (case backoff env w of
                          (Inl e, w) \<Rightarrow> (Inl e, w)
                        | (Inr _, w) \<Rightarrow> retry_from env maxAttempts streams message fn (n + 1) w)))"
  by pat_completeness auto
termination by (relation "measure (\<lambda>(env, m, st, msg, fn, n, w). m - n)") auto

declare retry_from.simps [simp del]

text \<open>\<open>withLlmRetry\<close> with the default number of attempts; \<open>streams\<close> when \<open>canRetry\<close> is given.\<close>

definition withLlmRetry ::
    "'w retry_env \<Rightarrow> bool \<Rightarrow> jstr \<Rightarrow> ('w, 'a) attempt \<Rightarrow> 'w \<Rightarrow> (agent_error + 'a) \<times> 'w" where
  "withLlmRetry env streams message fn w =
     retry_from env MAX_LLM_CALL_RETRY_ATTEMPTS streams message fn 1 w"

section \<open>Calls through the circuit breaker\<close>

record 'w llm_env = "'w retry_env" +
  strategyId :: jstr
  cbAcquire :: "jstr \<Rightarrow> 'w \<Rightarrow> decision \<times> 'w"
  cbReport :: "jstr \<Rightarrow> decision \<Rightarrow> run_outcome \<Rightarrow> 'w \<Rightarrow> 'w"
  askRequired :: "jstr \<Rightarrow> ('w, int) attempt"     \<comment> \<open>\<open>generateStructured\<close>, required count\<close>
  askAchieved :: "jstr \<Rightarrow> ('w, int) attempt"

definition llm_call_guarded ::
    "('w, 'z) llm_env_scheme \<Rightarrow> bool \<Rightarrow> jstr \<Rightarrow> ('w, 'a) attempt \<Rightarrow> 'w \<Rightarrow> (agent_error + 'a) \<times> 'w" where
  "llm_call_guarded env streams message fn w =
     circuit_run (cbAcquire env) (cbReport env) (callerAborted env) (js ''llm:'' @ strategyId env)
       (withLlmRetry (retry_env.truncate env) streams message fn) w"

section \<open>Quantities\<close>

definition extractRequiredCount :: "('w, 'z) llm_env_scheme \<Rightarrow> jstr \<Rightarrow> 'w \<Rightarrow> int \<times> 'w" where
  "extractRequiredCount env task w =
    (case llm_call_guarded env False (js ''extractRequiredCount() timeout sau 30s'') (askRequired env task) w of
       (Inr n, w) \<Rightarrow> (max n 0, w)
     | (Inl _, w) \<Rightarrow> (0, w))"

text \<open>Required and achieved count; both 0 when nothing is required or a question fails.\<close>

definition checkQuantity :: "('w, 'z) llm_env_scheme \<Rightarrow> jstr \<Rightarrow> jstr \<Rightarrow> 'w \<Rightarrow> (int \<times> int) \<times> 'w" where
  "checkQuantity env task resultsText w =
    (let (required, w) = extractRequiredCount env task w
     in if required \<le> 0 then ((0, 0), w)
        else (case llm_call_guarded env False (js ''checkQuantity() timeout sau 30s'') (askAchieved env resultsText) w of
                (Inr achieved, w) \<Rightarrow> ((required, achieved), w)
              | (Inl _, w) \<Rightarrow> ((0, 0), w)))"

section \<open>Facts\<close>

lemma checkQuantity_cases:
  "checkQuantity env task t w = ((r, a), w') \<Longrightarrow> 0 < r \<or> r = 0 \<and> a = 0"
  by (auto simp: checkQuantity_def Let_def split: prod.splits if_splits sum.splits)

text \<open>The world with a count of the attempts made in it.\<close>

definition counted :: "('w, 'a) attempt \<Rightarrow> (nat \<times> 'w, 'a) attempt" where
  "counted fn = (\<lambda>(k, w). case fn w of (p, streamed, w) \<Rightarrow> (p, streamed, (k + 1, w)))"

definition counted_env :: "'w retry_env \<Rightarrow> (nat \<times> 'w) retry_env" where
  "counted_env env = \<lparr>callerAborted = (\<lambda>(k, w). callerAborted env w),
     backoff = (\<lambda>(k, w). case backoff env w of (r, w) \<Rightarrow> (r, (k, w)))\<rparr>"

lemma retry_from_attempts:
  "n \<le> m \<Longrightarrow> fst (snd (retry_from (counted_env env) m streams msg (counted fn) n (k, w))) \<le> k + (m - n + 1)"
proof (induction "m - n" arbitrary: n k w rule: less_induct)
  case less
  obtain p streamed w1 where fn: "fn w = (p, streamed, w1)" by (metis prod_cases3)
  show ?case
  proof (cases "n < m")
    case True
    obtain r w2 where b: "backoff env w1 = (r, w2)" by fastforce
    have "fst (snd (retry_from (counted_env env) m streams msg (counted fn) (n + 1) (k + 1, w2))) \<le> k + 1 + (m - (n + 1) + 1)"
      using less.hyps [of "n + 1" "k + 1" w2] True by simp
    then show ?thesis using True fn b
      by (subst retry_from.simps) (auto simp: counted_def counted_env_def split: sum.split)
  next
    case False
    then show ?thesis using less.prems fn
      by (subst retry_from.simps) (simp add: counted_def counted_env_def split: sum.split)
  qed
qed

section \<open>Properties\<close>

text \<open>
  A guarded call of the model asks it at most twice, and settles although a promise
  of the provider may never do so.
\<close>

theorem llm_asked_at_most_twice:
  "fst (snd (withLlmRetry (counted_env env) streams msg (counted fn) (0, w))) \<le> 2"
  using retry_from_attempts [of 1 2 env streams msg fn 0 w]
  by (simp add: withLlmRetry_def MAX_LLM_CALL_RETRY_ATTEMPTS_def)

text \<open>
  An attempt that failed after it had streamed a token to the user is not repeated:
  the call fails with the error of that attempt.
\<close>

theorem no_retry_after_streaming:
  assumes "fn w = (p, True, w')" "\<not> callerAborted env w" "withTimeout LLM_CALL_TIMEOUT_MS msg p = Inl e"
  shows "withLlmRetry env True msg fn w = (Inl e, w')"
  using assms by (simp add: withLlmRetry_def retry_from.simps)

theorem no_retry_after_streaming_witness:
  "withLlmRetry \<lparr>callerAborted = (\<lambda>w. False), backoff = (\<lambda>w. (Inr (), w))\<rparr> True (js ''timeout'')
     (\<lambda>w :: nat. (None :: nat promise, True, w + 1)) 0 = (Inl (Failure (js ''timeout'')), 1)"
  by (rule no_retry_after_streaming [where p = None]) (simp_all add: withTimeout_def)

end
