(* ===== verification/Claim_Once.thy ===== *)
theory Claim_Once
  imports Prelude
begin

text \<open>
  The contract of an operation that hands something out at most once per key: the first
  attempt of the repeat guard, the conditional UPDATE that starts an execution, the
  INSERT that claims a trigger message. The client runs claims and any other steps of
  the system in any order.
\<close>

locale claim_once =
  fixes claim :: "'k \<Rightarrow> 's \<Rightarrow> bool \<times> 's"
    and other :: "'s \<Rightarrow> 's \<Rightarrow> bool"
    and taken :: "'s \<Rightarrow> 'k \<Rightarrow> bool"
  assumes claim_free: "fst (claim k s) \<Longrightarrow> \<not> taken s k"
    and claim_takes: "fst (claim k s) \<Longrightarrow> taken (snd (claim k s)) k"
    and claim_keeps: "taken s k' \<Longrightarrow> taken (snd (claim k s)) k'"
    and other_keeps: "other s s' \<Longrightarrow> taken s k' \<Longrightarrow> taken s' k'"
begin

inductive run :: "'s \<Rightarrow> 'k list \<Rightarrow> 's \<Rightarrow> bool" where
  run_start: "run s [] s"
| run_claim: "run s log t \<Longrightarrow> claim k t = (won, u) \<Longrightarrow>
    run s (if won then k # log else log) u"
| run_other: "run s log t \<Longrightarrow> other t u \<Longrightarrow> run s log u"

lemma claim_won:
  assumes "claim k t = (True, u)"
  shows "\<not> taken t k" "taken u k" "taken t k' \<Longrightarrow> taken u k'"
  using assms claim_free [of k t] claim_takes [of k t] claim_keeps [of t k' k] by auto

lemma run_taken: "run s log t \<Longrightarrow> \<forall>k \<in> set log. taken t k"
proof (induction rule: run.induct)
  case (run_claim s log t k won u)
  then show ?case
    using claim_keeps [of t _ k] claim_takes [of k t] by auto
qed (auto intro: other_keeps)

lemma taken_stays: "run s log t \<Longrightarrow> taken s k \<Longrightarrow> taken t k"
proof (induction rule: run.induct)
  case (run_claim s log t k' won u)
  then show ?case using claim_keeps [of t k k'] by auto
qed (auto intro: other_keeps)

theorem won_once: "run s log t \<Longrightarrow> distinct log"
proof (induction rule: run.induct)
  case (run_claim s log t k won u)
  then show ?case using run_taken [of s log t] claim_won(1) [of k t u] by auto
qed auto

lemma won_was_free: "run s log t \<Longrightarrow> k \<in> set log \<Longrightarrow> \<not> taken s k"
proof (induction rule: run.induct)
  case (run_claim s log t k' won u)
  then show ?case using claim_won(1) [of k' t u] taken_stays [of s log t k] by (auto split: if_splits)
qed auto

end

end
