(* ===== verification/Checkpoint.thy ===== *)
theory Checkpoint
  imports Agent_Types Claim_Once
begin

text \<open>
  The table \<open>orchestration_checkpoints\<close>
  (\<open>entity/orchestration-checkpoint.entity.ts\<close>) and \<open>CheckpointService\<close>
  (\<open>checkpoint/checkpoint.service.ts\<close>). Each SQL statement is one atomic operation on
  the table, a list of rows. Times are in milliseconds; Postgres itself does not fail.
\<close>

section \<open>Rows\<close>

datatype checkpoint_status = PENDING | APPROVED | REJECTED

record chat_turn =
  ct_role :: jstr
  ct_text :: jstr

record candidate =
  cand_provider :: jstr
  cand_label :: jstr

text \<open>
  \<open>CheckpointResponseDto\<close>, and the entity, which has one column more: the response is the
  entity truncated to it, as \<open>toResponseDto\<close> lists its fields one by one.
\<close>

record checkpoint_response =
  ck_id :: jstr
  ck_replyMessageId :: jstr
  ck_userId :: jstr
  ck_botUserId :: jstr
  ck_channelId :: jstr
  ck_workspaceId :: jstr
  ck_channelType :: jstr
  ck_originalPrompt :: jstr
  ck_pendingTool :: "pending_tool option"
  ck_pendingTask :: jstr
  ck_roundsSoFar :: "round list"
  ck_remainingSteps :: "delegation list"
  ck_history :: "chat_turn list"
  ck_status :: checkpoint_status
  ck_kind :: checkpoint_kind
  ck_riskLevel :: "risk_level option"
  ck_clarificationQuestion :: "jstr option"
  ck_clarificationCandidates :: "candidate list option"
  ck_selectedProvider :: "jstr option"
  ck_expiresAt :: int
  ck_toolExecutedAt :: "int option"
  ck_createdAt :: int
  ck_updatedAt :: int

record checkpoint = checkpoint_response +
  ck_executionStartedAt :: "int option"

definition toResponseDto :: "checkpoint \<Rightarrow> checkpoint_response" where
  "toResponseDto e = checkpoint_response.truncate e"

type_synonym checkpoint_table = "checkpoint list"

text \<open>\<open>UPDATE ... WHERE\<close>: how many rows it changed, and the table after it.\<close>

definition update_where ::
    "(checkpoint \<Rightarrow> bool) \<Rightarrow> (checkpoint \<Rightarrow> checkpoint) \<Rightarrow> checkpoint_table \<Rightarrow> nat \<times> checkpoint_table" where
  "update_where P f t = (length (filter P t), map (\<lambda>e. if P e then f e else e) t)"

section \<open>CheckpointService\<close>

text \<open>\<open>CreateCheckpointRequestDto\<close>\<close>

record create_checkpoint =
  cc_replyMessageId :: jstr
  cc_userId :: jstr
  cc_botUserId :: jstr
  cc_channelId :: jstr
  cc_workspaceId :: jstr
  cc_channelType :: jstr
  cc_originalPrompt :: jstr
  cc_pendingTool :: "pending_tool option"
  cc_pendingTask :: jstr
  cc_roundsSoFar :: "round list"
  cc_history :: "chat_turn list"
  cc_kind :: "checkpoint_kind option"
  cc_riskLevel :: "risk_level option"
  cc_clarificationQuestion :: "jstr option"
  cc_clarificationCandidates :: "candidate list option"
  cc_remainingSteps :: "delegation list option"

text \<open>
  \<open>create\<close>, with the id Postgres generates; the unique index on the reply message rejects
  a second checkpoint for it.
\<close>

definition create_entity :: "jstr \<Rightarrow> int \<Rightarrow> create_checkpoint \<Rightarrow> checkpoint" where
  "create_entity uuid now dto =
     \<lparr>ck_id = uuid, ck_replyMessageId = cc_replyMessageId dto, ck_userId = cc_userId dto,
      ck_botUserId = cc_botUserId dto, ck_channelId = cc_channelId dto, ck_workspaceId = cc_workspaceId dto,
      ck_channelType = cc_channelType dto, ck_originalPrompt = cc_originalPrompt dto,
      ck_pendingTool = cc_pendingTool dto, ck_pendingTask = cc_pendingTask dto,
      ck_roundsSoFar = cc_roundsSoFar dto, ck_remainingSteps = nullish (cc_remainingSteps dto) [],
      ck_history = cc_history dto, ck_status = PENDING, ck_kind = nullish (cc_kind dto) Approval,
      ck_riskLevel = cc_riskLevel dto, ck_clarificationQuestion = cc_clarificationQuestion dto,
      ck_clarificationCandidates = cc_clarificationCandidates dto, ck_selectedProvider = None,
      ck_expiresAt = now + CHECKPOINT_EXPIRY_MS, ck_toolExecutedAt = None, ck_createdAt = now,
      ck_updatedAt = now, ck_executionStartedAt = None\<rparr>"

definition create ::
    "jstr \<Rightarrow> int \<Rightarrow> create_checkpoint \<Rightarrow> checkpoint_table \<Rightarrow> (jstr + checkpoint_response) \<times> checkpoint_table" where
  "create uuid now dto t =
    (if list_ex (\<lambda>e. ck_id e = uuid \<or> ck_replyMessageId e = cc_replyMessageId dto) t then
       (Inl (js ''duplicate key value violates unique constraint''), t)
     else (let e = create_entity uuid now dto in (Inr (toResponseDto e), t @ [e])))"

definition findPendingByReplyMessageId :: "jstr \<Rightarrow> checkpoint_table \<Rightarrow> checkpoint_response option" where
  "findPendingByReplyMessageId m t =
     map_option toResponseDto (find (\<lambda>e. ck_replyMessageId e = m \<and> ck_status e = PENDING) t)"

definition findExpiredPending :: "int \<Rightarrow> checkpoint_table \<Rightarrow> checkpoint_response list" where
  "findExpiredPending now t =
     map toResponseDto (filter (\<lambda>e. ck_status e = PENDING \<and> ck_expiresAt e < now) t)"

definition is_stalled :: "int \<Rightarrow> checkpoint \<Rightarrow> bool" where
  "is_stalled now e \<longleftrightarrow>
     ck_status e = APPROVED \<and>
     (case ck_executionStartedAt e of None \<Rightarrow> False | Some t \<Rightarrow> t < now - STALLED_EXECUTION_TTL_MS) \<and>
     ck_toolExecutedAt e = None"

definition findStalledExecution :: "int \<Rightarrow> checkpoint_table \<Rightarrow> checkpoint_response list" where
  "findStalledExecution now t = map toResponseDto (filter (is_stalled now) t)"

definition findById :: "jstr \<Rightarrow> checkpoint_table \<Rightarrow> checkpoint_response option" where
  "findById i t = map_option toResponseDto (find (\<lambda>e. ck_id e = i) t)"

text \<open>\<open>ClaimCheckpointRequestDto\<close>; the entity's \<open>@UpdateDateColumn\<close> is set by every update.\<close>

record claim_request =
  cl_id :: jstr
  cl_toStatus :: checkpoint_status
  cl_selectedProvider :: "jstr option"
  cl_updatedPendingTool :: "pending_tool option"

definition claim :: "int \<Rightarrow> claim_request \<Rightarrow> checkpoint_table \<Rightarrow> bool \<times> checkpoint_table" where
  "claim now dto t =
    (let (affected, t) =
       update_where (\<lambda>e. ck_id e = cl_id dto \<and> ck_status e = PENDING)
         (\<lambda>e. e\<lparr>ck_status := cl_toStatus dto,
               ck_selectedProvider := (case cl_selectedProvider dto of
                   None \<Rightarrow> ck_selectedProvider e | Some p \<Rightarrow> Some p),
               ck_pendingTool := (case cl_updatedPendingTool dto of
                   None \<Rightarrow> ck_pendingTool e | Some p \<Rightarrow> Some p),
               ck_updatedAt := now\<rparr>) t
     in (affected = 1, t))"

definition claimExecution :: "int \<Rightarrow> jstr \<Rightarrow> checkpoint_table \<Rightarrow> bool \<times> checkpoint_table" where
  "claimExecution now i t =
    (let (affected, t) =
       update_where (\<lambda>e. ck_id e = i \<and> ck_executionStartedAt e = None)
         (\<lambda>e. e\<lparr>ck_executionStartedAt := Some now, ck_updatedAt := now\<rparr>) t
     in (affected = 1, t))"

definition markToolExecuted :: "int \<Rightarrow> jstr \<Rightarrow> checkpoint_table \<Rightarrow> checkpoint_table" where
  "markToolExecuted now i t =
     snd (update_where (\<lambda>e. ck_id e = i) (\<lambda>e. e\<lparr>ck_toolExecutedAt := Some now, ck_updatedAt := now\<rparr>) t)"

definition revertApprovedClaim :: "int \<Rightarrow> jstr \<Rightarrow> checkpoint_table \<Rightarrow> checkpoint_table" where
  "revertApprovedClaim now i t =
     snd (update_where (\<lambda>e. ck_id e = i \<and> ck_status e = APPROVED)
            (\<lambda>e. e\<lparr>ck_status := PENDING, ck_updatedAt := now\<rparr>) t)"

definition markStalledAsRejected :: "int \<Rightarrow> jstr \<Rightarrow> checkpoint_table \<Rightarrow> bool \<times> checkpoint_table" where
  "markStalledAsRejected now i t =
    (let (affected, t) =
       update_where (\<lambda>e. ck_id e = i \<and> ck_status e = APPROVED)
         (\<lambda>e. e\<lparr>ck_status := REJECTED, ck_updatedAt := now\<rparr>) t
     in (affected = 1, t))"

lemmas checkpoint_ops =
  claim_def claimExecution_def markToolExecuted_def revertApprovedClaim_def markStalledAsRejected_def
  update_where_def

section \<open>Keys\<close>

definition table_wf :: "checkpoint_table \<Rightarrow> bool" where
  "table_wf t \<longleftrightarrow> distinct (map ck_id t) \<and> distinct (map ck_replyMessageId t)"

lemma ids_map:
  assumes "\<And>e. ck_id (f e) = ck_id e"
  shows "map ck_id (map (\<lambda>e. if P e then f e else e) t) = map ck_id t"
  using assms by (simp add: o_def if_distrib cong: if_cong)

lemma replies_map:
  assumes "\<And>e. ck_replyMessageId (f e) = ck_replyMessageId e"
  shows "map ck_replyMessageId (map (\<lambda>e. if P e then f e else e) t) = map ck_replyMessageId t"
  using assms by (simp add: o_def if_distrib cong: if_cong)

lemma update_where_wf:
  assumes "\<And>e. ck_id (f e) = ck_id e" "\<And>e. ck_replyMessageId (f e) = ck_replyMessageId e"
  shows "table_wf (snd (update_where P f t)) = table_wf t"
  unfolding table_wf_def update_where_def snd_conv
  by (simp only: ids_map [where f = f, OF assms(1)] replies_map [where f = f, OF assms(2)])

lemma service_keeps_wf [simp]:
  "table_wf (snd (claim now dto t)) = table_wf t"
  "table_wf (snd (claimExecution now i t)) = table_wf t"
  "table_wf (markToolExecuted now i t) = table_wf t"
  "table_wf (revertApprovedClaim now i t) = table_wf t"
  "table_wf (snd (markStalledAsRejected now i t)) = table_wf t"
  by (simp_all add: claim_def claimExecution_def markToolExecuted_def revertApprovedClaim_def
      markStalledAsRejected_def case_prod_beta update_where_wf)

lemma create_wf: "table_wf t \<Longrightarrow> table_wf (snd (create uuid now dto t))"
  by (auto simp: create_def table_wf_def create_entity_def list_ex_iff Let_def)

text \<open>The row of an id, and what an update does to it.\<close>

definition row :: "checkpoint_table \<Rightarrow> jstr \<Rightarrow> checkpoint option" where
  "row t i = find (\<lambda>e. ck_id e = i) t"

lemma row_update:
  assumes "\<And>e. ck_id (f e) = ck_id e"
  shows "row (snd (update_where P f t)) i = map_option (\<lambda>e. if P e then f e else e) (row t i)"
  by (induction t) (auto simp: row_def update_where_def assms)

lemma row_id: "row t i = Some e \<Longrightarrow> ck_id e = i"
  by (auto simp: row_def dest: find_Some_in)

lemma row_in: "row t i = Some e \<Longrightarrow> e \<in> set t"
  by (auto simp: row_def dest: find_Some_in)

lemma row_of_wf:
  assumes "table_wf t" "e \<in> set t"
  shows "row t (ck_id e) = Some e"
proof -
  have "find (\<lambda>d. ck_id d = ck_id e) t = Some e" if "distinct (map ck_id t)" "e \<in> set t"
    using that by (induction t) auto
  with assms show ?thesis by (simp add: row_def table_wf_def)
qed

lemma affected_one:
  assumes "table_wf t"
  shows "length (filter (\<lambda>e. ck_id e = i \<and> P e) t) = 1 \<longleftrightarrow> (\<exists>e. row t i = Some e \<and> P e)"
proof -
  have "length (filter (\<lambda>e. ck_id e = i \<and> P e) t) = 1 \<longleftrightarrow> (\<exists>e. find (\<lambda>e. ck_id e = i) t = Some e \<and> P e)"
    if "distinct (map ck_id t)"
    using that
  proof (induction t)
    case (Cons d t)
    show ?case
    proof (cases "ck_id d = i")
      case True
      with Cons.prems have "i \<notin> ck_id ` set t" by simp
      then have "filter (\<lambda>e. ck_id e = i \<and> P e) t = []" unfolding filter_empty_conv by blast
      with True show ?thesis by simp
    next
      case False
      with Cons show ?thesis by simp
    qed
  qed simp
  with assms show ?thesis by (simp add: table_wf_def row_def)
qed

lemma claim_claimed:
  "table_wf t \<Longrightarrow> fst (claim now dto t) \<longleftrightarrow> (\<exists>e. row t (cl_id dto) = Some e \<and> ck_status e = PENDING)"
  by (simp add: claim_def update_where_def affected_one [unfolded One_nat_def])

lemma claimExecution_claimed:
  "table_wf t \<Longrightarrow> fst (claimExecution now i t) \<longleftrightarrow>
     (\<exists>e. row t i = Some e \<and> ck_executionStartedAt e = None)"
  by (simp add: claimExecution_def update_where_def affected_one [unfolded One_nat_def])

lemma markStalled_claimed:
  "table_wf t \<Longrightarrow> fst (markStalledAsRejected now i t) \<longleftrightarrow>
     (\<exists>e. row t i = Some e \<and> ck_status e = APPROVED)"
  by (simp add: markStalledAsRejected_def update_where_def affected_one [unfolded One_nat_def])

lemma row_update_key:
  assumes "\<And>e. ck_id (f e) = ck_id e"
  shows "row (snd (update_where (\<lambda>e. ck_id e = j \<and> Q e) f t)) i
    = (if i = j then map_option (\<lambda>e. if Q e then f e else e) (row t i) else row t i)"
  using row_id [of t i] by (cases "row t i") (auto simp: row_update [where f = f, OF assms])

lemma row_claim:
  "row (snd (claim now dto t)) i = (if i = cl_id dto then map_option (\<lambda>e.
     if ck_status e = PENDING
     then e\<lparr>ck_status := cl_toStatus dto,
            ck_selectedProvider := (case cl_selectedProvider dto of
                None \<Rightarrow> ck_selectedProvider e | Some p \<Rightarrow> Some p),
            ck_pendingTool := (case cl_updatedPendingTool dto of
                None \<Rightarrow> ck_pendingTool e | Some p \<Rightarrow> Some p),
            ck_updatedAt := now\<rparr> else e) (row t i) else row t i)"
  by (simp add: claim_def case_prod_beta row_update_key)

lemma row_claimExecution:
  "row (snd (claimExecution now j t)) i = (if i = j then map_option (\<lambda>e.
     if ck_executionStartedAt e = None
     then e\<lparr>ck_executionStartedAt := Some now, ck_updatedAt := now\<rparr> else e) (row t i) else row t i)"
  by (simp add: claimExecution_def case_prod_beta row_update_key)

lemma row_markToolExecuted:
  "row (markToolExecuted now j t) i = (if i = j then map_option (\<lambda>e.
     e\<lparr>ck_toolExecutedAt := Some now, ck_updatedAt := now\<rparr>) (row t i) else row t i)"
  using row_update_key [of "\<lambda>e. e\<lparr>ck_toolExecutedAt := Some now, ck_updatedAt := now\<rparr>" j "\<lambda>_. True" t i]
  by (simp add: markToolExecuted_def)

lemma row_revert:
  "row (revertApprovedClaim now j t) i = (if i = j then map_option (\<lambda>e.
     if ck_status e = APPROVED then e\<lparr>ck_status := PENDING, ck_updatedAt := now\<rparr> else e) (row t i) else row t i)"
  by (simp add: revertApprovedClaim_def row_update_key)

lemma row_markStalled:
  "row (snd (markStalledAsRejected now j t)) i = (if i = j then map_option (\<lambda>e.
     if ck_status e = APPROVED then e\<lparr>ck_status := REJECTED, ck_updatedAt := now\<rparr> else e) (row t i) else row t i)"
  by (simp add: markStalledAsRejected_def case_prod_beta row_update_key)

lemmas row_ops = row_claim row_claimExecution row_markToolExecuted row_revert row_markStalled

section \<open>Execution is claimed once\<close>

definition execution_started :: "checkpoint_table \<Rightarrow> jstr \<Rightarrow> bool" where
  "execution_started t i \<longleftrightarrow> list_ex (\<lambda>e. ck_id e = i \<and> ck_executionStartedAt e \<noteq> None) t"

definition keeps_started :: "checkpoint_table \<Rightarrow> checkpoint_table \<Rightarrow> bool" where
  "keeps_started t t' \<longleftrightarrow> (\<forall>i. execution_started t i \<longrightarrow> execution_started t' i)"

lemma keeps_started_update:
  assumes "\<And>e. ck_id (f e) = ck_id e"
    and "\<And>e. ck_executionStartedAt e \<noteq> None \<Longrightarrow> ck_executionStartedAt (f e) \<noteq> None"
  shows "keeps_started t (snd (update_where P f t))"
proof -
  have "execution_started t i \<Longrightarrow> execution_started (snd (update_where P f t)) i" for i
    using assms by (induction t) (auto simp: execution_started_def update_where_def simp del: not_None_eq)
  then show ?thesis by (simp add: keeps_started_def)
qed

lemma keeps_started_ops [simp]:
  "keeps_started t t"
  "keeps_started t (snd (claim now req t))" "keeps_started t (snd (claimExecution now i t))"
  "keeps_started t (markToolExecuted now i t)" "keeps_started t (revertApprovedClaim now i t)"
  "keeps_started t (snd (markStalledAsRejected now i t))" "keeps_started t (snd (create uuid now dto t))"
proof -
  show "keeps_started t (snd (claim now req t))"
    unfolding claim_def by (simp add: case_prod_beta keeps_started_update)
  show "keeps_started t (snd (claimExecution now i t))"
    unfolding claimExecution_def by (simp add: case_prod_beta keeps_started_update)
  show "keeps_started t (snd (markStalledAsRejected now i t))"
    unfolding markStalledAsRejected_def by (simp add: case_prod_beta keeps_started_update)
  show "keeps_started t (snd (create uuid now dto t))"
    by (simp add: create_def Let_def keeps_started_def execution_started_def)
qed (simp_all add: markToolExecuted_def revertApprovedClaim_def keeps_started_update, simp add: keeps_started_def)

text \<open>
  The claim of a job, on the table and the clock; with unique ids its guard is implied by
  the condition of the UPDATE.
\<close>

definition claim_job :: "jstr \<Rightarrow> int \<times> checkpoint_table \<Rightarrow> bool \<times> int \<times> checkpoint_table" where
  "claim_job i s =
     (let (won, t') = claimExecution (fst s) i (snd s)
      in (won \<and> \<not> execution_started (snd s) i, fst s, t'))"

lemma started_claimExecution:
  "execution_started t i \<Longrightarrow> execution_started (snd (claimExecution now j t)) i"
  by (auto simp: execution_started_def claimExecution_def update_where_def list_ex_iff)

lemma claimed_starts:
  assumes "fst (claimExecution now i t)"
  shows "execution_started (snd (claimExecution now i t)) i"
proof -
  have "filter (\<lambda>e. ck_id e = i \<and> ck_executionStartedAt e = None) t \<noteq> []"
    using assms by (auto simp: claimExecution_def update_where_def)
  then obtain e where "e \<in> set t" "ck_id e = i" "ck_executionStartedAt e = None"
    by (auto simp: filter_empty_conv)
  then have "e\<lparr>ck_executionStartedAt := Some now, ck_updatedAt := now\<rparr> \<in> set (snd (claimExecution now i t))"
    by (force simp: claimExecution_def update_where_def)
  then show ?thesis using \<open>ck_id e = i\<close> unfolding execution_started_def list_ex_iff
    by (intro bexI) simp_all
qed

lemma started_update:
  "execution_started t i \<Longrightarrow> claimExecution now j t = (won, t') \<Longrightarrow> execution_started t' i"
  "claimExecution now j t = (True, t') \<Longrightarrow> execution_started t' j"
  using started_claimExecution [of t i now j] claimed_starts [of now j t] by auto

lemma claim_job_claimExecution:
  assumes "table_wf t"
  shows "claim_job i (now, t) = (fst (claimExecution now i t), now, snd (claimExecution now i t))"
proof -
  have "\<not> execution_started t i" if "fst (claimExecution now i t)"
  proof
    assume "execution_started t i"
    then obtain e where "e \<in> set t" "ck_id e = i" and e: "ck_executionStartedAt e \<noteq> None"
      unfolding execution_started_def list_ex_iff by blast
    then have "row t i = Some e" using row_of_wf [OF assms] by blast
    with e that claimExecution_claimed [OF assms] show False by simp
  qed
  then show ?thesis by (cases "claimExecution now i t") (auto simp: claim_job_def)
qed

interpretation execution: claim_once claim_job
  "\<lambda>s s'. keeps_started (snd s) (snd s')" "\<lambda>s. execution_started (snd s)"
proof unfold_locales
  fix i :: jstr and k' :: jstr and s s' :: "int \<times> checkpoint_table"
  obtain now t where s: "s = (now, t)" by (cases s)
  obtain won t' where c: "claimExecution now i t = (won, t')" by (cases "claimExecution now i t")
  show "fst (claim_job i s) \<Longrightarrow> \<not> execution_started (snd s) i" by (simp add: claim_job_def s c)
  show "fst (claim_job i s) \<Longrightarrow> execution_started (snd (snd (claim_job i s))) i"
    using started_update(2) [of now i t t'] c by (simp add: claim_job_def s)
  show "execution_started (snd s) k' \<Longrightarrow> execution_started (snd (snd (claim_job i s))) k'"
    using started_update(1) [OF _ c] by (simp add: claim_job_def s c)
  show "keeps_started (snd s) (snd s') \<Longrightarrow> execution_started (snd s) k' \<Longrightarrow> execution_started (snd s') k'"
    by (simp add: keeps_started_def)
qed

end
