(* ===== verification/Repeat_Guard.thy ===== *)
theory Repeat_Guard
  imports Claim_Once
begin

text \<open>
  \<open>llm/tool-repeat-guard.ts\<close>: one guard lives for a whole turn and counts the
  attempts of each (tool, arguments) signature and keeps the result of a successful one.
\<close>

record cached_call =
  cc_resultPreview :: jstr
  cc_feedText :: jstr

record repeat_guard =
  attempts :: "jstr \<rightharpoonup> nat"
  successCache :: "jstr \<rightharpoonup> cached_call"

definition new_guard :: repeat_guard where
  "new_guard = \<lparr>attempts = Map.empty, successCache = Map.empty\<rparr>"

definition recordAttempt :: "jstr \<Rightarrow> repeat_guard \<Rightarrow> nat \<times> repeat_guard" where
  "recordAttempt sig g =
    (let n = nullish (attempts g sig) 0 + 1 in (n, g\<lparr>attempts := (attempts g)(sig \<mapsto> n)\<rparr>))"

definition getCachedSuccess :: "jstr \<Rightarrow> repeat_guard \<Rightarrow> cached_call option" where
  "getCachedSuccess sig g = successCache g sig"

definition cacheSuccess :: "jstr \<Rightarrow> jstr \<Rightarrow> jstr \<Rightarrow> repeat_guard \<Rightarrow> repeat_guard" where
  "cacheSuccess sig preview feed g =
     g\<lparr>successCache := (successCache g)(sig \<mapsto> \<lparr>cc_resultPreview = preview, cc_feedText = feed\<rparr>)\<rparr>"

section \<open>Attempts of one signature\<close>

definition attempted :: "repeat_guard \<Rightarrow> jstr \<Rightarrow> bool" where
  "attempted g sig \<longleftrightarrow> attempts g sig \<noteq> None"

definition count :: "repeat_guard \<Rightarrow> jstr \<Rightarrow> nat" where
  "count g sig = nullish (attempts g sig) 0"

lemma recordAttempt_count:
  "recordAttempt sig g = (n, g') \<Longrightarrow>
     n = count g sig + 1 \<and> (\<forall>x. count g' x = (if x = sig then count g x + 1 else count g x))"
  by (auto simp: recordAttempt_def count_def Let_def)

lemma recordAttempt_frame [simp]: "successCache (snd (recordAttempt sig g)) = successCache g"
  by (simp add: recordAttempt_def Let_def)

lemma recordAttempt_pos: "fst (recordAttempt sig g) > 0"
  by (simp add: recordAttempt_def Let_def)

lemma attempts_cacheSuccess [simp]: "attempts (cacheSuccess sig p f g) = attempts g"
  by (simp add: cacheSuccess_def)

lemma count_cacheSuccess [simp]: "count (cacheSuccess sig p f g) = count g"
  by (simp add: count_def fun_eq_iff)

text \<open>A guard whose recorded counts are positive, as every guard of a turn is.\<close>

definition guard_wf :: "repeat_guard \<Rightarrow> bool" where
  "guard_wf g \<longleftrightarrow> (\<forall>sig. attempts g sig \<noteq> Some 0)"

lemma guard_wf_new [simp]: "guard_wf new_guard"
  by (simp add: guard_wf_def new_guard_def)

lemma guard_wf_record: "guard_wf g \<Longrightarrow> guard_wf (snd (recordAttempt sig g))"
  by (simp add: guard_wf_def recordAttempt_def Let_def)

lemma guard_wf_cache [simp]: "guard_wf (cacheSuccess sig p f g) = guard_wf g"
  by (simp add: guard_wf_def)

text \<open>
  The first attempt of a signature as a claim: it is won when the guard answers 1. Any
  step of the guard that only records attempts and caches results keeps it taken.
\<close>

definition first_attempt :: "jstr \<Rightarrow> repeat_guard \<Rightarrow> bool \<times> repeat_guard" where
  "first_attempt sig g = (let (n, g') = recordAttempt sig g in (n = 1, g'))"

definition caches :: "repeat_guard \<Rightarrow> repeat_guard \<Rightarrow> bool" where
  "caches g g' \<longleftrightarrow> attempts g' = attempts g"

definition used :: "repeat_guard \<Rightarrow> jstr \<Rightarrow> bool" where
  "used g sig \<longleftrightarrow> 0 < count g sig"

interpretation attempt: claim_once first_attempt caches used
  by unfold_locales
    (auto simp: first_attempt_def recordAttempt_def caches_def used_def count_def Let_def)

end
