(* ===== verification/Tool_Executor.thy ===== *)
theory Tool_Executor
  imports Risk_Gate Repeat_Guard Json_Parse
begin

text \<open>
  \<open>llm/tool-call-executor.ts\<close>. The calls of one model turn run concurrently: each is a
  small program whose code between two \<open>await\<close>s is one step, and a scheduler picks the
  call that steps next. The shared state is that of the class and its collaborators: the
  repeat guard of the turn, the insert accumulator and the memoised required count of
  the risk gate, the trace of tool calls, and the rest of the world.
\<close>

section \<open>tool-error-classifier.util.ts\<close>

datatype tool_error_class = Retryable | Permanent

definition classifyToolError :: "jstr \<Rightarrow> tool_error_class" where
  "classifyToolError resultPreview =
    (case json_parse resultPreview of
       Some (JObj kvs) \<Rightarrow> if get_prop kvs (js ''retryable'') = Some (JBool True) then Retryable else Permanent
     | _ \<Rightarrow> Permanent)"

section \<open>Surroundings\<close>

text \<open>The fields of \<open>RunReactLoopRequestDto\<close> the executor reads, and the tools of the provider.\<close>

record run_dto =
  dto_prompt :: jstr
  dto_provider :: jstr
  dto_userId :: jstr
  dto_workspaceId :: jstr
  dto_mcpTools :: "mcp_tool list"

datatype emitted =
    EmitToolCall jstr jstr                     \<comment> \<open>tool, argsPreview\<close>
  | EmitToolResult jstr step_status jstr       \<comment> \<open>tool, status, resultPreview\<close>

text \<open>
  The collaborators, as functions of the world: the MCP client, the stream to the
  browser, the clock, the LLM behind \<open>extractRequiredCount\<close>, and the text filters.
  A left result is a rejected promise with its error message.
\<close>

record 'w exec_env =
  mcpCallTool :: "jstr \<Rightarrow> jstr \<Rightarrow> args \<Rightarrow> jstr \<Rightarrow> jstr \<Rightarrow> 'w \<Rightarrow> (jstr + mcp_response) \<times> 'w"
  emitStep :: "emitted \<Rightarrow> 'w \<Rightarrow> (jstr + unit) \<times> 'w"
  abortableSleep :: "'w \<Rightarrow> (jstr + unit) \<times> 'w"
  signalAborted :: "'w \<Rightarrow> bool"
  extractRequired :: "jstr \<Rightarrow> 'w \<Rightarrow> int \<times> 'w"
  scrub :: "jstr \<Rightarrow> jstr"
  capResult :: "jstr \<Rightarrow> jstr"

record real_call =                  \<comment> \<open>one \<open>callTool\<close> that was really made\<close>
  rc_sig :: jstr
  rc_attempt :: nat
  rc_name :: jstr
  rc_args :: args
  rc_dto :: run_dto

record 'w exec_state =
  guard :: repeat_guard
  tables :: accumulator
  requiredCount :: "int option"
  trace :: "tool_trace list"
  realCalls :: "real_call list"      \<comment> \<open>history, for the theorems only\<close>
  world :: 'w

section \<open>Previews and signatures\<close>

definition formatResultPreview :: "jstr \<Rightarrow> jstr" where
  "formatResultPreview text = trim (replace_spaces [32] False text)"

definition formatArgsPreview :: "args \<Rightarrow> jstr" where
  "formatArgsPreview a =
    (case a of
       [(_, JStr v)] \<Rightarrow> v
     | _ \<Rightarrow> pretty 0 (JObj a))"

definition signature_of :: "jstr \<Rightarrow> args \<Rightarrow> jstr" where
  "signature_of name a = name @ [58] @ stringify (JObj a)"

definition displayName_of :: "run_dto \<Rightarrow> jstr \<Rightarrow> jstr" where
  "displayName_of dto name = dto_provider dto @ [46] @ name"

section \<open>The program of one call\<close>

text \<open>
  Where a call stands: each constructor but the last two is an \<open>await\<close>, with what the
  continuation needs. \<open>auto\<close> remembers that the call is an INSERT the gate lets through,
  whose rows are dropped from the accumulator when it is done.
\<close>

datatype outcome = Returned jstr | Rejected agent_error

datatype pc =
    Waiting                                        \<comment> \<open>\<open>Promise.allSettled(waitFor)\<close>\<close>
  | AwaitCount jstr                                \<comment> \<open>the required count, for a query\<close>
  | AwaitEmitReuse bool nat cached_call            \<comment> \<open>\<open>reuseCachedCall\<close>: emit tool_call\<close>
  | AwaitEmitCall bool jstr                        \<comment> \<open>\<open>runToolCall\<close>: emit tool_call\<close>
  | AwaitTool bool jstr nat                        \<comment> \<open>\<open>callTool\<close>, at attempt n\<close>
  | AwaitSleep bool jstr nat
  | AwaitRecord bool step_status jstr jstr "jstr option"
      \<comment> \<open>\<open>recordResult\<close>: status, preview, text to return, signature to cache\<close>
  | Finished outcome

record call_state =
  cs_name :: jstr
  cs_args :: args           \<comment> \<open>the call's argument object, which the gate may overwrite\<close>
  cs_preview :: jstr        \<comment> \<open>\<open>argsPreview\<close>, taken before that\<close>
  cs_pc :: pc

type_synonym 'w step_result = "call_state \<times> 'w exec_state"

text \<open>\<open>clearAccumulatorFor(args.query as string)\<close> after an auto-approved INSERT.\<close>

definition finish :: "bool \<Rightarrow> outcome \<Rightarrow> call_state \<Rightarrow> 'w exec_state \<Rightarrow> 'w step_result" where
  "finish auto out c s =
    (c\<lparr>cs_pc := Finished out\<rparr>,
     case out of
       Returned _ \<Rightarrow>
         if auto then s\<lparr>tables := clear_table (nullish (query_of (cs_args c)) []) (tables s)\<rparr> else s
     | Rejected _ \<Rightarrow> s)"

text \<open>\<open>blockRepeatedCall\<close>, up to its \<open>recordResult\<close>.\<close>

definition blocked_text :: "run_dto \<Rightarrow> jstr \<Rightarrow> nat \<Rightarrow> jstr" where
  "blocked_text dto name n =
    (let others = filter (\<lambda>x. x \<noteq> name) (map mt_name (dto_mcpTools dto));
         suggestion =
           (if length others > 0
            then (uni ''KH{00D4}NG {0111}{01B0}{1EE3}c g{1ECD}i l{1EA1}i tool n{00E0}y. N{1EBF}u nhi{1EC7}m v{1EE5} c{1EA7}n 1 H{00C0}NH {0110}{1ED8}NG (ghi/th{00EA}m/t{1EA1}o/s{1EED}a d{1EEF} li{1EC7}u...), h{00E3}y g{1ECD}i tool ph{00F9} h{1EE3}p trong s{1ED1} c{00E1}c tool c{00F2}n l{1EA1}i: '') @ join (js '', '') others @ (js ''.'')
            else (uni ''Kh{00F4}ng c{00F2}n tool n{00E0}o kh{00E1}c c{1EE7}a h{1EC7} th{1ED1}ng n{00E0}y {0111}{1EC3} th{1EED}.''))
     in (uni ''Tool {0022}'') @ displayName_of dto name @ (uni ''{0022} {0111}{00E3} {0111}{01B0}{1EE3}c g{1ECD}i v{1EDB}i {0110}{00DA}NG tham s{1ED1} n{00E0}y '') @ nat_str (n - 1) @
        (uni '' l{1EA7}n tr{01B0}{1EDB}c {0111}{00F3} v{00E0} kh{00F4}ng th{1EF1}c thi l{1EA1}i n{1EEF}a. '') @ suggestion @
        (uni '' N{1EBF}u kh{00F4}ng c{00F3} tool n{00E0}o ph{00F9} h{1EE3}p {0111}{1EC3} ho{00E0}n th{00E0}nh y{00EA}u c{1EA7}u, b{00E1}o th{1EB3}ng cho ng{01B0}{1EDD}i d{00F9}ng bi{1EBF}t gi{1EDB}i h{1EA1}n {0111}{00F3} thay v{00EC} im l{1EB7}ng b{1ECF} cu{1ED9}c.''))"

definition blockRepeatedCall ::
    "run_dto \<Rightarrow> bool \<Rightarrow> nat \<Rightarrow> call_state \<Rightarrow> 'w exec_state \<Rightarrow> 'w step_result" where
  "blockRepeatedCall dto auto n c s =
    (let t = blocked_text dto (cs_name c) n in (c\<lparr>cs_pc := AwaitRecord auto Error t t None\<rparr>, s))"

text \<open>
  \<open>executeTrackedToolCall\<close>: the attempt is counted, then the call is answered from the
  cache, blocked, or run.
\<close>

definition executeTrackedToolCall ::
    "run_dto \<Rightarrow> bool \<Rightarrow> call_state \<Rightarrow> 'w exec_state \<Rightarrow> 'w step_result" where
  "executeTrackedToolCall dto auto c s =
    (let sig = signature_of (cs_name c) (cs_args c);
         (n, g) = recordAttempt sig (guard s);
         s = s\<lparr>guard := g\<rparr>;
         cached = (if n > 1 then getCachedSuccess sig g else None)
     in case cached of
          Some hit \<Rightarrow> (c\<lparr>cs_pc := AwaitEmitReuse auto n hit\<rparr>, s)
        | None \<Rightarrow>
            if n > MAX_SAME_TOOL_CALL_REPEATS then blockRepeatedCall dto auto n c s
            else (c\<lparr>cs_pc := AwaitEmitCall auto sig\<rparr>, s))"

text \<open>\<open>handleDestructiveToolCall\<close> once the shortfall check has answered.\<close>

definition after_shortfall ::
    "run_dto \<Rightarrow> jstr option \<Rightarrow> call_state \<Rightarrow> 'w exec_state \<Rightarrow> 'w step_result" where
  "after_shortfall dto shortfall c s =
    (if truthy shortfall then
       (let msg = nullish shortfall [] in (c\<lparr>cs_pc := AwaitRecord False Error msg msg None\<rparr>, s))
     else if isAutoApprovableInsert (dto_provider dto) (cs_name c) (cs_args c) then
       executeTrackedToolCall dto True c s
     else
       (c\<lparr>cs_pc := Finished (Rejected (ApprovalRequired
            \<lparr>pt_provider = dto_provider dto, pt_name = cs_name c, pt_args = cs_args c\<rparr> (trace s)))\<rparr>, s))"

definition handleDestructiveToolCall :: "run_dto \<Rightarrow> call_state \<Rightarrow> 'w exec_state \<Rightarrow> 'w step_result" where
  "handleDestructiveToolCall dto c s =
    (case needs_required_count (displayName_of dto (cs_name c)) (cs_preview c) (cs_args c) of
       None \<Rightarrow> after_shortfall dto None c s
     | Some q \<Rightarrow> (c\<lparr>cs_pc := AwaitCount q\<rparr>, s))"

definition handleToolCall :: "run_dto \<Rightarrow> call_state \<Rightarrow> 'w exec_state \<Rightarrow> 'w step_result" where
  "handleToolCall dto c s =
    (let c = c\<lparr>cs_preview := formatArgsPreview (cs_args c)\<rparr> in
     if isDestructive (dto_mcpTools dto) (cs_name c) then handleDestructiveToolCall dto c s
     else executeTrackedToolCall dto False c s)"

text \<open>\<open>getRequiredCount\<close> is asked once per run and remembered.\<close>

definition getRequiredCount :: "'w exec_env \<Rightarrow> run_dto \<Rightarrow> 'w exec_state \<Rightarrow> int \<times> 'w exec_state" where
  "getRequiredCount env dto s =
    (case requiredCount s of
       Some n \<Rightarrow> (n, s)
     | None \<Rightarrow> (let (n, w) = extractRequired env (dto_prompt dto) (world s)
                 in (n, s\<lparr>requiredCount := Some n, world := w\<rparr>)))"

text \<open>The loop of \<open>runToolCall\<close> after one \<open>callTool\<close>.\<close>

definition after_tool ::
    "'w exec_env \<Rightarrow> bool \<Rightarrow> jstr \<Rightarrow> nat \<Rightarrow> (jstr + mcp_response) \<Rightarrow> call_state \<Rightarrow> 'w exec_state \<Rightarrow>
     'w step_result" where
  "after_tool env auto sig n r c s =
    (case r of
       Inl e \<Rightarrow>
         if signalAborted env (world s) then finish auto (Rejected (Failure e)) c s
         else (let msg = scrub env e
               in (c\<lparr>cs_pc := AwaitRecord auto Error msg (capResult env msg) None\<rparr>, s))
     | Inr result \<Rightarrow>
         (let t = extractTextFromMcpResult result;
              status = (if isError result = Some True then Error else Success);
              preview = formatResultPreview t
          in if status = Error \<and> n < MAX_TRANSIENT_TOOL_RETRY_ATTEMPTS \<and>
                classifyToolError preview = Retryable
             then (c\<lparr>cs_pc := AwaitSleep auto sig n\<rparr>, s)
             else (c\<lparr>cs_pc := AwaitRecord auto status preview (capResult env t)
                       (if status = Success then Some sig else None)\<rparr>, s)))"

text \<open>\<open>recordResult\<close> after its emit, then the rest of the caller.\<close>

definition after_record ::
    "run_dto \<Rightarrow> bool \<Rightarrow> step_status \<Rightarrow> jstr \<Rightarrow> jstr \<Rightarrow> jstr option \<Rightarrow> call_state \<Rightarrow> 'w exec_state \<Rightarrow>
     'w step_result" where
  "after_record dto auto status preview ret cache c s =
    (let s = s\<lparr>trace := trace s @
               [\<lparr>tt_tool = displayName_of dto (cs_name c), tt_status = status,
                 tt_resultPreview = Some preview, tt_argsPreview = Some (cs_preview c)\<rparr>]\<rparr>;
         s = (case cache of None \<Rightarrow> s | Some sig \<Rightarrow> s\<lparr>guard := cacheSuccess sig preview ret (guard s)\<rparr>)
     in finish auto (Returned ret) c s)"

text \<open>One step of a call that is not finished.\<close>

definition call_step :: "'w exec_env \<Rightarrow> run_dto \<Rightarrow> call_state \<Rightarrow> 'w exec_state \<Rightarrow> 'w step_result" where
  "call_step env dto c s =
    (case cs_pc c of
       Finished out \<Rightarrow> (c, s)
     | Waiting \<Rightarrow> handleToolCall dto c s
     | AwaitCount q \<Rightarrow>
         (let (n, s) = getRequiredCount env dto s;
              (msg, a, ts) = checkBulkInsertShortfall q n (cs_args c) (tables s)
          in after_shortfall dto msg (c\<lparr>cs_args := a\<rparr>) (s\<lparr>tables := ts\<rparr>))
     | AwaitEmitReuse auto n hit \<Rightarrow>
         (let (r, w) = emitStep env (EmitToolCall (displayName_of dto (cs_name c)) (cs_preview c)) (world s);
              s = s\<lparr>world := w\<rparr>
          in case r of
               Inl e \<Rightarrow> finish auto (Rejected (Failure e)) c s
             | Inr _ \<Rightarrow> (c\<lparr>cs_pc := AwaitRecord auto Success (cc_resultPreview hit) (cc_feedText hit) None\<rparr>, s))
     | AwaitEmitCall auto sig \<Rightarrow>
         (let (r, w) = emitStep env (EmitToolCall (displayName_of dto (cs_name c)) (cs_preview c)) (world s);
              s = s\<lparr>world := w\<rparr>
          in case r of
               Inl e \<Rightarrow> finish auto (Rejected (Failure e)) c s
             | Inr _ \<Rightarrow> (c\<lparr>cs_pc := AwaitTool auto sig 1\<rparr>, s))
     | AwaitTool auto sig n \<Rightarrow>
         (let (r, w) = mcpCallTool env (dto_provider dto) (cs_name c) (cs_args c)
                         (dto_userId dto) (dto_workspaceId dto) (world s)
          in after_tool env auto sig n r c (s\<lparr>world := w, 
               realCalls := realCalls s @ [\<lparr>rc_sig = sig, rc_attempt = n, rc_name = cs_name c, rc_args = cs_args c,
                                             rc_dto = dto\<rparr>]\<rparr>))
     | AwaitSleep auto sig n \<Rightarrow>
         (let (r, w) = abortableSleep env (world s); s = s\<lparr>world := w\<rparr>
          in case r of
               Inl e \<Rightarrow> finish auto (Rejected (Failure e)) c s
             | Inr _ \<Rightarrow> (c\<lparr>cs_pc := AwaitTool auto sig (n + 1)\<rparr>, s))
     | AwaitRecord auto status preview ret cache \<Rightarrow>
         (let (r, w) = emitStep env (EmitToolResult (displayName_of dto (cs_name c)) status preview) (world s);
              s = s\<lparr>world := w\<rparr>
          in case r of
               Inl e \<Rightarrow> finish auto (Rejected (Failure e)) c s
             | Inr _ \<Rightarrow> after_record dto auto status preview ret cache c s))"

end
