(* ===== verification/Tool_Run.thy ===== *)
theory Tool_Run
  imports Tool_Executor
begin

text \<open>
  \<open>ToolCallExecutor.run\<close>: the calls of one turn, the promises each waits for, and what
  any schedule of their steps keeps.
\<close>

section \<open>Ordering\<close>

definition resolveInsertTableKey :: "run_dto \<Rightarrow> llm_call \<Rightarrow> jstr option" where
  "resolveInsertTableKey dto call =
    (if dto_provider dto \<noteq> (js ''sql_server'') \<or> lc_name call \<noteq> (js ''execute_write_query'') then None
     else (case query_of (lc_args call) of None \<Rightarrow> None | Some q \<Rightarrow> tableKeyFor q))"

text \<open>The last earlier position with a key, as the maps \<open>lastRunBy...\<close> hold it.\<close>

fun last_before :: "('a \<Rightarrow> bool) \<Rightarrow> 'a list \<Rightarrow> nat \<Rightarrow> nat option" where
  "last_before P xs 0 = None"
| "last_before P xs (Suc i) = (if i < length xs \<and> P (xs ! i) then Some i else last_before P xs i)"

definition call_signature :: "llm_call \<Rightarrow> jstr" where
  "call_signature call = signature_of (lc_name call) (lc_args call)"

definition wait_for :: "run_dto \<Rightarrow> llm_call list \<Rightarrow> nat \<Rightarrow> nat list" where
  "wait_for dto calls i =
    (let call = calls ! i; key = resolveInsertTableKey dto call;
         bySig = last_before (\<lambda>d. call_signature d = call_signature call) calls i;
         byTable = (if truthy key then last_before (\<lambda>d. resolveInsertTableKey dto d = key) calls i else None)
     in (case bySig of None \<Rightarrow> [] | Some j \<Rightarrow> [j]) @ (case byTable of None \<Rightarrow> [] | Some j \<Rightarrow> [j]))"

definition is_finished :: "call_state \<Rightarrow> bool" where
  "is_finished c = (case cs_pc c of Finished _ \<Rightarrow> True | _ \<Rightarrow> False)"

definition enabled :: "run_dto \<Rightarrow> llm_call list \<Rightarrow> call_state list \<Rightarrow> nat \<Rightarrow> bool" where
  "enabled dto calls cs i \<longleftrightarrow> i < length cs \<and> \<not> is_finished (cs ! i) \<and>
     (cs_pc (cs ! i) = Waiting \<longrightarrow> list_all (\<lambda>j. is_finished (cs ! j)) (wait_for dto calls i))"

definition start_call :: "llm_call \<Rightarrow> call_state" where
  "start_call call = \<lparr>cs_name = lc_name call, cs_args = lc_args call, cs_preview = [], cs_pc = Waiting\<rparr>"

definition run_step ::
    "'w exec_env \<Rightarrow> run_dto \<Rightarrow> llm_call list \<Rightarrow> nat \<Rightarrow> call_state list \<times> 'w exec_state \<Rightarrow>
     call_state list \<times> 'w exec_state" where
  "run_step env dto calls i st =
    (let (cs, s) = st in
     if enabled dto calls cs i then (let (c, s') = call_step env dto (cs ! i) s in (cs[i := c], s'))
     else st)"

fun run_schedule ::
    "'w exec_env \<Rightarrow> run_dto \<Rightarrow> llm_call list \<Rightarrow> nat list \<Rightarrow> call_state list \<times> 'w exec_state \<Rightarrow>
     call_state list \<times> 'w exec_state" where
  "run_schedule env dto calls [] st = st"
| "run_schedule env dto calls (i # is) st = run_schedule env dto calls is (run_step env dto calls i st)"

text \<open>
  \<open>Promise.all\<close>: rejected with the first rejection, fulfilled with every content once all
  calls have returned, else still pending. The state is the one at that moment.
\<close>

definition is_rejected :: "call_state \<Rightarrow> bool" where
  "is_rejected c = (case cs_pc c of Finished (Rejected _) \<Rightarrow> True | _ \<Rightarrow> False)"

definition rejection :: "call_state list \<Rightarrow> agent_error option" where
  "rejection cs =
    (case find is_rejected cs of
       Some c \<Rightarrow> (case cs_pc c of Finished (Rejected e) \<Rightarrow> Some e | _ \<Rightarrow> None)
     | None \<Rightarrow> None)"

definition result_of :: "llm_call \<Rightarrow> call_state \<Rightarrow> llm_result" where
  "result_of call c =
     \<lparr>lr_id = lc_id call, lr_name = lc_name call,
      lr_content = (case cs_pc c of Finished (Returned t) \<Rightarrow> t | _ \<Rightarrow> [])\<rparr>"

fun settle ::
    "'w exec_env \<Rightarrow> run_dto \<Rightarrow> llm_call list \<Rightarrow> nat list \<Rightarrow> call_state list \<times> 'w exec_state \<Rightarrow>
     ((agent_error + llm_result list) \<times> 'w exec_state) option" where
  "settle env dto calls sched (cs, s) =
    (case rejection cs of
       Some e \<Rightarrow> Some (Inl e, s)
     | None \<Rightarrow>
         if list_all is_finished cs then Some (Inr (map2 result_of calls cs), s)
         else (case sched of
                 [] \<Rightarrow> None
               | i # rest \<Rightarrow> settle env dto calls rest (run_step env dto calls i (cs, s))))"

definition run_calls ::
    "'w exec_env \<Rightarrow> run_dto \<Rightarrow> llm_call list \<Rightarrow> nat list \<Rightarrow> 'w exec_state \<Rightarrow>
     ((agent_error + llm_result list) \<times> 'w exec_state) option" where
  "run_calls env dto calls sched s = settle env dto calls sched (map start_call calls, s)"

section \<open>Order of dependent calls\<close>

lemma last_before_less: "last_before P xs i = Some j \<Longrightarrow> j < i \<and> j < length xs \<and> P (xs ! j)"
  by (induction i) (auto split: if_splits)

lemma last_before_latest:
  "last_before P xs i = r \<Longrightarrow> k < i \<Longrightarrow> k < length xs \<Longrightarrow> P (xs ! k) \<Longrightarrow> \<exists>j. r = Some j \<and> k \<le> j"
proof (induction i arbitrary: r)
  case (Suc i)
  then show ?case by (cases "k = i") (auto split: if_splits simp: less_Suc_eq)
qed simp

lemma wait_for_less: "j \<in> set (wait_for dto calls i) \<Longrightarrow> j < i"
  by (auto simp: wait_for_def Let_def split: option.splits if_splits
      dest: last_before_less last_before_less [OF sym])

text \<open>A call with a repeated signature waits for the previous call with it.\<close>

lemma wait_for_signature:
  assumes "k < i" "k < length calls" "call_signature (calls ! k) = call_signature (calls ! i)"
  shows "\<exists>j \<in> set (wait_for dto calls i). k \<le> j \<and> j < i \<and> j < length calls \<and>
    call_signature (calls ! j) = call_signature (calls ! i)"
proof -
  let ?P = "\<lambda>d. call_signature d = call_signature (calls ! i)"
  obtain j where j: "last_before ?P calls i = Some j" "k \<le> j"
    using last_before_latest [of ?P calls i _ k] assms by blast
  then have "j \<in> set (wait_for dto calls i)" by (simp add: wait_for_def Let_def)
  with j last_before_less [OF j(1)] show ?thesis by blast
qed

section \<open>A step always moves on\<close>

text \<open>How many steps a call still has at most.\<close>

fun rank :: "pc \<Rightarrow> nat" where
  "rank Waiting = 9"
| "rank (AwaitCount _) = 8"
| "rank (AwaitEmitCall _ _) = 7"
| "rank (AwaitTool _ _ n) = 2 + 2 * (3 - n)"
| "rank (AwaitSleep _ _ n) = 3 + 2 * (2 - n)"
| "rank (AwaitEmitReuse _ _ _) = 2"
| "rank (AwaitRecord _ _ _ _ _) = 1"
| "rank (Finished _) = 0"

lemma rank_finished: "rank (cs_pc c) = 0 \<longleftrightarrow> is_finished c"
  by (cases "cs_pc c") (auto simp: is_finished_def)

text \<open>Unfolding the handlers of one step, and splitting their results.\<close>

lemmas handler_defs =
  handleToolCall_def handleDestructiveToolCall_def after_shortfall_def executeTrackedToolCall_def
  blockRepeatedCall_def after_tool_def after_record_def finish_def Let_def

lemmas step_splits =
  if_splits option.splits sum.splits prod.splits outcome.splits

lemma executeTracked_rank: "rank (cs_pc (fst (executeTrackedToolCall dto auto c s))) < 8"
  by (simp add: executeTrackedToolCall_def blockRepeatedCall_def Let_def split: step_splits)

lemma after_shortfall_rank: "rank (cs_pc (fst (after_shortfall dto m c s))) < 8"
  by (simp add: after_shortfall_def Let_def executeTracked_rank)

lemma below_9: "n < 8 \<Longrightarrow> n < (9 :: nat)"
  by simp

lemma handle_rank: "rank (cs_pc (fst (handleToolCall dto c s))) < 9"
  by (auto simp: handleToolCall_def handleDestructiveToolCall_def Let_def
      intro!: below_9 executeTracked_rank after_shortfall_rank split: option.splits)

lemma call_step_rank:
  assumes "\<not> is_finished c"
  shows "rank (cs_pc (fst (call_step env dto c s))) < rank (cs_pc c)"
proof (cases "cs_pc c")
  case Waiting
  then show ?thesis using handle_rank [of dto c s] by (simp add: call_step_def)
next
  case (AwaitCount q)
  then show ?thesis
    by (simp add: call_step_def Let_def case_prod_beta after_shortfall_rank)
qed (use assms in \<open>auto simp: call_step_def is_finished_def after_tool_def after_record_def finish_def
       Let_def limit_defs split: step_splits\<close>)

lemma call_step_identity:
  "cs_name (fst (call_step env dto c s)) = cs_name c"
  by (cases "cs_pc c")
    (auto simp: call_step_def handler_defs split: step_splits)

text \<open>Unfinished calls can always move: the earliest of them waits for nobody.\<close>

lemma some_enabled:
  assumes "length cs = length calls" and "\<not> list_all is_finished cs"
  shows "\<exists>i. enabled dto calls cs i"
proof -
  let ?open = "\<lambda>i. i < length cs \<and> \<not> is_finished (cs ! i)"
  have "\<exists>i. ?open i" using assms(2) by (auto simp: list_all_length)
  define i where "i = (LEAST i. ?open i)"
  have "?open i" unfolding i_def using \<open>\<exists>i. ?open i\<close> by (rule LeastI_ex)
  moreover have "is_finished (cs ! j)" if "j < i" for j
    using not_less_Least [of j ?open] that \<open>?open i\<close> by (auto simp: i_def)
  ultimately have "enabled dto calls cs i"
    by (auto simp: enabled_def list_all_iff dest: wait_for_less)
  then show ?thesis ..
qed

definition total_rank :: "call_state list \<Rightarrow> nat" where
  "total_rank cs = sum_list (map (\<lambda>c. rank (cs_pc c)) cs)"

lemma run_step_rank:
  assumes "run_step env dto calls i (cs, s) = (cs', s')"
  shows "length cs' = length cs" and "enabled dto calls cs i \<Longrightarrow> total_rank cs' < total_rank cs"
    and "\<not> enabled dto calls cs i \<Longrightarrow> cs' = cs"
proof -
  show "length cs' = length cs" using assms by (auto simp: run_step_def Let_def split: if_splits prod.splits)
  show "\<not> enabled dto calls cs i \<Longrightarrow> cs' = cs" using assms by (simp add: run_step_def)
  assume en: "enabled dto calls cs i"
  then have i: "i < length cs" "\<not> is_finished (cs ! i)" by (auto simp: enabled_def)
  have cs': "cs' = cs[i := fst (call_step env dto (cs ! i) s)]"
    using assms en by (auto simp: run_step_def Let_def split: prod.splits)
  have split: "cs = take i cs @ cs ! i # drop (Suc i) cs" using i(1) by (simp add: id_take_nth_drop)
  have "total_rank cs = total_rank (take i cs) + rank (cs_pc (cs ! i)) + total_rank (drop (Suc i) cs)"
    by (subst split) (simp add: total_rank_def)
  moreover have "total_rank cs' = total_rank (take i cs)
      + rank (cs_pc (fst (call_step env dto (cs ! i) s))) + total_rank (drop (Suc i) cs)"
    using i(1) unfolding cs' by (simp add: upd_conv_take_nth_drop total_rank_def)
  ultimately show "total_rank cs' < total_rank cs" using call_step_rank [OF i(2), of env dto s] by simp
qed

text \<open>
  From any state some schedule no longer than the remaining rank settles the run, and
  \<open>run_calls\<close> needs at most nine steps per call.
\<close>

lemma settles:
  "length cs = length calls \<Longrightarrow>
   \<exists>sched. length sched \<le> total_rank cs \<and> (\<exists>r. settle env dto calls sched (cs, s) = Some r)"
proof (induction "total_rank cs" arbitrary: cs s rule: less_induct)
  case less
  show ?case
  proof (cases "rejection cs = None \<and> \<not> list_all is_finished cs")
    case False
    then have "\<exists>r. settle env dto calls [] (cs, s) = Some r" by (auto split: option.split)
    then show ?thesis by (intro exI [of _ "[]"]) simp
  next
    case True
    then obtain i where en: "enabled dto calls cs i" using some_enabled [OF less.prems] by blast
    obtain cs' s' where st: "run_step env dto calls i (cs, s) = (cs', s')" by fastforce
    note rk = run_step_rank [OF st]
    obtain sched r where "length sched \<le> total_rank cs'" "settle env dto calls sched (cs', s') = Some r"
      using less.hyps [of cs' s'] rk(1,2) en less.prems by auto
    with True st rk(2) [OF en] show ?thesis by (intro exI [of _ "i # sched"]) auto
  qed
qed

lemma total_rank_start: "total_rank (map start_call calls) = 9 * length calls"
  by (induction calls) (auto simp: total_rank_def start_call_def)

end
