(* ===== verification/Tool_Safety.thy ===== *)
theory Tool_Safety
  imports Tool_Run
begin

text \<open>
  What holds of the tools really called, whatever the schedule: one owner per signature,
  two attempts at most, no destructive tool but the INSERT the gate lets through, and no
  reused result that was not first obtained from the tool.
\<close>

section \<open>The invariant\<close>

fun owns :: "pc \<Rightarrow> jstr option" where
  "owns (AwaitEmitCall _ sig) = Some sig"
| "owns (AwaitTool _ sig _) = Some sig"
| "owns (AwaitSleep _ sig _) = Some sig"
| "owns _ = None"

text \<open>The attempts an owner has behind it, and the shape of its counter.\<close>

fun attempts_made :: "pc \<Rightarrow> nat" where
  "attempts_made (AwaitTool _ _ n) = n - 1"
| "attempts_made (AwaitSleep _ _ n) = n"
| "attempts_made _ = 0"

fun pc_wf :: "pc \<Rightarrow> bool" where
  "pc_wf (AwaitTool _ _ n) = (n = 1 \<or> n = 2)"
| "pc_wf (AwaitSleep _ _ n) = (n = 1)"
| "pc_wf _ = True"

definition permitted :: "run_dto \<Rightarrow> jstr \<Rightarrow> args \<Rightarrow> bool" where
  "permitted dto name a \<longleftrightarrow>
     (isDestructive (dto_mcpTools dto) name \<longrightarrow> isAutoApprovableInsert (dto_provider dto) name a)"

definition log_wf :: "'w exec_state \<Rightarrow> bool" where
  "log_wf s \<longleftrightarrow>
     distinct (map (\<lambda>r. (rc_sig r, rc_attempt r)) (realCalls s)) \<and>
     (\<forall>r \<in> set (realCalls s). used (guard s) (rc_sig r) \<and> rc_attempt r \<in> {1, 2} \<and>
        permitted (rc_dto r) (rc_name r) (rc_args r)) \<and>
     (\<forall>sig. successCache (guard s) sig \<noteq> None \<longrightarrow> sig \<in> rc_sig ` set (realCalls s))"

definition call_ok :: "run_dto \<Rightarrow> 'w exec_state \<Rightarrow> call_state \<Rightarrow> bool" where
  "call_ok dto s c \<longleftrightarrow> pc_wf (cs_pc c) \<and>
     (\<forall>sig. owns (cs_pc c) = Some sig \<longrightarrow>
        used (guard s) sig \<and> permitted dto (cs_name c) (cs_args c) \<and>
        (\<forall>r \<in> set (realCalls s). rc_sig r = sig \<longrightarrow> rc_attempt r \<le> attempts_made (cs_pc c))) \<and>
     (\<forall>auto st p ret sig. cs_pc c = AwaitRecord auto st p ret (Some sig) \<longrightarrow>
        sig \<in> rc_sig ` set (realCalls s))"

definition one_owner :: "call_state list \<Rightarrow> bool" where
  "one_owner cs \<longleftrightarrow>
     (\<forall>i j sig. i < length cs \<longrightarrow> j < length cs \<longrightarrow> owns (cs_pc (cs ! i)) = Some sig \<longrightarrow>
        owns (cs_pc (cs ! j)) = Some sig \<longrightarrow> i = j)"

definition run_inv :: "run_dto \<Rightarrow> call_state list \<times> 'w exec_state \<Rightarrow> bool" where
  "run_inv dto st \<longleftrightarrow> log_wf (snd st) \<and> one_owner (fst st) \<and> (\<forall>c \<in> set (fst st). call_ok dto (snd st) c)"

section \<open>The effect of one step\<close>

lemma used_record [simp]:
  "used (snd (recordAttempt sig g)) x \<longleftrightarrow> x = sig \<or> used g x"
  by (auto simp: used_def count_def recordAttempt_def Let_def)

lemma used_cache [simp]: "used (cacheSuccess sig p f g) = used g"
  by (simp add: used_def fun_eq_iff)

lemma record_first: "fst (recordAttempt sig g) \<le> 1 \<Longrightarrow> \<not> used g sig"
  by (simp add: recordAttempt_def used_def count_def Let_def)

text \<open>A tracked call either becomes the owner of a fresh signature or owns nothing.\<close>

lemma executeTracked_effect:
  assumes "executeTrackedToolCall dto auto c s = (c', s')"
  defines "sig \<equiv> signature_of (cs_name c) (cs_args c)"
  shows "guard s' = snd (recordAttempt sig (guard s))" "realCalls s' = realCalls s"
    "trace s' = trace s" "cs_name c' = cs_name c" "cs_args c' = cs_args c"
    "cs_pc c' = AwaitEmitCall auto sig \<and> \<not> used (guard s) sig
      \<or> owns (cs_pc c') = None \<and> pc_wf (cs_pc c') \<and> (\<forall>a st p r x. cs_pc c' \<noteq> AwaitRecord a st p r (Some x))"
  using assms record_first [of sig "guard s"]
  by (auto simp: executeTrackedToolCall_def blockRepeatedCall_def Let_def limit_defs sig_def
      split: option.splits if_splits prod.splits)

text \<open>
  The calls of the handler that come before a tool may run: what they own afterwards is
  fresh and permitted.
\<close>

definition fresh_effect :: "run_dto \<Rightarrow> 'w exec_state \<Rightarrow> call_state \<Rightarrow> 'w exec_state \<Rightarrow> bool" where
  "fresh_effect dto s c' s' \<longleftrightarrow>
     realCalls s' = realCalls s \<and> successCache (guard s') = successCache (guard s) \<and>
     (\<forall>x. used (guard s) x \<longrightarrow> used (guard s') x) \<and>
     ((\<exists>auto sig. cs_pc c' = AwaitEmitCall auto sig \<and> \<not> used (guard s) sig \<and> used (guard s') sig \<and>
         permitted dto (cs_name c') (cs_args c'))
      \<or> owns (cs_pc c') = None \<and> pc_wf (cs_pc c') \<and>
        (\<forall>a st p r x. cs_pc c' \<noteq> AwaitRecord a st p r (Some x)))"

lemma fresh_executeTracked:
  assumes "executeTrackedToolCall dto auto c s = (c', s')" "permitted dto (cs_name c) (cs_args c)"
  shows "fresh_effect dto s c' s'"
  using executeTracked_effect [OF assms(1)] assms(2) unfolding fresh_effect_def by auto

lemma fresh_after_shortfall:
  assumes "after_shortfall dto m c s = (c', s')"
  shows "fresh_effect dto s c' s'"
proof (cases "\<not> truthy m \<and> isAutoApprovableInsert (dto_provider dto) (cs_name c) (cs_args c)")
  case True
  with assms have "executeTrackedToolCall dto True c s = (c', s')" by (simp add: after_shortfall_def)
  with True show ?thesis by (intro fresh_executeTracked) (auto simp: permitted_def)
next
  case False
  with assms show ?thesis
    by (auto simp: after_shortfall_def fresh_effect_def Let_def split: if_splits)
qed

lemma fresh_idle: "fresh_effect dto s (c\<lparr>cs_pc := AwaitCount q\<rparr>) s"
  by (simp add: fresh_effect_def)

lemma fresh_handle:
  assumes "handleToolCall dto c s = (c', s')"
  shows "fresh_effect dto s c' s'"
proof -
  let ?c = "c\<lparr>cs_preview := formatArgsPreview (cs_args c)\<rparr>"
  show ?thesis
  proof (cases "isDestructive (dto_mcpTools dto) (cs_name c)")
    case True
    with assms have "handleDestructiveToolCall dto ?c s = (c', s')" by (simp add: handleToolCall_def Let_def)
    then show ?thesis
      by (auto simp: handleDestructiveToolCall_def split: option.splits
          intro: fresh_after_shortfall fresh_idle)
  next
    case False
    with assms have "executeTrackedToolCall dto False ?c s = (c', s')" by (simp add: handleToolCall_def Let_def)
    with False show ?thesis by (intro fresh_executeTracked) (auto simp: permitted_def)
  qed
qed

lemma fresh_frame:
  "fresh_effect dto s0 c' s' \<Longrightarrow> guard s0 = guard s \<Longrightarrow> realCalls s0 = realCalls s \<Longrightarrow> fresh_effect dto s c' s'"
  by (simp add: fresh_effect_def)

lemma fresh_count:
  assumes "cs_pc c = AwaitCount q" "call_step env dto c s = (c', s')"
  shows "fresh_effect dto s c' s'"
proof -
  obtain n s1 where n: "getRequiredCount env dto s = (n, s1)" by fastforce
  obtain m a ts where m: "checkBulkInsertShortfall q n (cs_args c) (tables s1) = (m, a, ts)"
    by (metis prod_cases3)
  have "guard s1 = guard s" "realCalls s1 = realCalls s"
    using n by (auto simp: getRequiredCount_def split: option.splits prod.splits)
  moreover have "after_shortfall dto m (c\<lparr>cs_args := a\<rparr>) (s1\<lparr>tables := ts\<rparr>) = (c', s')"
    using assms n m by (simp add: call_step_def)
  ultimately show ?thesis by (auto dest: fresh_after_shortfall intro: fresh_frame)
qed

text \<open>A fresh step keeps the log and every other call; the call that made it is in order.\<close>

lemma fresh_log_wf: "fresh_effect dto s c' s' \<Longrightarrow> log_wf s \<Longrightarrow> log_wf s'"
  by (auto simp: fresh_effect_def log_wf_def)

lemma fresh_call_ok: "fresh_effect dto s c' s' \<Longrightarrow> log_wf s \<Longrightarrow> call_ok dto s' c'"
  unfolding fresh_effect_def log_wf_def call_ok_def by fastforce

lemma fresh_other: "fresh_effect dto s c' s' \<Longrightarrow> call_ok dto s d \<Longrightarrow> call_ok dto s' d"
  unfolding fresh_effect_def call_ok_def by fastforce

lemma fresh_owns: "fresh_effect dto s c' s' \<Longrightarrow> owns (cs_pc c') = Some sig \<Longrightarrow> \<not> used (guard s) sig"
  unfolding fresh_effect_def by auto

text \<open>
  The steps behind the guard: the call keeps its signature or drops it, and only a step
  at \<open>AwaitTool\<close> adds to the log, under that signature and the next attempt.
\<close>

definition fresh_pc :: "pc \<Rightarrow> bool" where
  "fresh_pc p = (case p of Waiting \<Rightarrow> True | AwaitCount _ \<Rightarrow> True | _ \<Rightarrow> False)"

definition new_log :: "run_dto \<Rightarrow> call_state \<Rightarrow> real_call list" where
  "new_log dto c =
    (case cs_pc c of
       AwaitTool auto sig n \<Rightarrow>
         [\<lparr>rc_sig = sig, rc_attempt = n, rc_name = cs_name c, rc_args = cs_args c, rc_dto = dto\<rparr>]
     | _ \<Rightarrow> [])"

definition kept_pc :: "run_dto \<Rightarrow> call_state \<Rightarrow> call_state \<Rightarrow> bool" where
  "kept_pc dto c c' \<longleftrightarrow>
     (\<forall>sig. owns (cs_pc c') = Some sig \<longrightarrow> owns (cs_pc c) = Some sig \<and>
        attempts_made (cs_pc c) + length (new_log dto c) \<le> attempts_made (cs_pc c'))"

lemma later_step:
  assumes "\<not> fresh_pc (cs_pc c)" "call_step env dto c s = (c', s')" "pc_wf (cs_pc c)"
  shows "realCalls s' = realCalls s @ new_log dto c" "attempts (guard s') = attempts (guard s)"
    "cs_name c' = cs_name c" "cs_args c' = cs_args c" "pc_wf (cs_pc c')" "kept_pc dto c c'"
  using assms
  by (cases "cs_pc c"; auto simp: fresh_pc_def call_step_def after_tool_def after_record_def finish_def
      new_log_def kept_pc_def Let_def limit_defs split: step_splits)+

lemma later_cache:
  assumes "\<not> fresh_pc (cs_pc c)" "call_step env dto c s = (c', s')"
  shows "successCache (guard s') x \<noteq> successCache (guard s) x \<Longrightarrow>
      \<exists>auto st p ret. cs_pc c = AwaitRecord auto st p ret (Some x)"
    and "cs_pc c' = AwaitRecord auto st p ret (Some x) \<Longrightarrow> \<exists>auto n. cs_pc c = AwaitTool auto x n"
  using assms
  by (cases "cs_pc c"; auto simp: fresh_pc_def call_step_def after_tool_def after_record_def finish_def
      cacheSuccess_def Let_def split: step_splits)+

lemma used_later:
  "\<not> fresh_pc (cs_pc c) \<Longrightarrow> call_step env dto c s = (c', s') \<Longrightarrow> pc_wf (cs_pc c) \<Longrightarrow>
   used (guard s') = used (guard s)"
  by (simp add: later_step(2) used_def count_def fun_eq_iff)

lemma new_log_owned:
  "r \<in> set (new_log dto c) \<Longrightarrow> owns (cs_pc c) = Some (rc_sig r)"
  "r \<in> set (new_log dto c) \<Longrightarrow> rc_attempt r = attempts_made (cs_pc c) + 1 \<or> \<not> pc_wf (cs_pc c)"
  "r \<in> set (new_log dto c) \<Longrightarrow> rc_name r = cs_name c \<and> rc_args r = cs_args c \<and> rc_dto r = dto"
  "r \<in> set (new_log dto c) \<Longrightarrow> pc_wf (cs_pc c) \<Longrightarrow> rc_attempt r \<in> {1, 2}"
  by (cases "cs_pc c"; auto simp: new_log_def)+

lemma distinct_new_log: "distinct (map (\<lambda>r. (rc_sig r, rc_attempt r)) (new_log dto c))"
  by (simp add: new_log_def split: pc.splits)

lemma later_log_wf:
  assumes "\<not> fresh_pc (cs_pc c)" "call_step env dto c s = (c', s')" "call_ok dto s c" "log_wf s"
  shows "log_wf s'"
proof -
  have wf: "pc_wf (cs_pc c)" using assms(3) by (simp add: call_ok_def)
  note st = later_step [OF assms(1,2) wf]
  have owned: "used (guard s) (rc_sig r) \<and> permitted (rc_dto r) (rc_name r) (rc_args r) \<and> rc_attempt r \<in> {1, 2} \<and>
      (\<forall>r' \<in> set (realCalls s). rc_sig r' = rc_sig r \<longrightarrow> rc_attempt r' < rc_attempt r)"
    if "r \<in> set (new_log dto c)" for r
    using new_log_owned [OF that] wf assms(3) unfolding call_ok_def by fastforce
  then have fresh: "(rc_sig r, rc_attempt r) \<notin> (\<lambda>r. (rc_sig r, rc_attempt r)) ` set (realCalls s)"
    if "r \<in> set (new_log dto c)" for r
    using that by force
  have "x \<notin> (\<lambda>r. (rc_sig r, rc_attempt r)) ` set (realCalls s)"
    if "x \<in> (\<lambda>r. (rc_sig r, rc_attempt r)) ` set (new_log dto c)" for x
    using that by (elim imageE, hypsubst) (rule fresh)
  then have "distinct (map (\<lambda>r. (rc_sig r, rc_attempt r)) (realCalls s @ new_log dto c))"
    using assms(4) distinct_new_log [of dto c] by (simp only: log_wf_def map_append distinct_append set_map) blast
  moreover have "sig \<in> rc_sig ` set (realCalls s')" if "successCache (guard s') sig \<noteq> None" for sig
  proof -
    have "sig \<in> rc_sig ` set (realCalls s)"
    proof (cases "successCache (guard s) sig = None")
      case True
      then obtain auto st p ret where "cs_pc c = AwaitRecord auto st p ret (Some sig)"
        using later_cache(1) [OF assms(1,2), of sig] \<open>successCache (guard s') sig \<noteq> None\<close> by auto
      with assms(3) show ?thesis by (simp add: call_ok_def)
    next
      case False
      with assms(4) show ?thesis by (simp add: log_wf_def)
    qed
    then show ?thesis by (auto simp: st(1))
  qed
  ultimately show ?thesis
    using assms(4) owned used_later [OF assms(1,2) wf] unfolding log_wf_def st(1) by auto
qed

lemma later_call_ok:
  assumes "\<not> fresh_pc (cs_pc c)" "call_step env dto c s = (c', s')" "call_ok dto s c"
  shows "call_ok dto s' c'"
proof -
  have wf: "pc_wf (cs_pc c)" using assms(3) by (simp add: call_ok_def)
  note st = later_step [OF assms(1,2) wf]
  have "rc_attempt r \<le> attempts_made (cs_pc c')"
    if "owns (cs_pc c') = Some sig" "r \<in> set (realCalls s')" "rc_sig r = sig" for sig r
  proof -
    have c: "owns (cs_pc c) = Some sig"
      and le: "attempts_made (cs_pc c) + length (new_log dto c) \<le> attempts_made (cs_pc c')"
      using st(6) that(1) by (auto simp: kept_pc_def)
    have "rc_attempt r \<le> attempts_made (cs_pc c) + length (new_log dto c)"
    proof (cases "r \<in> set (new_log dto c)")
      case True
      then have "1 \<le> length (new_log dto c)" by (cases "new_log dto c") auto
      with new_log_owned(2) [OF True] wf show ?thesis by auto
    next
      case False
      with that(2) st(1) have "r \<in> set (realCalls s)" by auto
      with assms(3) c that(3) show ?thesis unfolding call_ok_def by fastforce
    qed
    with le show ?thesis by simp
  qed
  moreover have "sig \<in> rc_sig ` set (realCalls s')"
    if "cs_pc c' = AwaitRecord auto rs p ret (Some sig)" for auto rs p ret sig
    using later_cache(2) [OF assms(1,2) that] st(1) by (auto simp: new_log_def)
  ultimately show ?thesis
    using st assms(3) used_later [OF assms(1,2) wf] unfolding call_ok_def kept_pc_def by auto
qed

lemma later_other:
  assumes "\<not> fresh_pc (cs_pc c)" "call_step env dto c s = (c', s')" "call_ok dto s c" "call_ok dto s d"
    and other: "\<And>sig. owns (cs_pc c) = Some sig \<Longrightarrow> owns (cs_pc d) \<noteq> Some sig"
  shows "call_ok dto s' d"
proof -
  have wf: "pc_wf (cs_pc c)" using assms(3) by (simp add: call_ok_def)
  have "r \<in> set (realCalls s)" if "r \<in> set (realCalls s')" "owns (cs_pc d) = Some (rc_sig r)" for r
    using that other new_log_owned(1) [of r dto c] later_step(1) [OF assms(1,2) wf] by auto
  moreover have "rc_sig ` set (realCalls s) \<subseteq> rc_sig ` set (realCalls s')"
    using later_step(1) [OF assms(1,2) wf] by auto
  ultimately show ?thesis
    using assms(4) used_later [OF assms(1,2) wf] unfolding call_ok_def by (auto simp: subset_iff)
qed

section \<open>Every schedule keeps the invariant\<close>

lemma fresh_pc_effect:
  assumes "fresh_pc (cs_pc c)" "call_step env dto c s = (c', s')"
  shows "fresh_effect dto s c' s'"
  using assms fresh_handle [of dto c s c' s'] fresh_count [of c _ env dto s c' s']
  by (auto simp: fresh_pc_def call_step_def split: pc.splits)

lemma call_step_inv:
  assumes "call_step env dto c s = (c', s')" "call_ok dto s c" "log_wf s"
  shows "log_wf s'" "call_ok dto s' c'"
    and "call_ok dto s d \<Longrightarrow> (\<And>sig. owns (cs_pc c) = Some sig \<Longrightarrow> owns (cs_pc d) \<noteq> Some sig) \<Longrightarrow>
      call_ok dto s' d"
    and "owns (cs_pc c') = Some sig \<Longrightarrow> owns (cs_pc c) = Some sig \<or> \<not> used (guard s) sig"
proof -
  have wf: "pc_wf (cs_pc c)" using assms(2) by (simp add: call_ok_def)
  show "log_wf s'"
    using later_log_wf [OF _ assms] fresh_log_wf [OF fresh_pc_effect [OF _ assms(1)] assms(3)] by blast
  show "call_ok dto s' c'"
    using later_call_ok [OF _ assms(1,2)] fresh_call_ok [OF fresh_pc_effect [OF _ assms(1)] assms(3)] by blast
  show "call_ok dto s' d" if "call_ok dto s d"
    "\<And>sig. owns (cs_pc c) = Some sig \<Longrightarrow> owns (cs_pc d) \<noteq> Some sig"
    using later_other [OF _ assms(1,2) that] fresh_other [OF fresh_pc_effect [OF _ assms(1)] that(1)] by blast
  show "owns (cs_pc c') = Some sig \<Longrightarrow> owns (cs_pc c) = Some sig \<or> \<not> used (guard s) sig"
    using later_step(6) [OF _ assms(1) wf] fresh_owns [OF fresh_pc_effect [OF _ assms(1)]]
    by (auto simp: kept_pc_def)
qed

lemma run_step_inv:
  assumes "run_inv dto (cs, s)"
  shows "run_inv dto (run_step env dto calls i (cs, s))"
proof (cases "enabled dto calls cs i")
  case False
  with assms show ?thesis by (simp add: run_step_def)
next
  case True
  then have i: "i < length cs" by (simp add: enabled_def)
  obtain c' s' where st: "call_step env dto (cs ! i) s = (c', s')" by fastforce
  have ok: "call_ok dto s (cs ! j)" if "j < length cs" for j
    using assms that by (simp add: run_inv_def)
  have one: "one_owner cs" and log: "log_wf s" using assms by (auto simp: run_inv_def)
  note eff = call_step_inv [OF st ok [OF i] log]
  have apart: "owns (cs_pc (cs ! j)) \<noteq> Some sig" if "owns (cs_pc (cs ! i)) = Some sig" "j < length cs" "j \<noteq> i" for j sig
    using one that i unfolding one_owner_def by blast
  have "call_ok dto s' (cs[i := c'] ! j)" if "j < length cs" for j
    using eff(2) eff(3) [OF ok [OF that]] apart that by (cases "j = i") auto
  moreover have "owns (cs_pc c') \<noteq> owns (cs_pc (cs ! j)) \<or> owns (cs_pc c') = None" if "j < length cs" "j \<noteq> i" for j
    using eff(4) apart that ok [OF that(1)] unfolding call_ok_def by (cases "owns (cs_pc c')") fastforce+
  then have "one_owner (cs[i := c'])"
    using one i unfolding one_owner_def by (simp add: nth_list_update) (metis option.distinct(1))
  ultimately show ?thesis
    using eff(1) True st by (auto simp: run_inv_def run_step_def all_set_conv_all_nth Let_def)
qed

lemma run_schedule_inv: "run_inv dto st \<Longrightarrow> run_inv dto (run_schedule env dto calls sched st)"
proof (induction sched arbitrary: st)
  case (Cons i sched)
  then show ?case using run_step_inv [of dto "fst st" "snd st"] by simp
qed simp

lemma run_inv_start: "log_wf s \<Longrightarrow> run_inv dto (map start_call calls, s)"
  by (auto simp: run_inv_def one_owner_def call_ok_def start_call_def)

section \<open>A whole turn\<close>

text \<open>
  One guard serves every run of a turn: the runs of one agent after another, each with
  its own request and tools, each under its own schedule. A run starts with an empty
  accumulator, count and trace; the guard (and the history) goes on.
\<close>

definition fresh_exec :: "'w \<Rightarrow> 'w exec_state" where
  "fresh_exec w =
     \<lparr>guard = new_guard, tables = Map.empty, requiredCount = None, trace = [], realCalls = [], world = w\<rparr>"

fun run_turn ::
    "'w exec_env \<Rightarrow> (run_dto \<times> bool \<times> llm_call list \<times> nat list) list \<Rightarrow> 'w exec_state \<Rightarrow> 'w exec_state" where
  "run_turn env [] s = s"
| "run_turn env ((dto, new_loop, calls, sched) # rest) s =
     (let s = (if new_loop then s\<lparr>tables := Map.empty, requiredCount := None, trace := []\<rparr> else s)
      in run_turn env rest (snd (run_schedule env dto calls sched (map start_call calls, s))))"

lemma log_wf_fresh [simp]: "log_wf (fresh_exec w)"
  by (simp add: log_wf_def fresh_exec_def new_guard_def)

lemma log_wf_new_loop [simp]:
  "log_wf (s\<lparr>tables := a, requiredCount := b, trace := c\<rparr>) = log_wf s"
  by (simp add: log_wf_def)

lemma run_schedule_log_wf:
  "log_wf s \<Longrightarrow> log_wf (snd (run_schedule env dto calls sched (map start_call calls, s)))"
proof -
  assume "log_wf s"
  then have "run_inv dto (run_schedule env dto calls sched (map start_call calls, s))"
    by (intro run_schedule_inv run_inv_start)
  then show ?thesis by (simp add: run_inv_def)
qed

lemma run_turn_log_wf: "log_wf s \<Longrightarrow> log_wf (run_turn env runs s)"
  by (induction env runs s rule: run_turn.induct) (simp_all add: Let_def run_schedule_log_wf)

lemma log_wf_at_most_two:
  assumes "log_wf s"
  shows "length (filter (\<lambda>r. rc_sig r = sig) (realCalls s)) \<le> 2"
proof -
  let ?own = "filter (\<lambda>r. rc_sig r = sig) (realCalls s)"
  have "distinct (map (\<lambda>r. (rc_sig r, rc_attempt r)) ?own)"
    using assms by (auto simp: log_wf_def intro: distinct_map_filter)
  then have "distinct (map rc_attempt ?own)" by (auto simp: distinct_map inj_on_def)
  moreover have "set (map rc_attempt ?own) \<subseteq> {1, 2}" using assms by (auto simp: log_wf_def)
  ultimately have "length ?own \<le> card {1 :: nat, 2}"
    by (metis card_mono distinct_card finite.emptyI finite_insert length_map)
  then show ?thesis by simp
qed

end
