(* ===== verification/Tool_Runner.thy ===== *)
theory Tool_Runner
  imports Tool_Safety
begin

text \<open>
  What the agent loop relies on when it hands a turn's calls to the executor, as a
  locale, and the proof that the executor provides it: under any schedule that keeps
  visiting the calls, a run ends.
\<close>

section \<open>The interface\<close>

locale tool_runner =
  fixes runTools :: "llm_call list \<Rightarrow> 's \<Rightarrow> (agent_error + llm_result list) \<times> 's"
    and getToolCalls :: "'s \<Rightarrow> tool_trace list"
  assumes trace_grows: "prefix (getToolCalls s) (getToolCalls (snd (runTools calls s)))"
    and answers_calls: "fst (runTools calls s) = Inr rs \<Longrightarrow>
      map (\<lambda>r. (lr_id r, lr_name r)) rs = map (\<lambda>c. (lc_id c, lc_name c)) calls"
begin

text \<open>The calls of several turns one after another, up to the first error.\<close>

fun run_all :: "llm_call list list \<Rightarrow> 's \<Rightarrow> (agent_error + llm_result list list) \<times> 's" where
  "run_all [] s = (Inr [], s)"
| "run_all (calls # rest) s =
     (case runTools calls s of
        (Inl e, s) \<Rightarrow> (Inl e, s)
      | (Inr rs, s) \<Rightarrow> (case run_all rest s of (Inl e, s) \<Rightarrow> (Inl e, s) | (Inr rss, s) \<Rightarrow> (Inr (rs # rss), s)))"

lemma run_all_trace: "prefix (getToolCalls s) (getToolCalls (snd (run_all css s)))"
proof (induction css arbitrary: s)
  case (Cons calls rest)
  obtain r s1 where r: "runTools calls s = (r, s1)" by fastforce
  then have p: "prefix (getToolCalls s) (getToolCalls s1)" using trace_grows [of s calls] by simp
  show ?case
  proof (cases r)
    case (Inr rs)
    obtain q s2 where q: "run_all rest s1 = (q, s2)" by fastforce
    have "prefix (getToolCalls s1) (getToolCalls s2)" using Cons.IH [of s1] q by simp
    then have "prefix (getToolCalls s) (getToolCalls s2)" using p by (rule prefix_order.trans [rotated])
    then show ?thesis using r Inr q by (simp split: sum.split)
  qed (use r p in simp)
qed simp

lemma run_all_answers:
  "fst (run_all css s) = Inr rss \<Longrightarrow>
   map (map (\<lambda>r. (lr_id r, lr_name r))) rss = map (map (\<lambda>c. (lc_id c, lc_name c))) css"
proof (induction css arbitrary: s rss)
  case (Cons calls rest)
  obtain r s1 where r: "runTools calls s = (r, s1)" by fastforce
  with Cons.prems obtain rs where rs: "r = Inr rs" by (cases r) auto
  obtain q s2 where q: "run_all rest s1 = (q, s2)" by fastforce
  with Cons.prems r rs obtain rss' where "q = Inr rss'" "rss = rs # rss'" by (cases q) auto
  then show ?case using Cons.IH [of s1 rss'] answers_calls [of calls s rs] r rs q by simp
qed simp

end

section \<open>Fair schedules end\<close>

lemma run_schedule_length: "length (fst (run_schedule env dto calls sched st)) = length (fst st)"
proof (induction sched arbitrary: st)
  case (Cons i sched)
  obtain cs s where st: "st = (cs, s)" by (cases st)
  obtain cs' s' where "run_step env dto calls i (cs, s) = (cs', s')" by fastforce
  then show ?case using Cons [of "(cs', s')"] run_step_rank(1) st by simp
qed simp

lemma run_step_rank_le: "total_rank (fst (run_step env dto calls i st)) \<le> total_rank (fst st)"
proof -
  obtain cs s cs' s' where st: "st = (cs, s)" "run_step env dto calls i (cs, s) = (cs', s')"
    by (metis surj_pair)
  then show ?thesis using run_step_rank(2,3) [OF st(2)] by (cases "enabled dto calls cs i") auto
qed

lemma run_schedule_rank_le: "total_rank (fst (run_schedule env dto calls sched st)) \<le> total_rank (fst st)"
proof (induction sched arbitrary: st)
  case (Cons i sched)
  then show ?case using le_trans [OF Cons.IH run_step_rank_le] by simp
qed simp

lemma pass_rank:
  "enabled dto calls (fst st) i \<Longrightarrow> i \<in> set sched \<Longrightarrow>
   total_rank (fst (run_schedule env dto calls sched st)) < total_rank (fst st)"
proof (induction sched arbitrary: st)
  case (Cons j sched)
  obtain cs s where st: "st = (cs, s)" by (cases st)
  obtain cs' s' where step: "run_step env dto calls j (cs, s) = (cs', s')" by fastforce
  show ?case
  proof (cases "enabled dto calls cs j")
    case True
    then show ?thesis
      using run_step_rank(2) [OF step] run_schedule_rank_le [of env dto calls sched "(cs', s')"] st step by simp
  next
    case False
    then have "run_step env dto calls j (cs, s) = (cs, s)" by (simp add: run_step_def)
    then show ?thesis using Cons False st by auto
  qed
qed simp

lemma settle_longer: "settle env dto calls sched st = Some r \<Longrightarrow> settle env dto calls (sched @ later) st = Some r"
proof (induction sched arbitrary: st)
  case Nil
  then show ?case by (cases st; cases later) (auto split: option.splits if_splits)
next
  case (Cons i sched)
  obtain cs s where "st = (cs, s)" by (cases st)
  then show ?case using Cons by (auto split: option.splits if_splits)
qed

lemma settle_rest:
  "settle env dto calls sched st = None \<Longrightarrow>
   settle env dto calls (sched @ later) st = settle env dto calls later (run_schedule env dto calls sched st)"
proof (induction sched arbitrary: st)
  case (Cons i sched)
  obtain cs s where "st = (cs, s)" by (cases st)
  then show ?case using Cons by (auto split: option.splits if_splits)
qed simp

lemma unsettled:
  "settle env dto calls sched (cs, s) = None \<Longrightarrow> rejection cs = None \<and> \<not> list_all is_finished cs"
  by (cases sched) (auto split: option.splits if_splits)

lemma fair_settles:
  assumes "length (fst st) = length calls" "total_rank (fst st) \<le> k"
  shows "settle env dto calls (concat (replicate k [0..<length calls])) st \<noteq> None"
  using assms
proof (induction k arbitrary: st)
  case 0
  obtain cs s where st: "st = (cs, s)" by (cases st)
  with 0 have "total_rank cs = 0" by simp
  then have "list_all is_finished cs"
    by (auto simp: total_rank_def list_all_iff simp flip: rank_finished)
  then show ?case by (simp add: st split: option.split)
next
  case (Suc k)
  obtain cs s where st: "st = (cs, s)" by (cases st)
  let ?pass = "[0..<length calls]" and ?rest = "concat (replicate k [0..<length calls])"
  have eq: "concat (replicate (Suc k) ?pass) = ?pass @ ?rest" by simp
  show ?case
  proof (cases "settle env dto calls ?pass st")
    case (Some r)
    then show ?thesis using settle_longer [OF Some, of ?rest] eq by simp
  next
    case None
    then have "\<not> list_all is_finished cs" using unsettled st by blast
    moreover have len: "length cs = length calls" using Suc.prems(1) st by simp
    ultimately obtain i where i: "enabled dto calls cs i" using some_enabled by blast
    then have "i \<in> set ?pass" using len by (simp add: enabled_def)
    then have "total_rank (fst (run_schedule env dto calls ?pass st)) < total_rank (fst st)"
      using pass_rank [of dto calls st i ?pass env] i st by simp
    then have "total_rank (fst (run_schedule env dto calls ?pass st)) \<le> k" using Suc.prems(2) by linarith
    moreover have "length (fst (run_schedule env dto calls ?pass st)) = length calls"
      using Suc.prems(1) by (simp only: run_schedule_length)
    ultimately have "settle env dto calls ?rest (run_schedule env dto calls ?pass st) \<noteq> None"
      by (intro Suc.IH)
    then show ?thesis unfolding eq using settle_rest [OF None, of ?rest] by simp
  qed
qed

definition fair_rounds :: "llm_call list \<Rightarrow> nat list" where
  "fair_rounds calls = concat (replicate (9 * length calls) [0..<length calls])"

lemma run_calls_fair: "run_calls env dto calls (sched @ fair_rounds calls) s \<noteq> None"
proof (cases "settle env dto calls sched (map start_call calls, s)")
  case (Some r)
  then show ?thesis using settle_longer [OF Some, of "fair_rounds calls"] by (simp add: run_calls_def)
next
  case None
  let ?st = "run_schedule env dto calls sched (map start_call calls, s)"
  have "total_rank (fst ?st) \<le> 9 * length calls"
    using run_schedule_rank_le [of env dto calls sched "(map start_call calls, s)"] total_rank_start by simp
  then have "settle env dto calls (fair_rounds calls) ?st \<noteq> None"
    unfolding fair_rounds_def by (intro fair_settles) (auto simp: run_schedule_length)
  then show ?thesis unfolding run_calls_def settle_rest [OF None] .
qed

section \<open>The executor provides it\<close>

text \<open>
  The executor under a scheduler: \<open>pick\<close> chooses the first steps from the state, then
  every call is visited again and again.
\<close>

definition runTools ::
    "'w exec_env \<Rightarrow> run_dto \<Rightarrow> (llm_call list \<Rightarrow> 'w exec_state \<Rightarrow> nat list) \<Rightarrow> llm_call list \<Rightarrow>
     'w exec_state \<Rightarrow> (agent_error + llm_result list) \<times> 'w exec_state" where
  "runTools env dto pick calls s =
    (case run_calls env dto calls (pick calls s @ fair_rounds calls) s of
       Some r \<Rightarrow> r
     | None \<Rightarrow> (Inl (Failure []), s))"

lemma executeTracked_trace: "trace (snd (executeTrackedToolCall dto auto c s)) = trace s"
  by (simp add: executeTrackedToolCall_def blockRepeatedCall_def Let_def split: step_splits)

lemma after_shortfall_trace: "trace (snd (after_shortfall dto m c s)) = trace s"
  by (simp add: after_shortfall_def Let_def executeTracked_trace)

lemma handle_trace: "trace (snd (handleToolCall dto c s)) = trace s"
  by (simp add: handleToolCall_def handleDestructiveToolCall_def Let_def executeTracked_trace after_shortfall_trace
      split: option.split)

lemma call_step_trace: "prefix (trace s) (trace (snd (call_step env dto c s)))"
proof (cases "cs_pc c")
  case Waiting
  then show ?thesis by (simp add: call_step_def handle_trace)
next
  case (AwaitCount q)
  then show ?thesis
    by (auto simp: call_step_def Let_def case_prod_beta after_shortfall_trace getRequiredCount_def split: option.split)
qed (auto simp: call_step_def after_tool_def after_record_def finish_def Let_def split: step_splits)

lemma run_step_trace: "prefix (trace (snd st)) (trace (snd (run_step env dto calls i st)))"
  using call_step_trace [of "snd st" env dto "fst st ! i"]
  by (auto simp: run_step_def Let_def split: prod.splits)

lemma settle_trace:
  "settle env dto calls sched st = Some (r, s') \<Longrightarrow> prefix (trace (snd st)) (trace s')"
proof (induction sched arbitrary: st)
  case Nil
  then show ?case by (cases st) (auto split: option.splits if_splits)
next
  case (Cons i sched)
  obtain cs s where st: "st = (cs, s)" by (cases st)
  show ?case
  proof (cases "rejection cs = None \<and> \<not> list_all is_finished cs")
    case True
    then have "settle env dto calls sched (run_step env dto calls i st) = Some (r, s')"
      using Cons.prems st by simp
    then have "prefix (trace (snd (run_step env dto calls i st))) (trace s')" by (rule Cons.IH)
    with run_step_trace show ?thesis by (rule prefix_order.trans)
  next
    case False
    then show ?thesis using Cons.prems st by (auto split: option.splits if_splits)
  qed
qed

lemma settle_results:
  "settle env dto calls sched st = Some (Inr rs, s') \<Longrightarrow> length (fst st) = length calls \<Longrightarrow>
   map (\<lambda>r. (lr_id r, lr_name r)) rs = map (\<lambda>c. (lc_id c, lc_name c)) calls"
proof (induction sched arbitrary: st)
  case Nil
  then show ?case
    by (cases st) (auto simp: result_of_def map_fst_zip split: option.splits if_splits intro!: nth_equalityI)
next
  case (Cons i sched)
  obtain cs s where st: "st = (cs, s)" by (cases st)
  obtain cs' s2 where step: "run_step env dto calls i (cs, s) = (cs', s2)" by fastforce
  show ?case
  proof (cases "rejection cs = None \<and> \<not> list_all is_finished cs")
    case True
    then have "settle env dto calls sched (cs', s2) = Some (Inr rs, s')" using Cons.prems st step by simp
    then show ?thesis using Cons.IH [of "(cs', s2)"] Cons.prems(2) st run_step_rank(1) [OF step] by simp
  next
    case False
    then show ?thesis using Cons.prems st
      by (auto simp: result_of_def split: option.splits if_splits intro!: nth_equalityI)
  qed
qed

interpretation executor: tool_runner "runTools env dto pick" trace for env dto pick
proof unfold_locales
  fix calls :: "llm_call list" and s :: "'a exec_state" and rs
  obtain r s' where r: "run_calls env dto calls (pick calls s @ fair_rounds calls) s = Some (r, s')"
    using run_calls_fair [of env dto calls "pick calls s" s] by auto
  then show "prefix (trace s) (trace (snd (runTools env dto pick calls s)))"
    using settle_trace [of env dto calls _ "(map start_call calls, s)" r s'] by (simp add: runTools_def run_calls_def)
  show "map (\<lambda>r. (lr_id r, lr_name r)) rs = map (\<lambda>c. (lc_id c, lc_name c)) calls"
    if "fst (runTools env dto pick calls s) = Inr rs"
    using settle_results [of env dto calls _ "(map start_call calls, s)" rs s'] r that
    by (simp add: runTools_def run_calls_def)
qed

end
