(* ===== verification/React_Loop.thy ===== *)
theory React_Loop
  imports Tool_Runner Llm_Call
begin

text \<open>
  \<open>llm/react-loop-run.ts\<close>: one agent works on one task. The model answers or asks for
  tools; the loop runs them and feeds their results back, at most eight times, and has the
  model check its answer once before it is accepted.
\<close>

section \<open>Surroundings\<close>

datatype send_input = Prompt jstr | ToolResults "llm_result list"

record 'w react_env = "'w llm_env" +
  modelName :: jstr
  sessionSend :: "send_input \<Rightarrow> ('w, llm_turn) attempt"
  resync :: "jstr \<Rightarrow> 'w \<Rightarrow> 'w"

text \<open>
  The loop's state: that of its executor, and for the theorems the number of messages
  sent to the model, of tool runs and of self-checks.
\<close>

record 'w react_state =
  rs_exec :: "'w exec_state"
  rs_sends :: nat
  rs_toolRuns :: nat
  rs_checks :: nat

record react_response =
  rr_answer :: jstr
  rr_toolCalls :: "tool_trace list"

type_synonym 'w tool_run =
  "llm_call list \<Rightarrow> 'w exec_state \<Rightarrow> (agent_error + llm_result list) \<times> 'w exec_state"

definition on_world :: "('w \<Rightarrow> 'w) \<Rightarrow> 'w react_state \<Rightarrow> 'w react_state" where
  "on_world g st = st\<lparr>rs_exec := (rs_exec st)\<lparr>world := g (world (rs_exec st))\<rparr>\<rparr>"

definition getToolCalls :: "'w react_state \<Rightarrow> tool_trace list" where
  "getToolCalls st = trace (rs_exec st)"

definition hasAnySuccessfulToolCall :: "'w react_state \<Rightarrow> bool" where
  "hasAnySuccessfulToolCall st = list_ex (\<lambda>tc. tt_status tc = Success) (getToolCalls st)"

section \<open>Texts\<close>

definition SELF_CHECK_PROMPT :: jstr where
  "SELF_CHECK_PROMPT = (uni ''Tr{01B0}{1EDB}c khi ch{1ED1}t c{00E2}u tr{1EA3} l{1EDD}i, t{1EF1} ki{1EC3}m tra l{1EA1}i: c{00E2}u tr{1EA3} l{1EDD}i tr{00EA}n {0111}{00E3} d{1EF1}a v{00E0}o D{1EEE} LI{1EC6}U TH{1EF0}C T{1EBE} (k{1EBF}t qu{1EA3} tool tr{1EA3} v{1EC1} gi{00E1} tr{1ECB}/n{1ED9}i dung c{1EE5} th{1EC3}), hay ch{1EC9} m{1EDB}i d{1EEB}ng {1EDF} th{00F4}ng tin c{1EA5}u tr{00FA}c/metadata (VD: danh s{00E1}ch t{00EA}n b{1EA3}ng, t{00EA}n c{1ED9}t, t{00EA}n tr{01B0}{1EDD}ng, danh s{00E1}ch th{01B0} m{1EE5}c...)? N{1EBF}u c{00E2}u h{1ECF}i g{1ED1}c c{1EA7}n d{1EEF} li{1EC7}u/gi{00E1} tr{1ECB} c{1EE5} th{1EC3} m{00E0} c{00E2}u tr{1EA3} l{1EDD}i tr{00EA}n CH{01AF}A c{00F3}, h{00E3}y g{1ECD}i ti{1EBF}p tool ph{00F9} h{1EE3}p {0111}{1EC3} l{1EA5}y d{1EEF} li{1EC7}u th{1EAD}t r{1ED3}i tr{1EA3} l{1EDD}i l{1EA1}i {0111}{1EA7}y {0111}{1EE7}. N{1EBF}u c{00E2}u tr{1EA3} l{1EDD}i tr{00EA}n {0111}{00E3} {0111}{1EE7} d{1EEF} li{1EC7}u c{1EA7}n thi{1EBF}t (ho{1EB7}c c{00E2}u h{1ECF}i g{1ED1}c v{1ED1}n kh{00F4}ng c{1EA7}n d{1EEF} li{1EC7}u c{1EE5} th{1EC3}), x{00E1}c nh{1EAD}n l{1EA1}i v{00E0} gi{1EEF} nguy{00EA}n c{00E2}u tr{1EA3} l{1EDD}i {0111}{00F3}.{000A}{000A}QUAN TR{1ECC}NG {2014} {0111}{1EEB}ng nh{1EA7}m {0022}ch{01B0}a ch{1EAF}c{0022} v{1EDB}i {0022}ch{01B0}a c{00F3} d{1EEF} li{1EC7}u{0022}: n{1EBF}u 1 tool {0111}{00E3} CH{1EA0}Y TH{00C0}NH C{00D4}NG tr{01B0}{1EDB}c {0111}{00F3} trong l{01B0}{1EE3}t n{00E0}y v{00E0} tr{1EA3} v{1EC1} {0111}{00FA}ng d{1EEF} li{1EC7}u th{1EAD}t c{1EA7}n cho c{00E2}u h{1ECF}i, {0111}{00F3} {0110}{00C3} L{00C0} {0111}{1EE7} {2014} d{00F9}ng NGUY{00CA}N k{1EBF}t qu{1EA3} {0111}{00F3} {0111}{1EC3} tr{1EA3} l{1EDD}i, TUY{1EC6}T {0110}{1ED0}I kh{00F4}ng g{1ECD}i l{1EA1}i {0110}{00DA}NG tool {0111}{00F3} (c{00F9}ng tham s{1ED1} ho{1EB7}c tham s{1ED1} t{01B0}{01A1}ng {0111}{01B0}{01A1}ng) th{00EA}m l{1EA7}n n{1EEF}a ch{1EC9} {0111}{1EC3} {0022}ki{1EC3}m tra cho ch{1EAF}c{0022}. Ch{1EC9} g{1ECD}i l{1EA1}i khi c{00F3} l{00FD} do C{1EE4} TH{1EC2} v{00E0} M{1EDA}I (VD k{1EBF}t qu{1EA3} tr{01B0}{1EDB}c ghi r{00F5} c{00F2}n thi{1EBF}u d{1EEF} li{1EC7}u/b{1ECB} c{1EAF}t b{1EDB}t, ho{1EB7}c c{00E2}u h{1ECF}i c{1EA7}n l{1ECD}c theo {0111}i{1EC1}u ki{1EC7}n kh{00E1}c h{1EB3}n ch{01B0}a t{1EEB}ng truy v{1EA5}n).'')"

definition no_answer_text :: jstr where
  "no_answer_text = (uni ''Xin l{1ED7}i, m{00EC}nh ch{01B0}a c{00F3} c{00E2}u tr{1EA3} l{1EDD}i ph{00F9} h{1EE3}p.'')"

definition too_many_steps_text :: jstr where
  "too_many_steps_text = (uni ''Xin l{1ED7}i, c{00E2}u h{1ECF}i n{00E0}y c{1EA7}n nhi{1EC1}u b{01B0}{1EDB}c h{01A1}n m{00EC}nh h{1ED7} tr{1EE3} {0111}{01B0}{1EE3}c.'')"

definition partial_write_caveat :: jstr where
  "partial_write_caveat = (uni '' M{1ED9}t s{1ED1} h{00E0}nh {0111}{1ED9}ng ({0111}{1ECD}c/ghi d{1EEF} li{1EC7}u) {0111}{00E3} th{1EF1}c hi{1EC7}n TH{00C0}NH C{00D4}NG tr{01B0}{1EDB}c khi d{1EEB}ng {2014} ki{1EC3}m tra l{1EA1}i k{1EBF}t qu{1EA3} hi{1EC7}n c{00F3} tr{01B0}{1EDB}c khi y{00EA}u c{1EA7}u l{1EA1}i, tr{00E1}nh l{1EB7}p l{1EA1}i {0111}{00FA}ng thao t{00E1}c {0111}{00E3} l{00E0}m.'')"

definition nudge_text :: "int \<Rightarrow> int \<Rightarrow> jstr" where
  "nudge_text required achieved =
     (uni ''Y{00EA}u c{1EA7}u c{1EA7}n x{1EED} l{00FD} {0111}{00FA}ng '') @ int_str required @ (uni '' b{1EA3}n ghi, nh{01B0}ng theo k{1EBF}t qu{1EA3} tool hi{1EC7}n t{1EA1}i m{1EDB}i c{00F3} '') @
     int_str achieved @ (uni ''. H{00E3}y ti{1EBF}p t{1EE5}c th{1EF1}c hi{1EC7}n ph{1EA7}n c{00F2}n thi{1EBF}u tr{01B0}{1EDB}c khi tr{1EA3} l{1EDD}i.'')"

definition quantity_disclaimer :: "int \<Rightarrow> int \<Rightarrow> jstr" where
  "quantity_disclaimer required achieved =
     (uni ''{000A}{000A}{26A0}{FE0F} Y{00EA}u c{1EA7}u c{1EA7}n x{1EED} l{00FD} {0111}{00FA}ng '') @ int_str required @ (uni '', nh{01B0}ng theo k{1EBF}t qu{1EA3} tool TH{1EAC}T ch{1EC9} x{00E1}c nh{1EAD}n {0111}{01B0}{1EE3}c '') @
     int_str achieved @ (js ''.'')"

definition send_timeout_text :: "'w react_env \<Rightarrow> run_dto \<Rightarrow> jstr" where
  "send_timeout_text env dto = (js ''ReactLoop sendMessage() timeout sau 30s (provider='') @ dto_provider dto @
     (js '', model='') @ modelName env @ (js '')'')"

section \<open>The loop\<close>

definition sendMessage ::
    "'w react_env \<Rightarrow> run_dto \<Rightarrow> send_input \<Rightarrow> 'w react_state \<Rightarrow> (agent_error + llm_turn) \<times> 'w react_state" where
  "sendMessage env dto inp st =
    (let (r, w) = llm_call_guarded env True (send_timeout_text env dto) (sessionSend env inp) (world (rs_exec st))
     in (r, (on_world (\<lambda>_. w) st)\<lparr>rs_sends := rs_sends st + 1\<rparr>))"

definition results_text :: "'w react_state \<Rightarrow> jstr" where
  "results_text st =
     join [10] (map (\<lambda>tc. tt_tool tc @ (js '': '') @ nullish (tt_resultPreview tc) []) (getToolCalls st))"

definition check_quantity_of ::
    "'w react_env \<Rightarrow> run_dto \<Rightarrow> 'w react_state \<Rightarrow> (int \<times> int) \<times> 'w react_state" where
  "check_quantity_of env dto st =
    (let (q, w) = checkQuantity env (dto_prompt dto) (results_text st) (world (rs_exec st))
     in (q, on_world (\<lambda>_. w) st))"

datatype no_more = FinishWith react_response | GoOn llm_turn

text \<open>A self-check or nudge: when the model asks for tools again the loop goes on.\<close>

definition ask_again ::
    "'w react_env \<Rightarrow> run_dto \<Rightarrow> jstr \<Rightarrow> jstr \<Rightarrow> 'w react_state \<Rightarrow> (agent_error + no_more) \<times> 'w react_state" where
  "ask_again env dto msg final st =
    (case sendMessage env dto (Prompt msg) (st\<lparr>rs_checks := rs_checks st + 1\<rparr>) of
       (Inl e, st) \<Rightarrow> (Inl e, st)
     | (Inr turn, st) \<Rightarrow>
         if length (lt_toolCalls turn) > 0 then (Inr (GoOn turn), on_world (resync env []) st)
         else (Inr (FinishWith \<lparr>rr_answer = final, rr_toolCalls = getToolCalls st\<rparr>),
               on_world (resync env final) st))"

definition handleNoMoreToolCalls ::
    "'w react_env \<Rightarrow> run_dto \<Rightarrow> llm_turn \<Rightarrow> nat \<Rightarrow> bool \<Rightarrow> 'w react_state \<Rightarrow>
     (agent_error + no_more) \<times> 'w react_state" where
  "handleNoMoreToolCalls env dto turn step selfChecked st =
    (let hasBudgetForSelfCheck = step < MAX_REACT_STEPS - 1 in
     if selfChecked \<or> length (getToolCalls st) = 0 \<or> \<not> hasBudgetForSelfCheck then
       (Inr (FinishWith \<lparr>rr_answer = or_str (lt_text turn) no_answer_text, rr_toolCalls = getToolCalls st\<rparr>), st)
     else
       (let ((required, achieved), st) = check_quantity_of env dto st;
            baseAnswer = or_str (lt_text turn) no_answer_text
        in if required > 0 \<and> required \<noteq> achieved then
             ask_again env dto (nudge_text required achieved)
               (baseAnswer @ quantity_disclaimer required achieved) st
           else ask_again env dto SELF_CHECK_PROMPT baseAnswer st))"

definition buildMaxStepsResponse :: "llm_turn \<Rightarrow> 'w react_state \<Rightarrow> react_response" where
  "buildMaxStepsResponse turn st =
     \<lparr>rr_answer = or_str (lt_text turn) too_many_steps_text @
        (if hasAnySuccessfulToolCall st then partial_write_caveat else []),
      rr_toolCalls = getToolCalls st\<rparr>"

text \<open>The executor on the loop's state.\<close>

definition run_turn_tools ::
    "'w react_env \<Rightarrow> 'w tool_run \<Rightarrow> llm_call list \<Rightarrow> 'w react_state \<Rightarrow>
     (agent_error + llm_result list) \<times> 'w react_state" where
  "run_turn_tools env run calls st =
    (let st = on_world (resync env []) st; (r, ex) = run calls (rs_exec st)
     in (r, st\<lparr>rs_exec := ex, rs_toolRuns := rs_toolRuns st + 1\<rparr>))"

function react_steps ::
    "'w react_env \<Rightarrow> 'w tool_run \<Rightarrow> run_dto \<Rightarrow> nat \<Rightarrow> bool \<Rightarrow> llm_turn \<Rightarrow> 'w react_state \<Rightarrow>
     (agent_error + react_response) \<times> 'w react_state" where
  "react_steps env run dto step selfChecked turn st =
    (if MAX_REACT_STEPS \<le> step then (Inr (buildMaxStepsResponse turn st), st)
     else if length (lt_toolCalls turn) = 0 then
       (case handleNoMoreToolCalls env dto turn step selfChecked st of
          (Inl e, st) \<Rightarrow> (Inl e, st)
        | (Inr (FinishWith resp), st) \<Rightarrow> (Inr resp, st)
        | (Inr (GoOn turn), st) \<Rightarrow> react_steps env run dto (step + 1) True turn st)
     else
       (case run_turn_tools env run (lt_toolCalls turn) st of
          (Inl e, st) \<Rightarrow> (Inl e, st)
        | (Inr results, st) \<Rightarrow>
            (case sendMessage env dto (ToolResults results) st of
               (Inl e, st) \<Rightarrow> (Inl e, st)
             | (Inr turn, st) \<Rightarrow> react_steps env run dto (step + 1) selfChecked turn st)))"
  by pat_completeness auto
termination by (relation "measure (\<lambda>(env, run, dto, step, sc, turn, st). MAX_REACT_STEPS - step)") auto

declare react_steps.simps [simp del]

definition react_execute ::
    "'w react_env \<Rightarrow> 'w tool_run \<Rightarrow> run_dto \<Rightarrow> 'w react_state \<Rightarrow>
     (agent_error + react_response) \<times> 'w react_state" where
  "react_execute env run dto st =
    (case sendMessage env dto (Prompt (dto_prompt dto)) st of
       (Inl e, st) \<Rightarrow> (Inl e, st)
     | (Inr turn, st) \<Rightarrow> react_steps env run dto 0 False turn st)"

text \<open>The constructor: a new executor that shares the turn's repeat guard.\<close>

definition new_loop :: "repeat_guard \<Rightarrow> real_call list \<Rightarrow> 'w \<Rightarrow> 'w react_state" where
  "new_loop g log w =
     \<lparr>rs_exec = \<lparr>guard = g, tables = Map.empty, requiredCount = None, trace = [], realCalls = log, world = w\<rparr>,
      rs_sends = 0, rs_toolRuns = 0, rs_checks = 0\<rparr>"

section \<open>Facts about the phases\<close>

lemma sendMessage_counts:
  "sendMessage env dto inp st = (r, st') \<Longrightarrow> rs_sends st' = rs_sends st + 1 \<and> rs_toolRuns st' = rs_toolRuns st \<and>
     rs_checks st' = rs_checks st \<and> getToolCalls st' = getToolCalls st"
  by (auto simp: sendMessage_def on_world_def getToolCalls_def split: prod.splits)

lemma check_quantity_counts:
  "check_quantity_of env dto st = (q, st') \<Longrightarrow> rs_sends st' = rs_sends st \<and> rs_toolRuns st' = rs_toolRuns st \<and>
     rs_checks st' = rs_checks st \<and> getToolCalls st' = getToolCalls st"
  by (auto simp: check_quantity_of_def on_world_def getToolCalls_def split: prod.splits)

lemma on_world_counts [simp]:
  "rs_sends (on_world g st) = rs_sends st" "rs_toolRuns (on_world g st) = rs_toolRuns st"
  "rs_checks (on_world g st) = rs_checks st" "getToolCalls (on_world g st) = getToolCalls st"
  by (simp_all add: on_world_def getToolCalls_def)

lemma getToolCalls_checks [simp]: "getToolCalls (st\<lparr>rs_checks := n\<rparr>) = getToolCalls st"
  by (simp add: getToolCalls_def)

lemma ask_again_counts:
  assumes "ask_again env dto msg final st = (r, st')"
  shows "rs_sends st' = rs_sends st + 1 \<and> rs_toolRuns st' = rs_toolRuns st \<and> rs_checks st' = rs_checks st + 1 \<and>
    getToolCalls st' = getToolCalls st"
proof -
  obtain q st1 where q: "sendMessage env dto (Prompt msg) (st\<lparr>rs_checks := rs_checks st + 1\<rparr>) = (q, st1)" by fastforce
  from sendMessage_counts [OF q] assms q show ?thesis
    by (auto simp: ask_again_def split: sum.splits if_splits)
qed

lemma ask_again_answer:
  "ask_again env dto msg final st = (Inr (FinishWith resp), st') \<Longrightarrow> rr_answer resp = final"
  by (auto simp: ask_again_def split: prod.splits sum.splits if_splits)

lemma no_more_counts:
  assumes "handleNoMoreToolCalls env dto turn step selfChecked st = (r, st')"
  shows "rs_sends st' \<le> rs_sends st + 1 \<and> rs_toolRuns st' = rs_toolRuns st \<and>
    rs_checks st' \<le> rs_checks st + (if selfChecked then 0 else 1) \<and> getToolCalls st' = getToolCalls st"
proof -
  obtain q st1 where q: "check_quantity_of env dto st = (q, st1)" by fastforce
  from check_quantity_counts [OF q] show ?thesis
    using assms q by (auto simp: handleNoMoreToolCalls_def Let_def split: if_splits prod.splits dest!: ask_again_counts)
qed

lemma no_more_answer:
  assumes "handleNoMoreToolCalls env dto turn step selfChecked st = (Inr (FinishWith resp), st')"
  shows "rr_answer resp \<noteq> []"
proof -
  have "no_answer_text \<noteq> []" by code_simp
  then have "or_str (lt_text turn) no_answer_text \<noteq> []" by (rule or_str_nonempty)
  then show ?thesis using assms
    by (auto simp: handleNoMoreToolCalls_def Let_def split: if_splits prod.splits dest!: ask_again_answer)
qed

lemma run_turn_tools_counts:
  "run_turn_tools env run calls st = (r, st') \<Longrightarrow> rs_sends st' = rs_sends st \<and>
     rs_toolRuns st' = rs_toolRuns st + 1 \<and> rs_checks st' = rs_checks st"
  by (auto simp: run_turn_tools_def Let_def split: prod.splits)

section \<open>Facts about the loop\<close>

text \<open>The ways an iteration can go.\<close>

lemma react_steps_cases [consumes 1, case_names limit finished go_on failed tools]:
  assumes "react_steps env run dto step sc turn st = (r, st')"
  obtains "MAX_REACT_STEPS \<le> step" "r = Inr (buildMaxStepsResponse turn st)" "st' = st"
  | resp where "step < MAX_REACT_STEPS" "r = Inr resp"
      "handleNoMoreToolCalls env dto turn step sc st = (Inr (FinishWith resp), st')"
  | turn1 st1 where "step < MAX_REACT_STEPS"
      "handleNoMoreToolCalls env dto turn step sc st = (Inr (GoOn turn1), st1)"
      "react_steps env run dto (step + 1) True turn1 st1 = (r, st')"
  | e where "step < MAX_REACT_STEPS" "r = Inl e"
      "handleNoMoreToolCalls env dto turn step sc st = (Inl e, st') \<or>
       run_turn_tools env run (lt_toolCalls turn) st = (Inl e, st') \<or>
       (\<exists>results st1. run_turn_tools env run (lt_toolCalls turn) st = (Inr results, st1) \<and>
          sendMessage env dto (ToolResults results) st1 = (Inl e, st'))"
  | results st1 turn2 st2 where "step < MAX_REACT_STEPS"
      "run_turn_tools env run (lt_toolCalls turn) st = (Inr results, st1)"
      "sendMessage env dto (ToolResults results) st1 = (Inr turn2, st2)"
      "react_steps env run dto (step + 1) sc turn2 st2 = (r, st')"
proof (cases "MAX_REACT_STEPS \<le> step")
  case True
  then have "react_steps env run dto step sc turn st = (Inr (buildMaxStepsResponse turn st), st)"
    by (subst react_steps.simps) simp
  then show ?thesis using that(1) [OF True] assms by simp
next
  case False
  then have lt: "step < MAX_REACT_STEPS" by simp
  show ?thesis
  proof (cases "length (lt_toolCalls turn) = 0")
    case True
    obtain q st1 where q: "handleNoMoreToolCalls env dto turn step sc st = (q, st1)" by fastforce
    have eq: "react_steps env run dto step sc turn st =
        (case q of Inl e \<Rightarrow> (Inl e, st1) | Inr (FinishWith resp) \<Rightarrow> (Inr resp, st1)
         | Inr (GoOn turn) \<Rightarrow> react_steps env run dto (step + 1) True turn st1)"
      using False True q by (subst react_steps.simps) (simp split: sum.split no_more.split)
    show ?thesis
    proof (cases q)
      case (Inl e)
      then show ?thesis using that(4) [OF lt, of e] assms eq q by simp
    next
      case (Inr res)
      show ?thesis
      proof (cases res)
        case (FinishWith resp)
        then show ?thesis using that(2) [OF lt, of resp] assms eq q Inr by simp
      next
        case (GoOn turn1)
        then show ?thesis using that(3) [OF lt, of turn1 st1] assms eq q Inr by simp
      qed
    qed
  next
    case ne: False
    obtain q st1 where q: "run_turn_tools env run (lt_toolCalls turn) st = (q, st1)" by fastforce
    show ?thesis
    proof (cases q)
      case (Inl e)
      then have "react_steps env run dto step sc turn st = (Inl e, st1)"
        using False ne q by (subst react_steps.simps) simp
      then show ?thesis using that(4) [OF lt, of e] assms q Inl by simp
    next
      case (Inr results)
      obtain q2 st2 where q2: "sendMessage env dto (ToolResults results) st1 = (q2, st2)" by fastforce
      have eq: "react_steps env run dto step sc turn st =
          (case q2 of Inl e \<Rightarrow> (Inl e, st2) | Inr turn \<Rightarrow> react_steps env run dto (step + 1) sc turn st2)"
        using False ne q Inr q2 by (subst react_steps.simps) (simp split: sum.split)
      show ?thesis
      proof (cases q2)
        case (Inl e)
        then show ?thesis using that(4) [OF lt, of e] assms eq q q2 \<open>q = Inr results\<close> by simp
      next
        case (Inr turn2)
        then show ?thesis using that(5) [OF lt, of results st1 turn2 st2] assms eq q q2 \<open>q = Inr results\<close> by simp
      qed
    qed
  qed
qed

lemma react_steps_counts:
  "react_steps env run dto step sc turn st = (r, st') \<Longrightarrow>
   rs_sends st' \<le> rs_sends st + (MAX_REACT_STEPS - step) \<and>
   rs_toolRuns st' \<le> rs_toolRuns st + (MAX_REACT_STEPS - step) \<and>
   rs_checks st' \<le> rs_checks st + (if sc then 0 else 1)"
proof (induction "MAX_REACT_STEPS - step" arbitrary: step sc turn st rule: less_induct)
  case less
  from less.prems show ?case
  proof (cases rule: react_steps_cases)
    case limit
    then show ?thesis by simp
  next
    case (finished resp)
    have "rs_sends st + 1 \<le> rs_sends st + (MAX_REACT_STEPS - step)" using finished(1) by simp
    then show ?thesis using no_more_counts [OF finished(3)] by linarith
  next
    case (go_on turn1 st1)
    have "\<not> sc" using go_on(2) by (auto simp: handleNoMoreToolCalls_def Let_def split: if_splits)
    obtain d where d: "MAX_REACT_STEPS - step = Suc d" "MAX_REACT_STEPS - (step + 1) = d"
      using go_on(1) by (cases "MAX_REACT_STEPS - step") auto
    have "MAX_REACT_STEPS - (step + 1) < MAX_REACT_STEPS - step" using go_on(1) by simp
    note ih = less.hyps [OF this go_on(3), unfolded d]
    show ?thesis unfolding d using ih no_more_counts [OF go_on(2)] \<open>\<not> sc\<close> by auto
  next
    case (failed e)
    then show ?thesis
      by (auto dest!: no_more_counts run_turn_tools_counts sendMessage_counts)
  next
    case (tools results st1 turn2 st2)
    have "MAX_REACT_STEPS - (step + 1) < MAX_REACT_STEPS - step" using tools(1) by simp
    note less.hyps [OF this tools(4)]
    moreover have "MAX_REACT_STEPS - step = Suc (MAX_REACT_STEPS - (step + 1))" using tools(1) by simp
    ultimately show ?thesis
      using run_turn_tools_counts [OF tools(2)] sendMessage_counts [OF tools(3)] by simp
  qed
qed

lemma react_steps_answer:
  "react_steps env run dto step sc turn st = (Inr resp, st') \<Longrightarrow> rr_answer resp \<noteq> []"
proof (induction "MAX_REACT_STEPS - step" arbitrary: step sc turn st rule: less_induct)
  case less
  from less.prems show ?case
  proof (cases rule: react_steps_cases)
    case limit
    have "too_many_steps_text \<noteq> []" by code_simp
    then have "or_str (lt_text turn) too_many_steps_text \<noteq> []" by (rule or_str_nonempty)
    then show ?thesis using limit(2) by (simp add: buildMaxStepsResponse_def)
  next
    case (finished resp)
    then show ?thesis using no_more_answer [OF finished(3)] by simp
  next
    case (go_on turn1 st1)
    then show ?thesis using less.hyps [OF _ go_on(3)] by simp
  next
    case (failed e)
    then show ?thesis by simp
  next
    case (tools results st1 turn2 st2)
    then show ?thesis using less.hyps [OF _ tools(4)] by simp
  qed
qed

text \<open>A loop that used every step for tools ends at the limit.\<close>

lemma react_steps_limit:
  "react_steps env run dto step sc turn st = (Inr resp, st') \<Longrightarrow>
   rs_toolRuns st' = rs_toolRuns st + (MAX_REACT_STEPS - step) \<Longrightarrow>
   \<exists>turn'. resp = buildMaxStepsResponse turn' st'"
proof (induction "MAX_REACT_STEPS - step" arbitrary: step sc turn st rule: less_induct)
  case less
  from less.prems(1) show ?case
  proof (cases rule: react_steps_cases)
    case limit
    then show ?thesis by auto
  next
    case (finished resp)
    then show ?thesis using no_more_counts [OF finished(3)] less.prems(2) finished(1) by linarith
  next
    case (go_on turn1 st1)
    have "MAX_REACT_STEPS - step = Suc (MAX_REACT_STEPS - (step + 1))" using go_on(1) by simp
    then show ?thesis
      using react_steps_counts [OF go_on(3)] no_more_counts [OF go_on(2)] less.prems(2) by linarith
  next
    case (failed e)
    then show ?thesis by simp
  next
    case (tools results st1 turn2 st2)
    have "rs_toolRuns st2 = rs_toolRuns st + 1"
      using run_turn_tools_counts [OF tools(2)] sendMessage_counts [OF tools(3)] by simp
    then show ?thesis using less.hyps [OF _ tools(4)] tools(1) less.prems(2) by simp
  qed
qed

section \<open>The loop with the executor\<close>

lemma settle_log_wf:
  "settle env dto calls sched st = Some (r, s') \<Longrightarrow> run_inv dto st \<Longrightarrow> log_wf s'"
proof (induction sched arbitrary: st)
  case Nil
  then show ?case by (cases st) (auto simp: run_inv_def split: option.splits if_splits)
next
  case (Cons i sched)
  obtain cs s where st: "st = (cs, s)" by (cases st)
  show ?case
  proof (cases "rejection cs = None \<and> \<not> list_all is_finished cs")
    case True
    then have "settle env dto calls sched (run_step env dto calls i st) = Some (r, s')"
      using Cons.prems st by simp
    then show ?thesis using Cons.IH run_step_inv Cons.prems(2) st by blast
  next
    case False
    then show ?thesis using Cons.prems st by (auto simp: run_inv_def split: option.splits if_splits)
  qed
qed

lemma runTools_log_wf: "log_wf s \<Longrightarrow> log_wf (snd (runTools env dto pick calls s))"
  using settle_log_wf [OF _ run_inv_start, where calls = calls and env = env and dto = dto]
  by (auto simp: runTools_def run_calls_def simp del: settle.simps split: option.split)

lemma log_wf_world [simp]: "log_wf (s\<lparr>world := w\<rparr>) = log_wf s"
  by (simp add: log_wf_def)

definition loop_wf :: "'w react_state \<Rightarrow> bool" where
  "loop_wf st \<longleftrightarrow> log_wf (rs_exec st)"

lemma loop_wf_on_world [simp]: "loop_wf (on_world g st) = loop_wf st"
  by (simp add: loop_wf_def on_world_def)

lemma loop_wf_ghost [simp]:
  "loop_wf (st\<lparr>rs_sends := n\<rparr>) = loop_wf st" "loop_wf (st\<lparr>rs_checks := n\<rparr>) = loop_wf st"
  by (simp_all add: loop_wf_def)

lemma sendMessage_wf: "sendMessage env dto inp st = (r, st') \<Longrightarrow> loop_wf st' = loop_wf st"
  by (auto simp: sendMessage_def split: prod.splits)

lemma ask_again_wf: "ask_again env dto msg final st = (r, st') \<Longrightarrow> loop_wf st' = loop_wf st"
  by (auto simp: ask_again_def split: prod.splits sum.splits if_splits dest!: sendMessage_wf)

lemma no_more_wf: "handleNoMoreToolCalls env dto turn step sc st = (r, st') \<Longrightarrow> loop_wf st' = loop_wf st"
  by (auto simp: handleNoMoreToolCalls_def check_quantity_of_def Let_def split: prod.splits if_splits dest!: ask_again_wf)

lemma run_turn_tools_wf:
  "run_turn_tools env (runTools xenv dto pick) calls st = (r, st') \<Longrightarrow> loop_wf st \<Longrightarrow> loop_wf st'"
  using runTools_log_wf [of "rs_exec (on_world (resync env []) st)" xenv dto pick calls] loop_wf_on_world [of "resync env []" st]
  by (auto simp: run_turn_tools_def loop_wf_def Let_def split: prod.splits)

lemma react_steps_wf:
  "react_steps env (runTools xenv dto pick) dto step sc turn st = (r, st') \<Longrightarrow> loop_wf st \<Longrightarrow> loop_wf st'"
proof (induction "MAX_REACT_STEPS - step" arbitrary: step sc turn st rule: less_induct)
  case less
  from less.prems(1) show ?case
  proof (cases rule: react_steps_cases)
    case limit
    then show ?thesis using less.prems by simp
  next
    case (finished resp)
    then show ?thesis using no_more_wf less.prems(2) by blast
  next
    case (go_on turn1 st1)
    then show ?thesis using less.hyps [OF _ go_on(3)] no_more_wf [OF go_on(2)] less.prems(2) by simp
  next
    case (failed e)
    then show ?thesis using less.prems(2) no_more_wf run_turn_tools_wf sendMessage_wf by metis
  next
    case (tools results st1 turn2 st2)
    then show ?thesis
      using less.hyps [OF _ tools(4)] run_turn_tools_wf [OF tools(2)] sendMessage_wf [OF tools(3)] less.prems(2) by simp
  qed
qed

lemma react_execute_wf:
  assumes "loop_wf st"
  shows "loop_wf (snd (react_execute env (runTools xenv dto pick) dto st))"
proof -
  obtain q st1 where q: "sendMessage env dto (Prompt (dto_prompt dto)) st = (q, st1)" by fastforce
  obtain r st2 where r: "react_execute env (runTools xenv dto pick) dto st = (r, st2)" by fastforce
  show ?thesis
    using q r sendMessage_wf [OF q] assms react_steps_wf [of env xenv dto pick 0 False _ st1 r st2]
    by (auto simp: react_execute_def split: sum.splits)
qed

lemma loop_wf_new: "loop_wf (new_loop new_guard [] w)"
  using log_wf_fresh [of w] by (simp add: loop_wf_def new_loop_def fresh_exec_def)

end
