(* ===== verification/Turn_Resolver.thy ===== *)
theory Turn_Resolver
  imports Supervisor React_Loop
begin

text \<open>
  One turn: plan, delegate to agents, evaluate, synthesize. This is
  \<open>processor/turn-resolver-run.ts\<close>, with \<open>runCancellable\<close> of \<open>common/cancellable-run.util.ts\<close>.
  The fields of the class are the record \<open>turn_state\<close>; the surroundings are the record
  \<open>turn_env\<close>. Metrics, logs and progress events (whose errors the code swallows) are left out.
\<close>

section \<open>Rounds\<close>

definition GUARDRAIL_BLOCKED_MARKER :: jstr where "GUARDRAIL_BLOCKED_MARKER = (uni ''B{1ECF} qua b{01B0}{1EDB}c n{00E0}y'')"
definition REPLAN_MARKER :: jstr where "REPLAN_MARKER = (js ''[re-plan]'')"

definition isNonProgressRound :: "round \<Rightarrow> bool" where
  "isNonProgressRound r \<longleftrightarrow>
     starts_with GUARDRAIL_BLOCKED_MARKER (rd_result r) \<or> starts_with REPLAN_MARKER (rd_result r)"

definition buildCancelledPartialText :: "round list \<Rightarrow> jstr option \<Rightarrow> jstr option" where
  "buildCancelledPartialText rounds inProgress =
    (let doneRounds = filter (\<lambda>r. \<not> isNonProgressRound r) rounds;
         doneParts = (case doneRounds of
             [r] \<Rightarrow> [rd_result r]
           | _ \<Rightarrow> enumerate_from_1 (\<lambda>i r. nat_str i @ (js ''. '') @ rd_agent r @ (js '': '') @ rd_result r) doneRounds)
     in if \<not> truthy inProgress then (if length doneParts > 0 then Some (join (uni ''{000A}{000A}'') doneParts) else None)
        else if length doneParts = 0 then inProgress
        else Some (join (uni ''{000A}{000A}'') (doneParts @ [(uni ''({0111}ang x{1EED} l{00FD} d{1EDF} khi b{1ECB} d{1EEB}ng) '') @ nullish inProgress []])))"

definition replan_round :: "round \<Rightarrow> round" where
  "replan_round r =
     \<lparr>rd_agent = rd_agent r, rd_task = rd_task r,
      rd_result = REPLAN_MARKER @ (uni '' evaluate() cho r{1EB1}ng b{01B0}{1EDB}c v{1EEB}a xong kh{00F4}ng {0111}{1EA1}t k{1EF3} v{1ECD}ng, {0111}{00E3} l{1EAD}p l{1EA1}i k{1EBF} ho{1EA1}ch.'')\<rparr>"

section \<open>State and surroundings\<close>

record turn_data =
  td_userId :: jstr
  td_channelId :: jstr
  td_workspaceId :: jstr
  td_replyMessageId :: jstr
  td_prompt :: jstr
  td_agents :: "agent list"
  td_history :: "chat_turn list"

record 'w turn_state =
  tn_rounds :: "round list"
  tn_toolCalls :: "tool_trace list"
  tn_guard :: repeat_guard
  tn_calls :: "real_call list"  \<comment> \<open>history: the tool calls really made\<close>
  tn_nonProgress :: nat
  tn_realSteps :: nat
  tn_cache :: ranking_cache
  tn_world :: 'w
  tn_plans :: nat              \<comment> \<open>history: plans asked for\<close>
  tn_delegations :: nat        \<comment> \<open>history: agents run\<close>

text \<open>
  \<open>te_cancelled\<close> is the question \<open>throwIfCancelled\<close> asks, \<open>te_streamed\<close> what has been
  streamed of an answer when it is stopped, \<open>te_react\<close> one ReAct loop for a prompt and a
  provider, with the guard of the turn.
\<close>

record 'w turn_env =
  te_sup :: "'w sup_env"
  te_clarify :: bool                   \<comment> \<open>\<open>ENABLE_CLARIFICATION_HITL\<close>\<close>
  te_reactModel :: jstr
  te_cancelled :: "'w \<Rightarrow> (agent_error + bool) \<times> 'w"
  te_streamed :: "'w \<Rightarrow> jstr"
  te_remember :: "jstr \<Rightarrow> 'w \<Rightarrow> 'w"
  te_react :: "jstr \<Rightarrow> jstr \<Rightarrow> repeat_guard \<times> real_call list \<Rightarrow> 'w \<Rightarrow>
     (agent_error + react_response) \<times> (repeat_guard \<times> real_call list) \<times> 'w"
  te_pauseForApproval ::
    "round list \<Rightarrow> tool_trace list \<Rightarrow> pending_tool \<Rightarrow> jstr \<Rightarrow> delegation list \<Rightarrow> 'w \<Rightarrow> (agent_error + answer) \<times> 'w"
  te_pauseForClarification ::
    "round list \<Rightarrow> tool_trace list \<Rightarrow> jstr \<Rightarrow> agent list \<Rightarrow> delegation list \<Rightarrow> 'w \<Rightarrow> (agent_error + answer) \<times> 'w"

definition new_turn :: "round list \<Rightarrow> tool_trace list \<Rightarrow> 'w \<Rightarrow> 'w turn_state" where
  "new_turn rounds toolCalls w =
    (let nonProgress = length (filter isNonProgressRound rounds)
     in \<lparr>tn_rounds = rounds, tn_toolCalls = toolCalls, tn_guard = new_guard, tn_calls = [], tn_nonProgress = nonProgress,
         tn_realSteps = length rounds - nonProgress, tn_cache = None, tn_world = w, tn_plans = 0, tn_delegations = 0\<rparr>)"

definition push_round :: "round \<Rightarrow> 'w turn_state \<Rightarrow> 'w turn_state" where
  "push_round r st = st\<lparr>tn_rounds := tn_rounds st @ [r]\<rparr>"

definition push_calls :: "tool_trace list \<Rightarrow> 'w turn_state \<Rightarrow> 'w turn_state" where
  "push_calls tcs st = st\<lparr>tn_toolCalls := tn_toolCalls st @ tcs\<rparr>"

definition no_progress :: "'w turn_state \<Rightarrow> 'w turn_state" where
  "no_progress st = st\<lparr>tn_nonProgress := tn_nonProgress st + 1\<rparr>"

text \<open>An operation of the supervisor on the world of the state.\<close>

definition in_world :: "('w \<Rightarrow> ('e + 'a) \<times> 'w) \<Rightarrow> 'w turn_state \<Rightarrow> ('e + 'a) \<times> 'w turn_state" where
  "in_world f st = (let (r, w) = f (tn_world st) in (r, st\<lparr>tn_world := w\<rparr>))"

section \<open>Answers\<close>

text \<open>
  \<open>runCancellable\<close>: an error after the controller was aborted becomes a
  \<open>TurnCancelledError\<close>, unless it is one already.
\<close>

definition runCancellable ::
    "('w \<Rightarrow> bool) \<Rightarrow> ('w \<Rightarrow> jstr option) \<Rightarrow> ('w \<Rightarrow> (agent_error + 'a) \<times> 'w) \<Rightarrow> 'w \<Rightarrow> (agent_error + 'a) \<times> 'w" where
  "runCancellable aborted partial fn w =
    (case fn w of
       (Inl (TurnCancelled t), w) \<Rightarrow> (Inl (TurnCancelled t), w)
     | (Inl e, w) \<Rightarrow> (Inl (if aborted w then TurnCancelled (partial w) else e), w)
     | (Inr x, w) \<Rightarrow> (Inr x, w))"

definition appendCumulativeQuantityDisclaimer ::
    "'w turn_env \<Rightarrow> turn_data \<Rightarrow> jstr \<Rightarrow> 'w turn_state \<Rightarrow> (agent_error + jstr) \<times> 'w turn_state" where
  "appendCumulativeQuantityDisclaimer env d answer st =
    (if length (tn_toolCalls st) = 0 then (Inr answer, st)
     else (case in_world (checkCumulativeQuantity (te_sup env) (td_prompt d) (tn_toolCalls st)) st of
             (Inl e, st) \<Rightarrow> (Inl e, st)
           | (Inr (required, achieved), st) \<Rightarrow>
               (Inr (if required > 0 \<and> achieved \<noteq> required
                     then answer @ quantity_disclaimer required achieved else answer), st)))"

definition answer_with ::
    "'w turn_env \<Rightarrow> turn_data \<Rightarrow> jstr \<Rightarrow> 'w turn_state \<Rightarrow> (agent_error + answer) \<times> 'w turn_state" where
  "answer_with env d t st =
    (case appendCumulativeQuantityDisclaimer env d t st of
       (Inl e, st) \<Rightarrow> (Inl e, st)
     | (Inr t, st) \<Rightarrow> (Inr (buildAnswer t (tn_toolCalls st)), st))"

definition synthesize_answer ::
    "'w turn_env \<Rightarrow> turn_data \<Rightarrow> 'w turn_state \<Rightarrow> (agent_error + answer) \<times> 'w turn_state" where
  "synthesize_answer env d st =
    (case in_world (runCancellable (sv_aborted (te_sup env))
             (\<lambda>w. buildCancelledPartialText (tn_rounds st) (Some (te_streamed env w)))
             (synthesize (te_sup env) (td_prompt d) (tn_rounds st))) st of
       (Inl e, st) \<Rightarrow> (Inl e, st)
     | (Inr t, st) \<Rightarrow> answer_with env d t st)"

definition no_fitting_answer :: jstr where
  "no_fitting_answer = (uni ''Xin l{1ED7}i, m{00EC}nh ch{01B0}a c{00F3} c{00E2}u tr{1EA3} l{1EDD}i ph{00F9} h{1EE3}p.'')"

definition finalizeAnswer ::
    "'w turn_env \<Rightarrow> turn_data \<Rightarrow> jstr option \<Rightarrow> 'w turn_state \<Rightarrow> (agent_error + answer) \<times> 'w turn_state" where
  "finalizeAnswer env d answerHint st =
    (case tn_rounds st of
       [r] \<Rightarrow> answer_with env d (rd_result r) st
     | _ # _ # _ \<Rightarrow> synthesize_answer env d st
     | [] \<Rightarrow> (Inr (buildAnswer (or_opt answerHint no_fitting_answer) (tn_toolCalls st)), st))"

definition runNonConvergenceFallback ::
    "'w turn_env \<Rightarrow> turn_data \<Rightarrow> 'w turn_state \<Rightarrow> (agent_error + answer) \<times> 'w turn_state" where
  "runNonConvergenceFallback env d st = synthesize_answer env d st"

section \<open>Planning\<close>

definition find_agent :: "jstr \<Rightarrow> agent list \<Rightarrow> agent option" where
  "find_agent p agents = find (\<lambda>a. provider a = p) agents"

text \<open>\<open>toLowerCase().replace(/[^a-z0-9]/g, '')\<close>\<close>

definition squash :: "jstr \<Rightarrow> jstr" where
  "squash s = filter (\<lambda>c. is_lower c \<or> is_digit c) (to_lower s)"

definition repair_agent :: "agent list \<Rightarrow> delegation \<Rightarrow> delegation" where
  "repair_agent agents s =
    (case find (\<lambda>a. provider a = dg_agent s \<or> to_lower (label a) = to_lower (dg_agent s)
                    \<or> squash (label a) = squash (dg_agent s)) agents of
       None \<Rightarrow> s
     | Some a \<Rightarrow> if provider a \<noteq> dg_agent s then s\<lparr>dg_agent := provider a\<rparr> else s)"

definition unknown_agents_text :: "delegation list \<Rightarrow> jstr" where
  "unknown_agents_text steps =
     (uni ''M{00EC}nh ch{01B0}a th{1EC3} x{1EED} l{00FD} y{00EA}u c{1EA7}u n{00E0}y v{1EDB}i c{00E1}c k{1EBF}t n{1ED1}i hi{1EC7}n c{00F3} (T{00EA}n h{1EC7} th{1ED1}ng m{00E0} AI {0111}ang c{1ED1} g{1ECD}i: {0022}'')
     @ join (js '', '') (map (\<lambda>s. or_str (dg_agent s) (js ''unknown'')) steps)
     @ (uni ''{0022} - Vui l{00F2}ng {0111}{1ED5}i t{00EA}n ho{1EB7}c vi{1EBF}t {0111}{00FA}ng t{00EA}n). V{00E0}o Settings {0111}{1EC3} k{1EBF}t n{1ED1}i agent ph{00F9} h{1EE3}p nh{00E9}.'')"

datatype plan_outcome = PlanDone answer | PlanSteps "delegation list"

definition plan_respond ::
    "'w turn_env \<Rightarrow> turn_data \<Rightarrow> plan \<Rightarrow> 'w turn_state \<Rightarrow> (agent_error + plan_outcome) \<times> 'w turn_state" where
  "plan_respond env d p st =
    (let st = (if truthy (pl_rememberFact p)
               then st\<lparr>tn_world := te_remember env (nullish (pl_rememberFact p) []) (tn_world st)\<rparr> else st);
         answerHint = (if truthy (pl_answer p) then pl_answer p
           else if truthy (pl_rememberFact p)
           then Some ((uni ''M{00EC}nh {0111}{00E3} ghi nh{1EDB}: '') @ nullish (pl_rememberFact p) [] @ (js ''.'')) else pl_answer p)
     in case finalizeAnswer env d answerHint st of
          (Inl e, st) \<Rightarrow> (Inl e, st) | (Inr a, st) \<Rightarrow> (Inr (PlanDone a), st))"

definition plan_make ::
    "'w turn_env \<Rightarrow> turn_data \<Rightarrow> plan \<Rightarrow> 'w turn_state \<Rightarrow> (agent_error + plan_outcome) \<times> 'w turn_state" where
  "plan_make env d p st =
    (let steps = map (repair_agent (td_agents d)) (nullish (pl_steps p) [])
     in if list_all (\<lambda>s. find_agent (dg_agent s) (td_agents d) = None) steps
        then (Inr (PlanDone (buildAnswer (or_opt (pl_answer p) (unknown_agents_text steps)) (tn_toolCalls st))), st)
        else if te_clarify env \<and> list_ex (\<lambda>c. provider c = dg_agent (hd steps)) (nullish (pl_ambiguous p) [])
        then (case in_world (te_pauseForClarification env (tn_rounds st) (tn_toolCalls st) (dg_task (hd steps))
                      (nullish (pl_ambiguous p) []) (tl steps)) st of
                (Inl e, st) \<Rightarrow> (Inl e, st) | (Inr a, st) \<Rightarrow> (Inr (PlanDone a), st))
        else (Inr (PlanSteps steps), st))"

definition runPlanningStep ::
    "'w turn_env \<Rightarrow> turn_data \<Rightarrow> 'w turn_state \<Rightarrow> (agent_error + plan_outcome) \<times> 'w turn_state" where
  "runPlanningStep env d st =
    (let (r, cache, w) = supervisor_plan (te_sup env) (td_prompt d) (td_agents d) (tn_rounds st) (td_history d)
           (tn_cache st) (td_channelId d) (td_workspaceId d) (tn_world st);
         st = st\<lparr>tn_world := w, tn_cache := cache, tn_plans := tn_plans st + 1\<rparr>
     in case r of
          Inl e \<Rightarrow> (Inl e, st)
        | Inr p \<Rightarrow> if pl_action p = Respond then plan_respond env d p st else plan_make env d p st)"

section \<open>Guardrail\<close>

definition MIN_AGENT_LABEL_LENGTH_FOR_MISMATCH_CHECK :: nat where
  "MIN_AGENT_LABEL_LENGTH_FOR_MISMATCH_CHECK = 3"

definition findLikelyMisroutedAgent :: "agent list \<Rightarrow> delegation \<Rightarrow> agent option" where
  "findLikelyMisroutedAgent agents step =
    (case find_agent (dg_agent step) agents of
       None \<Rightarrow> None
     | Some chosen \<Rightarrow>
         (let taskLower = to_lower (dg_task step)
          in if str_includes (to_lower (label chosen)) taskLower then None
             else find (\<lambda>a. provider a \<noteq> dg_agent step
                    \<and> length (label a) \<ge> MIN_AGENT_LABEL_LENGTH_FOR_MISMATCH_CHECK
                    \<and> str_includes (to_lower (label a)) taskLower) agents))"

definition guardrail_text :: "jstr \<Rightarrow> agent \<Rightarrow> jstr" where
  "guardrail_text chosen a =
     GUARDRAIL_BLOCKED_MARKER @ (uni '' {2014} k{1EBF} ho{1EA1}ch ch{1ECD}n h{1EC7} th{1ED1}ng {0022}'') @ chosen @ (uni ''{0022} nh{01B0}ng y{00EA}u c{1EA7}u nh{1EAF}c r{00F5} t{1EDB}i h{1EC7} th{1ED1}ng {0022}'')
     @ label a @ (uni ''{0022} ({0111}{00E3} k{1EBF}t n{1ED1}i, provider {0022}'') @ provider a @ (uni ''{0022}) {2014} c{00F3} kh{1EA3} n{0103}ng ch{1ECD}n sai agent, c{1EA7}n l{1EAD}p l{1EA1}i k{1EBF} ho{1EA1}ch.'')"

definition guardAgainstMisroute ::
    "turn_data \<Rightarrow> delegation \<Rightarrow> 'w turn_state \<Rightarrow> 'w turn_state option" where
  "guardAgainstMisroute d step st =
    (case findLikelyMisroutedAgent (td_agents d) step of
       None \<Rightarrow> None
     | Some a \<Rightarrow>
         Some (no_progress (push_round
           \<lparr>rd_agent = dg_agent step, rd_task = dg_task step, rd_result = guardrail_text (dg_agent step) a\<rparr> st)))"

section \<open>Delegation\<close>

datatype delegated =
    Unavailable
  | Blocked pending_tool jstr "tool_trace list"      \<comment> \<open>\<open>ApprovalRequiredDelegateResult\<close>\<close>
  | Ran round "tool_trace list"                      \<comment> \<open>\<open>DelegateRoundResult\<close>\<close>

definition prompt_with_context :: "'w turn_env \<Rightarrow> jstr \<Rightarrow> round list \<Rightarrow> jstr" where
  "prompt_with_context env task rounds =
    (let realRounds = filter (\<lambda>r. \<not> isNonProgressRound r) rounds
     in if length realRounds > 0
        then task @ (uni ''{000A}{000A}D{1EEF} li{1EC7}u TH{1EAC}T {0111}{00E3} thu th{1EAD}p {0111}{01B0}{1EE3}c t{1EEB} (c{00E1}c) b{01B0}{1EDB}c tr{01B0}{1EDB}c trong C{00D9}NG y{00EA}u c{1EA7}u n{00E0}y (PH{1EA2}I d{00F9}ng {0110}{00DA}NG NGUY{00CA}N V{0102}N, kh{00F4}ng t{1EF1} b{1ECB}a/di{1EC5}n gi{1EA3}i l{1EA1}i s{1ED1} li{1EC7}u):{000A}'')
          @ join [10] (enumerate_from_1
              (\<lambda>i r. nat_str i @ (uni ''. Agent {0022}'') @ rd_agent r @ (uni ''{0022} (y{00EA}u c{1EA7}u: {0022}'') @ rd_task r @ (uni ''{0022}) {2192} k{1EBF}t qu{1EA3}: '') @ rd_result r)
              (capRoundResultsWeighted (sv_lib (te_sup env)) realRounds (toolResultCharBudget (buildBudget (te_reactModel env)))))
        else task)"

definition delegateRound ::
    "'w turn_env \<Rightarrow> turn_data \<Rightarrow> delegation \<Rightarrow> 'w turn_state \<Rightarrow> (agent_error + delegated) \<times> 'w turn_state" where
  "delegateRound env d dg st =
    (case find_agent (dg_agent dg) (td_agents d) of
       None \<Rightarrow> (Inr Unavailable, st)
     | Some target \<Rightarrow>
         (let task = or_str (dg_task dg) (td_prompt d);
              (r, (g, calls), w) = te_react env (prompt_with_context env task (tn_rounds st)) (provider target)
                (tn_guard st, tn_calls st) (tn_world st);
              st = st\<lparr>tn_guard := g, tn_calls := calls, tn_world := w, tn_delegations := tn_delegations st + 1\<rparr>
          in case r of
               Inr resp \<Rightarrow>
                 (Inr (Ran \<lparr>rd_agent = provider target, rd_task = task, rd_result = rr_answer resp\<rparr> (rr_toolCalls resp)), st)
             | Inl (TurnCancelled t) \<Rightarrow> (Inl (TurnCancelled (buildCancelledPartialText (tn_rounds st) t)), st)
             | Inl (ApprovalRequired tool tcs) \<Rightarrow> (Inr (Blocked tool task tcs), st)
             | Inl (Failure m) \<Rightarrow>
                 (Inr (Ran \<lparr>rd_agent = provider target, rd_task = task,
                            rd_result = sv_describe (te_sup env) (Failure m)\<rparr> []), st)))"

definition buildPreApprovalRound :: "delegation \<Rightarrow> tool_trace list \<Rightarrow> round option" where
  "buildPreApprovalRound step tcs =
    (let successful = filter (\<lambda>tc. tt_status tc = Success) tcs
     in if length successful = 0 then None
        else Some \<lparr>rd_agent = dg_agent step,
          rd_task = dg_task step @ (uni '' (d{1EEF} li{1EC7}u {0111}{00E3} thu th{1EAD}p {0111}{01B0}{1EE3}c TR{01AF}{1EDA}C KHI c{1EA7}n duy{1EC7}t 1 h{00E0}nh {0111}{1ED9}ng kh{00E1}c trong c{00F9}ng b{01B0}{1EDB}c n{00E0}y)''),
          rd_result = join [10] (map (\<lambda>tc. tt_tool tc @ (js '': '') @ nullish (tt_resultPreview tc) (uni ''(kh{00F4}ng c{00F3} n{1ED9}i dung)'')) successful)\<rparr>)"

definition runEvaluateAndDecide ::
    "'w turn_env \<Rightarrow> turn_data \<Rightarrow> round \<Rightarrow> delegation list \<Rightarrow> 'w turn_state \<Rightarrow> (agent_error + verdict) \<times> 'w turn_state" where
  "runEvaluateAndDecide env d completedRound remainingSteps st =
    (case in_world (evaluate (te_sup env) (td_prompt d) completedRound remainingSteps) st of
       (Inl e, st) \<Rightarrow> (Inl e, st)
     | (Inr v, st) \<Rightarrow>
         (Inr (if v = Done then (if \<not> hasPendingActionStep remainingSteps then Finalize else Continue)
               else if v = Replan then Replan else Continue), st))"

definition unavailable_text :: jstr where
  "unavailable_text = (uni ''Agent n{00E0}y ch{01B0}a kh{1EA3} d{1EE5}ng (ch{01B0}a k{1EBF}t n{1ED1}i ho{1EB7}c ch{01B0}a c{00F3} h{1EA1} t{1EA7}ng) {2014} b{1ECF} qua, kh{00F4}ng th{1EF1}c hi{1EC7}n {0111}{01B0}{1EE3}c ph{1EA7}n vi{1EC7}c n{00E0}y.'')"

datatype step_outcome = StepDone answer | StepGo bool

definition after_round ::
    "'w turn_env \<Rightarrow> turn_data \<Rightarrow> round \<Rightarrow> delegation list \<Rightarrow> 'w turn_state \<Rightarrow> (agent_error + step_outcome) \<times> 'w turn_state" where
  "after_round env d completedRound remainingSteps st =
    (case runEvaluateAndDecide env d completedRound remainingSteps st of
       (Inl e, st) \<Rightarrow> (Inl e, st)
     | (Inr v, st) \<Rightarrow>
         if v = Finalize then
           (case finalizeAnswer env d None st of (Inl e, st) \<Rightarrow> (Inl e, st) | (Inr a, st) \<Rightarrow> (Inr (StepDone a), st))
         else if v = Replan then (Inr (StepGo True), push_round (replan_round completedRound) (no_progress st))
         else (Inr (StepGo False), st))"

definition runDelegationStep ::
    "'w turn_env \<Rightarrow> turn_data \<Rightarrow> delegation \<Rightarrow> delegation list \<Rightarrow> 'w turn_state \<Rightarrow>
     (agent_error + step_outcome) \<times> 'w turn_state" where
  "runDelegationStep env d step remainingSteps st =
    (case delegateRound env d step st of
       (Inl e, st) \<Rightarrow> (Inl e, st)
     | (Inr result, st) \<Rightarrow>
         (let st = st\<lparr>tn_realSteps := tn_realSteps st + 1\<rparr>
          in case result of
               Blocked tool task tcs \<Rightarrow>
                 (let st = push_calls tcs st;
                      st = (case buildPreApprovalRound step tcs of None \<Rightarrow> st | Some r \<Rightarrow> push_round r st)
                  in case in_world (te_pauseForApproval env (tn_rounds st) (tn_toolCalls st) tool task remainingSteps) st of
                       (Inl e, st) \<Rightarrow> (Inl e, st) | (Inr a, st) \<Rightarrow> (Inr (StepDone a), st))
             | Unavailable \<Rightarrow>
                 (let r = \<lparr>rd_agent = dg_agent step, rd_task = dg_task step, rd_result = unavailable_text\<rparr>
                  in after_round env d r remainingSteps (push_round r st))
             | Ran r tcs \<Rightarrow> after_round env d r remainingSteps (push_calls tcs (push_round r st))))"

section \<open>The loop\<close>

definition throwIfCancelled ::
    "'w turn_env \<Rightarrow> 'w turn_state \<Rightarrow> (agent_error + unit) \<times> 'w turn_state" where
  "throwIfCancelled env st =
    (if sv_aborted (te_sup env) (tn_world st)
     then (Inl (TurnCancelled (buildCancelledPartialText (tn_rounds st) None)), st)
     else (case in_world (te_cancelled env) st of
             (Inl e, st) \<Rightarrow> (Inl e, st)
           | (Inr c, st) \<Rightarrow>
               (if c then Inl (TurnCancelled (buildCancelledPartialText (tn_rounds st) None)) else Inr (), st)))"

text \<open>What each operation does to the rounds and the counters of the turn.\<close>

lemma in_world_frame [simp]:
  "tn_rounds (snd (in_world f st)) = tn_rounds st" "tn_toolCalls (snd (in_world f st)) = tn_toolCalls st"
  "tn_guard (snd (in_world f st)) = tn_guard st" "tn_calls (snd (in_world f st)) = tn_calls st" "tn_nonProgress (snd (in_world f st)) = tn_nonProgress st"
  "tn_realSteps (snd (in_world f st)) = tn_realSteps st" "tn_cache (snd (in_world f st)) = tn_cache st"
  "tn_plans (snd (in_world f st)) = tn_plans st" "tn_delegations (snd (in_world f st)) = tn_delegations st"
  by (simp_all add: in_world_def case_prod_beta)

lemma push_frame [simp]:
  "tn_rounds (push_round r st) = tn_rounds st @ [r]" "tn_toolCalls (push_round r st) = tn_toolCalls st"
  "tn_guard (push_round r st) = tn_guard st" "tn_calls (push_round r st) = tn_calls st" "tn_nonProgress (push_round r st) = tn_nonProgress st"
  "tn_realSteps (push_round r st) = tn_realSteps st" "tn_world (push_round r st) = tn_world st"
  "tn_plans (push_round r st) = tn_plans st" "tn_delegations (push_round r st) = tn_delegations st"
  "tn_rounds (push_calls c st) = tn_rounds st" "tn_toolCalls (push_calls c st) = tn_toolCalls st @ c"
  "tn_guard (push_calls c st) = tn_guard st" "tn_calls (push_calls c st) = tn_calls st" "tn_nonProgress (push_calls c st) = tn_nonProgress st"
  "tn_realSteps (push_calls c st) = tn_realSteps st" "tn_world (push_calls c st) = tn_world st"
  "tn_plans (push_calls c st) = tn_plans st" "tn_delegations (push_calls c st) = tn_delegations st"
  "tn_rounds (no_progress st) = tn_rounds st" "tn_toolCalls (no_progress st) = tn_toolCalls st"
  "tn_guard (no_progress st) = tn_guard st" "tn_calls (no_progress st) = tn_calls st" "tn_nonProgress (no_progress st) = tn_nonProgress st + 1"
  "tn_realSteps (no_progress st) = tn_realSteps st" "tn_world (no_progress st) = tn_world st"
  "tn_plans (no_progress st) = tn_plans st" "tn_delegations (no_progress st) = tn_delegations st"
  by (simp_all add: push_round_def push_calls_def no_progress_def)

text \<open>Two states with the same rounds, counters and guard.\<close>

definition same_turn :: "'w turn_state \<Rightarrow> 'w turn_state \<Rightarrow> bool" where
  "same_turn st st' \<longleftrightarrow> tn_rounds st' = tn_rounds st \<and> tn_toolCalls st' = tn_toolCalls st
     \<and> tn_guard st' = tn_guard st \<and> tn_calls st' = tn_calls st \<and> tn_nonProgress st' = tn_nonProgress st
     \<and> tn_realSteps st' = tn_realSteps st \<and> tn_plans st' = tn_plans st \<and> tn_delegations st' = tn_delegations st"

lemma same_turn_refl [simp]: "same_turn st st"
  by (simp add: same_turn_def)

lemma same_turn_trans [trans]: "same_turn a b \<Longrightarrow> same_turn b c \<Longrightarrow> same_turn a c"
  by (simp add: same_turn_def)

lemma in_world_same: "in_world f st = (r, st') \<Longrightarrow> same_turn st st'"
  using in_world_frame [of f st] by (simp add: same_turn_def)

lemma append_same: "appendCumulativeQuantityDisclaimer env d t st = (r, st') \<Longrightarrow> same_turn st st'"
  by (auto simp: appendCumulativeQuantityDisclaimer_def dest: in_world_same split: if_splits prod.splits sum.splits)

lemma answer_with_same: "answer_with env d t st = (r, st') \<Longrightarrow> same_turn st st'"
  by (auto simp: answer_with_def dest: append_same split: prod.splits sum.splits)

lemma synthesize_answer_same: "synthesize_answer env d st = (r, st') \<Longrightarrow> same_turn st st'"
  by (auto simp: synthesize_answer_def dest: answer_with_same in_world_same intro: same_turn_trans
      split: prod.splits sum.splits)

lemma finalize_same: "finalizeAnswer env d h st = (r, st') \<Longrightarrow> same_turn st st'"
  by (auto simp: finalizeAnswer_def dest: answer_with_same synthesize_answer_same split: list.splits)

lemma throw_same: "throwIfCancelled env st = (r, st') \<Longrightarrow> same_turn st st'"
  by (auto simp: throwIfCancelled_def dest: in_world_same split: if_splits prod.splits sum.splits)

lemma evaluate_same: "runEvaluateAndDecide env d r rest st = (v, st') \<Longrightarrow> same_turn st st'"
  by (auto simp: runEvaluateAndDecide_def dest: in_world_same split: prod.splits sum.splits)

lemma planning_same:
  assumes "runPlanningStep env d st = (r, st')"
  shows "same_turn (st\<lparr>tn_plans := tn_plans st + 1\<rparr>) st'"
proof -
  obtain p c w where p: "supervisor_plan (te_sup env) (td_prompt d) (td_agents d) (tn_rounds st) (td_history d)
           (tn_cache st) (td_channelId d) (td_workspaceId d) (tn_world st) = (p, c, w)"
    by (metis prod_cases3)
  let ?st = "st\<lparr>tn_world := w, tn_cache := c, tn_plans := Suc (tn_plans st)\<rparr>"
  have base: "same_turn (st\<lparr>tn_plans := Suc (tn_plans st)\<rparr>) ?st" by (simp add: same_turn_def)
  have respond: "same_turn ?st st'" if "plan_respond env d x ?st = (r, st')" for x
    using that
    by (auto simp: plan_respond_def Let_def same_turn_def dest!: finalize_same split: prod.splits sum.splits if_splits)
  have make: "same_turn ?st st'" if "plan_make env d x ?st = (r, st')" for x
    using that
    by (auto simp: plan_make_def Let_def dest: in_world_same split: prod.splits sum.splits if_splits)
  show ?thesis
    using assms base
    by (auto simp: runPlanningStep_def p Let_def split: sum.splits if_splits intro: same_turn_trans dest!: respond make)
qed

text \<open>The rounds and the counters after a delegation.\<close>

lemma after_round_counts:
  assumes "after_round env d r rest st = (out, st')"
  shows "tn_realSteps st' = tn_realSteps st" "tn_delegations st' = tn_delegations st" "tn_plans st' = tn_plans st"
    and "tn_nonProgress st' = tn_nonProgress st + (if out = Inr (StepGo True) then 1 else 0)"
    and "length (tn_rounds st') = length (tn_rounds st) + (if out = Inr (StepGo True) then 1 else 0)"
proof -
  obtain v st1 where v: "runEvaluateAndDecide env d r rest st = (v, st1)" by fastforce
  obtain f st2 where f: "finalizeAnswer env d None st1 = (f, st2)" by fastforce
  note s = evaluate_same [OF v] finalize_same [OF f]
  show "tn_realSteps st' = tn_realSteps st" "tn_delegations st' = tn_delegations st" "tn_plans st' = tn_plans st"
    "tn_nonProgress st' = tn_nonProgress st + (if out = Inr (StepGo True) then 1 else 0)"
    "length (tn_rounds st') = length (tn_rounds st) + (if out = Inr (StepGo True) then 1 else 0)"
    using assms s by (auto simp: after_round_def v f same_turn_def split: sum.splits if_splits)
qed

text \<open>
  A delegation is one real step, at most one agent run and, when it asks for a new plan,
  one round without progress.
\<close>

lemma delegate_counts:
  assumes "delegateRound env d dg st = (out, st')"
  shows "tn_rounds st' = tn_rounds st" "tn_realSteps st' = tn_realSteps st" "tn_plans st' = tn_plans st"
    "tn_nonProgress st' = tn_nonProgress st" "tn_delegations st' \<le> tn_delegations st + 1"
  using assms by (auto simp: delegateRound_def Let_def split: option.splits prod.splits sum.splits agent_error.splits)

lemma delegation_step_counts:
  assumes "runDelegationStep env d step rest st = (out, st')"
  shows "tn_plans st' = tn_plans st" "tn_delegations st' \<le> tn_delegations st + 1"
    "out = Inr z \<Longrightarrow> tn_realSteps st' = tn_realSteps st + 1"
    "tn_nonProgress st' = tn_nonProgress st + (if out = Inr (StepGo True) then 1 else 0)"
    "length (tn_rounds st') \<le> length (tn_rounds st) + 1 + (if out = Inr (StepGo True) then 1 else 0)"
proof -
  obtain res st1 where g: "delegateRound env d step st = (res, st1)" by fastforce
  note g' = delegate_counts [OF g]
  let ?st = "st1\<lparr>tn_realSteps := tn_realSteps st1 + 1\<rparr>"
  consider (err) e where "res = Inl e" | (block) tool task tcs where "res = Inr (Blocked tool task tcs)"
    | (round) r c where "after_round env d r rest (push_calls c (push_round r ?st)) = (out, st')"
    | (none) r where "after_round env d r rest (push_round r ?st) = (out, st')"
  proof (cases res)
    case (Inr x)
    then show ?thesis using assms that by (cases x) (auto simp: runDelegationStep_def g Let_def)
  qed (use that in auto)
  then have "tn_plans st' = tn_plans st \<and> tn_delegations st' \<le> tn_delegations st + 1 \<and>
      (out = Inr z \<longrightarrow> tn_realSteps st' = tn_realSteps st + 1) \<and>
      tn_nonProgress st' = tn_nonProgress st + (if out = Inr (StepGo True) then 1 else 0) \<and>
      length (tn_rounds st') \<le> length (tn_rounds st) + 1 + (if out = Inr (StepGo True) then 1 else 0)"
  proof cases
    case err
    then show ?thesis using assms g' by (auto simp: runDelegationStep_def g)
  next
    case block
    then show ?thesis
      using assms g' by (auto simp: runDelegationStep_def g Let_def same_turn_def dest!: in_world_same
          split: prod.splits sum.splits option.splits)
  next
    case (round r c)
    then show ?thesis using after_round_counts [OF round] g' by simp
  next
    case (none r)
    then show ?thesis using after_round_counts [OF none] g' by simp
  qed
  then show "tn_plans st' = tn_plans st" "tn_delegations st' \<le> tn_delegations st + 1"
    "out = Inr z \<Longrightarrow> tn_realSteps st' = tn_realSteps st + 1"
    "tn_nonProgress st' = tn_nonProgress st + (if out = Inr (StepGo True) then 1 else 0)"
    "length (tn_rounds st') \<le> length (tn_rounds st) + 1 + (if out = Inr (StepGo True) then 1 else 0)"
    by blast+
qed

lemma guard_counts:
  assumes "guardAgainstMisroute d step st = Some st'"
  shows "tn_realSteps st' = tn_realSteps st" "tn_plans st' = tn_plans st" "tn_delegations st' = tn_delegations st"
    "tn_nonProgress st' = tn_nonProgress st + 1" "length (tn_rounds st') = length (tn_rounds st) + 1"
  using assms by (auto simp: guardAgainstMisroute_def split: option.splits)

definition plan_if_needed ::
    "'w turn_env \<Rightarrow> turn_data \<Rightarrow> bool \<Rightarrow> delegation list \<Rightarrow> 'w turn_state \<Rightarrow>
     (agent_error + plan_outcome) \<times> 'w turn_state" where
  "plan_if_needed env d needsPlan steps st =
     (if needsPlan then runPlanningStep env d st else (Inr (PlanSteps steps), st))"

lemma plan_if_needed_counts:
  assumes "plan_if_needed env d np steps st = (out, st')"
  shows "tn_realSteps st' = tn_realSteps st" "tn_nonProgress st' = tn_nonProgress st" "tn_rounds st' = tn_rounds st"
    "tn_plans st' = tn_plans st + (if np then 1 else 0)" "tn_delegations st' = tn_delegations st"
    "tn_guard st' = tn_guard st" "tn_calls st' = tn_calls st"
  using assms planning_same [of env d st out st']
  by (auto simp: plan_if_needed_def same_turn_def split: if_splits)

lemma throw_counts:
  assumes "throwIfCancelled env st = (out, st')"
  shows "tn_realSteps st' = tn_realSteps st" "tn_nonProgress st' = tn_nonProgress st" "tn_rounds st' = tn_rounds st"
    "tn_plans st' = tn_plans st" "tn_delegations st' = tn_delegations st" "tn_guard st' = tn_guard st" "tn_calls st' = tn_calls st"
  using throw_same [OF assms] by (auto simp: same_turn_def)

lemma loop_decreases:
  "(x, st1) = throwIfCancelled env st \<Longrightarrow> tn_realSteps st1 = tn_realSteps st \<and> tn_nonProgress st1 = tn_nonProgress st"
  "(y, st2) = plan_if_needed env d np steps st \<Longrightarrow>
     tn_realSteps st2 = tn_realSteps st \<and> tn_nonProgress st2 = tn_nonProgress st"
  "(Inr z, st3) = runDelegationStep env d step rest st \<Longrightarrow>
     tn_realSteps st3 = tn_realSteps st + 1 \<and> tn_nonProgress st \<le> tn_nonProgress st3"
  "guardAgainstMisroute d step st = Some st3 \<Longrightarrow>
     tn_realSteps st3 = tn_realSteps st \<and> tn_nonProgress st3 = tn_nonProgress st + 1"
  by (simp_all add: throw_counts(1,2) [OF sym] plan_if_needed_counts(1,2) [OF sym]
      delegation_step_counts(3) [OF sym refl] delegation_step_counts(4) [OF sym] guard_counts(1,4))

text \<open>The loop of \<open>run\<close>; it ends because every turn of it is a real step or one without progress.\<close>

function turn_loop ::
    "'w turn_env \<Rightarrow> turn_data \<Rightarrow> delegation list \<Rightarrow> bool \<Rightarrow> 'w turn_state \<Rightarrow>
     (agent_error + answer) \<times> 'w turn_state" where
  "turn_loop env d steps needsPlan st =
    (if tn_realSteps st < MAX_REAL_STEPS_PER_TURN \<and> tn_nonProgress st < MAX_SUPERVISOR_ROUNDS then
       (case throwIfCancelled env st of
          (Inl e, st1) \<Rightarrow> (Inl e, st1)
        | (Inr _, st1) \<Rightarrow>
       (case plan_if_needed env d needsPlan steps st1 of
          (Inl e, st2) \<Rightarrow> (Inl e, st2)
        | (Inr (PlanDone a), st2) \<Rightarrow> (Inr a, st2)
        | (Inr (PlanSteps []), st2) \<Rightarrow> finalizeAnswer env d None st2
        | (Inr (PlanSteps (step # rest)), st2) \<Rightarrow>
       (case guardAgainstMisroute d step st2 of
          Some st3 \<Rightarrow> turn_loop env d [] True st3
        | None \<Rightarrow>
       (case runDelegationStep env d step rest st2 of
          (Inl e, st3) \<Rightarrow> (Inl e, st3)
        | (Inr (StepDone a), st3) \<Rightarrow> (Inr a, st3)
        | (Inr (StepGo replan), st3) \<Rightarrow> turn_loop env d (if replan then [] else rest) replan st3))))
     else runNonConvergenceFallback env d st)"
  by pat_completeness auto
termination
proof (relation "measure (\<lambda>(env, d, steps, np, st).
      (MAX_REAL_STEPS_PER_TURN - tn_realSteps st) + (MAX_SUPERVISOR_ROUNDS - tn_nonProgress st))", goal_cases)
  case 1
  then show ?case by simp
next
  case 2
  then show ?case by (auto dest!: loop_decreases)
next
  case 3
  then show ?case by (auto dest!: loop_decreases)
qed

declare turn_loop.simps [simp del]

section \<open>A run\<close>

datatype resume_outcome = ResumeDone answer | ResumeGo "delegation list" bool

definition handleResumeEvaluation ::
    "'w turn_env \<Rightarrow> turn_data \<Rightarrow> delegation list \<Rightarrow> 'w turn_state \<Rightarrow> (agent_error + resume_outcome) \<times> 'w turn_state" where
  "handleResumeEvaluation env d steps st =
    (let lastRound = last (tn_rounds st)
     in case runEvaluateAndDecide env d lastRound steps st of
          (Inl e, st) \<Rightarrow> (Inl e, st)
        | (Inr v, st) \<Rightarrow>
            if v = Finalize then
              (case finalizeAnswer env d None st of (Inl e, st) \<Rightarrow> (Inl e, st) | (Inr a, st) \<Rightarrow> (Inr (ResumeDone a), st))
            else if v = Replan then (Inr (ResumeGo [] True), push_round (replan_round lastRound) (no_progress st))
            else (Inr (ResumeGo steps False), st))"

definition turn_run ::
    "'w turn_env \<Rightarrow> turn_data \<Rightarrow> delegation option \<Rightarrow> delegation list option \<Rightarrow> 'w turn_state \<Rightarrow>
     (agent_error + answer) \<times> 'w turn_state" where
  "turn_run env d forcedStep remainingSteps st =
    (let steps = (case forcedStep of Some s \<Rightarrow> s # nullish remainingSteps [] | None \<Rightarrow> nullish remainingSteps []);
         needsPlan = (forcedStep = None \<and> remainingSteps = None)
     in if forcedStep = None \<and> remainingSteps \<noteq> None \<and> length (tn_rounds st) > 0 then
          (case handleResumeEvaluation env d steps st of
             (Inl e, st) \<Rightarrow> (Inl e, st)
           | (Inr (ResumeDone a), st) \<Rightarrow> (Inr a, st)
           | (Inr (ResumeGo steps needsPlan), st) \<Rightarrow> turn_loop env d steps needsPlan st)
        else turn_loop env d steps needsPlan st)"

text \<open>
  \<open>continueRounds\<close> of \<open>processor/turn-resolver.service.ts\<close>: a run from the rounds so far; an
  error after a stop keeps the result of the last round.
\<close>

definition continueRounds ::
    "'w turn_env \<Rightarrow> turn_data \<Rightarrow> round list \<Rightarrow> tool_trace list \<Rightarrow> delegation option \<Rightarrow> delegation list option \<Rightarrow>
     'w \<Rightarrow> (agent_error + answer) \<times> 'w turn_state" where
  "continueRounds env d rounds toolCalls forcedStep remainingSteps w =
     runCancellable (\<lambda>st. sv_aborted (te_sup env) (tn_world st))
       (\<lambda>st. if length (tn_rounds st) > 0 then Some (rd_result (last (tn_rounds st))) else None)
       (turn_run env d forcedStep remainingSteps) (new_turn rounds toolCalls w)"

lemma runCancellable_state: "snd (runCancellable aborted partial fn w) = snd (fn w)"
  by (auto simp: runCancellable_def split: prod.splits sum.splits agent_error.splits)

end
