(* ===== verification/Turn_Safety.thy ===== *)
theory Turn_Safety
  imports Turn_Resolver
begin

text \<open>
  What holds along a whole turn: the bounds on its steps, and any invariant of the repeat
  guard and the tool calls made that one ReAct loop keeps. The second is an interface
  (\<open>turn_invariant\<close>), provided by the model of \<open>llm/react-loop.service.ts\<close>.
\<close>

section \<open>Bounds\<close>

text \<open>The budget a state has left.\<close>

definition steps_left :: "'w turn_state \<Rightarrow> nat" where
  "steps_left st = MAX_REAL_STEPS_PER_TURN - tn_realSteps st"

definition replans_left :: "'w turn_state \<Rightarrow> nat" where
  "replans_left st = MAX_SUPERVISOR_ROUNDS - tn_nonProgress st"

lemma synthesize_counts:
  assumes "same_turn st st'"
  shows "tn_delegations st' = tn_delegations st \<and> tn_plans st' = tn_plans st \<and> tn_rounds st' = tn_rounds st"
  using assms by (simp add: same_turn_def)

text \<open>
  The loop as a rule: \<open>I\<close> holds before each turn of the loop (with its \<open>needsPlan\<close>),
  \<open>J\<close> once the plan is there, \<open>Q\<close> at the end.
\<close>

lemma turn_loop_rule:
  assumes "turn_loop env d steps np st = (r, st')" "I np st"
    and same_I: "\<And>np s s'. I np s \<Longrightarrow> same_turn s s' \<Longrightarrow> I np s'"
    and same_J: "\<And>s s'. J s \<Longrightarrow> same_turn s s' \<Longrightarrow> J s'"
    and end_I: "\<And>np s. I np s \<Longrightarrow> Q s"
    and end_J: "\<And>s. J s \<Longrightarrow> Q s"
    and plan: "\<And>s. I True s \<Longrightarrow> J (s\<lparr>tn_plans := tn_plans s + 1\<rparr>)"
    and no_plan: "\<And>s. I False s \<Longrightarrow> J s"
    and guarded: "\<And>s s' step. J s \<Longrightarrow> tn_nonProgress s < MAX_SUPERVISOR_ROUNDS \<Longrightarrow>
      guardAgainstMisroute d step s = Some s' \<Longrightarrow> I True s'"
    and delegated: "\<And>s s' step rest out. J s \<Longrightarrow> tn_realSteps s < MAX_REAL_STEPS_PER_TURN \<Longrightarrow>
      tn_nonProgress s < MAX_SUPERVISOR_ROUNDS \<Longrightarrow> runDelegationStep env d step rest s = (out, s') \<Longrightarrow>
      Q s' \<and> (\<forall>b. out = Inr (StepGo b) \<longrightarrow> I b s')"
  shows "Q st'"
  using assms(1,2)
proof (induction "steps_left st + replans_left st" arbitrary: steps np st r st' rule: less_induct)
  case less
  show ?case
  proof (cases "tn_realSteps st < MAX_REAL_STEPS_PER_TURN \<and> tn_nonProgress st < MAX_SUPERVISOR_ROUNDS")
    case False
    then have "synthesize_answer env d st = (r, st')"
      using less.prems(1) by (simp only: turn_loop.simps [of env d steps np st] False if_False runNonConvergenceFallback_def)
    then show ?thesis using less.prems(2) same_I end_I synthesize_answer_same by blast
  next
    case True
    obtain t st1 where t: "throwIfCancelled env st = (t, st1)" by fastforce
    obtain p st2 where p: "plan_if_needed env d np steps st1 = (p, st2)" by fastforce
    have I1: "I np st1" using less.prems(2) same_I throw_same [OF t] by blast
    have J2: "J st2"
    proof (cases np)
      case True
      then have "same_turn (st1\<lparr>tn_plans := tn_plans st1 + 1\<rparr>) st2"
        using p planning_same by (simp add: plan_if_needed_def)
      moreover have "I True st1" using I1 True by simp
      ultimately show ?thesis using plan same_J by blast
    qed (use p I1 no_plan in \<open>auto simp: plan_if_needed_def\<close>)
    note eq = turn_loop.simps [of env d steps np st]
    note c = throw_counts [OF t] plan_if_needed_counts [OF p]
    have bounds: "tn_realSteps st2 < MAX_REAL_STEPS_PER_TURN" "tn_nonProgress st2 < MAX_SUPERVISOR_ROUNDS"
      using True c by simp_all
    consider (stop) "st' = st1" | (planned) "st' = st2" | (final) "finalizeAnswer env d None st2 = (r, st')"
      | (step) step rest where "t = Inr ()" "p = Inr (PlanSteps (step # rest))"
    proof (cases t)
      case (Inr u)
      then show ?thesis
        using less.prems(1) True t p that
        by (cases p; simp add: eq split: plan_outcome.splits list.splits)
    qed (use less.prems(1) True t that in \<open>simp add: eq\<close>)
    then show ?thesis
    proof cases
      case stop
      then show ?thesis using I1 end_I by simp
    next
      case planned
      then show ?thesis using J2 end_J by simp
    next
      case final
      then show ?thesis using J2 same_J end_J finalize_same by blast
    next
      case step
      show ?thesis
      proof (cases "guardAgainstMisroute d step st2")
        case (Some st3)
        then have "turn_loop env d [] True st3 = (r, st')"
          using less.prems(1) True t p step by (simp add: eq)
        moreover have "steps_left st3 + replans_left st3 < steps_left st + replans_left st"
          using guard_counts [OF Some] c True by (auto simp: steps_left_def replans_left_def)
        ultimately show ?thesis using less.hyps guarded [OF J2 bounds(2) Some] by blast
      next
        case None
        obtain out st3 where s: "runDelegationStep env d step rest st2 = (out, st3)" by fastforce
        note d = delegated [OF J2 bounds s]
        show ?thesis
        proof (cases "\<exists>b. out = Inr (StepGo b)")
          case True
          then obtain b where b: "out = Inr (StepGo b)" by blast
          then have l: "turn_loop env d (if b then [] else rest) b st3 = (r, st')"
            using less.prems(1) \<open>tn_realSteps st < _ \<and> _\<close> t p step None s by (simp add: eq)
          have m: "steps_left st3 + replans_left st3 < steps_left st + replans_left st"
            using delegation_step_counts(3) [OF s b] delegation_step_counts(4) [OF s] c bounds
            by (auto simp: steps_left_def replans_left_def)
          have "I b st3" using d b by blast
          with m l show ?thesis by (rule less.hyps)
        next
          case False
          then consider e where "out = Inl e" | a where "out = Inr (StepDone a)"
            by (metis obj_sumE step_outcome.exhaust)
          then have "st' = st3"
            by cases (use less.prems(1) True t p step None s in \<open>simp_all add: eq\<close>)
          then show ?thesis using d by simp
        qed
      qed
    qed
  qed
qed

lemma turn_loop_bounds:
  assumes "turn_loop env d steps np st = (r, st')"
  shows "tn_delegations st' \<le> tn_delegations st + steps_left st \<and>
     tn_plans st' \<le> tn_plans st + (if np then 1 else 0) + replans_left st \<and>
     length (tn_rounds st') \<le> length (tn_rounds st) + steps_left st + replans_left st"
proof -
  define D where "D = tn_delegations st + steps_left st"
  define P where "P = tn_plans st + (if np then 1 else 0) + replans_left st"
  define R where "R = length (tn_rounds st) + steps_left st + replans_left st"
  let ?I = "\<lambda>np s. tn_delegations s + steps_left s \<le> D \<and> tn_plans s + (if np then 1 else 0) + replans_left s \<le> P
      \<and> length (tn_rounds s) + steps_left s + replans_left s \<le> R"
  let ?Q = "\<lambda>s. tn_delegations s \<le> D \<and> tn_plans s \<le> P \<and> length (tn_rounds s) \<le> R"
  have "?Q st'"
  proof (rule turn_loop_rule [OF assms, where I = ?I and J = "?I False"])
    show "?I np st" by (simp add: D_def P_def R_def)
  next
    fix s s' step rest out
    assume "?I False s" "tn_realSteps s < MAX_REAL_STEPS_PER_TURN" "tn_nonProgress s < MAX_SUPERVISOR_ROUNDS"
      and s: "runDelegationStep env d step rest s = (out, s')"
    then show "?Q s' \<and> (\<forall>b. out = Inr (StepGo b) \<longrightarrow> ?I b s')"
      using delegation_step_counts(1,2,4,5) [OF s] delegation_step_counts(3) [OF s]
      by (auto simp: steps_left_def replans_left_def split: if_splits)
  next
    fix s s' step
    assume "?I False s" "tn_nonProgress s < MAX_SUPERVISOR_ROUNDS" and g: "guardAgainstMisroute d step s = Some s'"
    then show "?I True s'"
      using guard_counts [OF g] by (auto simp: steps_left_def replans_left_def)
  qed (auto simp: same_turn_def steps_left_def replans_left_def)
  then show ?thesis by (simp add: D_def P_def R_def)
qed

lemma resume_counts:
  assumes "handleResumeEvaluation env d steps st = (out, st')"
  shows "tn_delegations st' = tn_delegations st" "tn_plans st' = tn_plans st" "tn_realSteps st' = tn_realSteps st"
    "tn_guard st' = tn_guard st" "tn_calls st' = tn_calls st"
    "tn_nonProgress st' = tn_nonProgress st + (if out = Inr (ResumeGo [] True) then 1 else 0)"
    "length (tn_rounds st') = length (tn_rounds st) + (if out = Inr (ResumeGo [] True) then 1 else 0)"
    "out = Inr (ResumeGo ss b) \<Longrightarrow> b \<Longrightarrow> ss = []"
  using assms
  by (auto simp: handleResumeEvaluation_def Let_def same_turn_def dest!: evaluate_same finalize_same
      split: prod.splits sum.splits if_splits)

text \<open>
  Any run: at most fifteen agents run, at most six plans are asked for, and the rounds
  grow by at most twenty-one.
\<close>

lemma turn_run_bounds:
  assumes "turn_run env d forced remaining st = (r, st')"
  shows "tn_delegations st' \<le> tn_delegations st + 15 \<and> tn_plans st' \<le> tn_plans st + 6 \<and>
    length (tn_rounds st') \<le> length (tn_rounds st) + 21"
proof -
  have left: "steps_left s \<le> 15" "replans_left s \<le> 5" for s :: "'a turn_state"
    by (simp_all add: steps_left_def replans_left_def MAX_REAL_STEPS_PER_TURN_def MAX_SUPERVISOR_ROUNDS_def)
  show ?thesis
  proof (cases "forced = None \<and> remaining \<noteq> None \<and> length (tn_rounds st) > 0")
    case True
    obtain out st1 where h: "handleResumeEvaluation env d (nullish remaining []) st = (out, st1)" by fastforce
    note c = resume_counts [OF h]
    show ?thesis
    proof (cases "\<exists>ss b. out = Inr (ResumeGo ss b)")
      case True
      then obtain ss b where o: "out = Inr (ResumeGo ss b)" by blast
      then have l: "turn_loop env d ss b st1 = (r, st')"
        using assms \<open>forced = None \<and> _\<close> h by (auto simp: turn_run_def Let_def)
      have "replans_left st1 \<le> 5" "steps_left st1 \<le> 15" by (simp_all add: left)
      moreover have "length (tn_rounds st1) \<le> length (tn_rounds st) + 1" using c by simp
      moreover have "(if b then 1 else 0 :: nat) \<le> 1" by simp
      ultimately show ?thesis using turn_loop_bounds [OF l] c(1,2) by linarith
    next
      case False
      then consider e where "out = Inl e" | a where "out = Inr (ResumeDone a)"
        by (metis obj_sumE resume_outcome.exhaust)
      then have "st' = st1"
        by cases (use assms \<open>forced = None \<and> _\<close> h in \<open>auto simp: turn_run_def Let_def\<close>)
      then show ?thesis using c False by auto
    qed
  next
    case False
    then obtain steps np where "turn_loop env d steps np st = (r, st')"
      using assms by (auto simp: turn_run_def Let_def split: if_splits)
    moreover have "(if np then 1 else 0 :: nat) \<le> 1" by simp
    ultimately show ?thesis using turn_loop_bounds [of env d steps np st r st'] left [of st] by linarith
  qed
qed

section \<open>Invariants of the guard and the calls\<close>

lemma after_round_calls:
  assumes "after_round env d r rest st = (out, st')"
  shows "tn_guard st' = tn_guard st \<and> tn_calls st' = tn_calls st"
  using assms by (auto simp: after_round_def same_turn_def dest!: evaluate_same finalize_same
      split: prod.splits sum.splits if_splits)

lemma delegation_step_calls:
  assumes g: "delegateRound env d step st = (res, st1)" and s: "runDelegationStep env d step rest st = (out, st')"
  shows "tn_guard st' = tn_guard st1 \<and> tn_calls st' = tn_calls st1"
proof (cases res)
  case (Inr x)
  show ?thesis
  proof (cases x)
    case (Blocked tool task tcs)
    then show ?thesis
      using s Inr by (auto simp: runDelegationStep_def g Let_def same_turn_def dest!: in_world_same
          split: prod.splits sum.splits option.splits)
  qed (use s Inr in \<open>auto simp: runDelegationStep_def g Let_def dest!: after_round_calls\<close>)
qed (use s in \<open>auto simp: runDelegationStep_def g\<close>)

locale turn_invariant =
  fixes react :: "jstr \<Rightarrow> jstr \<Rightarrow> repeat_guard \<times> real_call list \<Rightarrow> 'w \<Rightarrow>
      (agent_error + react_response) \<times> (repeat_guard \<times> real_call list) \<times> 'w"
    and Inv :: "repeat_guard \<times> real_call list \<Rightarrow> bool"
  assumes keeps: "Inv gl \<Longrightarrow> react p pr gl w = (r, gl', w') \<Longrightarrow> Inv gl'"
    and start: "Inv (new_guard, [])"
begin

abbreviation holds :: "'w turn_state \<Rightarrow> bool" where
  "holds st \<equiv> Inv (tn_guard st, tn_calls st)"

lemma same_turn_keeps: "holds st \<Longrightarrow> same_turn st st' \<Longrightarrow> holds st'"
  by (simp add: same_turn_def)

lemma delegate_keeps:
  assumes "te_react env = react" "holds st" "delegateRound env d dg st = (out, st')"
  shows "holds st'"
  using assms by (auto simp: delegateRound_def Let_def dest: keeps
      split: option.splits prod.splits sum.splits agent_error.splits)

lemma delegation_step_keeps:
  assumes "te_react env = react" "holds st" "runDelegationStep env d step rest st = (out, st')"
  shows "holds st'"
proof -
  obtain res st1 where g: "delegateRound env d step st = (res, st1)" by fastforce
  have "holds st1" using delegate_keeps [OF assms(1,2) g] .
  then show ?thesis using delegation_step_calls [OF g assms(3)] by simp
qed

lemma turn_loop_keeps:
  assumes "te_react env = react" "holds st" "turn_loop env d steps np st = (r, st')"
  shows "holds st'"
proof (rule turn_loop_rule [OF assms(3), where I = "\<lambda>_. holds" and J = holds])
  show "holds s'" if "holds s" "guardAgainstMisroute d step s = Some s'" for s s' step
    using that by (auto simp: guardAgainstMisroute_def split: option.splits)
  show "holds s' \<and> (\<forall>b. out = Inr (StepGo b) \<longrightarrow> holds s')"
    if "holds s" "runDelegationStep env d step rest s = (out, s')" for s s' step rest out
    using delegation_step_keeps [OF assms(1) that] by simp
qed (use assms(2) same_turn_keeps in auto)

lemma turn_run_keeps:
  assumes "te_react env = react" "turn_run env d forced remaining (new_turn rounds tcs w) = (r, st')"
  shows "holds st'"
proof -
  let ?st = "new_turn rounds tcs w"
  have s: "holds ?st" using start by (simp add: new_turn_def Let_def)
  obtain out st1 where h: "handleResumeEvaluation env d (nullish remaining []) ?st = (out, st1)" by fastforce
  have "holds st1" using s resume_counts(4,5) [OF h] by simp
  then show ?thesis
    using assms(2) s h turn_loop_keeps [OF assms(1)]
    by (cases remaining)
      (auto simp: turn_run_def Let_def split: if_splits sum.splits resume_outcome.splits)
qed

end

section \<open>The ReAct service\<close>

text \<open>
  \<open>run\<close> of \<open>llm/react-loop.service.ts\<close>: \<open>rv_open\<close> loads the tools and the instruction of
  a provider and resolves the model; \<open>rv_streamed\<close> is \<open>confirmedText\<close>.
\<close>

record 'w react_service =
  rv_open :: "jstr \<Rightarrow> jstr \<Rightarrow> 'w \<Rightarrow> (agent_error + mcp_tool list) \<times> 'w"
  rv_react :: "jstr \<Rightarrow> 'w react_env"
  rv_exec :: "'w exec_env"
  rv_pick :: "llm_call list \<Rightarrow> 'w exec_state \<Rightarrow> nat list"
  rv_aborted :: "'w \<Rightarrow> bool"
  rv_streamed :: "'w \<Rightarrow> jstr"

definition react_dto :: "turn_data \<Rightarrow> jstr \<Rightarrow> jstr \<Rightarrow> mcp_tool list \<Rightarrow> run_dto" where
  "react_dto d prompt prov tools =
     \<lparr>dto_prompt = prompt, dto_provider = prov, dto_userId = td_userId d,
      dto_workspaceId = td_workspaceId d, dto_mcpTools = tools\<rparr>"

definition react_body ::
    "'w react_service \<Rightarrow> turn_data \<Rightarrow> jstr \<Rightarrow> jstr \<Rightarrow> 'w react_state \<Rightarrow> (agent_error + react_response) \<times> 'w react_state" where
  "react_body rv d prompt prov st =
    (case rv_open rv prompt prov (world (rs_exec st)) of
       (Inl e, w) \<Rightarrow> (Inl e, on_world (\<lambda>_. w) st)
     | (Inr tools, w) \<Rightarrow>
         if rv_aborted rv w then (Inl (TurnCancelled None), on_world (\<lambda>_. w) st)
         else (let dto = react_dto d prompt prov tools
               in react_execute (rv_react rv prov) (runTools (rv_exec rv) dto (rv_pick rv)) dto (on_world (\<lambda>_. w) st)))"

definition react_run ::
    "'w react_service \<Rightarrow> turn_data \<Rightarrow> jstr \<Rightarrow> jstr \<Rightarrow> repeat_guard \<times> real_call list \<Rightarrow> 'w \<Rightarrow>
     (agent_error + react_response) \<times> (repeat_guard \<times> real_call list) \<times> 'w" where
  "react_run rv d prompt prov gl w =
    (let (r, st) = runCancellable (\<lambda>st. rv_aborted rv (world (rs_exec st)))
           (\<lambda>st. if rv_streamed rv (world (rs_exec st)) = [] then None else Some (rv_streamed rv (world (rs_exec st))))
           (react_body rv d prompt prov) (new_loop (fst gl) (snd gl) w)
     in (r, (guard (rs_exec st), realCalls (rs_exec st)), world (rs_exec st)))"

definition calls_wf :: "repeat_guard \<times> real_call list \<Rightarrow> bool" where
  "calls_wf gl \<longleftrightarrow> loop_wf (new_loop (fst gl) (snd gl) ())"

lemma calls_wf_loop: "loop_wf st \<longleftrightarrow> calls_wf (guard (rs_exec st), realCalls (rs_exec st))"
  by (simp add: calls_wf_def loop_wf_def log_wf_def new_loop_def)

lemma react_run_keeps:
  assumes "calls_wf gl" "react_run rv d prompt prov gl w = (r, gl', w')"
  shows "calls_wf gl'"
proof -
  define st' where "st' = snd (react_body rv d prompt prov (new_loop (fst gl) (snd gl) w))"
  have "loop_wf (new_loop (fst gl) (snd gl) w)" using assms(1) by (simp add: calls_wf_loop new_loop_def)
  then have "loop_wf st'"
    by (auto simp: st'_def react_body_def Let_def react_execute_wf split: prod.splits sum.splits)
  moreover have "gl' = (guard (rs_exec st'), realCalls (rs_exec st'))"
    using assms(2) by (auto simp: react_run_def st'_def case_prod_beta runCancellable_state)
  ultimately show ?thesis by (simp add: calls_wf_loop)
qed

interpretation turn: turn_invariant "react_run rv d" calls_wf for rv :: "'w react_service" and d
proof
  show "calls_wf gl \<Longrightarrow> react_run rv d p pr gl w = (r, gl', w') \<Longrightarrow> calls_wf gl'" for gl p pr w r gl' w'
    by (rule react_run_keeps)
  show "calls_wf (new_guard, [])" using loop_wf_new [of "()"] by (simp add: calls_wf_def)
qed

end
