(* ===== verification/Turn_Theorems.thy ===== *)
theory Turn_Theorems
  imports Turn_Safety
begin

text \<open>
  The properties of a turn: its bounds, the safety of all tool calls of its agents, what a
  stop keeps, and what the answer says about quantities; and three places where the answer
  is not what the code means to give.
\<close>

section \<open>Bounds and safety\<close>

text \<open>
  C24: a turn, resumed or not, runs at most fifteen agents, asks for at most six plans and
  adds at most twenty-one rounds, whatever the models answer.
\<close>

theorem turn_is_bounded:
  "let st' = snd (continueRounds env d rounds toolCalls forcedStep remainingSteps w)
   in tn_delegations st' \<le> 15 \<and> tn_plans st' \<le> 6 \<and> length (tn_rounds st') \<le> length rounds + 21"
proof -
  obtain r st' where run: "turn_run env d forcedStep remainingSteps (new_turn rounds toolCalls w) = (r, st')"
    by fastforce
  show ?thesis
    using turn_run_bounds [OF run]
    by (simp add: continueRounds_def runCancellable_state run) (simp add: new_turn_def Let_def)
qed


section \<open>Stops and quantities\<close>

lemma sublist_in_middle: "sublist x m \<Longrightarrow> sublist x (a @ m @ b)"
  by (meson sublist_appendI sublist_order.order.trans)

lemma join_includes: "x \<in> set xs \<Longrightarrow> sublist x (join sep xs)"
proof (induction sep xs rule: join.induct)
  case (3 sep y z zs)
  show ?case
  proof (cases "x = y")
    case True
    then show ?thesis by simp
  next
    case False
    then have "sublist x (join sep (z # zs))" using 3 by simp
    from sublist_in_middle [OF this, of "y @ sep" "[]"] show ?thesis by simp
  qed
qed auto

lemma enumerated_in:
  assumes "x \<in> set xs"
  shows "\<exists>i. f i x \<in> set (enumerate_from_1 f xs)"
proof -
  obtain i where "i < length xs" "xs ! i = x" using assms by (auto simp: in_set_conv_nth)
  then have "(i, x) \<in> set (enumerate 0 xs)" by (auto simp: in_set_enumerate_eq)
  then show ?thesis by (force simp: enumerate_from_1_def)
qed



lemma answer_with_reports:
  assumes "answer_with env d t st = (Inr a, st')" "tn_toolCalls st \<noteq> []"
  shows "\<exists>w1 required achieved w2.
    checkCumulativeQuantity (te_sup env) (td_prompt d) (tn_toolCalls st) w1 = (Inr (required, achieved), w2) \<and>
    (required > 0 \<and> achieved \<noteq> required \<longrightarrow> suffix (quantity_disclaimer required achieved) (an_content a))"
  using assms
  by (auto simp: answer_with_def appendCumulativeQuantityDisclaimer_def in_world_def buildAnswer_def
      split: prod.splits sum.splits if_splits) (metis (no_types, lifting) suffixI)+

text \<open>
  An answer given from the results of the rounds has been checked against all tool calls
  of the turn: when another number was done than asked for, it ends with the notice.
\<close>

theorem turn_reports_mismatch:
  assumes "finalizeAnswer env d hint st = (Inr a, st')" "tn_rounds st \<noteq> []" "tn_toolCalls st \<noteq> []"
  shows "\<exists>w1 required achieved w2.
    checkCumulativeQuantity (te_sup env) (td_prompt d) (tn_toolCalls st) w1 = (Inr (required, achieved), w2) \<and>
    (required > 0 \<and> achieved \<noteq> required \<longrightarrow> suffix (quantity_disclaimer required achieved) (an_content a))"
proof (cases "tn_rounds st" rule: remdups_adj.cases)
  case 1
  then show ?thesis using assms(2) by simp
next
  case (2 r)
  then show ?thesis using assms answer_with_reports by (simp add: finalizeAnswer_def)
next
  case (3 r r' rs)
  then obtain t st1 where "answer_with env d t st1 = (Inr a, st')" "same_turn st st1"
    using assms(1) by (auto simp: finalizeAnswer_def synthesize_answer_def dest: in_world_same split: prod.splits sum.splits)
  then show ?thesis using answer_with_reports [of env d t st1 a st'] assms(3) by (simp add: same_turn_def)
qed

section \<open>Scripted turns\<close>

text \<open>
  Surroundings that answer by a script: the world counts the plans asked for; every
  evaluation gives \<open>v\<close>, every agent answers \<open>t\<close>, quantities are \<open>q\<close> and \<open>a\<close>.
\<close>

definition script_llm :: "int \<Rightarrow> int \<Rightarrow> nat llm_env" where
  "script_llm q a =
     \<lparr>callerAborted = (\<lambda>w. False), backoff = (\<lambda>w. (Inr (), w)), strategyId = js ''openai'',
      cbAcquire = (\<lambda>key w. (Allowed, w)), cbReport = (\<lambda>key d out w. w),
      askRequired = (\<lambda>t w. (Some (1, Inr q), False, w)), askAchieved = (\<lambda>t w. (Some (1, Inr a), False, w))\<rparr>"

definition script_sup :: "plan list \<Rightarrow> verdict \<Rightarrow> int \<Rightarrow> int \<Rightarrow> nat sup_env" where
  "script_sup plans v q a =
     \<lparr>sv_planModel = js ''m'', sv_evaluateModel = js ''m'', sv_model = js ''m'', sv_escalationModel = None,
      sv_lib = plain_lib, sv_aborted = (\<lambda>w. False), sv_llm = (\<lambda>m. Inr (m, script_llm q a)),
      sv_search = (\<lambda>w c. None), sv_memories = (\<lambda>c p w. (Inr [], w)), sv_skill = (\<lambda>p w. (Inr None, w)),
      sv_askPlan = (\<lambda>m t p n w. (Some (1, Inr (plans ! w)), False, w + 1)),
      sv_askVerdict = (\<lambda>m p n w. (Some (1, Inr v), False, w)),
      sv_chat = (\<lambda>m p w. (Some (1, Inr (js ''summary'')), False, w)),
      sv_describe = (\<lambda>e. js ''failed'')\<rparr>"

definition script_env :: "plan list \<Rightarrow> verdict \<Rightarrow> jstr \<Rightarrow> int \<Rightarrow> int \<Rightarrow> nat turn_env" where
  "script_env plans v t q a =
     \<lparr>te_sup = script_sup plans v q a, te_clarify = False, te_reactModel = js ''m'',
      te_cancelled = (\<lambda>w. (Inr False, w)), te_streamed = (\<lambda>w. []), te_remember = (\<lambda>f w. w),
      te_react = (\<lambda>p pr gl w. (Inr \<lparr>rr_answer = t, rr_toolCalls = []\<rparr>, gl, w)),
      te_pauseForApproval = (\<lambda>rs tcs tool task rest w. (Inr (buildAnswer [] tcs), w)),
      te_pauseForClarification = (\<lambda>rs tcs task cands rest w. (Inr (buildAnswer [] tcs), w))\<rparr>"

lemma script_ask:
  "fn w = (Some (1, Inr x), False, w') \<Longrightarrow>
   ask_structured (script_sup plans v q a) m what streams fn w = (Inr x, w')"
  by (simp add: ask_structured_def script_sup_def script_llm_def llm_call_guarded_def circuit_run_def
      withLlmRetry_def retry_from.simps withTimeout_def LLM_CALL_TIMEOUT_MS_def retry_env.truncate_def)

lemma script_sup_fields [simp]:
  "sv_planModel (script_sup plans v q a) = js ''m''" "sv_evaluateModel (script_sup plans v q a) = js ''m''"
  "sv_aborted (script_sup plans v q a) = (\<lambda>w. False)"
  "sv_llm (script_sup plans v q a) = (\<lambda>m. Inr (m, script_llm q a))"
  "sv_memories (script_sup plans v q a) = (\<lambda>c p w. (Inr [], w))"
  "sv_skill (script_sup plans v q a) = (\<lambda>p w. (Inr None, w))"
  "sv_askPlan (script_sup plans v q a) = (\<lambda>m t p n w. (Some (1, Inr (plans ! w)), False, w + 1))"
  "sv_askVerdict (script_sup plans v q a) = (\<lambda>m p n w. (Some (1, Inr v), False, w))"
  by (simp_all add: script_sup_def)

lemma script_env_fields [simp]:
  "te_sup (script_env plans v t q a) = script_sup plans v q a" "te_clarify (script_env plans v t q a) = False"
  "te_cancelled (script_env plans v t q a) = (\<lambda>w. (Inr False, w))"
  "te_react (script_env plans v t q a) = (\<lambda>p pr gl w. (Inr \<lparr>rr_answer = t, rr_toolCalls = []\<rparr>, gl, w))"
  by (simp_all add: script_env_def)

lemma script_plan:
  assumes "length agents \<le> 8" "cache = None \<or> cache = Some (agents, 0)"
    and "case first_step (plans ! w) of None \<Rightarrow> True
         | Some s \<Rightarrow> findAmbiguousAgentCluster prompt agents (dg_agent s) = None"
  shows "supervisor_plan (script_sup plans v q a) prompt agents rounds history cache channelId workspaceId w
    = (Inr (plans ! w), Some (agents, 0), w + 1)"
proof -
  have "nullish cache (rankAgentsForPrompt (sv_search (script_sup plans v q a) w) prompt agents) = (agents, 0)"
    using assms(1,2) by (auto simp: rankAgentsForPrompt_def MAX_AGENTS_BEFORE_RANKING_def)
  then show ?thesis
    using assms(3)
    by (simp add: supervisor_plan_def plan_body_def script_ask split: option.splits)
qed

lemma script_evaluate:
  "evaluate (script_sup plans v q a) prompt r rest w = (Inr (if rest = [] then Done else v), w)"
  by (simp add: evaluate_def script_ask)

definition demo_agents :: "agent list" where
  "demo_agents = [\<lparr>provider = js ''notion'', label = js ''Notion'', description = []\<rparr>,
                  \<lparr>provider = js ''github'', label = js ''GitHub'', description = []\<rparr>]"

definition demo_data :: turn_data where
  "demo_data = \<lparr>td_userId = [], td_channelId = [], td_workspaceId = [], td_replyMessageId = [],
     td_prompt = js ''open an issue'', td_agents = demo_agents, td_history = []\<rparr>"

definition to_agent :: "jstr \<Rightarrow> jstr \<Rightarrow> delegation" where
  "to_agent a t = \<lparr>dg_agent = a, dg_task = t, dg_mustExecute = None\<rparr>"

definition make_plan :: "delegation list \<Rightarrow> plan" where
  "make_plan steps = \<lparr>pl_action = MakePlan, pl_answer = None, pl_rememberFact = None, pl_steps = Some steps, pl_ambiguous = None\<rparr>"

definition respond_plan :: "jstr \<Rightarrow> plan" where
  "respond_plan t = \<lparr>pl_action = Respond, pl_answer = Some t, pl_rememberFact = None, pl_steps = None, pl_ambiguous = None\<rparr>"

lemma demo_fields [simp]:
  "td_prompt demo_data = js ''open an issue''" "td_agents demo_data = demo_agents"
  "length demo_agents = 2" "provider (demo_agents ! 0) = js ''notion''"
  "dg_agent (to_agent a t) = a" "dg_task (to_agent a t) = t"
  "first_step (make_plan (s # ss)) = Some s" "first_step (respond_plan x) = None"
  "pl_action (make_plan ss) = MakePlan" "pl_steps (make_plan ss) = Some ss" "pl_answer (make_plan ss) = None"
  "pl_ambiguous (make_plan ss) = None"
  "pl_action (respond_plan x) = Respond" "pl_rememberFact (respond_plan x) = None" "pl_answer (respond_plan x) = Some x"
  by (simp_all add: demo_data_def demo_agents_def to_agent_def first_step_def make_plan_def respond_plan_def)

lemma demo_clusters:
  "findAmbiguousAgentCluster (js ''open an issue'') demo_agents (js ''notion'') = None"
  "findAmbiguousAgentCluster (js ''open an issue'') demo_agents (js ''jira'') = None"
  by code_simp+

lemma demo_misroute:
  "findLikelyMisroutedAgent demo_agents (to_agent (js ''notion'') (js ''open it in GitHub'')) = Some (demo_agents ! 1)"
  "findLikelyMisroutedAgent demo_agents (to_agent (js ''notion'') (js ''read it'')) = None"
  by code_simp+

lemma demo_repair:
  "repair_agent demo_agents (to_agent (js ''notion'') t) = to_agent (js ''notion'') t"
  "repair_agent demo_agents (to_agent (js ''jira'') t) = to_agent (js ''jira'') t"
  "find_agent (js ''notion'') demo_agents = Some (demo_agents ! 0)" "find_agent (js ''jira'') demo_agents = None"
  by code_simp+

lemma turn_reports_mismatch_witness:
  "\<exists>w1 required achieved w2.
    checkCumulativeQuantity (script_sup [] Done 3 2) (js ''open an issue'')
      [\<lparr>tt_tool = js ''notion.add'', tt_status = Success, tt_resultPreview = Some (js ''ok''), tt_argsPreview = None\<rparr>] w1
      = (Inr (required, achieved), w2) \<and>
    (required > 0 \<and> achieved \<noteq> required \<longrightarrow> suffix (quantity_disclaimer required achieved) (js ''made'' @ quantity_disclaimer 3 2))"
proof -
  let ?tc = "\<lparr>tt_tool = js ''notion.add'', tt_status = Success, tt_resultPreview = Some (js ''ok''), tt_argsPreview = None\<rparr>"
  let ?st = "(new_turn [\<lparr>rd_agent = js ''notion'', rd_task = [], rd_result = js ''made''\<rparr>] [?tc] 0) :: nat turn_state"
  have f: "finalizeAnswer (script_env [] Done [] 3 2) demo_data None ?st
      = (Inr (buildAnswer (js ''made'' @ quantity_disclaimer 3 2) [?tc]), ?st)"
    by (simp add: finalizeAnswer_def answer_with_def appendCumulativeQuantityDisclaimer_def in_world_def
        checkCumulativeQuantity_def truthy_def new_turn_def Let_def checkQuantity_def extractRequiredCount_def
        llm_call_guarded_def circuit_run_def withLlmRetry_def retry_from.simps withTimeout_def
        LLM_CALL_TIMEOUT_MS_def script_llm_def retry_env.truncate_def del: in_world_frame)
  show ?thesis
    using turn_reports_mismatch [OF f]
    by (simp add: new_turn_def Let_def buildAnswer_def demo_data_def)
qed

section \<open>Where the answer goes wrong\<close>

text \<open>
  When the first step of a plan is stopped by the guardrail and the second plan answers
  directly, the user is shown the internal text of the guardrail and the answer is lost.
\<close>

theorem guardrail_text_reaches_user:
  "fst (continueRounds
      (script_env [make_plan [to_agent (js ''notion'') (js ''open it in GitHub'')], respond_plan (js ''Which repository?'')]
         Continue t 0 0) demo_data [] [] None None 0)
   = Inr (buildAnswer (guardrail_text (js ''notion'') (demo_agents ! 1)) [])"
proof -
  let ?env = "script_env [make_plan [to_agent (js ''notion'') (js ''open it in GitHub'')], respond_plan (js ''Which repository?'')]
         Continue t 0 0"
  let ?r = "\<lparr>rd_agent = js ''notion'', rd_task = js ''open it in GitHub'',
      rd_result = guardrail_text (js ''notion'') (demo_agents ! 1)\<rparr>"
  define st1 :: "nat turn_state" where
    "st1 = (new_turn [] [] 0)\<lparr>tn_world := 1, tn_cache := Some (demo_agents, 0), tn_plans := 1, tn_rounds := [?r], tn_nonProgress := 1\<rparr>"
  have first: "turn_loop ?env demo_data [] True (new_turn [] [] 0) = turn_loop ?env demo_data [] True st1"
    by (subst turn_loop.simps)
      (simp add: new_turn_def MAX_REAL_STEPS_PER_TURN_def MAX_SUPERVISOR_ROUNDS_def throwIfCancelled_def in_world_def
        plan_if_needed_def runPlanningStep_def script_plan demo_clusters plan_make_def demo_repair
        guardAgainstMisroute_def demo_misroute push_round_def no_progress_def st1_def del: in_world_frame)
  have second: "fst (turn_loop ?env demo_data [] True st1) = Inr (buildAnswer (rd_result ?r) [])"
    by (subst turn_loop.simps)
      (simp add: st1_def new_turn_def MAX_REAL_STEPS_PER_TURN_def MAX_SUPERVISOR_ROUNDS_def throwIfCancelled_def
        in_world_def plan_if_needed_def runPlanningStep_def script_plan plan_respond_def truthy_def finalizeAnswer_def
        answer_with_def appendCumulativeQuantityDisclaimer_def del: in_world_frame)
  obtain a st2 where run: "turn_loop ?env demo_data [] True st1 = (a, st2)" by fastforce
  show ?thesis
    using second
    by (simp add: continueRounds_def runCancellable_def turn_run_def first run)
qed

text \<open>
  When a new plan, asked for after an agent has already answered, names only agents that
  are not connected, the turn ends with the request to connect them and what the first agent
  found is not mentioned.
\<close>

theorem unknown_agent_drops_results:
  "let out = continueRounds
       (script_env [make_plan [to_agent (js ''notion'') (js ''read it''), to_agent (js ''notion'') (js ''read more'')],
                    make_plan [to_agent (js ''jira'') (js ''do it'')]] Replan (js ''42 rows'') 0 0)
       demo_data [] [] None None 0
   in fst out = Inr (buildAnswer (unknown_agents_text [to_agent (js ''jira'') (js ''do it'')]) []) \<and>
      rd_result (hd (tn_rounds (snd out))) = js ''42 rows''"
proof -
  let ?env = "script_env [make_plan [to_agent (js ''notion'') (js ''read it''), to_agent (js ''notion'') (js ''read more'')],
                    make_plan [to_agent (js ''jira'') (js ''do it'')]] Replan (js ''42 rows'') 0 0"
  let ?r = "\<lparr>rd_agent = js ''notion'', rd_task = js ''read it'', rd_result = js ''42 rows''\<rparr>"
  define st1 :: "nat turn_state" where
    "st1 = (new_turn [] [] 0)\<lparr>tn_world := 1, tn_cache := Some (demo_agents, 0), tn_plans := 1, tn_realSteps := 1,
       tn_delegations := 1, tn_rounds := [?r, replan_round ?r], tn_nonProgress := 1\<rparr>"
  have delegated: "runDelegationStep ?env demo_data (to_agent (js ''notion'') (js ''read it'')) [to_agent (js ''notion'') (js ''read more'')]
      ((new_turn [] [] 0)\<lparr>tn_world := 1, tn_cache := Some (demo_agents, 0), tn_plans := 1\<rparr>) = (Inr (StepGo True), st1)"
    by (simp add: runDelegationStep_def delegateRound_def demo_repair or_str_def new_turn_def after_round_def
        runEvaluateAndDecide_def in_world_def script_evaluate push_round_def push_calls_def no_progress_def st1_def
        del: in_world_frame)
  have first: "turn_loop ?env demo_data [] True (new_turn [] [] 0) = turn_loop ?env demo_data [] True st1"
    using delegated
    by (subst turn_loop.simps)
      (simp add: new_turn_def MAX_REAL_STEPS_PER_TURN_def MAX_SUPERVISOR_ROUNDS_def throwIfCancelled_def in_world_def
        plan_if_needed_def runPlanningStep_def script_plan demo_clusters plan_make_def demo_repair
        guardAgainstMisroute_def demo_misroute del: in_world_frame)
  have second: "turn_loop ?env demo_data [] True st1 =
      (Inr (buildAnswer (unknown_agents_text [to_agent (js ''jira'') (js ''do it'')]) []),
       st1\<lparr>tn_world := 2, tn_plans := 2\<rparr>)"
    by (subst turn_loop.simps)
      (simp add: st1_def new_turn_def MAX_REAL_STEPS_PER_TURN_def MAX_SUPERVISOR_ROUNDS_def throwIfCancelled_def
        in_world_def plan_if_needed_def runPlanningStep_def script_plan demo_clusters plan_make_def demo_repair
        or_opt_def del: in_world_frame)
  have run: "turn_loop ?env demo_data [] True (new_turn [] [] 0) =
      (Inr (buildAnswer (unknown_agents_text [to_agent (js ''jira'') (js ''do it'')]) []),
       st1\<lparr>tn_world := 2, tn_plans := 2\<rparr>)"
    using first second by (rule trans)
  show ?thesis
    by (simp add: continueRounds_def runCancellable_def turn_run_def run) (simp add: st1_def new_turn_def)
qed

text \<open>
  Names without ASCII letters or digits are all alike to the repair of agent names: an
  agent that does not exist is replaced by a connected one with quite another name, and so
  is a step without an agent.
\<close>

theorem foreign_names_are_confused:
  "let agents = [\<lparr>provider = js ''p1'', label = (uni ''{8CA9}{58F2}''), description = []\<rparr>]
   in dg_agent (repair_agent agents (to_agent (uni ''{4F1A}{8A08}'') t)) = js ''p1'' \<and>
      dg_agent (repair_agent agents (to_agent [] t)) = js ''p1''"
  by code_simp

end
