(* ===== verification/Tool_Theorems.thy ===== *)
theory Tool_Theorems
  imports Tool_Runner
begin

text \<open>
  The properties of the tool layer: the risk gate, the insert accumulator, the repeat
  guard and the executor under every schedule.
\<close>

text \<open>
  A world for the witnesses: the tool server answers every call with one text part, the
  stream is always open, eight rows are required, the text filters do nothing.
\<close>

definition demo_env :: "'w exec_env" where
  "demo_env =
     \<lparr>mcpCallTool = (\<lambda>p n a u ws w. (Inr \<lparr>content = Some [\<lparr>part_type = js ''text'', part_text = Some (js ''ok'')\<rparr>],
                                           isError = None\<rparr>, w)),
      emitStep = (\<lambda>e w. (Inr (), w)), abortableSleep = (\<lambda>w. (Inr (), w)), signalAborted = (\<lambda>w. False),
      extractRequired = (\<lambda>p w. (0, w)), scrub = id, capResult = id\<rparr>"

definition demo_dto :: "jstr \<Rightarrow> mcp_tool list \<Rightarrow> run_dto" where
  "demo_dto p tools = \<lparr>dto_prompt = [], dto_provider = p, dto_userId = [], dto_workspaceId = [], dto_mcpTools = tools\<rparr>"

definition demo_insert :: llm_call where
  "demo_insert = \<lparr>lc_name = js ''execute_write_query'',
     lc_args = [(js ''query'', JStr (js ''INSERT INTO Logs (Id) VALUES (1)''))], lc_id = None\<rparr>"

definition demo_tools :: "mcp_tool list" where
  "demo_tools = [\<lparr>mt_name = js ''execute_write_query'', destructiveHint = Some True\<rparr>]"

definition demo_read :: llm_call where
  "demo_read = \<lparr>lc_name = js ''list_items'', lc_args = [], lc_id = None\<rparr>"

section \<open>At most once\<close>




text \<open>
  A result that is reused instead of calling a tool again was obtained from a real
  call with the same signature in the same turn.
\<close>

theorem cached_results_are_real:
  assumes "getCachedSuccess sig (guard (run_turn env runs (fresh_exec w))) = Some hit"
  shows "\<exists>r \<in> set (realCalls (run_turn env runs (fresh_exec w))). rc_sig r = sig"
proof -
  have "log_wf (run_turn env runs (fresh_exec w))" by (intro run_turn_log_wf log_wf_fresh)
  with assms show ?thesis unfolding log_wf_def getCachedSuccess_def by force
qed

theorem cached_results_are_real_witness:
  "\<exists>r \<in> set (realCalls (run_turn demo_env [(demo_dto (js ''github'') [], True, [demo_read], replicate 9 0)]
        (fresh_exec ()))). rc_sig r = call_signature demo_read"
  by (rule cached_results_are_real [where hit = "\<lparr>cc_resultPreview = js ''ok'', cc_feedText = js ''ok''\<rparr>"])
    code_simp

text \<open>
  C26: the executor never hangs: after any steps of its calls, nine rounds in which every
  call is visited once are, for each call, enough to settle the promise of \<open>run\<close>.
\<close>

theorem executor_settles:
  "\<exists>r. run_calls env dto calls (sched @ concat (replicate (9 * length calls) [0..<length calls])) s = Some r"
  using run_calls_fair [of env dto calls sched s] by (simp add: fair_rounds_def)

text \<open>
  Of two calls of one turn with the same signature the later never starts before an
  earlier one it waits for has finished, and what it waits for is at least as late as
  the earlier one.
\<close>

theorem same_signature_is_ordered:
  assumes "k < i" "k < length calls" "call_signature (calls ! k) = call_signature (calls ! i)"
    and "enabled dto calls cs i" "cs_pc (cs ! i) = Waiting"
  shows "\<exists>j. k \<le> j \<and> j < i \<and> call_signature (calls ! j) = call_signature (calls ! i) \<and> is_finished (cs ! j)"
  using wait_for_signature [OF assms(1-3), of dto] assms(4,5) by (auto simp: enabled_def list_all_iff)

theorem same_signature_is_ordered_witness:
  "let calls = [demo_read, demo_read];
       cs = fst (run_schedule demo_env (demo_dto (js ''github'') []) calls (replicate 9 0)
                   (map start_call calls, fresh_exec ()))
   in \<exists>j. 0 \<le> j \<and> j < (1 :: nat) \<and> call_signature (calls ! j) = call_signature (calls ! 1) \<and>
       is_finished (cs ! j)"
  unfolding Let_def
  by (rule same_signature_is_ordered [where dto = "demo_dto (js ''github'') []"]) code_simp+

section \<open>Rows\<close>




section \<open>Where the gate and the cache fall short\<close>

text \<open>
  A batch of an INSERT and a DELETE that are not separated by a semicolon, which SQL
  Server executes as two statements, counts as a low-risk INSERT and needs no approval.
\<close>

theorem insert_then_delete_needs_no_approval:
  "isAutoApprovableInsert (js ''sql_server'') (js ''execute_write_query'')
     [((js ''query''), JStr (js ''INSERT INTO Logs VALUES (1) DELETE FROM Orders''))]"
  by code_simp

text \<open>
  The signature of a call does not name the provider while the guard serves the whole
  turn: when two agents of one turn call a tool of the same name with the same arguments,
  the second provider is not called, and the first provider's result is recorded as its
  success.
\<close>

theorem cache_crosses_providers:
  "let run = (\<lambda>p. (demo_dto p [], True, [demo_read], replicate 9 0));
       s = run_turn demo_env [run (js ''trello''), run (js ''github'')] (fresh_exec ())
   in map (\<lambda>r. dto_provider (rc_dto r)) (realCalls s) = [js ''trello''] \<and>
      map (\<lambda>t. (tt_tool t, tt_status t)) (trace s) = [(js ''github.list_items'', Success)]"
  by code_simp

end
