(* ===== verification/React_Theorems.thy ===== *)
theory React_Theorems
  imports React_Loop
begin

text \<open>The properties of the agent loop.\<close>

text \<open>
  A world for the witnesses: it counts the attempts of the model, which asks for one tool
  first and then answers; no quantity is required; the tool server answers every call.
\<close>

definition calm_exec :: "'w exec_env" where
  "calm_exec =
     \<lparr>mcpCallTool = (\<lambda>p n a u ws w. (Inr \<lparr>content = Some [\<lparr>part_type = js ''text'', part_text = Some (js ''ok'')\<rparr>],
                                           isError = None\<rparr>, w)),
      emitStep = (\<lambda>e w. (Inr (), w)), abortableSleep = (\<lambda>w. (Inr (), w)), signalAborted = (\<lambda>w. False),
      extractRequired = (\<lambda>p w. (0, w)), scrub = id, capResult = id\<rparr>"

definition read_turn :: llm_turn where
  "read_turn = \<lparr>lt_text = [], lt_toolCalls = [\<lparr>lc_name = js ''read'', lc_args = [], lc_id = None\<rparr>]\<rparr>"

definition text_turn :: "jstr \<Rightarrow> llm_turn" where
  "text_turn t = \<lparr>lt_text = t, lt_toolCalls = []\<rparr>"

text \<open>The model asks for \<open>k\<close> turns of tools; \<open>r\<close> and \<open>a\<close> are its answers on quantities.\<close>

definition demo_react :: "nat \<Rightarrow> int \<Rightarrow> int \<Rightarrow> nat react_env" where
  "demo_react k r a =
     \<lparr>callerAborted = (\<lambda>w. False), backoff = (\<lambda>w. (Inr (), w)), strategyId = js ''llm'',
      cbAcquire = (\<lambda>key w. (Allowed, w)), cbReport = (\<lambda>key d out w. w),
      askRequired = (\<lambda>t w. (Some (1, Inr r), False, w)), askAchieved = (\<lambda>t w. (Some (1, Inr a), False, w)),
      modelName = js ''m'',
      sessionSend = (\<lambda>inp w. (Some (1, Inr (if w < k then read_turn else text_turn (js ''done''))), True, w + 1)),
      resync = (\<lambda>t w. w)\<rparr>"

definition loop_dto :: run_dto where
  "loop_dto = \<lparr>dto_prompt = js ''task'', dto_provider = js ''github'', dto_userId = [], dto_workspaceId = [],
     dto_mcpTools = []\<rparr>"

definition demo_tools_run :: "nat tool_run" where
  "demo_tools_run = runTools calm_exec loop_dto (\<lambda>calls s. [])"

definition demo_loop :: "nat \<Rightarrow> int \<Rightarrow> int \<Rightarrow> (agent_error + react_response) \<times> nat react_state" where
  "demo_loop k r a = react_execute (demo_react k r a) demo_tools_run loop_dto (new_loop new_guard [] 0)"

text \<open>
  A loop sends at most nine messages to the model, runs at most eight turns of tools
  and checks its answer at most once, whatever the model and the tools do.
\<close>

theorem react_loop_bounds:
  "let st' = snd (react_execute env run dto (new_loop g log w))
   in rs_sends st' \<le> 9 \<and> rs_toolRuns st' \<le> 8 \<and> rs_checks st' \<le> 1"
proof -
  let ?st = "new_loop g log w"
  obtain q st1 where q: "sendMessage env dto (Prompt (dto_prompt dto)) ?st = (q, st1)" by fastforce
  have c: "rs_sends st1 = 1" "rs_toolRuns st1 = 0" "rs_checks st1 = 0"
    using sendMessage_counts [OF q] by (simp_all add: new_loop_def)
  show ?thesis
  proof (cases q)
    case (Inl e)
    then show ?thesis using q c by (simp add: react_execute_def)
  next
    case (Inr turn)
    obtain r st' where r: "react_steps env run dto 0 False turn st1 = (r, st')" by fastforce
    then show ?thesis
      using react_steps_counts [OF r] c q Inr by (simp add: react_execute_def MAX_REACT_STEPS_def)
  qed
qed

text \<open>A loop that does not fail gives an answer, and never an empty one.\<close>

theorem react_answer_nonempty:
  assumes "react_execute env run dto st = (Inr resp, st')"
  shows "rr_answer resp \<noteq> []"
  using assms by (auto simp: react_execute_def split: prod.splits sum.splits dest: react_steps_answer)

theorem react_answer_nonempty_witness:
  "fst (demo_loop 0 0 0) = Inr \<lparr>rr_answer = js ''done'', rr_toolCalls = []\<rparr> \<and> js ''done'' \<noteq> []"
proof -
  have "fst (demo_loop 0 0 0) = Inr \<lparr>rr_answer = js ''done'', rr_toolCalls = []\<rparr>" by code_simp
  then show ?thesis
    using react_answer_nonempty [of "demo_react 0 0 0" demo_tools_run loop_dto "new_loop new_guard [] 0"
        "\<lparr>rr_answer = js ''done'', rr_toolCalls = []\<rparr>" "snd (demo_loop 0 0 0)"]
    by (simp add: demo_loop_def prod_eq_iff)
qed


definition worked_state :: "nat react_state" where
  "worked_state =
     (let st = new_loop new_guard [] 9
      in st\<lparr>rs_exec := (rs_exec st)\<lparr>trace := [\<lparr>tt_tool = js ''github.read'', tt_status = Success,
                                               tt_resultPreview = None, tt_argsPreview = None\<rparr>]\<rparr>\<rparr>)"


text \<open>
  A loop that is stopped at its limit after some tool has succeeded says so: the
  answer ends with the warning that actions were already carried out.
\<close>

theorem stopped_loop_warns:
  assumes "react_execute env run dto (new_loop g log w) = (Inr resp, st')"
    and "rs_toolRuns st' = 8" "hasAnySuccessfulToolCall st'"
  shows "\<exists>t. rr_answer resp = t @ partial_write_caveat"
proof -
  obtain q st1 where q: "sendMessage env dto (Prompt (dto_prompt dto)) (new_loop g log w) = (q, st1)" by fastforce
  with assms(1) obtain turn where turn: "q = Inr turn" "react_steps env run dto 0 False turn st1 = (Inr resp, st')"
    by (cases q) (auto simp: react_execute_def)
  have "rs_toolRuns st1 = 0" using sendMessage_counts [OF q] by (simp add: new_loop_def)
  then obtain turn' where "resp = buildMaxStepsResponse turn' st'"
    using react_steps_limit [OF turn(2)] assms(2) by (auto simp: MAX_REACT_STEPS_def)
  then show ?thesis using assms(3) by (auto simp: buildMaxStepsResponse_def)
qed

definition busy_loop :: "(agent_error + react_response) \<times> nat react_state" where
  "busy_loop = react_execute (demo_react 9 0 0)
     (\<lambda>calls s. (Inr [], s\<lparr>trace := [\<lparr>tt_tool = [], tt_status = Success, tt_resultPreview = None,
                                     tt_argsPreview = None\<rparr>]\<rparr>))
     loop_dto (new_loop new_guard [] 0)"

theorem stopped_loop_warns_witness:
  "\<exists>resp t. fst busy_loop = Inr resp \<and> rr_answer resp = t @ partial_write_caveat"
proof -
  have "case busy_loop of (Inr r, st) \<Rightarrow> rs_toolRuns st = 8 \<and> hasAnySuccessfulToolCall st | (Inl e, st) \<Rightarrow> False"
    by code_simp
  then obtain resp st where r: "busy_loop = (Inr resp, st)" "rs_toolRuns st = 8" "hasAnySuccessfulToolCall st"
    by (auto split: prod.splits sum.splits)
  have "\<exists>t. rr_answer resp = t @ partial_write_caveat"
    by (rule stopped_loop_warns [OF r(1) [unfolded busy_loop_def] r(2,3)])
  moreover have "fst busy_loop = Inr resp" by (simp add: r(1))
  ultimately show ?thesis by blast
qed

text \<open>
  The results the executor hands back to the model answer its calls one for one, in
  their order, with the ids and names of the calls.
\<close>

theorem results_answer_calls:
  assumes "fst (runTools env dto pick calls s) = Inr rs"
  shows "map (\<lambda>r. (lr_id r, lr_name r)) rs = map (\<lambda>c. (lc_id c, lc_name c)) calls"
  using assms by (rule executor.answers_calls)

theorem results_answer_calls_witness:
  "map (\<lambda>r. (lr_id r, lr_name r)) [\<lparr>lr_id = None, lr_name = js ''read'', lr_content = js ''ok''\<rparr>]
   = map (\<lambda>c. (lc_id c, lc_name c)) (lt_toolCalls read_turn)"
  by (rule results_answer_calls [where env = calm_exec and dto = loop_dto and pick = "\<lambda>calls s. []" and
        s = "rs_exec (new_loop new_guard [] (0 :: nat))"]) code_simp


end
