(* ===== verification/Approval_Request.thy ===== *)
theory Approval_Request
  imports Checkpoint
begin

text \<open>
  What \<open>ApprovalRequestService\<close> (\<open>processor/approval-request.service.ts\<close>) accepts: the
  checkpoint must be pending and owned by the caller, the action must fit its kind, and
  edited arguments may only overwrite existing ones.
\<close>

section \<open>Requests and errors\<close>

text \<open>The entries of \<open>ORCHESTRATION_ERROR\<close> these services throw.\<close>

datatype orchestration_error =
    CHECKPOINT_NOT_FOUND
  | CHECKPOINT_FORBIDDEN
  | CHECKPOINT_ALREADY_RESOLVED
  | CHECKPOINT_ACTION_MISMATCH
  | CHECKPOINT_APPROVAL_ENQUEUE_FAILED

text \<open>\<open>ResolveApprovalRequestDto\<close>\<close>

record approval_dto =
  ap_userId :: jstr
  ap_messageId :: jstr
  ap_action :: approval_action
  ap_selectedProvider :: "jstr option"
  ap_editedArgs :: "args option"

section \<open>Guards\<close>

definition loadOwnedCheckpoint ::
    "approval_dto \<Rightarrow> checkpoint_table \<Rightarrow> orchestration_error + checkpoint_response" where
  "loadOwnedCheckpoint dto t =
    (case findPendingByReplyMessageId (ap_messageId dto) t of
       None \<Rightarrow> Inl CHECKPOINT_NOT_FOUND
     | Some c \<Rightarrow> if ck_userId c \<noteq> ap_userId dto then Inl CHECKPOINT_FORBIDDEN else Inr c)"

definition validateActionAndKind :: "approval_dto \<Rightarrow> checkpoint_response \<Rightarrow> orchestration_error + unit" where
  "validateActionAndKind dto c =
    (let kindMatchesAction =
           (if ap_action dto = Clarify then ck_kind c = Clarification \<and> truthy (ap_selectedProvider dto)
            else ck_kind c = Approval)
     in if kindMatchesAction then Inr () else Inl CHECKPOINT_ACTION_MISMATCH)"

text \<open>
  \<open>key in originalArgs\<close> also finds the properties every object inherits from
  \<open>Object.prototype\<close>.
\<close>

definition prototype_keys :: "jstr list" where
  "prototype_keys = [js ''constructor'', js ''__proto__'', js ''__defineGetter__'', js ''__defineSetter__'',
     js ''__lookupGetter__'', js ''__lookupSetter__'', js ''hasOwnProperty'', js ''isPrototypeOf'',
     js ''propertyIsEnumerable'', js ''toLocaleString'', js ''toString'', js ''valueOf'']"

definition key_in :: "jstr \<Rightarrow> args \<Rightarrow> bool" where
  "key_in k a \<longleftrightarrow> k \<in> fst ` set a \<or> k \<in> set prototype_keys"

definition forbidden_key :: "jstr \<Rightarrow> bool" where
  "forbidden_key k \<longleftrightarrow> k = js ''id'' \<or> k = js ''name''"

definition forbidden_value :: "json \<Rightarrow> bool" where
  "forbidden_value v \<longleftrightarrow> v = JStr [] \<or> v = JNull"

definition validateAndApplyEditedArgs ::
    "approval_dto \<Rightarrow> checkpoint_response \<Rightarrow> orchestration_error + pending_tool" where
  "validateAndApplyEditedArgs dto c =
    (case (ck_pendingTool c, ap_editedArgs dto) of
       (Some tool, Some edited) \<Rightarrow>
         (let original = pt_args tool;
              hasUnknownKey = list_ex (\<lambda>(k, v). \<not> key_in k original \<or> forbidden_key k) edited;
              hasForbiddenValue = list_ex (\<lambda>(k, v). forbidden_value v) edited
          in if hasUnknownKey \<or> hasForbiddenValue then Inl CHECKPOINT_ACTION_MISMATCH
             else Inr (tool\<lparr>pt_args := spread original edited\<rparr>))
     | _ \<Rightarrow> Inl CHECKPOINT_ACTION_MISMATCH)"

text \<open>
  \<open>resolveApproval\<close> up to its \<open>claim\<close>: everything after the first \<open>await\<close> is decided on
  the checkpoint that was read. The result is the claim to make.
\<close>

definition prepare_claim ::
    "approval_dto \<Rightarrow> checkpoint_table \<Rightarrow> orchestration_error + checkpoint_response \<times> claim_request" where
  "prepare_claim dto t =
    (case loadOwnedCheckpoint dto t of
       Inl e \<Rightarrow> Inl e
     | Inr c \<Rightarrow>
         (case validateActionAndKind dto c of
            Inl e \<Rightarrow> Inl e
          | Inr _ \<Rightarrow>
              (let toStatus = (if ap_action dto = Reject then REJECTED else APPROVED);
                   req = \<lparr>cl_id = ck_id c, cl_toStatus = toStatus,
                          cl_selectedProvider = (if ap_action dto = Clarify then ap_selectedProvider dto else None),
                          cl_updatedPendingTool = None\<rparr>
               in if ap_action dto = EditAndApprove
                  then (case validateAndApplyEditedArgs dto c of
                          Inl e \<Rightarrow> Inl e
                        | Inr tool \<Rightarrow> Inr (c, req\<lparr>cl_updatedPendingTool := Some tool\<rparr>))
                  else Inr (c, req))))"

section \<open>Facts\<close>

lemma response_fields [simp]:
  "ck_id (toResponseDto e) = ck_id e" "ck_userId (toResponseDto e) = ck_userId e"
  "ck_status (toResponseDto e) = ck_status e" "ck_pendingTool (toResponseDto e) = ck_pendingTool e"
  "ck_kind (toResponseDto e) = ck_kind e" "ck_replyMessageId (toResponseDto e) = ck_replyMessageId e"
  "ck_botUserId (toResponseDto e) = ck_botUserId e"
  by (simp_all add: toResponseDto_def checkpoint_response.truncate_def)

lemma find_row:
  assumes "table_wf t" "find P t = Some e"
  shows "row t (ck_id e) = Some e" "P e"
  using find_Some_in [OF assms(2)] row_of_wf [OF assms(1)] by auto

lemma prepare_claim_owner:
  assumes "table_wf t" "prepare_claim dto t = Inr (c, req)"
  shows "\<exists>e. row t (ck_id c) = Some e \<and> c = toResponseDto e \<and> ck_status e = PENDING \<and>
      ck_userId e = ap_userId dto \<and> ck_replyMessageId e = ap_messageId dto"
    and "cl_id req = ck_id c" "cl_toStatus req = (if ap_action dto = Reject then REJECTED else APPROVED)"
proof -
  have load: "loadOwnedCheckpoint dto t = Inr c"
    using assms(2) by (auto simp: prepare_claim_def Let_def split: sum.splits if_splits)
  show "cl_id req = ck_id c" "cl_toStatus req = (if ap_action dto = Reject then REJECTED else APPROVED)"
    using assms(2) by (auto simp: prepare_claim_def Let_def split: sum.splits if_splits)
  from load obtain e where
    f: "find (\<lambda>e. ck_replyMessageId e = ap_messageId dto \<and> ck_status e = PENDING) t = Some e"
    and c: "c = toResponseDto e" and u: "ck_userId e = ap_userId dto"
    by (auto simp: loadOwnedCheckpoint_def findPendingByReplyMessageId_def split: option.splits if_splits)
  show "\<exists>e. row t (ck_id c) = Some e \<and> c = toResponseDto e \<and> ck_status e = PENDING \<and>
      ck_userId e = ap_userId dto \<and> ck_replyMessageId e = ap_messageId dto"
    using find_row [OF assms(1) f] c u by auto
qed

section \<open>Properties\<close>


definition demo_pending :: pending_tool where
  "demo_pending = \<lparr>pt_provider = js ''sql_server'', pt_name = js ''execute_write_query'',
     pt_args = [(js ''query'', JStr (js ''DELETE FROM T WHERE Id = 1''))]\<rparr>"

definition demo_create :: create_checkpoint where
  "demo_create = \<lparr>cc_replyMessageId = js ''m1'', cc_userId = js ''user'', cc_botUserId = js ''bot'',
     cc_channelId = js ''c'', cc_workspaceId = js ''w'', cc_channelType = js ''group'',
     cc_originalPrompt = js ''p'', cc_pendingTool = Some demo_pending, cc_pendingTask = js ''t'',
     cc_roundsSoFar = [], cc_history = [], cc_kind = None, cc_riskLevel = None,
     cc_clarificationQuestion = None, cc_clarificationCandidates = None, cc_remainingSteps = None\<rparr>"

definition demo_edit :: "(jstr \<times> json) list \<Rightarrow> approval_dto" where
  "demo_edit edited = \<lparr>ap_userId = js ''user'', ap_messageId = js ''m1'', ap_action = EditAndApprove,
     ap_selectedProvider = None, ap_editedArgs = Some edited\<rparr>"


text \<open>
  The check for unknown arguments uses \<open>in\<close>, so an argument named like a property of
  \<open>Object.prototype\<close> passes although the tool call never had it.
\<close>

theorem inherited_key_passes:
  "validateAndApplyEditedArgs (demo_edit [(js ''constructor'', JStr (js ''x''))])
     (toResponseDto (create_entity (js ''k'') 0 demo_create))
   = Inr (demo_pending\<lparr>pt_args := pt_args demo_pending @ [(js ''constructor'', JStr (js ''x''))]\<rparr>)"
  by code_simp

end
