(* ===== verification/Approval_Flow.thy ===== *)
theory Approval_Flow
  imports Approval_Request "HOL-Library.Multiset"
begin

text \<open>
  The life of checkpoints under concurrency: the requests of users, the jobs of the queue
  (which may be delivered any number of times) and the two cron jobs run as processes that
  interleave at every \<open>await\<close>. A process that crashes is one that is never stepped again.

  Sources: \<open>processor/approval-request.service.ts\<close>, \<open>processor/approval-execution.service.ts\<close>,
  \<open>checkpoint/checkpoint-cleanup.service.ts\<close>, and the permission check of the message
  service's \<open>updateMessage\<close>.
\<close>

section \<open>State\<close>

text \<open>Messages by id, each with its author; only the author may edit it.\<close>

type_synonym messages = "jstr \<rightharpoonup> jstr \<times> jstr"

datatype message_error = MESSAGE_NOT_FOUND | NOT_ALLOWED_EDIT

definition updateMessage :: "jstr \<Rightarrow> jstr \<Rightarrow> jstr \<Rightarrow> messages \<Rightarrow> (message_error + unit) \<times> messages" where
  "updateMessage i userId c ms =
    (case ms i of
       None \<Rightarrow> (Inl MESSAGE_NOT_FOUND, ms)
     | Some (author, _) \<Rightarrow>
         if author \<noteq> userId then (Inl NOT_ALLOWED_EDIT, ms) else (Inr (), ms(i \<mapsto> (author, c))))"

text \<open>
  Where a process stands; each constructor but the last two is the operation it performs
  next. \<open>Req\<close> are the requests of users, \<open>Job\<close> the approval jobs, \<open>Cron\<close> one checkpoint
  of a run of a cron job.
\<close>

datatype proc =
    ReqLoad approval_dto
  | ReqClaim checkpoint_response claim_request jstr
  | ReqReject checkpoint_response jstr
  | ReqEnqueue checkpoint_response jstr
  | ReqRevert checkpoint_response
  | JobFind jstr jstr
  | JobClaim checkpoint_response jstr
  | JobTool checkpoint_response jstr
  | JobMark checkpoint_response jstr jstr bool
  | JobSynthesize checkpoint_response jstr
  | JobTurn checkpoint_response jstr
  | JobMessage checkpoint_response jstr jstr
  | CronExpire checkpoint_response
  | CronExpireMessage checkpoint_response
  | CronRecover checkpoint_response
  | CronRecoverMessage checkpoint_response
  | Threw orchestration_error
  | Ended

record flow =
  fl_now :: int
  fl_table :: checkpoint_table
  fl_messages :: messages
  fl_queue :: "(jstr \<times> jstr) list"                       \<comment> \<open>every job ever added: checkpoint, user\<close>
  fl_procs :: "proc list"
  fl_toolCalls :: "(jstr \<times> jstr \<times> pending_tool) list"     \<comment> \<open>checkpoint, user, tool\<close>
  fl_done :: "jstr list"                                 \<comment> \<open>messages for which \<open>done\<close> was emitted\<close>
  fl_claims :: "jstr list"           \<comment> \<open>history: executions claimed\<close>
  fl_approved :: "(jstr \<times> jstr) list" \<comment> \<open>history: approvals claimed, with the user\<close>
  fl_rejected :: "jstr list"         \<comment> \<open>history: rejections by a user\<close>

definition empty_flow :: flow where
  "empty_flow = \<lparr>fl_now = 0, fl_table = [], fl_messages = Map.empty, fl_queue = [], fl_procs = [],
     fl_toolCalls = [], fl_done = [], fl_claims = [], fl_approved = [], fl_rejected = []\<rparr>"

text \<open>
  What the surroundings answer: Redis to \<open>addJob\<close> (which may store the job and lose the
  reply), the MCP server to \<open>callTool\<close>, the rest of the turn to \<open>continueRounds\<close>.
\<close>

datatype answer_of_world =
    EnqueueOk
  | EnqueueFailed
  | EnqueueReplyLost
  | ToolReturned jstr bool
  | ToolThrew jstr
  | TurnEnded jstr
  | EditFailed                          \<comment> \<open>the message service cannot be reached, or the channel
                                             service does not know the author as a member\<close>

section \<open>Texts\<close>

definition failed_text :: "jstr \<Rightarrow> jstr \<Rightarrow> jstr" where
  "failed_text name t = (uni ''{26A0}{FE0F} H{00E0}nh {0111}{1ED9}ng {0022}'') @ name @ (uni ''{0022} {0111}{00E3} {0111}{01B0}{1EE3}c duy{1EC7}t nh{01B0}ng th{1EF1}c thi th{1EA5}t b{1EA1}i:{000A}'') @ t"

definition expired_text :: jstr where
  "expired_text = (uni ''{23F1}{FE0F} Y{00EA}u c{1EA7}u duy{1EC7}t {0111}{00E3} h{1EBF}t h{1EA1}n, t{1EF1} {0111}{1ED9}ng hu{1EF7}.'')"

definition synthesize_text :: jstr where
  "synthesize_text = (uni ''{D83E}{DD16} {0110}ang t{1ED5}ng h{1EE3}p k{1EBF}t qu{1EA3}...'')"

definition rejected_text :: jstr where
  "rejected_text = (uni ''{274C} {0110}{00E3} hu{1EF7} theo y{00EA}u c{1EA7}u.'')"

definition recover_text :: "checkpoint_response \<Rightarrow> jstr" where
  "recover_text c =
    (if ck_toolExecutedAt c \<noteq> None
     then (uni ''{26A0}{FE0F} H{00E0}nh {0111}{1ED9}ng {0111}{00E3} {0111}{01B0}{1EE3}c duy{1EC7}t v{00E0} TH{1EF0}C THI TH{00C0}NH C{00D4}NG, nh{01B0}ng worker g{1EB7}p s{1EF1} c{1ED1} ngay sau {0111}{00F3} khi t{1ED5}ng h{1EE3}p c{00E2}u tr{1EA3} l{1EDD}i. K{1EBF}t qu{1EA3} {0111}{00E3} {0111}{01B0}{1EE3}c ghi {2014} kh{00F4}ng c{1EA7}n th{1EF1}c hi{1EC7}n l{1EA1}i h{00E0}nh {0111}{1ED9}ng n{00E0}y.'')
     else (uni ''{26A0}{FE0F} H{00E0}nh {0111}{1ED9}ng {0111}{00E3} {0111}{01B0}{1EE3}c duy{1EC7}t nh{01B0}ng worker g{1EB7}p s{1EF1} c{1ED1} trong l{00FA}c th{1EF1}c thi {2014} CH{01AF}A TH{1EC2} X{00C1}C {0110}{1ECA}NH h{00E0}nh {0111}{1ED9}ng {0111}{00E3} th{1EF1}c s{1EF1} ch{1EA1}y hay ch{01B0}a. Vui l{00F2}ng t{1EF1} ki{1EC3}m tra k{1EBF}t qu{1EA3} (VD trong h{1EC7} th{1ED1}ng/{1EE9}ng d{1EE5}ng {0111}{00ED}ch) TR{01AF}{1EDA}C KHI y{00EA}u c{1EA7}u l{1EA1}i, {0111}{1EC3} tr{00E1}nh th{1EF1}c hi{1EC7}n tr{00F9}ng.''))"

section \<open>One step of one process\<close>

definition emit_done :: "jstr \<Rightarrow> flow \<Rightarrow> flow" where
  "emit_done m f = f\<lparr>fl_done := fl_done f @ [m]\<rparr>"

definition edit :: "answer_of_world \<Rightarrow> jstr \<Rightarrow> jstr \<Rightarrow> jstr \<Rightarrow> flow \<Rightarrow> bool \<times> flow" where
  "edit out m userId c f =
    (if out = EditFailed then (False, f)
     else (let (r, ms) = updateMessage m userId c (fl_messages f)
           in (case r of Inl _ \<Rightarrow> False | Inr _ \<Rightarrow> True, f\<lparr>fl_messages := ms\<rparr>)))"

definition req_claim :: "checkpoint_response \<Rightarrow> claim_request \<Rightarrow> jstr \<Rightarrow> flow \<Rightarrow> proc \<times> flow" where
  "req_claim c req userId f =
    (let (claimed, t) = claim (fl_now f) req (fl_table f); f = f\<lparr>fl_table := t\<rparr>
     in if \<not> claimed then (Threw CHECKPOINT_ALREADY_RESOLVED, f)
        else if cl_toStatus req = REJECTED then (ReqReject c userId, f\<lparr>fl_rejected := cl_id req # fl_rejected f\<rparr>)
        else (ReqEnqueue c userId, f\<lparr>fl_approved := (cl_id req, userId) # fl_approved f\<rparr>))"

definition req_enqueue ::
    "answer_of_world \<Rightarrow> checkpoint_response \<Rightarrow> jstr \<Rightarrow> flow \<Rightarrow> proc \<times> flow" where
  "req_enqueue out c userId f =
    (case out of
       EnqueueFailed \<Rightarrow> (ReqRevert c, f)
     | EnqueueReplyLost \<Rightarrow> (ReqRevert c, f\<lparr>fl_queue := fl_queue f @ [(ck_id c, userId)]\<rparr>)
     | _ \<Rightarrow> (Ended, f\<lparr>fl_queue := fl_queue f @ [(ck_id c, userId)]\<rparr>))"

definition job_claim :: "checkpoint_response \<Rightarrow> jstr \<Rightarrow> flow \<Rightarrow> proc \<times> flow" where
  "job_claim c userId f =
    (let (claimed, t) = claimExecution (fl_now f) (ck_id c) (fl_table f); f = f\<lparr>fl_table := t\<rparr>
     in if \<not> claimed then (Ended, f)
        else (if ck_kind c = Clarification then JobSynthesize c userId else JobTool c userId,
              f\<lparr>fl_claims := ck_id c # fl_claims f\<rparr>))"

definition job_tool :: "answer_of_world \<Rightarrow> checkpoint_response \<Rightarrow> jstr \<Rightarrow> flow \<Rightarrow> proc \<times> flow" where
  "job_tool out c userId f =
    (case ck_pendingTool c of
       None \<Rightarrow> (JobMessage c userId (js ''TypeError''), f)
     | Some tool \<Rightarrow>
         (let f' = f\<lparr>fl_toolCalls := fl_toolCalls f @ [(ck_id c, userId, tool)]\<rparr>
          in case out of
               ToolReturned t isErr \<Rightarrow> (JobMark c userId t isErr, f')
             | ToolThrew e \<Rightarrow> (JobMessage c userId e, f')
             | _ \<Rightarrow> (JobTool c userId, f)))"

definition flow_step :: "answer_of_world \<Rightarrow> proc \<Rightarrow> flow \<Rightarrow> proc \<times> flow" where
  "flow_step out p f =
    (case p of
       ReqLoad dto \<Rightarrow>
         (case prepare_claim dto (fl_table f) of
            Inl e \<Rightarrow> (Threw e, f)
          | Inr (c, req) \<Rightarrow> (ReqClaim c req (ap_userId dto), f))
     | ReqClaim c req userId \<Rightarrow> req_claim c req userId f
     | ReqReject c userId \<Rightarrow>
         (let (ok, f) = edit out (ck_replyMessageId c) (ck_botUserId c) rejected_text f
          in (Ended, if ok then emit_done (ck_replyMessageId c) f else f))
     | ReqEnqueue c userId \<Rightarrow> req_enqueue out c userId f
     | ReqRevert c \<Rightarrow>
         (Threw CHECKPOINT_APPROVAL_ENQUEUE_FAILED,
          f\<lparr>fl_table := revertApprovedClaim (fl_now f) (ck_id c) (fl_table f)\<rparr>)
     | JobFind i userId \<Rightarrow>
         (case findById i (fl_table f) of None \<Rightarrow> (Ended, f) | Some c \<Rightarrow> (JobClaim c userId, f))
     | JobClaim c userId \<Rightarrow> job_claim c userId f
     | JobTool c userId \<Rightarrow> job_tool out c userId f
     | JobMark c userId t isErr \<Rightarrow>
         (if isErr then JobMessage c userId (failed_text (case ck_pendingTool c of None \<Rightarrow> [] | Some tool \<Rightarrow> pt_name tool) t)
          else JobSynthesize c userId,
          f\<lparr>fl_table := markToolExecuted (fl_now f) (ck_id c) (fl_table f)\<rparr>)
     | JobSynthesize c userId \<Rightarrow>
         (let (ok, f) = edit out (ck_replyMessageId c) (ck_botUserId c) synthesize_text f
          in (if ok then JobTurn c userId else JobMessage c userId (js ''NOT_ALLOWED_EDIT''), f))
     | JobTurn c userId \<Rightarrow>
         (case out of TurnEnded t \<Rightarrow> (JobMessage c userId t, f) | _ \<Rightarrow> (JobTurn c userId, f))
     | JobMessage c userId t \<Rightarrow>
         (Ended, emit_done (ck_replyMessageId c) (snd (edit out (ck_replyMessageId c) (ck_botUserId c) t f)))
     | CronExpire c \<Rightarrow>
         (let (claimed, t) = claim (fl_now f) \<lparr>cl_id = ck_id c, cl_toStatus = REJECTED, cl_selectedProvider = None,
                                               cl_updatedPendingTool = None\<rparr> (fl_table f)
          in (if claimed then CronExpireMessage c else Ended, f\<lparr>fl_table := t\<rparr>))
     | CronExpireMessage c \<Rightarrow>
         (let (ok, f) = edit out (ck_replyMessageId c) (ck_userId c) expired_text f
          in (Ended, if ok then emit_done (ck_replyMessageId c) f else f))
     | CronRecover c \<Rightarrow>
         (let (claimed, t) = markStalledAsRejected (fl_now f) (ck_id c) (fl_table f)
          in (if claimed then CronRecoverMessage c else Ended, f\<lparr>fl_table := t\<rparr>))
     | CronRecoverMessage c \<Rightarrow>
         (let (ok, f) = edit out (ck_replyMessageId c) (ck_userId c) (recover_text c) f
          in (Ended, if ok then emit_done (ck_replyMessageId c) f else f))
     | Threw e \<Rightarrow> (p, f)
     | Ended \<Rightarrow> (p, f))"

section \<open>The system\<close>

datatype flow_action =
    Pause jstr create_checkpoint       \<comment> \<open>\<open>createMessage\<close> and \<open>create\<close> of a pausing turn\<close>
  | Submit approval_dto
  | Deliver nat                        \<comment> \<open>the queue hands out job n, again perhaps\<close>
  | StepProc nat answer_of_world
  | RunExpire
  | RunRecover
  | Wait int

definition spawn :: "proc list \<Rightarrow> flow \<Rightarrow> flow" where
  "spawn ps f = f\<lparr>fl_procs := fl_procs f @ ps\<rparr>"

fun flow_apply :: "flow_action \<Rightarrow> flow \<Rightarrow> flow" where
  "flow_apply (Pause uuid dto) f =
     (if fl_messages f (cc_replyMessageId dto) \<noteq> None then f
      else f\<lparr>fl_messages := (fl_messages f)(cc_replyMessageId dto \<mapsto> (cc_botUserId dto, [])),
             fl_table := snd (create uuid (fl_now f) dto (fl_table f))\<rparr>)"
| "flow_apply (Submit dto) f = spawn [ReqLoad dto] f"
| "flow_apply (Deliver n) f =
     (if n < length (fl_queue f) then (let (i, u) = fl_queue f ! n in spawn [JobFind i u] f) else f)"
| "flow_apply (StepProc n out) f =
     (if n < length (fl_procs f) then
        (let (p, f') = flow_step out (fl_procs f ! n) f in f'\<lparr>fl_procs := (fl_procs f')[n := p]\<rparr>)
      else f)"
| "flow_apply RunExpire f = spawn (map CronExpire (findExpiredPending (fl_now f) (fl_table f))) f"
| "flow_apply RunRecover f = spawn (map CronRecover (findStalledExecution (fl_now f) (fl_table f))) f"
| "flow_apply (Wait d) f = (if 0 \<le> d then f\<lparr>fl_now := fl_now f + d\<rparr> else f)"

fun flow_run :: "flow_action list \<Rightarrow> flow \<Rightarrow> flow" where
  "flow_run [] f = f"
| "flow_run (a # as) f = flow_run as (flow_apply a f)"

section \<open>Frames\<close>

lemma edit_frame [simp]:
  "fl_table (snd (edit w m u c f)) = fl_table f" "fl_queue (snd (edit w m u c f)) = fl_queue f"
  "fl_procs (snd (edit w m u c f)) = fl_procs f" "fl_toolCalls (snd (edit w m u c f)) = fl_toolCalls f"
  "fl_claims (snd (edit w m u c f)) = fl_claims f" "fl_approved (snd (edit w m u c f)) = fl_approved f"
  "fl_rejected (snd (edit w m u c f)) = fl_rejected f" "fl_now (snd (edit w m u c f)) = fl_now f"
  "fl_done (snd (edit w m u c f)) = fl_done f"
  by (simp_all add: edit_def case_prod_beta)

lemma emit_done_frame [simp]:
  "fl_table (emit_done m f) = fl_table f" "fl_queue (emit_done m f) = fl_queue f"
  "fl_procs (emit_done m f) = fl_procs f" "fl_toolCalls (emit_done m f) = fl_toolCalls f"
  "fl_claims (emit_done m f) = fl_claims f" "fl_approved (emit_done m f) = fl_approved f"
  "fl_rejected (emit_done m f) = fl_rejected f" "fl_now (emit_done m f) = fl_now f"
  by (simp_all add: emit_done_def)

lemma flow_step_procs: "flow_step out p f = (p', f') \<Longrightarrow> fl_procs f' = fl_procs f"
  by (cases p; cases out)
    (auto simp: flow_step_def req_claim_def req_enqueue_def job_claim_def job_tool_def case_prod_beta Let_def
      split: sum.splits option.splits prod.splits if_splits)

section \<open>At most one execution\<close>

text \<open>The tool call a process still owes for an execution it has claimed.\<close>

definition owes :: "proc \<Rightarrow> jstr list" where
  "owes p = (case p of JobTool c _ \<Rightarrow> [ck_id c] | _ \<Rightarrow> [])"

definition called :: "flow \<Rightarrow> jstr list" where
  "called f = map fst (fl_toolCalls f)"

lemma flow_step_owes:
  "flow_step out p f = (p', f') \<Longrightarrow>
   mset (called f') + mset (owes p') + mset (fl_claims f) \<subseteq># mset (called f) + mset (owes p) + mset (fl_claims f')"
  by (cases p; cases out)
    (auto simp: flow_step_def req_claim_def req_enqueue_def job_claim_def job_tool_def case_prod_beta Let_def
      owes_def called_def split: sum.splits option.splits prod.splits if_splits)

lemma flow_step_claims:
  assumes "flow_step out p f = (p', f')" "table_wf (fl_table f)"
  shows "fl_now f' = fl_now f \<and>
    (fl_claims f' = fl_claims f \<and> keeps_started (fl_table f) (fl_table f') \<or>
     (\<exists>i. claim_job i (fl_now f, fl_table f) = (True, fl_now f', fl_table f') \<and> fl_claims f' = i # fl_claims f))"
  using assms
  by (cases p; cases out)
    (auto simp: flow_step_def req_claim_def req_enqueue_def job_claim_def job_tool_def case_prod_beta Let_def
      claim_job_claimExecution split: sum.splits option.splits prod.splits if_splits)

lemma flow_step_wf: "flow_step out p f = (p', f') \<Longrightarrow> table_wf (fl_table f) \<Longrightarrow> table_wf (fl_table f')"
  by (cases p; cases out)
    (auto simp: flow_step_def req_claim_def req_enqueue_def job_claim_def job_tool_def case_prod_beta Let_def
      split: sum.splits option.splits prod.splits if_splits)

definition once_inv :: "flow \<Rightarrow> bool" where
  "once_inv f \<longleftrightarrow> table_wf (fl_table f) \<and>
     execution.run (0, []) (fl_claims f) (fl_now f, fl_table f) \<and>
     mset (called f) + mset (concat (map owes (fl_procs f))) \<subseteq># mset (fl_claims f)"

lemma mset_concat_update:
  assumes "n < length xs"
  shows "mset (concat (map g (xs[n := y]))) + mset (g (xs ! n)) = mset (concat (map g xs)) + mset (g y)"
  using assms by (induction xs arbitrary: n) (auto split: nat.split simp: ac_simps)

lemma owes_simps [simp]:
  "owes (ReqLoad dto) = []" "owes (JobFind i u) = []" "owes (CronExpire c) = []" "owes (CronRecover c) = []"
  by (simp_all add: owes_def)

lemma concat_owes_cron [simp]:
  "concat (map (owes \<circ> CronExpire) cs) = []" "concat (map (owes \<circ> CronRecover) cs) = []"
  by (induction cs) auto

lemma spawn_frame [simp]:
  "fl_table (spawn ps f) = fl_table f" "fl_queue (spawn ps f) = fl_queue f" "fl_now (spawn ps f) = fl_now f"
  "fl_procs (spawn ps f) = fl_procs f @ ps" "fl_toolCalls (spawn ps f) = fl_toolCalls f"
  "fl_claims (spawn ps f) = fl_claims f" "fl_approved (spawn ps f) = fl_approved f"
  "fl_rejected (spawn ps f) = fl_rejected f" "called (spawn ps f) = called f"
  by (simp_all add: spawn_def called_def)

lemma once_inv_proc:
  assumes "once_inv f" "n < length (fl_procs f)" "flow_step out (fl_procs f ! n) f = (p', f')"
  shows "once_inv (f'\<lparr>fl_procs := (fl_procs f')[n := p']\<rparr>)"
proof -
  let ?p = "fl_procs f ! n"
  have wf: "table_wf (fl_table f)" and run: "execution.run (0, []) (fl_claims f) (fl_now f, fl_table f)"
    and sub: "mset (called f) + mset (concat (map owes (fl_procs f))) \<subseteq># mset (fl_claims f)"
    using assms(1) by (auto simp: once_inv_def)
  have "execution.run (0, []) (fl_claims f') (fl_now f', fl_table f')"
    using flow_step_claims [OF assms(3) wf] execution.run_other [OF run, of "(fl_now f', fl_table f')"]
      execution.run_claim [OF run] by fastforce
  moreover have "mset (called f') + mset (concat (map owes ((fl_procs f)[n := p']))) \<subseteq># mset (fl_claims f')"
    unfolding subseteq_mset_def
  proof
    fix i
    show "count (mset (called f') + mset (concat (map owes ((fl_procs f)[n := p'])))) i \<le> count (mset (fl_claims f')) i"
      using mset_subset_eq_count [OF flow_step_owes [OF assms(3)], of i] mset_subset_eq_count [OF sub, of i]
        arg_cong [OF mset_concat_update [OF assms(2), of owes p'], of "\<lambda>m. count m i"]
      by simp
  qed
  ultimately show ?thesis
    using flow_step_wf [OF assms(3) wf] flow_step_procs [OF assms(3)]
    by (simp add: once_inv_def called_def)
qed

lemma once_inv_step:
  assumes "once_inv f"
  shows "once_inv (flow_apply a f)"
proof (cases a)
  case (StepProc n out)
  obtain p' f' where "flow_step out (fl_procs f ! n) f = (p', f')"
    by (cases "flow_step out (fl_procs f ! n) f")
  then show ?thesis using once_inv_proc [OF assms] assms StepProc by simp
next
  case (Pause uuid dto)
  have "execution.run (0, []) (fl_claims f) (fl_now f, snd (create uuid (fl_now f) dto (fl_table f)))"
    using assms by (auto simp: once_inv_def intro: execution.run_other)
  with assms show ?thesis by (auto simp: Pause once_inv_def called_def create_wf)
next
  case (Wait d)
  have "execution.run (0, []) (fl_claims f) (fl_now f + d, fl_table f)"
    using assms by (auto simp: once_inv_def intro: execution.run_other)
  with assms show ?thesis by (simp add: Wait once_inv_def called_def)
next
  case (Deliver k)
  then show ?thesis using assms by (simp add: once_inv_def case_prod_beta)
qed (use assms in \<open>simp_all add: once_inv_def\<close>)

lemma once_inv_run: "once_inv f \<Longrightarrow> once_inv (flow_run as f)"
  by (induction as arbitrary: f) (auto intro: once_inv_step)

lemma once_inv_empty: "once_inv empty_flow"
  by (simp add: once_inv_def empty_flow_def table_wf_def called_def execution.run_start)

lemma once_inv_distinct:
  assumes "once_inv f"
  shows "distinct (called f)"
proof -
  have "distinct (fl_claims f)" using assms execution.won_once by (auto simp: once_inv_def)
  then have "count (mset (fl_claims f)) i \<le> 1" for i by (simp add: distinct_count_atmost_1)
  moreover have "count (mset (called f)) i \<le> count (mset (fl_claims f)) i" for i
    using assms mset_subset_eq_count [of _ _ i] by (fastforce simp: once_inv_def)
  ultimately have "count (mset (called f)) i \<le> 1" for i by (meson le_trans)
  then show ?thesis
    by (metis (no_types, lifting) count_eq_zero_iff distinct_count_atmost_1 le_antisym not_less_eq_eq One_nat_def
        le_zero_eq set_mset_mset)
qed

section \<open>Only what was approved\<close>

text \<open>
  What no operation undoes: the owner of a row, the start of its execution, and, once it
  is no longer pending, its tool.
\<close>

definition grows :: "checkpoint_table \<Rightarrow> checkpoint_table \<Rightarrow> bool" where
  "grows t t' \<longleftrightarrow>
     (\<forall>i e. row t i = Some e \<longrightarrow> (\<exists>e'. row t' i = Some e' \<and> ck_userId e' = ck_userId e \<and>
        (ck_status e \<noteq> PENDING \<longrightarrow> ck_pendingTool e' = ck_pendingTool e) \<and>
        (ck_executionStartedAt e \<noteq> None \<longrightarrow> ck_executionStartedAt e' \<noteq> None)))"

lemma grows_ops [simp]:
  "grows t t" "grows t (snd (claim now req t))" "grows t (snd (claimExecution now i t))"
  "grows t (markToolExecuted now i t)" "grows t (revertApprovedClaim now i t)"
  "grows t (snd (markStalledAsRejected now i t))"
  by (auto simp: grows_def row_ops)

lemma row_append:
  "row (t @ [d]) i = (case row t i of Some e \<Rightarrow> Some e | None \<Rightarrow> if ck_id d = i then Some d else None)"
  by (induction t) (auto simp: row_def)

lemma row_create:
  "row t i = Some e \<Longrightarrow> row (snd (create uuid now dto t)) i = Some e"
  by (simp add: create_def Let_def row_append)

lemma grows_create [simp]: "grows t (snd (create uuid now dto t))"
  by (auto simp: grows_def row_create)

text \<open>
  The requests and jobs that stand for an approval of a checkpoint: the request that is
  about to add its job or to take the approval back, or the job.
\<close>

definition pending_of :: "proc \<Rightarrow> jstr list" where
  "pending_of p = (case p of ReqEnqueue c _ \<Rightarrow> [ck_id c] | ReqRevert c \<Rightarrow> [ck_id c] | _ \<Rightarrow> [])"

definition tokens :: "flow \<Rightarrow> jstr list" where
  "tokens f = concat (map pending_of (fl_procs f)) @ map fst (fl_queue f)"

definition approved_row :: "checkpoint \<Rightarrow> bool" where
  "approved_row e \<longleftrightarrow> ck_status e = APPROVED \<or> ck_status e = REJECTED \<and> ck_executionStartedAt e \<noteq> None"

definition job_row :: "flow \<Rightarrow> checkpoint_response \<Rightarrow> jstr \<Rightarrow> bool" where
  "job_row f c u \<longleftrightarrow> (ck_id c, u) \<in> set (fl_queue f) \<and>
     (\<exists>e. row (fl_table f) (ck_id c) = Some e \<and> ck_pendingTool e = ck_pendingTool c)"

definition proc_ok :: "flow \<Rightarrow> proc \<Rightarrow> bool" where
  "proc_ok f p =
    (case p of
       ReqClaim c req u \<Rightarrow> cl_id req = ck_id c \<and> cl_toStatus req \<noteq> PENDING \<and> (\<exists>e. row (fl_table f) (ck_id c) = Some e \<and> ck_userId e = u)
     | ReqEnqueue c u \<Rightarrow> (ck_id c, u) \<in> set (fl_approved f) \<and>
         (\<exists>e. row (fl_table f) (ck_id c) = Some e \<and> ck_userId e = u)
     | JobFind i u \<Rightarrow> (i, u) \<in> set (fl_queue f)
     | JobClaim c u \<Rightarrow> job_row f c u
     | JobTool c u \<Rightarrow> job_row f c u
     | CronRecover c \<Rightarrow>
         (\<exists>e. row (fl_table f) (ck_id c) = Some e \<and> ck_executionStartedAt e \<noteq> None)
     | _ \<Rightarrow> True)"

definition call_ok :: "flow \<Rightarrow> jstr \<times> jstr \<times> pending_tool \<Rightarrow> bool" where
  "call_ok f = (\<lambda>(i, u, tool). (i, u) \<in> set (fl_queue f) \<and>
     (\<exists>e. row (fl_table f) i = Some e \<and> ck_pendingTool e = Some tool))"

definition approval_inv :: "flow \<Rightarrow> bool" where
  "approval_inv f \<longleftrightarrow> table_wf (fl_table f) \<and> distinct (tokens f) \<and>
     (\<forall>i \<in> set (tokens f). \<exists>e. row (fl_table f) i = Some e \<and> approved_row e) \<and>
     (\<forall>i e. row (fl_table f) i = Some e \<longrightarrow> ck_executionStartedAt e \<noteq> None \<longrightarrow> i \<in> fst ` set (fl_queue f)) \<and>
     (\<forall>i \<in> set (fl_rejected f). i \<notin> set (tokens f) \<and>
        (\<exists>e. row (fl_table f) i = Some e \<and> ck_status e = REJECTED)) \<and>
     (\<forall>(i, u) \<in> set (fl_queue f). (i, u) \<in> set (fl_approved f) \<and>
        (\<exists>e. row (fl_table f) i = Some e \<and> ck_userId e = u)) \<and>
     list_all (proc_ok f) (fl_procs f) \<and> list_all (call_ok f) (fl_toolCalls f)"

lemma approval_invD:
  assumes "approval_inv f"
  shows "table_wf (fl_table f)" "distinct (tokens f)"
    "i \<in> set (tokens f) \<Longrightarrow> \<exists>e. row (fl_table f) i = Some e \<and> approved_row e"
    "row (fl_table f) i = Some e \<Longrightarrow> ck_executionStartedAt e \<noteq> None \<Longrightarrow> i \<in> fst ` set (fl_queue f)"
    "i \<in> set (fl_rejected f) \<Longrightarrow> i \<notin> set (tokens f)"
    "i \<in> set (fl_rejected f) \<Longrightarrow> \<exists>e. row (fl_table f) i = Some e \<and> ck_status e = REJECTED"
    "(i, u) \<in> set (fl_queue f) \<Longrightarrow> (i, u) \<in> set (fl_approved f)"
    "(i, u) \<in> set (fl_queue f) \<Longrightarrow> \<exists>e. row (fl_table f) i = Some e \<and> ck_userId e = u"
    "p \<in> set (fl_procs f) \<Longrightarrow> proc_ok f p"
    "x \<in> set (fl_toolCalls f) \<Longrightarrow> call_ok f x"
  using assms unfolding approval_inv_def by (auto simp: list_all_iff)

lemma queue_row:
  assumes "approval_inv f" "(i, u) \<in> set (fl_queue f)"
  shows "\<exists>e. row (fl_table f) i = Some e \<and> approved_row e"
proof -
  have "i \<in> set (tokens f)" using assms(2) by (force simp: tokens_def)
  then show ?thesis by (rule approval_invD(3) [OF assms(1)])
qed

lemma approved_not_pending: "approved_row e \<Longrightarrow> ck_status e \<noteq> PENDING"
  by (auto simp: approved_row_def)

text \<open>A larger state: rows have grown, jobs and approvals were added.\<close>

definition extends :: "flow \<Rightarrow> flow \<Rightarrow> bool" where
  "extends f f' \<longleftrightarrow> grows (fl_table f) (fl_table f') \<and> set (fl_queue f) \<subseteq> set (fl_queue f') \<and>
     set (fl_approved f) \<subseteq> set (fl_approved f')"

lemma growsD:
  "grows t t' \<Longrightarrow> row t i = Some e \<Longrightarrow> \<exists>e'. row t' i = Some e' \<and> ck_userId e' = ck_userId e \<and>
     (ck_status e \<noteq> PENDING \<longrightarrow> ck_pendingTool e' = ck_pendingTool e) \<and>
     (ck_executionStartedAt e \<noteq> None \<longrightarrow> ck_executionStartedAt e' \<noteq> None)"
  unfolding grows_def by blast

lemma job_row_mono:
  assumes "approval_inv f" "extends f f'" "job_row f c u"
  shows "job_row f' c u"
proof -
  have q: "(ck_id c, u) \<in> set (fl_queue f)" using assms(3) by (simp add: job_row_def)
  obtain e where e: "row (fl_table f) (ck_id c) = Some e" "ck_pendingTool e = ck_pendingTool c"
    using assms(3) by (auto simp: job_row_def)
  then have "ck_status e \<noteq> PENDING" using queue_row [OF assms(1) q] approved_not_pending by auto
  moreover have "grows (fl_table f) (fl_table f')" using assms(2) by (simp add: extends_def)
  ultimately obtain e' where "row (fl_table f') (ck_id c) = Some e'" "ck_pendingTool e' = ck_pendingTool e"
    using growsD e(1) by blast
  moreover have "(ck_id c, u) \<in> set (fl_queue f')" using q assms(2) by (auto simp: extends_def)
  ultimately show ?thesis using e(2) by (simp add: job_row_def)
qed

lemma owner_mono:
  "extends f f' \<Longrightarrow> \<exists>e. row (fl_table f) i = Some e \<and> ck_userId e = u \<Longrightarrow>
   \<exists>e. row (fl_table f') i = Some e \<and> ck_userId e = u"
  unfolding extends_def using growsD by blast

lemma started_mono:
  "extends f f' \<Longrightarrow> \<exists>e. row (fl_table f) i = Some e \<and> ck_executionStartedAt e \<noteq> None \<Longrightarrow>
   \<exists>e. row (fl_table f') i = Some e \<and> ck_executionStartedAt e \<noteq> None"
  unfolding extends_def using growsD by blast

lemma proc_ok_mono:
  assumes "approval_inv f" "extends f f'" "proc_ok f p"
  shows "proc_ok f' p"
proof (cases p)
  case (ReqClaim c req u)
  then show ?thesis using assms(3) owner_mono [OF assms(2)] by (auto simp: proc_ok_def)
next
  case (ReqEnqueue c u)
  then show ?thesis using assms(2,3) owner_mono [OF assms(2)] by (auto simp: proc_ok_def extends_def)
next
  case (JobFind i u)
  then show ?thesis using assms(2,3) by (auto simp: proc_ok_def extends_def)
next
  case (CronRecover c)
  then show ?thesis using assms(3) started_mono [OF assms(2), of "ck_id c"] by (auto simp: proc_ok_def)
qed (use assms job_row_mono [OF assms(1,2)] in \<open>auto simp: proc_ok_def\<close>)

lemma call_ok_mono:
  assumes "approval_inv f" "extends f f'" "call_ok f x"
  shows "call_ok f' x"
proof -
  obtain i u tool where x: "x = (i, u, tool)" by (cases x)
  then have q: "(i, u) \<in> set (fl_queue f)" using assms(3) by (simp add: call_ok_def)
  obtain e where e: "row (fl_table f) i = Some e" "ck_pendingTool e = Some tool"
    using assms(3) x by (auto simp: call_ok_def)
  then have "ck_status e \<noteq> PENDING" using queue_row [OF assms(1) q] approved_not_pending by auto
  moreover have "grows (fl_table f) (fl_table f')" using assms(2) by (simp add: extends_def)
  ultimately obtain e' where "row (fl_table f') i = Some e'" "ck_pendingTool e' = ck_pendingTool e"
    using growsD e(1) by blast
  then show ?thesis using q assms(2) e(2) x by (auto simp: call_ok_def extends_def)
qed

lemma approval_inv_extend:
  assumes "approval_inv f" "extends f g" "table_wf (fl_table g)" "distinct (tokens g)"
    and "\<And>i. i \<in> set (tokens g) \<Longrightarrow> \<exists>e. row (fl_table g) i = Some e \<and> approved_row e"
    and "\<And>i e. row (fl_table g) i = Some e \<Longrightarrow> ck_executionStartedAt e \<noteq> None \<Longrightarrow> i \<in> fst ` set (fl_queue g)"
    and "\<And>i. i \<in> set (fl_rejected g) \<Longrightarrow> i \<notin> set (tokens g) \<and>
        (\<exists>e. row (fl_table g) i = Some e \<and> ck_status e = REJECTED)"
    and "\<And>i u. (i, u) \<in> set (fl_queue g) \<Longrightarrow> (i, u) \<notin> set (fl_queue f) \<Longrightarrow> (i, u) \<in> set (fl_approved g) \<and>
        (\<exists>e. row (fl_table g) i = Some e \<and> ck_userId e = u)"
    and "\<And>p. p \<in> set (fl_procs g) \<Longrightarrow> p \<in> set (fl_procs f) \<or> proc_ok g p"
    and "\<And>x. x \<in> set (fl_toolCalls g) \<Longrightarrow> x \<in> set (fl_toolCalls f) \<or> call_ok g x"
  shows "approval_inv g"
proof -
  have "(i, u) \<in> set (fl_approved g) \<and> (\<exists>e. row (fl_table g) i = Some e \<and> ck_userId e = u)"
    if "(i, u) \<in> set (fl_queue g)" for i u
  proof (cases "(i, u) \<in> set (fl_queue f)")
    case True
    then show ?thesis
      using approval_invD(7,8) [OF assms(1) True] owner_mono [OF assms(2)] assms(2) by (auto simp: extends_def)
  qed (use assms(8) that in blast)
  moreover have "proc_ok g p" if "p \<in> set (fl_procs g)" for p
    using assms(9) [OF that] approval_invD(9) [OF assms(1)] proc_ok_mono [OF assms(1,2)] by blast
  moreover have "call_ok g x" if "x \<in> set (fl_toolCalls g)" for x
    using assms(10) [OF that] approval_invD(10) [OF assms(1)] call_ok_mono [OF assms(1,2)] by blast
  ultimately show ?thesis
    using assms(3-7) unfolding approval_inv_def list_all_iff by blast
qed

text \<open>A step of a process that stands for no approval before and after.\<close>

definition quiet_table :: "flow \<Rightarrow> flow \<Rightarrow> bool" where
  "quiet_table f f' \<longleftrightarrow>
     grows (fl_table f) (fl_table f') \<and> table_wf (fl_table f') \<and>
     (\<forall>i e. row (fl_table f) i = Some e \<longrightarrow> approved_row e \<longrightarrow>
        (\<exists>e'. row (fl_table f') i = Some e' \<and> approved_row e')) \<and>
     (\<forall>i e. row (fl_table f) i = Some e \<longrightarrow> ck_status e = REJECTED \<longrightarrow>
        (\<exists>e'. row (fl_table f') i = Some e' \<and> ck_status e' = REJECTED)) \<and>
     (\<forall>i e'. row (fl_table f') i = Some e' \<longrightarrow> ck_executionStartedAt e' \<noteq> None \<longrightarrow>
        i \<in> fst ` set (fl_queue f))"

definition same_history :: "flow \<Rightarrow> flow \<Rightarrow> bool" where
  "same_history f f' \<longleftrightarrow> fl_queue f' = fl_queue f \<and> fl_approved f' = fl_approved f \<and> fl_rejected f' = fl_rejected f"

lemma quiet_inv:
  assumes inv: "approval_inv f" and q: "quiet_table f g" and h: "same_history f g"
    and tok: "mset (tokens g) = mset (tokens f)"
    and procs: "\<And>p. p \<in> set (fl_procs g) \<Longrightarrow> p \<in> set (fl_procs f) \<or> proc_ok g p"
    and calls: "\<And>x. x \<in> set (fl_toolCalls g) \<Longrightarrow> x \<in> set (fl_toolCalls f) \<or> call_ok g x"
  shows "approval_inv g"
proof (rule approval_inv_extend [OF inv _ _ _ _ _ _ _ procs calls])
  note qd = q [unfolded quiet_table_def] and hd = h [unfolded same_history_def]
  show "extends f g" using qd hd by (simp add: extends_def)
  show "table_wf (fl_table g)" using qd by simp
  have set: "set (tokens g) = set (tokens f)" using tok by (metis set_mset_mset)
  show "distinct (tokens g)" using approval_invD(2) [OF inv] tok by (metis distinct_count_atmost_1 set)
  show "\<exists>e. row (fl_table g) i = Some e \<and> approved_row e" if "i \<in> set (tokens g)" for i
    using approval_invD(3) [OF inv, of i] that set qd by blast
  show "i \<in> fst ` set (fl_queue g)"
    if "row (fl_table g) i = Some e" "ck_executionStartedAt e \<noteq> None" for i e
    using that qd hd by simp
  show "i \<notin> set (tokens g) \<and> (\<exists>e. row (fl_table g) i = Some e \<and> ck_status e = REJECTED)"
    if "i \<in> set (fl_rejected g)" for i
    using approval_invD(5,6) [OF inv, of i] that hd set qd by auto
  show "(i, u) \<in> set (fl_approved g) \<and> (\<exists>e. row (fl_table g) i = Some e \<and> ck_userId e = u)"
    if "(i, u) \<in> set (fl_queue g)" "(i, u) \<notin> set (fl_queue f)" for i u
    using that hd by simp
qed

definition settling :: "proc \<Rightarrow> bool" where
  "settling p = (case p of ReqClaim _ _ _ \<Rightarrow> True | ReqEnqueue _ _ \<Rightarrow> True | ReqRevert _ \<Rightarrow> True | _ \<Rightarrow> False)"

lemma quiet_same: "approval_inv f \<Longrightarrow> fl_table f' = fl_table f \<Longrightarrow> quiet_table f f'"
  using approval_invD(1,4) [of f] by (auto simp: quiet_table_def)

text \<open>An update of the one row with a given id.\<close>

lemma quiet_row:
  assumes inv: "approval_inv f" and "grows (fl_table f) (fl_table f')" "table_wf (fl_table f')"
    and upd: "\<And>i. row (fl_table f') i = (if i = j then map_option g (row (fl_table f) i) else row (fl_table f) i)"
    and "\<And>e. row (fl_table f) j = Some e \<Longrightarrow> approved_row e \<Longrightarrow> approved_row (g e)"
    and "\<And>e. row (fl_table f) j = Some e \<Longrightarrow> ck_status e = REJECTED \<Longrightarrow> ck_status (g e) = REJECTED"
    and "\<And>e. row (fl_table f) j = Some e \<Longrightarrow> ck_executionStartedAt (g e) \<noteq> None \<Longrightarrow>
        ck_executionStartedAt e \<noteq> None \<or> j \<in> fst ` set (fl_queue f)"
  shows "quiet_table f f'"
proof -
  have "i \<in> fst ` set (fl_queue f)" if h: "row (fl_table f') i = Some e'" "ck_executionStartedAt e' \<noteq> None" for i e'
  proof (cases "i = j")
    case True
    then obtain e where "row (fl_table f) j = Some e" "e' = g e" using h(1) True upd [of j] by auto
    then show ?thesis using assms(7) h(2) approval_invD(4) [OF inv] True by blast
  next
    case False
    then show ?thesis using h upd approval_invD(4) [OF inv] by simp
  qed
  then show ?thesis using assms(2,3,5,6) unfolding quiet_table_def upd by simp
qed

lemma quiet_claim:
  assumes "approval_inv f" "fl_table f' = snd (claim now \<lparr>cl_id = j, cl_toStatus = REJECTED,
     cl_selectedProvider = None, cl_updatedPendingTool = None\<rparr> (fl_table f))"
  shows "quiet_table f f'"
  by (rule quiet_row [OF assms(1), of f' j
        "\<lambda>e. if ck_status e = PENDING then e\<lparr>ck_status := REJECTED, ck_updatedAt := now\<rparr> else e"])
    (use approval_invD(1) [OF assms(1)] in
      \<open>auto simp: assms(2) approved_row_def row_claim split: if_splits cong: if_cong\<close>)

lemma quiet_stalled:
  assumes "approval_inv f" "fl_table f' = snd (markStalledAsRejected now j (fl_table f))"
    "\<exists>e. row (fl_table f) j = Some e \<and> ck_executionStartedAt e \<noteq> None"
  shows "quiet_table f f'"
  by (rule quiet_row [OF assms(1), of f' j
        "\<lambda>e. if ck_status e = APPROVED then e\<lparr>ck_status := REJECTED, ck_updatedAt := now\<rparr> else e"])
    (use approval_invD(1) [OF assms(1)] assms(3) in \<open>auto simp: assms(2) approved_row_def row_markStalled\<close>)

lemma quiet_mark:
  assumes "approval_inv f" "fl_table f' = markToolExecuted now j (fl_table f)"
  shows "quiet_table f f'"
  by (rule quiet_row [OF assms(1), of f' j "\<lambda>e. e\<lparr>ck_toolExecutedAt := Some now, ck_updatedAt := now\<rparr>"])
    (use approval_invD(1) [OF assms(1)] in \<open>auto simp: assms(2) approved_row_def row_markToolExecuted\<close>)

lemma quiet_execution:
  assumes "approval_inv f" "fl_table f' = snd (claimExecution now j (fl_table f))" "j \<in> fst ` set (fl_queue f)"
  shows "quiet_table f f'"
  by (rule quiet_row [OF assms(1), of f' j "\<lambda>e. if ck_executionStartedAt e = None
        then e\<lparr>ck_executionStartedAt := Some now, ck_updatedAt := now\<rparr> else e"])
    (use approval_invD(1) [OF assms(1)] assms(3) in \<open>auto simp: assms(2) approved_row_def row_claimExecution\<close>)

lemmas step_defs =
  flow_step_def req_claim_def req_enqueue_def job_claim_def job_tool_def case_prod_beta Let_def

lemma quiet_step_history:
  "\<not> settling p \<Longrightarrow> flow_step out p f = (p', f') \<Longrightarrow>
   same_history f f' \<and> pending_of p = [] \<and> pending_of p' = []"
  by (cases p; cases out)
    (auto simp: step_defs settling_def same_history_def pending_of_def
      split: sum.splits option.splits prod.splits if_splits)

lemma job_row_queue: "job_row f c u \<Longrightarrow> ck_id c \<in> fst ` set (fl_queue f)"
  by (force simp: job_row_def)

lemma other_step_table:
  "\<not> settling p \<Longrightarrow> flow_step out p f = (p', f') \<Longrightarrow>
   case p of JobClaim _ _ \<Rightarrow> True | CronExpire _ \<Rightarrow> True | CronRecover _ \<Rightarrow> True | JobMark _ _ _ _ \<Rightarrow> True
     | _ \<Rightarrow> fl_table f' = fl_table f"
  by (cases p; cases out)
    (auto simp: step_defs settling_def split: sum.splits option.splits prod.splits if_splits)

lemma quiet_step_table:
  assumes "approval_inv f" "proc_ok f p" "\<not> settling p" "flow_step out p f = (p', f')"
  shows "quiet_table f f'"
proof (cases p)
  case (JobClaim c u)
  then show ?thesis
    using assms(2,4) quiet_execution [OF assms(1), of f' "fl_now f" "ck_id c"] job_row_queue
    by (auto simp: step_defs proc_ok_def split: if_splits)
next
  case (CronExpire c)
  then show ?thesis
    using assms(4) quiet_claim [OF assms(1), of f' "fl_now f" "ck_id c"] by (auto simp: step_defs)
next
  case (CronRecover c)
  then show ?thesis
    using assms(2,4) quiet_stalled [OF assms(1), of f' "fl_now f" "ck_id c"]
    by (auto simp: step_defs proc_ok_def)
next
  case (JobMark c u t e)
  then show ?thesis
    using assms(4) quiet_mark [OF assms(1), of f' "fl_now f" "ck_id c"] by (auto simp: step_defs)
qed (use quiet_same [OF assms(1), of f'] other_step_table [OF assms(3,4)] in simp_all)

lemma quiet_step_proc:
  assumes "approval_inv f" "proc_ok f p" "\<not> settling p" "flow_step out p f = (p', f')"
  shows "proc_ok f' p'"
proof (cases p)
  case (ReqLoad dto)
  then show ?thesis
    using assms(4) prepare_claim_owner [OF approval_invD(1) [OF assms(1)], of dto]
    by (fastforce simp: step_defs proc_ok_def split: sum.splits)
next
  case (JobFind i u)
  show ?thesis
  proof (cases "findById i (fl_table f)")
    case None
    then show ?thesis using JobFind assms(4) by (auto simp: step_defs proc_ok_def)
  next
    case (Some c)
    then obtain e where "row (fl_table f) i = Some e" "c = toResponseDto e"
      by (auto simp: findById_def row_def)
    moreover have "(i, u) \<in> set (fl_queue f)" using JobFind assms(2) by (simp add: proc_ok_def)
    ultimately have "job_row f c u" using row_id [of "fl_table f" i e] by (simp add: job_row_def)
    then show ?thesis using JobFind Some assms(4) by (auto simp: step_defs proc_ok_def)
  qed
next
  case (JobClaim c u)
  have "extends f f'"
    using quiet_step_table [OF assms] quiet_step_history [OF assms(3,4)]
    by (simp add: quiet_table_def same_history_def extends_def)
  then have "job_row f' c u" using job_row_mono [OF assms(1)] JobClaim assms(2) by (simp add: proc_ok_def)
  then show ?thesis using JobClaim assms(4) by (auto simp: step_defs proc_ok_def split: if_splits)
next
  case (JobTool c u)
  then show ?thesis using assms(2,4) by (auto simp: step_defs proc_ok_def job_row_def
      split: option.splits answer_of_world.splits)
next
  case (CronRecover c)
  then show ?thesis using assms(4) by (auto simp: step_defs proc_ok_def)
qed (use assms(2-4) in \<open>auto simp: step_defs settling_def proc_ok_def
      split: sum.splits option.splits answer_of_world.splits if_splits\<close>)

lemma quiet_step_calls:
  assumes "proc_ok f p" "\<not> settling p" "flow_step out p f = (p', f')" "x \<in> set (fl_toolCalls f')"
  shows "x \<in> set (fl_toolCalls f) \<or> call_ok f' x"
  using assms
  by (cases p; cases out)
    (auto simp: step_defs settling_def proc_ok_def call_ok_def job_row_def
      split: sum.splits option.splits if_splits)

text \<open>The state after request or job \<open>n\<close> has stepped to \<open>p\<close>.\<close>

definition set_proc :: "nat \<Rightarrow> proc \<Rightarrow> flow \<Rightarrow> flow" where
  "set_proc n p f = f\<lparr>fl_procs := (fl_procs f)[n := p]\<rparr>"

lemma set_proc_frame [simp]:
  "fl_table (set_proc n p f) = fl_table f" "fl_queue (set_proc n p f) = fl_queue f"
  "fl_toolCalls (set_proc n p f) = fl_toolCalls f" "fl_approved (set_proc n p f) = fl_approved f"
  "fl_rejected (set_proc n p f) = fl_rejected f" "fl_procs (set_proc n p f) = (fl_procs f)[n := p]"
  by (simp_all add: set_proc_def)

lemma set_proc_ok [simp]:
  "proc_ok (set_proc n q f) p = proc_ok f p" "call_ok (set_proc n q f) x = call_ok f x"
  "extends f0 (set_proc n q f) = extends f0 f" "quiet_table f0 (set_proc n q f) = quiet_table f0 f"
  "same_history f0 (set_proc n q f) = same_history f0 f"
  by (simp_all add: proc_ok_def call_ok_def job_row_def extends_def quiet_table_def same_history_def split: proc.split)

lemma mset_tokens:
  assumes "n < length (fl_procs f)" "fl_procs f' = fl_procs f"
  shows "mset (tokens (set_proc n p f')) + mset (pending_of (fl_procs f ! n)) + mset (map fst (fl_queue f))
    = mset (tokens f) + mset (pending_of p) + mset (map fst (fl_queue f'))"
  using mset_concat_update [OF assms(1), of pending_of p] assms(2) by (simp add: tokens_def ac_simps)

lemma mem_set_proc:
  "q \<in> set (fl_procs (set_proc n p f)) \<Longrightarrow> q \<in> set (fl_procs f) \<or> q = p"
  using set_update_subset_insert [of "fl_procs f" n p] by auto

text \<open>Distinctness and elements of the tokens, from their multiset.\<close>

lemma tokens_set: "mset xs = mset ys \<Longrightarrow> set xs = set ys \<and> distinct xs = distinct ys"
  by (metis mset_eq_imp_distinct_iff set_mset_mset)

lemma approval_inv_quiet:
  assumes inv: "approval_inv f" and n: "n < length (fl_procs f)" and q: "\<not> settling (fl_procs f ! n)"
    and st: "flow_step out (fl_procs f ! n) f = (p', f')"
  shows "approval_inv (set_proc n p' f')"
proof -
  have ok: "proc_ok f (fl_procs f ! n)" using approval_invD(9) [OF inv] n by simp
  note h = quiet_step_history [OF q st] and procs = flow_step_procs [OF st]
  have "mset (tokens (set_proc n p' f')) = mset (tokens f)"
    using mset_tokens [OF n procs, of p'] h by (simp add: same_history_def)
  then show ?thesis
    using quiet_inv [OF inv, of "set_proc n p' f'"] quiet_step_table [OF inv ok q st] h procs
      quiet_step_proc [OF inv ok q st] quiet_step_calls [OF ok q st] mem_set_proc [of _ n p' f'] by auto
qed

lemma pending_not_token:
  "approval_inv f \<Longrightarrow> row (fl_table f) i = Some e \<Longrightarrow> ck_status e = PENDING \<Longrightarrow> i \<notin> set (tokens f)"
  using approval_invD(3) [of f i] by (auto dest: approved_not_pending)

lemma in_tokens_queue: "i \<in> fst ` set (fl_queue f) \<Longrightarrow> i \<in> set (tokens f)"
  by (auto simp: tokens_def)

lemma approval_inv_enqueue:
  assumes inv: "approval_inv f" and n: "n < length (fl_procs f)" and p: "fl_procs f ! n = ReqEnqueue c u"
    and st: "flow_step out (ReqEnqueue c u) f = (p', f')" and out: "out \<noteq> EnqueueReplyLost"
  shows "approval_inv (set_proc n p' f')"
proof -
  have ok: "proc_ok f (ReqEnqueue c u)" using approval_invD(9) [OF inv] n p by (metis nth_mem)
  let ?g = "set_proc n p' f'"
  have f': "fl_table f' = fl_table f" "fl_approved f' = fl_approved f" "fl_rejected f' = fl_rejected f"
      "fl_toolCalls f' = fl_toolCalls f" "set (fl_queue f) \<subseteq> set (fl_queue f')"
      "set (fl_queue f') \<subseteq> insert (ck_id c, u) (set (fl_queue f))" "proc_ok f' p'" "fl_procs f' = fl_procs f"
    using st out by (cases out; auto simp: step_defs proc_ok_def)+
  have "mset (tokens ?g) = mset (tokens f)"
    using mset_tokens [OF n f'(8), of p'] p st out by (cases out) (auto simp: step_defs pending_of_def)
  note tok = tokens_set [OF this]
  show ?thesis
  proof (rule approval_inv_extend [OF inv])
    show "extends f ?g" using f' by (simp add: extends_def)
    show "distinct (tokens ?g)" using tok approval_invD(2) [OF inv] by simp
    show "(i, v) \<in> set (fl_approved ?g) \<and> (\<exists>e. row (fl_table ?g) i = Some e \<and> ck_userId e = v)"
      if "(i, v) \<in> set (fl_queue ?g)" "(i, v) \<notin> set (fl_queue f)" for i v
      using that f' ok by (auto simp: proc_ok_def)
    show "i \<in> fst ` set (fl_queue ?g)"
      if "row (fl_table ?g) i = Some e" "ck_executionStartedAt e \<noteq> None" for i e
      using approval_invD(4) [OF inv, of i e] that f' by auto
    show "p \<in> set (fl_procs f) \<or> proc_ok ?g p" if "p \<in> set (fl_procs ?g)" for p
      using mem_set_proc [OF that] f' by auto
  qed (use f' tok approval_invD [OF inv] in auto)
qed

lemma approval_inv_revert:
  assumes inv: "approval_inv f" and n: "n < length (fl_procs f)" and p: "fl_procs f ! n = ReqRevert c"
    and st: "flow_step out (ReqRevert c) f = (p', f')"
  shows "approval_inv (set_proc n p' f')"
proof -
  let ?g = "set_proc n p' f'" and ?j = "ck_id c"
  have f': "fl_table f' = revertApprovedClaim (fl_now f) ?j (fl_table f)" "fl_approved f' = fl_approved f"
      "fl_rejected f' = fl_rejected f" "fl_toolCalls f' = fl_toolCalls f" "fl_queue f' = fl_queue f"
      "fl_procs f' = fl_procs f" "p' = Threw CHECKPOINT_APPROVAL_ENQUEUE_FAILED"
    using st by (auto simp: step_defs)
  have tok: "mset (tokens f) = add_mset ?j (mset (tokens ?g))"
    using mset_tokens [OF n f'(6), of p'] p f'(5,7) by (simp add: pending_of_def)
  then have set: "set (tokens f) = insert ?j (set (tokens ?g))" by (metis set_mset_add_mset_insert set_mset_mset)
  have d: "distinct (tokens ?g)" "?j \<notin> set (tokens ?g)"
    using approval_invD(2) [OF inv] tokens_set [of "tokens f" "?j # tokens ?g"] tok by auto
  have row: "row (fl_table f') i = row (fl_table f) i" if "i \<noteq> ?j" for i
    using that by (simp add: f' row_revert)
  have started: "\<exists>e'. row (fl_table f) i = Some e' \<and> ck_executionStartedAt e' = ck_executionStartedAt e"
    if "row (fl_table f') i = Some e" for i e
    using that by (auto simp: f' row_revert split: if_splits)
  show ?thesis
  proof (rule approval_inv_extend [OF inv])
    show "extends f ?g" using f' by (simp add: extends_def)
    show "table_wf (fl_table ?g)" using f' approval_invD(1) [OF inv] by simp
    show "\<exists>e. row (fl_table ?g) i = Some e \<and> approved_row e" if "i \<in> set (tokens ?g)" for i
    proof -
      have "i \<noteq> ?j" using that d(2) by auto
      then show ?thesis using approval_invD(3) [OF inv, of i] that set row [of i] by simp
    qed
    show "i \<in> fst ` set (fl_queue ?g)"
      if "row (fl_table ?g) i = Some e" "ck_executionStartedAt e \<noteq> None" for i e
      using started [of i e] approval_invD(4) [OF inv, of i] that f' by auto
    show "i \<notin> set (tokens ?g) \<and> (\<exists>e. row (fl_table ?g) i = Some e \<and> ck_status e = REJECTED)"
      if "i \<in> set (fl_rejected ?g)" for i
      using approval_invD(5,6) [OF inv, of i] that f' set row [of i] by auto
    show "p \<in> set (fl_procs f) \<or> proc_ok ?g p" if "p \<in> set (fl_procs ?g)" for p
      using mem_set_proc [OF that] f' by (auto simp: proc_ok_def)
  qed (use f' d in auto)
qed

lemma approval_inv_claim:
  assumes inv: "approval_inv f" and n: "n < length (fl_procs f)" and p: "fl_procs f ! n = ReqClaim c req u"
    and st: "flow_step out (ReqClaim c req u) f = (p', f')" and won: "fst (claim (fl_now f) req (fl_table f))"
  shows "approval_inv (set_proc n p' f')"
proof -
  let ?g = "set_proc n p' f'" and ?j = "ck_id c" and ?rej = "cl_toStatus req = REJECTED"
  have ok: "proc_ok f (ReqClaim c req u)" using approval_invD(9) [OF inv] n p by (metis nth_mem)
  note wf = approval_invD(1) [OF inv]
  have j: "cl_id req = ?j" "cl_toStatus req \<noteq> PENDING" using ok by (auto simp: proc_ok_def)
  obtain e where e: "row (fl_table f) ?j = Some e" "ck_status e = PENDING" "ck_userId e = u"
    using won claim_claimed [OF wf] j(1) ok by (auto simp: proc_ok_def)
  have f': "fl_table f' = snd (claim (fl_now f) req (fl_table f))"
      "fl_approved f' = (if ?rej then fl_approved f else (?j, u) # fl_approved f)"
      "fl_rejected f' = (if ?rej then ?j # fl_rejected f else fl_rejected f)" "fl_toolCalls f' = fl_toolCalls f"
      "fl_queue f' = fl_queue f" "fl_procs f' = fl_procs f" "p' = (if ?rej then ReqReject c u else ReqEnqueue c u)"
    using st won j by (auto simp: step_defs split: if_splits)
  have no: "?j \<notin> set (tokens f)" using pending_not_token [OF inv e(1,2)] .
  have "mset (tokens ?g) = mset ((if ?rej then [] else [?j]) @ tokens f)"
    using mset_tokens [OF n f'(6), of p'] p f'(5,7) by (simp add: pending_of_def)
  note tok = tokens_set [OF this]
  have row: "row (fl_table f') i = row (fl_table f) i" if "i \<noteq> ?j" for i
    using that j(1) by (simp add: f' row_claim)
  obtain e' where e': "row (fl_table f') ?j = Some e'" "ck_status e' = cl_toStatus req"
      "ck_executionStartedAt e' = ck_executionStartedAt e" "ck_userId e' = u"
    using e j(1) by (simp add: f' row_claim)
  show ?thesis
  proof (rule approval_inv_extend [OF inv])
    show "extends f ?g" using f' by (auto simp: extends_def)
    show "table_wf (fl_table ?g)" using f' wf by simp
    show "distinct (tokens ?g)" using tok no approval_invD(2) [OF inv] by auto
    show "\<exists>e. row (fl_table ?g) i = Some e \<and> approved_row e" if "i \<in> set (tokens ?g)" for i
    proof (cases "i = ?j")
      case True
      then have "\<not> ?rej" using that tok no by auto
      then have "cl_toStatus req = APPROVED" using j(2) by (cases "cl_toStatus req") auto
      then show ?thesis using True e' by (simp add: approved_row_def)
    next
      case False
      then show ?thesis using approval_invD(3) [OF inv, of i] that tok row [of i] by (auto split: if_splits)
    qed
    show "i \<in> fst ` set (fl_queue ?g)"
      if "row (fl_table ?g) i = Some d" "ck_executionStartedAt d \<noteq> None" for i d
      using approval_invD(4) [OF inv, of i] that f'(5) row [of i] e e' by (cases "i = ?j") auto
    show "i \<notin> set (tokens ?g) \<and> (\<exists>e. row (fl_table ?g) i = Some e \<and> ck_status e = REJECTED)"
      if "i \<in> set (fl_rejected ?g)" for i
    proof (cases "i = ?j")
      case True
      have "?rej" using that True f'(3) approval_invD(6) [OF inv, of ?j] e by (auto split: if_splits)
      then show ?thesis using True e' tok no by simp
    next
      case False
      then show ?thesis using approval_invD(5,6) [OF inv, of i] that f'(3) tok row [of i] by (auto split: if_splits)
    qed
    show "p \<in> set (fl_procs f) \<or> proc_ok ?g p" if "p \<in> set (fl_procs ?g)" for p
      using mem_set_proc [OF that] f'(2,6,7) e' by (auto simp: proc_ok_def)
  qed (use f' in auto)
qed

lemma approval_inv_claim_lost:
  assumes inv: "approval_inv f" and n: "n < length (fl_procs f)" and p: "fl_procs f ! n = ReqClaim c req u"
    and st: "flow_step out (ReqClaim c req u) f = (p', f')" and lost: "\<not> fst (claim (fl_now f) req (fl_table f))"
  shows "approval_inv (set_proc n p' f')"
proof -
  have f': "fl_table f' = snd (claim (fl_now f) req (fl_table f))" "same_history f f'" "fl_procs f' = fl_procs f"
      "fl_toolCalls f' = fl_toolCalls f" "p' = Threw CHECKPOINT_ALREADY_RESOLVED"
    using st lost by (auto simp: step_defs same_history_def)
  have "row (fl_table f') i = row (fl_table f) i" for i
    using lost claim_claimed [OF approval_invD(1) [OF inv], of "fl_now f" req]
    by (cases "row (fl_table f) i") (auto simp: f' row_claim)
  then have "quiet_table f f'"
    using approval_invD(1,4) [OF inv] f'(1) by (auto simp: quiet_table_def)
  moreover have "mset (tokens (set_proc n p' f')) = mset (tokens f)"
    using mset_tokens [OF n f'(3), of p'] p f'(2,5) by (simp add: pending_of_def same_history_def)
  moreover have "proc_ok f' p'" by (simp add: f' proc_ok_def)
  ultimately show ?thesis
    using quiet_inv [OF inv, of "set_proc n p' f'"] f' mem_set_proc [of _ n p' f'] by auto
qed

text \<open>Redis is reliable in a run in which no reply to \<open>addJob\<close> is lost.\<close>

definition no_lost_reply :: "flow_action list \<Rightarrow> bool" where
  "no_lost_reply as \<longleftrightarrow> (\<forall>n. StepProc n EnqueueReplyLost \<notin> set as)"

lemma approval_inv_proc:
  assumes inv: "approval_inv f" and n: "n < length (fl_procs f)" and "out \<noteq> EnqueueReplyLost"
    and st: "flow_step out (fl_procs f ! n) f = (p', f')"
  shows "approval_inv (set_proc n p' f')"
proof (cases "settling (fl_procs f ! n)")
  case False
  then show ?thesis using approval_inv_quiet [OF inv n _ st] by blast
next
  case True
  then consider c req u where "fl_procs f ! n = ReqClaim c req u" | c u where "fl_procs f ! n = ReqEnqueue c u"
    | c where "fl_procs f ! n = ReqRevert c"
    by (auto simp: settling_def split: proc.splits)
  then show ?thesis
    using approval_inv_claim [OF inv n] approval_inv_claim_lost [OF inv n] approval_inv_enqueue [OF inv n]
      approval_inv_revert [OF inv n] st assms(3)
    by cases fastforce+
qed

lemma tokens_spawn [simp]:
  "concat (map pending_of ps) = [] \<Longrightarrow> tokens (spawn ps f) = tokens f"
  by (simp add: tokens_def)

lemma approval_inv_spawn:
  assumes "approval_inv f" "concat (map pending_of ps) = []" "\<And>p. p \<in> set ps \<Longrightarrow> proc_ok f p"
  shows "approval_inv (spawn ps f)"
proof -
  have [simp]: "proc_ok (spawn ps f) p = proc_ok f p" "call_ok (spawn ps f) x = call_ok f x" for p x
    by (simp_all add: proc_ok_def call_ok_def job_row_def split: proc.split)
  have "extends f (spawn ps f)" by (simp add: extends_def)
  then show ?thesis
    using assms(2,3) approval_invD [OF assms(1)]
    by (intro approval_inv_extend [OF assms(1)]) auto
qed

lemma approval_inv_pause:
  assumes inv: "approval_inv f"
  shows "approval_inv (f\<lparr>fl_messages := ms, fl_table := snd (create uuid now dto (fl_table f))\<rparr>)"
    (is "approval_inv ?g")
proof -
  have new: "row (fl_table f) i = Some e \<or> ck_executionStartedAt e = None" if "row (fl_table ?g) i = Some e" for i e
    using that by (auto simp: create_def create_entity_def Let_def row_append split: if_splits option.splits)
  have tok: "tokens ?g = tokens f" by (simp add: tokens_def)
  have keep: "row (fl_table f) i = Some e \<Longrightarrow> row (fl_table ?g) i = Some e" for i e
    by (simp add: row_create)
  show ?thesis
  proof (rule approval_inv_extend [OF inv])
    show "extends f ?g" by (simp add: extends_def)
    show "table_wf (fl_table ?g)" using approval_invD(1) [OF inv] by (simp add: create_wf)
    show "\<exists>e. row (fl_table ?g) i = Some e \<and> approved_row e" if "i \<in> set (tokens ?g)" for i
      using approval_invD(3) [OF inv, of i] that tok keep by auto
    show "i \<in> fst ` set (fl_queue ?g)"
      if "row (fl_table ?g) i = Some e" "ck_executionStartedAt e \<noteq> None" for i e
      using new [OF that(1)] approval_invD(4) [OF inv, of i e] that by auto
    show "i \<notin> set (tokens ?g) \<and> (\<exists>e. row (fl_table ?g) i = Some e \<and> ck_status e = REJECTED)"
      if "i \<in> set (fl_rejected ?g)" for i
      using approval_invD(5,6) [OF inv, of i] that tok keep by auto
  qed (use tok approval_invD [OF inv] in auto)
qed

lemma approval_inv_step:
  assumes inv: "approval_inv f" and "\<forall>n. a \<noteq> StepProc n EnqueueReplyLost"
  shows "approval_inv (flow_apply a f)"
proof (cases a)
  case (StepProc n out)
  obtain p' f' where "flow_step out (fl_procs f ! n) f = (p', f')"
    by (cases "flow_step out (fl_procs f ! n) f")
  then show ?thesis using approval_inv_proc [OF inv] assms StepProc by (auto simp: set_proc_def)
next
  case (Pause uuid dto)
  then show ?thesis using approval_inv_pause [OF inv] inv by simp
next
  case (Wait d)
  have [simp]: "tokens (f\<lparr>fl_now := t\<rparr>) = tokens f" "proc_ok (f\<lparr>fl_now := t\<rparr>) p = proc_ok f p"
    "call_ok (f\<lparr>fl_now := t\<rparr>) x = call_ok f x" for t p x
    by (simp_all add: tokens_def proc_ok_def call_ok_def job_row_def split: proc.split)
  have "extends f (f\<lparr>fl_now := t\<rparr>)" for t by (simp add: extends_def)
  then have "approval_inv (f\<lparr>fl_now := t\<rparr>)" for t
    using approval_invD [OF inv] by (intro approval_inv_extend [OF inv]) auto
  then show ?thesis using inv Wait by simp
next
  case (Deliver k)
  show ?thesis
  proof (cases "k < length (fl_queue f)")
    case True
    obtain i u where iu: "fl_queue f ! k = (i, u)" by (cases "fl_queue f ! k")
    then have "(i, u) \<in> set (fl_queue f)" using True by (metis nth_mem)
    then have "approval_inv (spawn [JobFind i u] f)"
      by (intro approval_inv_spawn [OF inv]) (auto simp: proc_ok_def pending_of_def)
    then show ?thesis using Deliver True iu by simp
  next
    case False
    then show ?thesis using Deliver inv by simp
  qed
next
  case (Submit dto)
  have "approval_inv (spawn [ReqLoad dto] f)"
    by (intro approval_inv_spawn [OF inv]) (auto simp: proc_ok_def pending_of_def)
  then show ?thesis by (simp add: Submit)
next
  case RunExpire
  have "concat (map pending_of (map CronExpire cs)) = []" for cs
    by (induction cs) (auto simp: pending_of_def)
  then show ?thesis using RunExpire by (auto intro!: approval_inv_spawn [OF inv] simp: proc_ok_def)
next
  case RunRecover
  have "concat (map pending_of (map CronRecover cs)) = []" for cs
    by (induction cs) (auto simp: pending_of_def)
  moreover have "proc_ok f (CronRecover c)" if c: "c \<in> set (findStalledExecution (fl_now f) (fl_table f))" for c
  proof -
    obtain e where e: "e \<in> set (fl_table f)" "is_stalled (fl_now f) e" "c = toResponseDto e"
      using c by (auto simp: findStalledExecution_def)
    then have "ck_executionStartedAt e \<noteq> None" by (auto simp: is_stalled_def split: option.splits)
    then show ?thesis using row_of_wf [OF approval_invD(1) [OF inv] e(1)] e(3) by (simp add: proc_ok_def)
  qed
  ultimately show ?thesis using RunRecover by (auto intro!: approval_inv_spawn [OF inv])
qed

lemma approval_inv_run: "approval_inv f \<Longrightarrow> no_lost_reply as \<Longrightarrow> approval_inv (flow_run as f)"
proof (induction as arbitrary: f)
  case (Cons a as)
  then have "\<forall>n. a \<noteq> StepProc n EnqueueReplyLost" "no_lost_reply as" by (auto simp: no_lost_reply_def)
  then show ?case using Cons approval_inv_step by simp
qed simp

lemma approval_inv_empty: "approval_inv empty_flow"
  by (simp add: approval_inv_def empty_flow_def table_wf_def tokens_def row_def)

end
