(* ===== verification/Approval_Theorems.thy ===== *)
theory Approval_Theorems
  imports Approval_Flow
begin

text \<open>The properties of human approval under every interleaving.\<close>

section \<open>Approvals that run\<close>

text \<open>A run in which one approval is paused, approved, executed and finished.\<close>

definition approve_dto :: "approval_action \<Rightarrow> approval_dto" where
  "approve_dto act = \<lparr>ap_userId = js ''user'', ap_messageId = js ''m1'', ap_action = act,
     ap_selectedProvider = Some (js ''notion''), ap_editedArgs = None\<rparr>"

definition approved_run :: "flow_action list" where
  "approved_run = [Pause (js ''k'') demo_create, Submit (approve_dto Approve), StepProc 0 EnqueueOk,
     StepProc 0 EnqueueOk, StepProc 0 EnqueueOk, Deliver 0, StepProc 1 EnqueueOk, StepProc 1 EnqueueOk,
     StepProc 1 (ToolReturned (js ''1 row'') False), Deliver 0, StepProc 2 EnqueueOk, StepProc 2 EnqueueOk,
     StepProc 1 EnqueueOk, StepProc 1 EnqueueOk, StepProc 1 (TurnEnded (js ''done'')), StepProc 1 EnqueueOk]"

text \<open>
  C3: whatever users press, however often the queue hands out a job and the cron jobs
  run, the tool of a checkpoint is called at most once.
\<close>

theorem tool_called_at_most_once:
  "distinct (map fst (fl_toolCalls (flow_run as empty_flow)))"
  using once_inv_distinct [OF once_inv_run [OF once_inv_empty]] by (simp add: called_def)

text \<open>
  C4: as long as no reply of Redis to \<open>addJob\<close> is lost, a tool that is called is the tool
  stored in its checkpoint, its owner approved it, and the owner has not rejected it.
\<close>

theorem only_approved_tools_run:
  assumes "no_lost_reply as" "(i, u, tool) \<in> set (fl_toolCalls (flow_run as empty_flow))"
  shows "(i, u) \<in> set (fl_approved (flow_run as empty_flow)) \<and>
    i \<notin> set (fl_rejected (flow_run as empty_flow)) \<and>
    (\<exists>e. row (fl_table (flow_run as empty_flow)) i = Some e \<and> ck_userId e = u \<and>
       ck_pendingTool e = Some tool \<and> ck_status e \<noteq> PENDING)"
proof -
  have inv: "approval_inv (flow_run as empty_flow)"
    using approval_inv_run [OF approval_inv_empty assms(1)] .
  have q: "(i, u) \<in> set (fl_queue (flow_run as empty_flow))"
    using approval_invD(10) [OF inv assms(2)] by (simp add: call_ok_def)
  then have "i \<notin> set (fl_rejected (flow_run as empty_flow))"
    using approval_invD(5) [OF inv, of i] by (force simp: tokens_def)
  moreover obtain e where "row (fl_table (flow_run as empty_flow)) i = Some e" "ck_pendingTool e = Some tool"
    using approval_invD(10) [OF inv assms(2)] by (auto simp: call_ok_def)
  ultimately show ?thesis
    using approval_invD(7,8) [OF inv q] queue_row [OF inv q] by (auto dest: approved_not_pending)
qed

theorem only_approved_tools_run_witness:
  "(js ''k'', js ''user'') \<in> set (fl_approved (flow_run approved_run empty_flow)) \<and>
   js ''k'' \<notin> set (fl_rejected (flow_run approved_run empty_flow)) \<and>
   (\<exists>e. row (fl_table (flow_run approved_run empty_flow)) (js ''k'') = Some e \<and> ck_userId e = js ''user'' \<and>
      ck_pendingTool e = Some demo_pending \<and> ck_status e \<noteq> PENDING)"
proof (rule only_approved_tools_run)
  show "no_lost_reply approved_run" by (auto simp: no_lost_reply_def approved_run_def)
  show "(js ''k'', js ''user'', demo_pending) \<in> set (fl_toolCalls (flow_run approved_run empty_flow))"
    by code_simp
qed

section \<open>Where the flow falls short\<close>


definition clarification_create :: create_checkpoint where
  "clarification_create = demo_create\<lparr>cc_pendingTool := None, cc_kind := Some Clarification\<rparr>"


text \<open>
  The cron jobs edit the bot's message in the name of the user, which the message
  service refuses: an expired or stalled checkpoint changes no message, and \<open>done\<close> is
  never emitted for it.
\<close>

theorem cron_notice_is_refused:
  assumes "fl_messages f (ck_replyMessageId c) = Some (ck_botUserId c, t)" "ck_botUserId c \<noteq> ck_userId c"
  shows "flow_step out (CronExpireMessage c) f = (Ended, f) \<and> flow_step out (CronRecoverMessage c) f = (Ended, f)"
  using assms by (simp add: flow_step_def edit_def updateMessage_def)

theorem cron_notice_is_refused_witness:
  "flow_step EnqueueOk (CronExpireMessage (toResponseDto (create_entity (js ''k'') 0 demo_create)))
     (flow_run [Pause (js ''k'') demo_create] empty_flow)
   = (Ended, flow_run [Pause (js ''k'') demo_create] empty_flow)"
proof -
  have "fl_messages (flow_run [Pause (js ''k'') demo_create] empty_flow)
      (ck_replyMessageId (toResponseDto (create_entity (js ''k'') 0 demo_create))) =
      Some (ck_botUserId (toResponseDto (create_entity (js ''k'') 0 demo_create)), [])"
    "ck_botUserId (toResponseDto (create_entity (js ''k'') 0 demo_create)) \<noteq>
     ck_userId (toResponseDto (create_entity (js ''k'') 0 demo_create))"
    by code_simp+
  then show ?thesis using cron_notice_is_refused by blast
qed

end
