(* ===== verification/Limiter.thy ===== *)
theory Limiter
  imports Prelude "HOL-Library.Multiset"
begin

text \<open>
  \<open>common/provider-concurrency-limiter.service.ts\<close>: a semaphore per key. A request is
  known by its position in the list of all requests, so the order of positions is the
  order of arrival.
\<close>

section \<open>State\<close>

datatype lim_phase = LimQueued | LimRunning | LimDone | LimAborted

record lim_system =
  lim_active :: "jstr \<rightharpoonup> nat"
  lim_waiting :: "jstr \<rightharpoonup> nat list"
  lim_reqs :: "(jstr \<times> lim_phase) list"

definition lim_empty :: lim_system where
  "lim_empty = \<lparr>lim_active = Map.empty, lim_waiting = Map.empty, lim_reqs = []\<rparr>"

section \<open>Operations\<close>

text \<open>\<open>acquire\<close>: rejected when already aborted, granted while slots are free, else queued.\<close>

definition acquire :: "nat \<Rightarrow> jstr \<Rightarrow> bool \<Rightarrow> lim_system \<Rightarrow> lim_system" where
  "acquire maxConcurrent k aborted s =
    (let i = length (lim_reqs s); current = nullish (lim_active s k) 0
     in if aborted then s\<lparr>lim_reqs := lim_reqs s @ [(k, LimAborted)]\<rparr>
        else if current < maxConcurrent then
          s\<lparr>lim_active := (lim_active s)(k \<mapsto> current + 1), lim_reqs := lim_reqs s @ [(k, LimRunning)]\<rparr>
        else s\<lparr>lim_waiting := (lim_waiting s)(k \<mapsto> nullish (lim_waiting s k) [] @ [i]),
               lim_reqs := lim_reqs s @ [(k, LimQueued)]\<rparr>)"

text \<open>The \<open>onAbort\<close> listener, which is attached only while the request waits.\<close>

definition onAbort :: "nat \<Rightarrow> lim_system \<Rightarrow> lim_system" where
  "onAbort i s =
    (let k = fst (lim_reqs s ! i);
         s = (case lim_waiting s k of
                None \<Rightarrow> s
              | Some q \<Rightarrow>
                  let q = remove1 i q
                  in s\<lparr>lim_waiting := (lim_waiting s)(k := if length q = 0 then None else Some q)\<rparr>)
     in s\<lparr>lim_reqs := (lim_reqs s)[i := (k, LimAborted)]\<rparr>)"

text \<open>\<open>release\<close>: the slot goes to the next waiter, or back.\<close>

definition release :: "jstr \<Rightarrow> lim_system \<Rightarrow> lim_system" where
  "release k s =
    (case nullish (lim_waiting s k) [] of
       next # queue \<Rightarrow>
         s\<lparr>lim_waiting := (lim_waiting s)(k \<mapsto> queue),
           lim_reqs := (lim_reqs s)[next := (k, LimRunning)]\<rparr>
     | [] \<Rightarrow>
         (let current = nullish (lim_active s k) 1 - 1
          in s\<lparr>lim_active := (lim_active s)(k := if current \<le> 0 then None else Some current)\<rparr>))"

datatype lim_action = LimArrive jstr bool | LimAbort nat | LimFinish nat

fun lim_apply :: "nat \<Rightarrow> lim_action \<Rightarrow> lim_system \<Rightarrow> lim_system" where
  "lim_apply m (LimArrive k aborted) s = acquire m k aborted s"
| "lim_apply m (LimAbort i) s =
     (if i < length (lim_reqs s) \<and> snd (lim_reqs s ! i) = LimQueued then onAbort i s else s)"
| "lim_apply m (LimFinish i) s =
     (if i < length (lim_reqs s) \<and> snd (lim_reqs s ! i) = LimRunning then
        (let k = fst (lim_reqs s ! i)
         in release k (s\<lparr>lim_reqs := (lim_reqs s)[i := (k, LimDone)]\<rparr>))
      else s)"

fun lim_run :: "nat \<Rightarrow> lim_action list \<Rightarrow> lim_system \<Rightarrow> lim_system" where
  "lim_run m [] s = s"
| "lim_run m (a # as) s = lim_run m as (lim_apply m a s)"

section \<open>Invariant\<close>

definition running :: "lim_system \<Rightarrow> jstr \<Rightarrow> nat" where
  "running s k = count (mset (lim_reqs s)) (k, LimRunning)"

definition queued :: "lim_system \<Rightarrow> jstr \<Rightarrow> nat list" where
  "queued s k = filter (\<lambda>i. lim_reqs s ! i = (k, LimQueued)) [0..<length (lim_reqs s)]"

text \<open>
  The count is the number of running requests, at most the limit; the queue is the
  waiting requests by arrival; and nobody waits while a slot is free.
\<close>

definition slot_inv :: "nat \<Rightarrow> lim_system \<Rightarrow> jstr \<Rightarrow> bool" where
  "slot_inv m s k \<longleftrightarrow>
     nullish (lim_active s k) 0 = running s k \<and> running s k \<le> m \<and> lim_active s k \<noteq> Some 0 \<and>
     nullish (lim_waiting s k) [] = queued s k \<and> (queued s k \<noteq> [] \<longrightarrow> running s k = m)"

definition lim_inv :: "nat \<Rightarrow> lim_system \<Rightarrow> bool" where
  "lim_inv m s \<longleftrightarrow> (\<forall>k. slot_inv m s k)"

lemma lim_inv_slot: "lim_inv m s \<Longrightarrow> slot_inv m s k"
  by (simp add: lim_inv_def)

lemma lim_inv_empty: "lim_inv m lim_empty"
  by (simp add: lim_inv_def slot_inv_def lim_empty_def running_def queued_def)

lemma queued_append:
  "queued (s\<lparr>lim_reqs := lim_reqs s @ [r]\<rparr>) k
   = queued s k @ (if r = (k, LimQueued) then [length (lim_reqs s)] else [])"
proof -
  have "filter (\<lambda>i. (lim_reqs s @ [r]) ! i = (k, LimQueued)) [0..<length (lim_reqs s)] = queued s k"
    unfolding queued_def by (rule filter_cong) (auto simp: nth_append)
  then show ?thesis by (simp add: queued_def)
qed

lemma queued_update:
  assumes "i < length rs" "p \<noteq> LimQueued"
  shows "filter (\<lambda>j. rs[i := (k', p)] ! j = (k, LimQueued)) [0..<length rs]
    = filter (\<lambda>j. j \<noteq> i) (filter (\<lambda>j. rs ! j = (k, LimQueued)) [0..<length rs])"
  unfolding filter_filter
  by (rule filter_cong) (use assms in \<open>auto simp: nth_list_update\<close>)

lemma running_update:
  assumes "i < length rs" "rs ! i = (k', p)"
  shows "count (mset (rs[i := (k', p')])) (k, LimRunning)
    = count (mset rs) (k, LimRunning) + (if k = k' \<and> p' = LimRunning then 1 else 0)
      - (if k = k' \<and> p = LimRunning then 1 else 0)"
proof -
  have "count (mset rs) (k', p) > 0" using assms nth_mem [OF assms(1)] by (simp add: count_mset_gt_0)
  then show ?thesis using assms by (auto simp: mset_update)
qed

lemma queued_distinct [simp]: "distinct (queued s k)"
  by (simp add: queued_def)

lemma in_queued: "i \<in> set (queued s k) \<longleftrightarrow> i < length (lim_reqs s) \<and> lim_reqs s ! i = (k, LimQueued)"
  by (auto simp: queued_def)

lemma lim_inv_arrive:
  assumes "lim_inv m s"
  shows "lim_inv m (acquire m k aborted s)"
  unfolding lim_inv_def
proof
  fix k'
  show "slot_inv m (acquire m k aborted s) k'"
    using lim_inv_slot [OF assms, of k'] lim_inv_slot [OF assms, of k] queued_append [of s _ k']
    by (auto simp: slot_inv_def acquire_def Let_def running_def queued_def)
qed

lemma remove1_queued: "remove1 i (queued s k) = filter (\<lambda>j. j \<noteq> i) (queued s k)"
  by (simp add: distinct_remove1_removeAll removeAll_filter_not_eq)
     (rule filter_cong; auto)

lemma filter_notin: "i \<notin> set xs \<Longrightarrow> filter (\<lambda>j. j \<noteq> i) xs = xs"
  by (induction xs) auto

text \<open>Changing the phase of a request to one that does not wait.\<close>

lemma queued_phase:
  assumes "i < length (lim_reqs s)" "p \<noteq> LimQueued"
  shows "queued (s\<lparr>lim_reqs := (lim_reqs s)[i := (k', p)]\<rparr>) k = filter (\<lambda>j. j \<noteq> i) (queued s k)"
  using queued_update [OF assms, of k' k] by (simp add: queued_def)

lemma running_phase:
  assumes "i < length (lim_reqs s)" "lim_reqs s ! i = (k', p)"
  shows "running (s\<lparr>lim_reqs := (lim_reqs s)[i := (k', p')]\<rparr>) k
    = running s k + (if k = k' \<and> p' = LimRunning then 1 else 0) - (if k = k' \<and> p = LimRunning then 1 else 0)"
  using running_update [OF assms] by (simp add: running_def)

lemma queued_frame [simp]:
  "queued (s\<lparr>lim_waiting := w\<rparr>) k = queued s k" "queued (s\<lparr>lim_active := a\<rparr>) k = queued s k"
  "running (s\<lparr>lim_waiting := w\<rparr>) k = running s k" "running (s\<lparr>lim_active := a\<rparr>) k = running s k"
  by (simp_all add: queued_def running_def)

text \<open>The effect of an operation: the new reads of the two maps, key by key.\<close>

lemma slot_invI:
  assumes "nullish (lim_active t k) 0 = running t k" "running t k \<le> m" "lim_active t k \<noteq> Some 0"
    "nullish (lim_waiting t k) [] = queued t k" "queued t k \<noteq> [] \<Longrightarrow> running t k = m"
  shows "slot_inv m t k"
  using assms by (simp add: slot_inv_def)

lemma onAbort_reads:
  assumes "lim_inv m s" "i < length (lim_reqs s)" "lim_reqs s ! i = (k, LimQueued)"
  shows "lim_active (onAbort i s) = lim_active s"
    "nullish (lim_waiting (onAbort i s) k') [] = filter (\<lambda>j. j \<noteq> i) (queued s k')"
    "queued (onAbort i s) k' = filter (\<lambda>j. j \<noteq> i) (queued s k')"
    "running (onAbort i s) k' = running s k'"
proof -
  have w: "nullish (lim_waiting s x) [] = queued s x" for x
    using lim_inv_slot [OF assms(1)] by (simp add: slot_inv_def)
  have "i \<in> set (queued s k)" using assms(2,3) by (simp add: in_queued)
  then obtain q where q: "lim_waiting s k = Some q" "q = queued s k"
    using w [of k] by (cases "lim_waiting s k") auto
  let ?q = "filter (\<lambda>j. j \<noteq> i) (queued s k)"
  have eq: "onAbort i s = (s\<lparr>lim_waiting := (lim_waiting s)(k := if length ?q = 0 then None else Some ?q)\<rparr>)
      \<lparr>lim_reqs := (lim_reqs s)[i := (k, LimAborted)]\<rparr>"
    using q assms(3) by (simp add: onAbort_def Let_def remove1_queued)
  have other: "k' \<noteq> k \<Longrightarrow> i \<notin> set (queued s k')" using assms(3) by (simp add: in_queued)
  show "lim_active (onAbort i s) = lim_active s" by (simp add: eq)
  show "nullish (lim_waiting (onAbort i s) k') [] = filter (\<lambda>j. j \<noteq> i) (queued s k')"
    using other w [of k'] by (simp add: eq filter_notin)
  show "queued (onAbort i s) k' = filter (\<lambda>j. j \<noteq> i) (queued s k')"
    using queued_phase [of i s LimAborted k k'] assms(2) by (simp add: eq queued_def)
  show "running (onAbort i s) k' = running s k'"
    using running_phase [OF assms(2,3), of LimAborted k'] by (simp add: eq running_def)
qed

lemma lim_inv_abort:
  assumes "lim_inv m s" "i < length (lim_reqs s)" "lim_reqs s ! i = (k, LimQueued)"
  shows "lim_inv m (onAbort i s)"
  unfolding lim_inv_def
proof
  fix k'
  show "slot_inv m (onAbort i s) k'"
    using lim_inv_slot [OF assms(1), of k'] onAbort_reads(1) [OF assms] onAbort_reads(2-4) [OF assms, of k']
    by (auto simp: slot_inv_def)
qed

text \<open>
  A finished request: its slot goes to the first waiter, which starts running, or the
  count goes down.
\<close>

lemma lim_inv_finish:
  assumes "lim_inv m s" "i < length (lim_reqs s)" "lim_reqs s ! i = (k, LimRunning)"
  shows "lim_inv m (release k (s\<lparr>lim_reqs := (lim_reqs s)[i := (k, LimDone)]\<rparr>))"
proof -
  let ?t = "s\<lparr>lim_reqs := (lim_reqs s)[i := (k, LimDone)]\<rparr>"
  have qt: "queued ?t k' = queued s k'" for k'
    using queued_phase [OF assms(2), of LimDone k k'] assms(3) filter_notin [of i "queued s k'"]
    by (simp add: in_queued)
  have rt: "running ?t k' = running s k' - (if k' = k then 1 else 0)" for k'
    using running_phase [OF assms(2,3), of LimDone k'] by simp
  have pos: "0 < running s k"
    using assms(2,3) nth_mem [OF assms(2)] by (simp add: running_def count_mset_gt_0)
  note inv = lim_inv_slot [OF assms(1), unfolded slot_inv_def]
  show ?thesis
  proof (cases "queued s k")
    case Nil
    let ?n = "nullish (lim_active s k) 1 - 1"
    have eq: "release k ?t = ?t\<lparr>lim_active := (lim_active s)(k := if ?n \<le> 0 then None else Some ?n)\<rparr>"
      using inv [of k] Nil by (simp add: release_def Let_def)
    have n: "nullish (lim_active s k) 1 = running s k" using inv [of k] pos by (cases "lim_active s k") auto
    have "slot_inv m (release k ?t) k'" for k'
      using inv [of k'] inv [of k] Nil qt [of k'] rt [of k'] n
      by (cases "k' = k") (auto simp: eq slot_inv_def)
    then show ?thesis by (simp add: lim_inv_def)
  next
    case (Cons x q)
    then have x: "x < length (lim_reqs s)" "lim_reqs s ! x = (k, LimQueued)" "x \<noteq> i"
      using in_queued [of x s k] assms(3) by auto
    let ?u = "?t\<lparr>lim_reqs := (lim_reqs ?t)[x := (k, LimRunning)]\<rparr>"
    have eq: "release k ?t = ?u\<lparr>lim_waiting := (lim_waiting s)(k \<mapsto> q)\<rparr>"
      using inv [of k] Cons by (simp add: release_def)
    have x': "x < length (lim_reqs ?t)" "lim_reqs ?t ! x = (k, LimQueued)" using x by auto
    have ru: "running ?u k' = running s k'" for k'
      using running_phase [OF x', of LimRunning k'] rt [of k'] pos by auto
    have qu: "queued ?u k' = (if k' = k then q else queued s k')" for k'
      using queued_phase [OF x'(1), of LimRunning k k'] qt [of k'] Cons queued_distinct [of s k] x(2)
        filter_notin [of x q] filter_notin [of x "queued s k'"] by (auto simp: in_queued)
    have "slot_inv m (release k ?t) k'" for k'
      using inv [of k'] inv [of k] Cons ru [of k'] qu [of k']
      by (cases "k' = k") (auto simp: eq slot_inv_def)
    then show ?thesis by (simp add: lim_inv_def)
  qed
qed

lemma lim_inv_step: "lim_inv m s \<Longrightarrow> lim_inv m (lim_apply m a s)"
  using lim_inv_finish [of m s] lim_inv_abort [of m s] lim_inv_arrive [of m s]
  by (cases a) (auto simp: Let_def prod_eq_iff)

lemma lim_inv_run: "lim_inv m s \<Longrightarrow> lim_inv m (lim_run m as s)"
  by (induction as arbitrary: s) (auto intro: lim_inv_step)

section \<open>Properties\<close>

text \<open>
  C29: whatever order requests arrive, finish and give up in, at most \<open>maxConcurrent\<close>
  run at a time for a key; the waiting queue is exactly the requests that still wait, in
  order of arrival; and while one waits, all slots are in use.
\<close>

theorem limiter_correct:
  "let s = lim_run m as lim_empty
   in running s k \<le> m \<and> nullish (lim_waiting s k) [] = queued s k \<and>
      (queued s k \<noteq> [] \<longrightarrow> running s k = m)"
  using lim_inv_slot [OF lim_inv_run [OF lim_inv_empty], of m as k] by (simp add: slot_inv_def Let_def)

theorem limiter_correct_witness:
  "let s = lim_run 1 [LimArrive [] False, LimArrive [] False, LimArrive [] False, LimAbort 1] lim_empty
   in running s [] = 1 \<and> queued s [] = [2]"
proof -
  have "queued (lim_run 1 [LimArrive [] False, LimArrive [] False, LimArrive [] False, LimAbort 1] lim_empty) [] = [2]"
    by code_simp
  then show ?thesis
    using limiter_correct [of 1 "[LimArrive [] False, LimArrive [] False, LimArrive [] False, LimAbort 1]" "[]"]
    by (simp add: Let_def)
qed

text \<open>
  When a request finishes while others wait, its slot goes to the one that arrived
  first of those that wait, and to no request that arrives in between.
\<close>

theorem slot_goes_to_first_waiter:
  assumes "lim_reqs (lim_run m as lim_empty) ! i = (k, LimRunning)"
    and "i < length (lim_reqs (lim_run m as lim_empty))"
    and "queued (lim_run m as lim_empty) k = w # rest"
  shows "lim_reqs (lim_apply m (LimFinish i) (lim_run m as lim_empty))
    = (lim_reqs (lim_run m as lim_empty))[i := (k, LimDone), w := (k, LimRunning)]"
  using assms lim_inv_slot [OF lim_inv_run [OF lim_inv_empty], of m as k]
  by (simp add: slot_inv_def release_def Let_def)

theorem slot_goes_to_first_waiter_witness:
  "lim_reqs (lim_apply 1 (LimFinish 0) (lim_run 1 [LimArrive [] False, LimArrive [] False] lim_empty))
   = (lim_reqs (lim_run 1 [LimArrive [] False, LimArrive [] False] lim_empty))[0 := ([], LimDone), 1 := ([], LimRunning)]"
  by (rule slot_goes_to_first_waiter [where rest = "[]"]) code_simp+

end
