(* ===== verification/Service.thy ===== *)
theory Service
  imports Prelude
begin

text \<open>
  What the services over a database share: errors of a remote call, a connection with
  TypeORM's \<open>dataSource.transaction\<close>, and the handlers as actions on a
  connection.

  An action is a function from a connection to a result (an error or a value) and a
  connection. \<open>cn_committed\<close> is the database the others see, \<open>cn_current\<close> the one the
  running transaction sees, \<open>cn_out\<close> everything a rollback does not undo: queues, Redis.
\<close>

section \<open>Errors\<close>

datatype rpc_error =
    Coded string          \<comment> \<open>\<open>new RpcException(ERROR)\<close> with an entry \<open>{ code, message }\<close> of the error tables\<close>
  | Plain jstr            \<comment> \<open>\<open>new RpcException(text)\<close>, or an \<open>Error\<close> with that message\<close>
  | Broken jstr           \<comment> \<open>a \<open>TypeError\<close> or an error of the database\<close>

section \<open>Connections\<close>

type_synonym uuid = nat   \<comment> \<open>128 bits; the database compares them as numbers\<close>

record ('d, 'o) conn =
  cn_committed :: 'd
  cn_current :: 'd
  cn_inTx :: bool
  cn_out :: 'o

type_synonym ('d, 'o, 'a) act = "('d, 'o) conn \<Rightarrow> (rpc_error + 'a) \<times> ('d, 'o) conn"

definition connect :: "'d \<Rightarrow> 'o \<Rightarrow> ('d, 'o) conn" where
  "connect db out = \<lparr>cn_committed = db, cn_current = db, cn_inTx = False, cn_out = out\<rparr>"

definition ret :: "'a \<Rightarrow> ('d, 'o, 'a) act" where
  "ret x s = (Inr x, s)"

definition throw :: "rpc_error \<Rightarrow> ('d, 'o, 'a) act" where
  "throw e s = (Inl e, s)"

definition andThen :: "('d, 'o, 'a) act \<Rightarrow> ('a \<Rightarrow> ('d, 'o, 'b) act) \<Rightarrow> ('d, 'o, 'b) act" where
  "andThen m f s = (case m s of (Inl e, s) \<Rightarrow> (Inl e, s) | (Inr x, s) \<Rightarrow> f x s)"

definition from_sum :: "rpc_error + 'a \<Rightarrow> ('d, 'o, 'a) act" where
  "from_sum r s = (r, s)"

definition from_option :: "rpc_error \<Rightarrow> 'a option \<Rightarrow> ('d, 'o, 'a) act" where
  "from_option e x = (case x of None \<Rightarrow> throw e | Some x \<Rightarrow> ret x)"

definition ensure :: "rpc_error \<Rightarrow> bool \<Rightarrow> ('d, 'o, unit) act" where
  "ensure e b = (if b then ret () else throw e)"

text \<open>\<open>.catch(() => \<dots>)\<close>: the error is logged and forgotten.\<close>

definition swallow :: "('d, 'o, 'a) act \<Rightarrow> ('d, 'o, unit) act" where
  "swallow m s = (Inr (), snd (m s))"

definition fetch :: "('d \<Rightarrow> 'a) \<Rightarrow> ('d, 'o, 'a) act" where
  "fetch f s = (Inr (f (cn_current s)), s)"

text \<open>A statement outside a transaction is committed at once.\<close>

definition store :: "('d \<Rightarrow> 'd) \<Rightarrow> ('d, 'o, unit) act" where
  "store f s =
    (let db = f (cn_current s)
     in (Inr (), s\<lparr>cn_current := db, cn_committed := (if cn_inTx s then cn_committed s else db)\<rparr>))"

definition outside :: "('o \<Rightarrow> 'a \<times> 'o) \<Rightarrow> ('d, 'o, 'a) act" where
  "outside f s = (let (x, out) = f (cn_out s) in (Inr x, s\<lparr>cn_out := out\<rparr>))"

definition tell :: "('o \<Rightarrow> 'o) \<Rightarrow> ('d, 'o, unit) act" where
  "tell f = outside (\<lambda>o'. ((), f o'))"

text \<open>
  A transaction runs on a connection of its own: it starts from what is committed, an
  error rolls it back, and a transaction opened within another does not see what that
  one has written.
\<close>

definition transaction :: "('d, 'o, 'a) act \<Rightarrow> ('d, 'o, 'a) act" where
  "transaction m s =
    (let (r, t) = m (s\<lparr>cn_current := cn_committed s, cn_inTx := True\<rparr>);
         db = (case r of Inl _ \<Rightarrow> cn_committed t | Inr _ \<Rightarrow> cn_current t)
     in (r, t\<lparr>cn_committed := db, cn_current := (if cn_inTx s then cn_current s else db), cn_inTx := cn_inTx s\<rparr>))"

fun each :: "('a \<Rightarrow> ('d, 'o, unit) act) \<Rightarrow> 'a list \<Rightarrow> ('d, 'o, unit) act" where
  "each f [] = ret ()"
| "each f (x # xs) = andThen (f x) (\<lambda>_. each f xs)"

section \<open>Laws\<close>

named_theorems act_simps

lemma act_basic [act_simps]:
  "ret x s = (Inr x, s)" "throw e s = (Inl e, s)" "from_sum r s = (r, s)"
  "fetch f s = (Inr (f (cn_current s)), s)" "swallow m s = (Inr (), snd (m s))"
  "ensure e b s = (if b then Inr () else Inl e, s)"
  "from_option e x' s = (case x' of None \<Rightarrow> Inl e | Some x \<Rightarrow> Inr x, s)"
  by (simp_all add: ret_def throw_def from_sum_def fetch_def swallow_def ensure_def from_option_def
      split: option.split)

lemma andThen_Inr [act_simps]: "m s = (Inr x, t) \<Longrightarrow> andThen m f s = f x t"
  by (simp add: andThen_def)

lemma andThen_Inl [act_simps]: "m s = (Inl e, t) \<Longrightarrow> andThen m f s = (Inl e, t)"
  by (simp add: andThen_def)

lemma andThen_ret [simp]: "andThen (ret x) f = f x"
  by (simp add: andThen_def ret_def fun_eq_iff)

lemma andThen_throw [simp]: "andThen (throw e) f = throw e"
  by (simp add: andThen_def throw_def fun_eq_iff)

lemma andThen_assoc: "andThen (andThen m f) g = andThen m (\<lambda>x. andThen (f x) g)"
  by (auto simp: andThen_def fun_eq_iff split: prod.splits sum.splits)

lemma andThen_InrD:
  assumes "andThen m f s = (Inr y, u)"
  obtains x t where "m s = (Inr x, t)" "f x t = (Inr y, u)"
  using assms by (auto simp: andThen_def split: prod.splits sum.splits)

lemma connect_simps [simp]:
  "cn_committed (connect db o') = db" "cn_current (connect db o') = db" "\<not> cn_inTx (connect db o')"
  "cn_out (connect db o') = o'"
  by (simp_all add: connect_def)

text \<open>An error of a transaction leaves the database as it was.\<close>

definition preserves :: "(('d, 'o) conn \<Rightarrow> bool) \<Rightarrow> ('d, 'o, 'a) act \<Rightarrow> bool" where
  "preserves P m \<longleftrightarrow> (\<forall>s. P s \<longrightarrow> P (snd (m s)))"

named_theorems preserves_intros

lemma preservesD: "preserves P m \<Longrightarrow> m s = (r, t) \<Longrightarrow> P s \<Longrightarrow> P t"
  unfolding preserves_def by (metis snd_conv)

lemma preserves_pure [preserves_intros]:
  "preserves P (ret x)" "preserves P (throw e)" "preserves P (from_sum r)" "preserves P (fetch f)"
  "preserves P (ensure e b)" "preserves P (from_option e x')"
  by (simp_all add: preserves_def act_simps)

lemma preserves_andThen [preserves_intros]:
  "preserves P m \<Longrightarrow> (\<And>x. preserves P (f x)) \<Longrightarrow> preserves P (andThen m f)"
  by (auto simp: preserves_def andThen_def split: prod.split sum.split)

lemma preserves_swallow [preserves_intros]: "preserves P m \<Longrightarrow> preserves P (swallow m)"
  by (simp add: preserves_def act_simps)

lemma preserves_each [preserves_intros]: "(\<And>x. x \<in> set xs \<Longrightarrow> preserves P (f x)) \<Longrightarrow> preserves P (each f xs)"
  by (induction xs) (auto intro: preserves_intros)

lemma preserves_if [preserves_intros]:
  "(b \<Longrightarrow> preserves P m) \<Longrightarrow> (\<not> b \<Longrightarrow> preserves P m') \<Longrightarrow> preserves P (if b then m else m')"
  by simp

lemma preserves_option [preserves_intros]:
  "(x = None \<Longrightarrow> preserves P m) \<Longrightarrow> (\<And>y. x = Some y \<Longrightarrow> preserves P (f y)) \<Longrightarrow>
   preserves P (case x of None \<Rightarrow> m | Some y \<Rightarrow> f y)"
  by (cases x) auto

lemma preserves_prod [preserves_intros]:
  "(\<And>a b. p = (a, b) \<Longrightarrow> preserves P (f a b)) \<Longrightarrow> preserves P (case p of (a, b) \<Rightarrow> f a b)"
  by (cases p) auto

lemma preserves_let [preserves_intros]: "preserves P (f x) \<Longrightarrow> preserves P (let y = x in f y)"
  by simp

text \<open>What holds of the committed and of the current database.\<close>

definition on_db :: "('d \<Rightarrow> bool) \<Rightarrow> ('d, 'o) conn \<Rightarrow> bool" where
  "on_db I s \<longleftrightarrow> I (cn_committed s) \<and> I (cn_current s)"

lemma on_db_connect [simp]: "on_db I (connect db o') = I db"
  by (simp add: on_db_def)

lemma on_db_store [preserves_intros]: "(\<And>db. I db \<Longrightarrow> I (f db)) \<Longrightarrow> preserves (on_db I) (store f)"
  by (simp add: preserves_def on_db_def store_def Let_def)

lemma on_db_outside [preserves_intros]: "preserves (on_db I) (outside f)"
  by (simp add: preserves_def on_db_def outside_def split: prod.split)

lemma on_db_tell [preserves_intros]: "preserves (on_db I) (tell f)"
  unfolding tell_def by (rule on_db_outside)

lemma on_db_transaction [preserves_intros]:
  assumes "preserves (on_db I) m"
  shows "preserves (on_db I) (transaction m)"
  unfolding preserves_def
proof (intro allI impI)
  fix s :: "('a, 'b) conn"
  assume s: "on_db I s"
  obtain r t where m: "m (s\<lparr>cn_current := cn_committed s, cn_inTx := True\<rparr>) = (r, t)" by fastforce
  have "on_db I t" by (rule preservesD [OF assms m]) (use s in \<open>simp add: on_db_def\<close>)
  then show "on_db I (snd (transaction m s))"
    using s by (simp add: transaction_def m on_db_def Let_def split: sum.split)
qed

section \<open>The effect of a transaction\<close>

lemmas act_unfold = andThen_def ret_def throw_def from_sum_def from_option_def ensure_def swallow_def fetch_def
  store_def outside_def tell_def Let_def

definition idle :: "('d, 'o) conn \<Rightarrow> bool" where
  "idle s \<longleftrightarrow> \<not> cn_inTx s \<and> cn_current s = cn_committed s"

lemma idle_connect [simp]: "idle (connect db o')"
  by (simp add: idle_def)

definition holds :: "('d \<Rightarrow> bool) \<Rightarrow> ('d, 'o) conn \<Rightarrow> bool" where
  "holds I s \<longleftrightarrow> idle s \<and> I (cn_committed s)"

text \<open>
  What the body of a transaction, when it ends without an error, makes of the database it
  sees. The body commits nothing by itself.
\<close>

definition effect :: "('d, 'o, 'a) act \<Rightarrow> ('d \<Rightarrow> 'a \<Rightarrow> 'd \<Rightarrow> bool) \<Rightarrow> bool" where
  "effect m R \<longleftrightarrow> (\<forall>s. cn_inTx s \<longrightarrow>
     (case m s of (r, t) \<Rightarrow> cn_inTx t \<and> cn_committed t = cn_committed s \<and>
        (case r of Inl _ \<Rightarrow> True | Inr x \<Rightarrow> R (cn_current s) x (cn_current t))))"

lemma transaction_effect:
  assumes "effect m R" "idle s" "transaction m s = (r, t)"
  shows "idle t \<and> (case r of Inl _ \<Rightarrow> cn_committed t = cn_committed s | Inr x \<Rightarrow> R (cn_committed s) x (cn_committed t))"
proof -
  let ?s = "s\<lparr>cn_current := cn_committed s, cn_inTx := True\<rparr>"
  obtain r' t' where m: "m ?s = (r', t')" by fastforce
  have "case m ?s of (r, t) \<Rightarrow> cn_inTx t \<and> cn_committed t = cn_committed ?s \<and>
        (case r of Inl _ \<Rightarrow> True | Inr x \<Rightarrow> R (cn_current ?s) x (cn_current t))"
    using assms(1) unfolding effect_def by (elim allE [of _ ?s]) simp
  then show ?thesis
    using assms(2,3) by (auto simp: transaction_def m idle_def Let_def split: sum.splits)
qed

lemma holds_transaction:
  assumes "effect m R" "\<And>d x d'. I d \<Longrightarrow> R d x d' \<Longrightarrow> I d'"
  shows "preserves (holds I) (transaction m)"
  unfolding preserves_def
proof (intro allI impI)
  fix s :: "('a, 'b) conn"
  assume s: "holds I s"
  obtain r t where run: "transaction m s = (r, t)" by fastforce
  show "holds I (snd (transaction m s))"
    using transaction_effect [OF assms(1) _ run] s assms(2) by (auto simp: holds_def run split: sum.splits)
qed

lemma holds_outside [preserves_intros]: "preserves (holds I) (outside f)" "preserves (holds I) (tell g)"
  by (simp_all add: preserves_def holds_def idle_def outside_def tell_def split: prod.split)

lemma holds_store: "(\<And>d. I d \<Longrightarrow> I (f d)) \<Longrightarrow> preserves (holds I) (store f)"
  by (simp add: preserves_def holds_def idle_def store_def Let_def)

text \<open>The effect of a composed action from those of its parts.\<close>

lemma effectI:
  fixes m :: "('d, 'o, 'a) act"
  assumes "\<And>s r t. cn_inTx s \<Longrightarrow> m s = (r, t) \<Longrightarrow> cn_inTx t \<and> cn_committed t = cn_committed s \<and>
     (\<forall>x. r = Inr x \<longrightarrow> R (cn_current s) x (cn_current t))"
  shows "effect m R"
  unfolding effect_def
proof (intro allI impI)
  fix s :: "('d, 'o) conn" assume s: "cn_inTx s"
  obtain r t where m: "m s = (r, t)" by fastforce
  show "case m s of (r, t) \<Rightarrow> cn_inTx t \<and> cn_committed t = cn_committed s \<and>
      (case r of Inl _ \<Rightarrow> True | Inr x \<Rightarrow> R (cn_current s) x (cn_current t))"
    using assms [OF s m] by (cases r) (simp_all add: m)
qed

lemma effectD:
  fixes m :: "('d, 'o, 'a) act"
  assumes "effect m R" "cn_inTx s" "m s = (r, t)"
  shows "cn_inTx t" "cn_committed t = cn_committed s" "r = Inr x \<Longrightarrow> R (cn_current s) x (cn_current t)"
proof -
  have "case m s of (r, t) \<Rightarrow> cn_inTx t \<and> cn_committed t = cn_committed s \<and>
        (case r of Inl _ \<Rightarrow> True | Inr x \<Rightarrow> R (cn_current s) x (cn_current t))"
    using assms(1,2) unfolding effect_def by simp
  then show "cn_inTx t" "cn_committed t = cn_committed s" "r = Inr x \<Longrightarrow> R (cn_current s) x (cn_current t)"
    by (simp_all add: assms(3))
qed

lemma effect_andThen:
  fixes m :: "('d, 'o, 'a) act"
  assumes "effect m R" "\<And>x. effect (f x) (S x)"
  shows "effect (andThen m f) (\<lambda>d y d''. \<exists>x d'. R d x d' \<and> S x d' y d'')"
proof (rule effectI)
  fix s :: "('d, 'o) conn" and r u assume s: "cn_inTx s" and run: "andThen m f s = (r, u)"
  obtain a t where m: "m s = (a, t)" by fastforce
  note first = effectD [OF assms(1) s m]
  show "cn_inTx u \<and> cn_committed u = cn_committed s \<and>
     (\<forall>y. r = Inr y \<longrightarrow> (\<exists>x d'. R (cn_current s) x d' \<and> S x d' y (cn_current u)))"
  proof (cases a)
    case (Inl e)
    then show ?thesis using run m first by (auto simp: andThen_def)
  next
    case (Inr x)
    then have f: "f x t = (r, u)" using run m by (simp add: andThen_def)
    note second = effectD [OF assms(2) first(1) f]
    have "R (cn_current s) x (cn_current t)" using first(3) Inr by simp
    moreover have "S x (cn_current t) y (cn_current u)" if "r = Inr y" for y using second(3) that .
    ultimately show ?thesis using first(2) second(1,2) by auto
  qed
qed

lemma effect_weaken: "effect m R \<Longrightarrow> (\<And>d x d'. R d x d' \<Longrightarrow> S d x d') \<Longrightarrow> effect m S"
proof (rule effectI)
  fix s r t assume m: "effect m R" "\<And>d x d'. R d x d' \<Longrightarrow> S d x d'" "cn_inTx s" "m s = (r, t)"
  show "cn_inTx t \<and> cn_committed t = cn_committed s \<and> (\<forall>x. r = Inr x \<longrightarrow> S (cn_current s) x (cn_current t))"
    using effectD [OF m(1,3,4)] m(2) by simp
qed

named_theorems effect_intros

lemma effect_basic [effect_intros]:
  "effect (ret x) (\<lambda>d y d'. y = x \<and> d' = d)"
  "effect (throw e) (\<lambda>d y d'. False)"
  "effect (from_sum r) (\<lambda>d y d'. r = Inr y \<and> d' = d)"
  "effect (from_option e o') (\<lambda>d y d'. o' = Some y \<and> d' = d)"
  "effect (ensure e b) (\<lambda>d y d'. b \<and> d' = d)"
  "effect (fetch f) (\<lambda>d y d'. y = f d \<and> d' = d)"
  "effect (store g) (\<lambda>d y d'. d' = g d)"
  "effect (outside h) (\<lambda>d y d'. d' = d)"
  "effect (tell k) (\<lambda>d y d'. d' = d)"
  by (auto simp: effect_def act_unfold split: option.split sum.split prod.split)

lemma effect_if [effect_intros]:
  "effect m R \<Longrightarrow> effect m' R' \<Longrightarrow> effect (if b then m else m') (\<lambda>d x d'. if b then R d x d' else R' d x d')"
  by simp

lemma effect_option [effect_intros]:
  "effect m R \<Longrightarrow> (\<And>y. effect (f y) (S y)) \<Longrightarrow>
   effect (case x of None \<Rightarrow> m | Some y \<Rightarrow> f y) (\<lambda>d r d'. case x of None \<Rightarrow> R d r d' | Some y \<Rightarrow> S y d r d')"
  by (cases x) auto

lemma effect_let [effect_intros]: "effect (f x) R \<Longrightarrow> effect (let y = x in f y) R"
  by simp

lemma find_append: "find P xs = Some x \<Longrightarrow> find P (xs @ ys) = Some x"
  by (induction xs) auto

section \<open>Further actions\<close>

text \<open>\<open>try\<close> and \<open>catch\<close>.\<close>

definition rescue :: "('d, 'o, 'a) act \<Rightarrow> (rpc_error \<Rightarrow> ('d, 'o, 'a) act) \<Rightarrow> ('d, 'o, 'a) act" where
  "rescue m h s = (case m s of (Inl e, t) \<Rightarrow> h e t | (Inr x, t) \<Rightarrow> (Inr x, t))"

text \<open>A statement the database refuses unless \<open>P\<close>, as a unique index does.\<close>

definition checked :: "('d \<Rightarrow> bool) \<Rightarrow> ('d \<Rightarrow> 'd) \<Rightarrow> ('d, 'o, unit) act" where
  "checked P f s = (if P (cn_current s) then store f s else (Inl (Broken (js ''unique'')), s))"

text \<open>
  A statement on a connection of its own while a transaction runs, committed at once. The
  running transaction must end in an error, or it would overwrite it here.
\<close>

definition elsewhere :: "('d \<Rightarrow> 'd) \<Rightarrow> ('d, 'o, unit) act" where
  "elsewhere f s = (Inr (), s\<lparr>cn_committed := f (cn_committed s)\<rparr>)"

text \<open>An \<open>update\<close> that says how many rows it met.\<close>

definition store_count :: "('d \<Rightarrow> nat) \<Rightarrow> ('d \<Rightarrow> 'd) \<Rightarrow> ('d, 'o, nat) act" where
  "store_count n f s = (Inr (n (cn_current s)), snd (store f s))"

lemma preserves_rescue [preserves_intros]:
  "preserves P m \<Longrightarrow> (\<And>e. preserves P (h e)) \<Longrightarrow> preserves P (rescue m h)"
  by (auto simp: preserves_def rescue_def split: prod.split sum.split)

lemma preserves_sum [preserves_intros]:
  "(\<And>e. preserves P (h e)) \<Longrightarrow> (\<And>y. preserves P (f y)) \<Longrightarrow>
   preserves P (case r of Inl e \<Rightarrow> h e | Inr y \<Rightarrow> f y)"
  by (cases r) auto

lemma on_db_checked [preserves_intros]:
  "(\<And>db. I db \<Longrightarrow> P db \<Longrightarrow> I (f db)) \<Longrightarrow> preserves (on_db I) (checked P f)"
  by (simp add: preserves_def on_db_def checked_def store_def Let_def)

lemma on_db_elsewhere [preserves_intros]: "(\<And>db. I db \<Longrightarrow> I (f db)) \<Longrightarrow> preserves (on_db I) (elsewhere f)"
  by (simp add: preserves_def on_db_def elsewhere_def)

lemma on_db_store_count [preserves_intros]: "(\<And>db. I db \<Longrightarrow> I (f db)) \<Longrightarrow> preserves (on_db I) (store_count n f)"
  by (simp add: preserves_def on_db_def store_count_def store_def Let_def)

lemma effect_checked [effect_intros]: "effect (checked P f) (\<lambda>d y d'. P d \<and> d' = f d)"
  by (auto simp: effect_def checked_def store_def Let_def)

section \<open>Runs that return\<close>

named_theorems inr_iffs

lemma basic_Inr [inr_iffs]:
  "ret x s = (Inr y, t) \<longleftrightarrow> y = x \<and> t = s" "throw e s = (Inr y, t) \<longleftrightarrow> False"
  "from_sum r s = (Inr y, t) \<longleftrightarrow> r = Inr y \<and> t = s" "from_option e z s = (Inr y, t) \<longleftrightarrow> z = Some y \<and> t = s"
  "ensure e b s = (Inr w, t) \<longleftrightarrow> b \<and> t = s" "fetch f s = (Inr y, t) \<longleftrightarrow> y = f (cn_current s) \<and> t = s"
  by (auto simp: act_simps split: option.split)

lemma andThen_Inr_iff [inr_iffs]: "andThen m f s = (Inr y, u) \<longleftrightarrow> (\<exists>x t. m s = (Inr x, t) \<and> f x t = (Inr y, u))"
  by (auto simp: andThen_def split: prod.split sum.split)

definition wrote :: "('d \<Rightarrow> 'd) \<Rightarrow> ('d, 'o) conn \<Rightarrow> ('d, 'o) conn" where
  "wrote f s = snd (store f s)"

lemma store_Inr [inr_iffs]:
  "store f s = (Inr w, t) \<longleftrightarrow> t = wrote f s"
  "checked P f s = (Inr w, t) \<longleftrightarrow> P (cn_current s) \<and> t = wrote f s"
  "store_count n f s = (Inr k, t) \<longleftrightarrow> k = n (cn_current s) \<and> t = wrote f s"
  by (auto simp: wrote_def store_def checked_def store_count_def Let_def)

lemma wrote_fields [simp]:
  "cn_current (wrote f s) = f (cn_current s)" "cn_out (wrote f s) = cn_out s" "cn_inTx (wrote f s) = cn_inTx s"
  "cn_inTx s \<Longrightarrow> cn_committed (wrote f s) = cn_committed s"
  by (simp_all add: wrote_def store_def Let_def)

end
