(* ===== verification/Rate_Limit.thy ===== *)
theory Rate_Limit
  imports Service
begin

text \<open>
  The counters in Redis of \<open>libs/cached/src/rateLimit.service.ts\<close>. A key counts the calls
  since the call that created it and expires a window later; the script is one atomic step.
\<close>

section \<open>Windows of a rate limit\<close>

type_synonym 'k counters = "'k \<rightharpoonup> int \<times> int"   \<comment> \<open>value and the second its key expires\<close>

definition live_count :: "int \<Rightarrow> 'k counters \<Rightarrow> 'k \<Rightarrow> int option" where
  "live_count now cs k = (case cs k of None \<Rightarrow> None | Some (v, e) \<Rightarrow> if now < e then Some v else None)"

definition incrementInWindow :: "'k \<Rightarrow> int \<Rightarrow> int \<Rightarrow> 'k counters \<Rightarrow> int \<times> 'k counters" where
  "incrementInWindow k window now cs =
    (case live_count now cs k of
       None \<Rightarrow> (1, cs(k \<mapsto> (1, now + window)))
     | Some v \<Rightarrow> (v + 1, cs(k \<mapsto> (v + 1, snd (the (cs k))))))"

definition isAllowed :: "'k \<Rightarrow> int \<Rightarrow> int \<Rightarrow> int \<Rightarrow> 'k counters \<Rightarrow> bool \<times> 'k counters" where
  "isAllowed k limit window now cs =
    (let (count, cs) = incrementInWindow k window now cs in (count \<le> limit, cs))"

definition getRemaining :: "'k \<Rightarrow> int \<Rightarrow> int \<Rightarrow> 'k counters \<Rightarrow> int" where
  "getRemaining k limit now cs = max (limit - nullish (live_count now cs k) 0) 0"

section \<open>Sequences of calls\<close>

fun checks :: "'k \<Rightarrow> int \<Rightarrow> int \<Rightarrow> int list \<Rightarrow> 'k counters \<Rightarrow> bool list \<times> 'k counters" where
  "checks k limit window [] cs = ([], cs)"
| "checks k limit window (now # ts) cs =
     (let (b, cs) = isAllowed k limit window now cs;
          (bs, cs) = checks k limit window ts cs
      in (b # bs, cs))"

definition passed :: "bool list \<Rightarrow> int" where
  "passed bs = int (length (filter id bs))"

lemma passed_simps [simp]: "passed [] = 0" "passed (b # bs) = (if b then 1 else 0) + passed bs"
  by (simp_all add: passed_def)

definition counts_ok :: "'k counters \<Rightarrow> bool" where
  "counts_ok cs \<longleftrightarrow> (\<forall>k v e. cs k = Some (v, e) \<longrightarrow> 0 < v)"

lemma counts_ok_increment: "counts_ok cs \<Longrightarrow> counts_ok (snd (incrementInWindow k window now cs))"
  by (fastforce simp: counts_ok_def incrementInWindow_def live_count_def split: option.splits prod.splits if_splits)

lemma passed_checks:
  "isAllowed k limit window t cs = (b, cs') \<Longrightarrow>
   passed (fst (checks k limit window (t # ts) cs)) = (if b then 1 else 0) + passed (fst (checks k limit window ts cs'))"
  by (simp add: Let_def case_prod_beta)

lemma counts_ok_checks: "counts_ok cs \<Longrightarrow> counts_ok (snd (checks k limit window ts cs))"
  by (induction ts arbitrary: cs)
    (auto simp: isAllowed_def Let_def split: prod.splits, metis counts_ok_increment snd_conv)

lemma within_window:
  assumes "cs k = Some (v, e)" "\<forall>t \<in> set ts. t < e"
  shows "passed (fst (checks k limit window ts cs)) \<le> max 0 (limit - v)"
  using assms
proof (induction ts arbitrary: cs v)
  case (Cons t ts)
  define cs' where "cs' = cs(k \<mapsto> (v + 1, e))"
  have step: "isAllowed k limit window t cs = (v + 1 \<le> limit, cs')"
    using Cons.prems by (simp add: isAllowed_def incrementInWindow_def live_count_def cs'_def)
  have "passed (fst (checks k limit window ts cs')) \<le> max 0 (limit - (v + 1))"
    using Cons.prems by (intro Cons.IH) (simp_all add: cs'_def)
  then show ?case unfolding passed_checks [OF step] by auto
qed simp

lemma fresh_window:
  assumes "live_count t cs k = None" "\<forall>u \<in> set (t # ts). t \<le> u \<and> u < t + window" "0 \<le> limit"
  shows "passed (fst (checks k limit window (t # ts) cs)) \<le> limit"
proof -
  define cs' where "cs' = cs(k \<mapsto> (1, t + window))"
  have step: "isAllowed k limit window t cs = (1 \<le> limit, cs')"
    using assms(1) by (simp add: isAllowed_def incrementInWindow_def cs'_def)
  have "passed (fst (checks k limit window ts cs')) \<le> max 0 (limit - 1)"
    using assms(2) by (intro within_window [of _ _ _ "t + window"]) (simp_all add: cs'_def)
  then show ?thesis unfolding passed_checks [OF step] using assms(3) by auto
qed

lemma two_windows:
  assumes "counts_ok cs" "sorted ts" "\<forall>t \<in> set ts. a \<le> t \<and> t < a + window" "0 \<le> limit"
  shows "passed (fst (checks k limit window ts cs)) \<le>
     (case cs k of None \<Rightarrow> limit | Some (v, e) \<Rightarrow> max 0 (limit - v) + limit)"
  using assms
proof (induction ts arbitrary: cs)
  case Nil
  then show ?case by (simp split: option.split)
next
  case (Cons t ts)
  show ?case
  proof (cases "live_count t cs k")
    case None
    have "passed (fst (checks k limit window (t # ts) cs)) \<le> limit"
      by (rule fresh_window [OF None]) (use Cons.prems in auto)
    then show ?thesis by (auto split: option.split)
  next
    case (Some v)
    then obtain e where cs: "cs k = Some (v, e)" "t < e"
      by (auto simp: live_count_def split: option.splits if_splits)
    define cs' where "cs' = cs(k \<mapsto> (v + 1, e))"
    have step: "isAllowed k limit window t cs = (v + 1 \<le> limit, cs')"
      using cs by (simp add: isAllowed_def incrementInWindow_def live_count_def cs'_def)
    have "counts_ok cs'" using Cons.prems(1) cs by (force simp: counts_ok_def cs'_def)
    then have "passed (fst (checks k limit window ts cs')) \<le>
        (case cs' k of None \<Rightarrow> limit | Some (v, e) \<Rightarrow> max 0 (limit - v) + limit)"
      using Cons.prems by (intro Cons.IH) auto
    then show ?thesis unfolding passed_checks [OF step] by (auto simp: cs'_def cs(1))
  qed
qed

text \<open>
  C33: in any stretch of time as long as the window a key lets through at most twice its
  limit, whatever was called before.
\<close>

theorem rate_limit_bound:
  assumes "sorted ts" "\<forall>t \<in> set ts. a \<le> t \<and> t < a + window" "0 \<le> limit"
  shows "passed (fst (checks k limit window ts (snd (checks k limit window before Map.empty)))) \<le> 2 * limit"
proof -
  let ?cs = "snd (checks k limit window before Map.empty)"
  have ok: "counts_ok ?cs" by (rule counts_ok_checks) (simp add: counts_ok_def)
  have "0 < v" if "?cs k = Some (v, e)" for v e using ok that by (auto simp: counts_ok_def)
  then show ?thesis using two_windows [OF ok assms, of k] assms(3) by (fastforce split: option.splits prod.splits)
qed

text \<open>
  The comment calls the window a sliding one, but ten calls of a limit of five pass within two seconds.
\<close>

theorem window_does_not_slide:
  "fst (checks () 5 60 [0, 59, 59, 59, 59, 60, 60, 60, 60, 60] Map.empty) = replicate 10 True"
  by (simp add: isAllowed_def incrementInWindow_def live_count_def eval_nat_numeral)

lemma rate_limit_bound_witness:
  "passed (fst (checks () 5 60 [59, 60] (snd (checks () 5 60 [0, 1] Map.empty)))) \<le> 10"
  using rate_limit_bound [of "[59, 60]" 59 60 5 "()" "[0, 1]"] by simp

end
