(* ===== verification/Message_Data.thy ===== *)
theory Message_Data
  imports Agent_Ranking Rate_Limit
begin

text \<open>
  The data of the message service (\<open>apps/message/src\<close>): the rows of its tables
  (\<open>entity/\<close>), the DTOs (\<open>dto/\<close>), the jobs it puts on the queues, and the pure parts of
  \<open>service/message.service.ts\<close>: the URLs in a message and the mapping of rows to DTOs.
  A user mentioned is a \<open>mention\<close>; \<open>EveryOne\<close> is the string \<open>'all'\<close> in its place.
\<close>

section \<open>Rows\<close>

datatype feedback = Like | Unlike

datatype mention = EveryOne | Member uuid

record file_ref =            \<comment> \<open>\<open>IMessageAttachment\<close>; \<open>fl_id\<close> is the id of the resource\<close>
  fl_id :: uuid
  fl_publicId :: jstr
  fl_url :: jstr
  fl_filename :: jstr
  fl_mimeType :: jstr
  fl_size :: int
  fl_type :: jstr
  fl_thumbnailUrl :: "jstr option"

record message =
  ms_id :: uuid
  ms_channelId :: uuid
  ms_userId :: "uuid option"
  ms_webhookId :: "uuid option"
  ms_customName :: "jstr option"
  ms_customAvatarUrl :: "jstr option"
  ms_content :: json
  ms_isPinned :: bool
  ms_parentId :: "uuid option"
  ms_linkPreviews :: "json option"
  ms_toolCalls :: "json option"
  ms_createdAt :: int
  ms_updatedAt :: int

record mention_row =
  mn_messageId :: uuid
  mn_userId :: uuid

record reaction_row =
  re_messageId :: uuid
  re_userId :: uuid
  re_emoji :: jstr

record feedback_row =
  fb_messageId :: uuid
  fb_userId :: uuid
  fb_type :: feedback

record attachment_row =      \<comment> \<open>its columns are those of the file, with the id of the resource as \<open>resourceId\<close>\<close>
  at_id :: uuid
  at_messageId :: uuid
  at_file :: file_ref

record msg_db =
  messages :: "message list"
  mentions :: "mention_row list"
  reactions :: "reaction_row list"
  feedbacks :: "feedback_row list"
  attachments :: "attachment_row list"

text \<open>A row with the relations that were loaded with it.\<close>

record entity =
  en_row :: message
  en_reactions :: "reaction_row list"
  en_mentions :: "mention_row list"
  en_attachments :: "attachment_row list"

definition bare :: "message \<Rightarrow> entity" where
  "bare m = \<lparr>en_row = m, en_reactions = [], en_mentions = [], en_attachments = []\<rparr>"

definition load :: "msg_db \<Rightarrow> message \<Rightarrow> entity" where
  "load db m =
     \<lparr>en_row = m,
      en_reactions = filter (\<lambda>r. re_messageId r = ms_id m) (reactions db),
      en_mentions = filter (\<lambda>r. mn_messageId r = ms_id m) (mentions db),
      en_attachments = filter (\<lambda>r. at_messageId r = ms_id m) (attachments db)\<rparr>"

section \<open>DTOs\<close>

record user_dto =
  us_id :: "uuid option"
  us_firstName :: jstr
  us_lastName :: jstr
  us_avatarUrl :: jstr
  us_email :: jstr
  us_isApp :: bool
  us_isBot :: bool

record reaction_group =
  rg_emoji :: jstr
  rg_count :: nat
  rg_userIds :: "uuid list"

record message_dto =
  md_id :: uuid
  md_channelId :: uuid
  md_sender :: user_dto
  md_content :: json
  md_attachments :: "file_ref list"
  md_isPinned :: bool
  md_parentId :: "uuid option"
  md_createdAt :: int
  md_updatedAt :: int
  md_reactions :: "reaction_group list"
  md_mentions :: "mention list"
  md_replyCount :: nat
  md_myFeedback :: "feedback option option"   \<comment> \<open>undefined, null or a vote\<close>
  md_linkPreviews :: "json option"
  md_toolCalls :: "json option"

record page =
  pg_messages :: "message_dto list"
  pg_nextCursor :: "uuid option"

record create_dto =
  cr_channelId :: uuid
  cr_senderId :: uuid
  cr_content :: json
  cr_parentId :: "uuid option"
  cr_mentions :: "mention list option"
  cr_attachments :: "file_ref list option"

record update_dto =
  up_content :: json
  up_attachments :: "file_ref list option"
  up_mentions :: "mention list option"
  up_toolCalls :: "json option"

record channel_info =
  ch_id :: uuid
  ch_name :: jstr
  ch_direct :: bool                        \<comment> \<open>\<open>type === ChannelTypeEnum.DIRECT\<close>\<close>
  ch_memberIds :: "uuid list option"
  ch_workspaceId :: uuid

section \<open>Jobs\<close>

datatype socket_event =
    MESSAGE_RECEIVED | THREAD_MESSAGE_RECEIVED | MESSAGE_UPDATED | MESSAGE_DELETED
  | REACTION_UPDATED | MESSAGE_FEEDBACK_UPDATED

datatype room = ChannelRoom uuid | ThreadRoom uuid | UserRoom uuid

datatype event_data =
    MessageData message_dto
  | DeletedData uuid uuid uuid "uuid option"                        \<comment> \<open>message, user, channel, parent\<close>
  | ReactionData uuid "reaction_group list" uuid jstr bool
  | FeedbackData uuid "feedback option"

record notification =
  nt_channelId :: uuid
  nt_channelName :: jstr
  nt_senderId :: "uuid option"
  nt_senderName :: jstr
  nt_messageId :: uuid
  nt_mentions :: "mention list option"
  nt_parentId :: "uuid option"
  nt_workspaceId :: uuid
  nt_content :: jstr
  nt_reaction :: "jstr option"
  nt_recipientId :: "uuid option"

record ai_trigger =
  ai_userId :: "uuid option"
  ai_channelId :: uuid
  ai_workspaceId :: uuid
  ai_messageId :: uuid
  ai_botUserId :: "uuid option"
  ai_direct :: bool

datatype msg_job =
    GenerateLinkPreview uuid "jstr list"
  | EmitEvent socket_event "room list" event_data
  | EmitToUsers socket_event "uuid option list" message_dto
  | CreateNotification notification
  | IncrementUnread uuid "uuid option"
  | UpdateResources "uuid list" uuid        \<comment> \<open>\<open>refType: 'message'\<close>\<close>
  | OutboundWebhook uuid uuid message_dto   \<comment> \<open>app, workspace; \<open>eventType: 'message.channels'\<close>\<close>
  | ProcessAiTrigger ai_trigger int         \<comment> \<open>with its priority; \<open>jobId\<close> is made of the id of the message\<close>
  | AuditEdited uuid uuid uuid              \<comment> \<open>actor, message, channel\<close>
  | AuditDeleted uuid uuid uuid

section \<open>URLs of a message\<close>

definition not_space :: "int \<Rightarrow> bool" where "not_space c \<longleftrightarrow> \<not> is_space c"

definition URL_REGEX :: rx where
  "URL_REGEX = Seq (lit (js ''http'') @ [Opt (Seq (lit (js ''s'')))] @ lit (js ''://'')
      @ [Lit (\<lambda>c. not_space c \<and> c \<notin> set (js ''$.?#'')), Lit (\<lambda>c. c \<notin> {10, 13, 8232, 8233}), Many not_space])"

text \<open>\<open>text.match\<close> of a global expression that never matches the empty text: \<open>k\<close> code units still belong to the last match.\<close>

fun matches_from :: "rx \<Rightarrow> jstr \<Rightarrow> nat \<Rightarrow> jstr \<Rightarrow> jstr list" where
  "matches_from r prev k [] = []"
| "matches_from r prev (Suc k) (c # cs) = matches_from r (c # prev) k cs"
| "matches_from r prev 0 (c # cs) =
     (let n = match_len [r] prev (c # cs)
      in if n > 0 then take n (c # cs) # matches_from r (c # prev) (n - 1) cs
         else matches_from r (c # prev) 0 cs)"

definition strip_end :: "jstr \<Rightarrow> jstr" where   \<comment> \<open>\<open>replace(/[.,"\x27[\]{}()!]+$/, '')\<close>\<close>
  "strip_end t = rev (dropWhile (\<lambda>c. c \<in> {46, 44, 34, 39, 91, 93, 123, 125, 40, 41, 33}) (rev t))"

definition text_urls :: "jstr \<Rightarrow> jstr list" where
  "text_urls t = map strip_end (matches_from URL_REGEX [] 0 t)"

definition both :: "rpc_error + 'a list \<Rightarrow> rpc_error + 'a list \<Rightarrow> rpc_error + 'a list" where
  "both a b = (case a of Inl e \<Rightarrow> Inl e | Inr xs \<Rightarrow> (case b of Inl e \<Rightarrow> Inl e | Inr ys \<Rightarrow> Inr (xs @ ys)))"

definition all_of :: "(rpc_error + 'a list) list \<Rightarrow> rpc_error + 'a list" where
  "all_of rs = foldr both rs (Inr [])"

fun json_truthy :: "json \<Rightarrow> bool" where
  "json_truthy JNull = False"
| "json_truthy (JBool b) = b"
| "json_truthy (JNum n) = (n \<noteq> js ''0'' \<and> n \<noteq> js ''-0'')"
| "json_truthy (JStr s) = (s \<noteq> [])"
| "json_truthy _ = True"

text \<open>One mark: \<open>null\<close> and an \<open>href\<close> that is no string are \<open>TypeError\<close>s.\<close>

fun mark_urls :: "json \<Rightarrow> rpc_error + jstr list" where
  "mark_urls JNull = Inl (Broken (js ''type''))"
| "mark_urls (JObj mark) =
     (if get_prop mark (js ''type'') = Some (JStr (js ''link'')) then
        (case get_prop mark (js ''attrs'') of
           Some (JObj attrs) \<Rightarrow>
             (case get_prop attrs (js ''href'') of
                None \<Rightarrow> Inr []
              | Some (JStr href) \<Rightarrow> Inr (if href = [] then [] else [strip_end href])
              | Some h \<Rightarrow> if json_truthy h then Inl (Broken (js ''replace'')) else Inr [])
         | _ \<Rightarrow> Inr [])
      else Inr [])"
| "mark_urls _ = Inr []"

definition node_marks :: "args \<Rightarrow> rpc_error + jstr list" where
  "node_marks node =
    (case get_prop node (js ''marks'') of Some (JArr marks) \<Rightarrow> all_of (map mark_urls marks) | _ \<Rightarrow> Inr [])"

definition node_text :: "args \<Rightarrow> rpc_error + jstr list" where
  "node_text node = (case get_prop node (js ''text'') of Some (JStr t) \<Rightarrow> Inr (text_urls t) | _ \<Rightarrow> Inr [])"

definition node_children :: "args \<Rightarrow> json list" where
  "node_children node = (case get_prop node (js ''content'') of Some (JArr xs) \<Rightarrow> xs | _ \<Rightarrow> [])"

lemma child_smaller: "x \<in> set (node_children node) \<Longrightarrow> size x < size (JObj node)"
proof -
  assume "x \<in> set (node_children node)"
  then obtain xs where xs: "get_prop node (js ''content'') = Some (JArr xs)" "x \<in> set xs"
    by (cases "get_prop node (js ''content'')") (auto simp: node_children_def split: json.splits)
  have "size x \<le> size_list size xs" using xs(2) by (simp add: size_list_estimation')
  moreover have "(js ''content'', JArr xs) \<in> set node" using xs(1) by (simp add: get_prop_def map_of_SomeD)
  then have "size (JArr xs) \<le> size_list (size_prod (\<lambda>_. 0) size) node"
    by (rule size_list_estimation') (simp add: size_prod_def)
  ultimately show ?thesis by simp
qed

function traverse :: "json \<Rightarrow> rpc_error + jstr list" where
  "traverse (JObj node) =
     both (node_marks node) (both (node_text node) (all_of (map traverse (node_children node))))"
| "traverse JNull = Inr []"
| "traverse (JBool b) = Inr []"
| "traverse (JNum n) = Inr []"
| "traverse (JStr s) = Inr []"
| "traverse (JArr xs) = Inr []"
  by pat_completeness auto
termination by (relation "measure size") (use child_smaller in auto)

definition parse_content :: "json \<Rightarrow> json" where
  "parse_content c =
    (case c of
       JStr s \<Rightarrow>
         if starts_with [123] s \<or> starts_with [91] s
         then (case json_parse s of Some v \<Rightarrow> v | None \<Rightarrow> c) else c
     | _ \<Rightarrow> c)"

definition extractUrlsFromContent :: "json \<Rightarrow> rpc_error + jstr list" where
  "extractUrlsFromContent c =
    (case parse_content c of
       JStr s \<Rightarrow> Inr (text_urls s)
     | JArr nodes \<Rightarrow> all_of (map traverse nodes)
     | node \<Rightarrow> traverse node)"

section \<open>From rows to DTOs\<close>

definition groupReactions :: "reaction_row list \<Rightarrow> reaction_group list" where
  "groupReactions rs = map snd
    (foldl (\<lambda>groups r.
        let g = nullish (map_of groups (re_emoji r)) \<lparr>rg_emoji = re_emoji r, rg_count = 0, rg_userIds = []\<rparr>
        in AList.update (re_emoji r) (g\<lparr>rg_count := rg_count g + 1, rg_userIds := rg_userIds g @ [re_userId r]\<rparr>) groups)
      [] rs)"

definition all_mark :: jstr where "all_mark = js ''\"id\":\"all\"''"

definition isMentionAll :: "json \<Rightarrow> bool" where
  "isMentionAll c = (case c of JStr s \<Rightarrow> str_includes all_mark s | _ \<Rightarrow> str_includes all_mark (stringify c))"

definition sender_of :: "message \<Rightarrow> user_dto option \<Rightarrow> user_dto" where
  "sender_of m sender =
    (case ms_webhookId m of
       Some w \<Rightarrow>
         \<lparr>us_id = Some w, us_firstName = or_opt (ms_customName m) (js ''APP''), us_lastName = [],
          us_avatarUrl = or_opt (ms_customAvatarUrl m) [], us_email = [], us_isApp = True, us_isBot = False\<rparr>
     | None \<Rightarrow>
         nullish sender
           \<lparr>us_id = ms_userId m, us_firstName = js ''Unknown'', us_lastName = js ''User'',
            us_avatarUrl = [], us_email = [], us_isApp = False, us_isBot = False\<rparr>)"

definition mapToResponseDto ::
    "message \<Rightarrow> attachment_row list \<Rightarrow> user_dto option \<Rightarrow> reaction_group list \<Rightarrow> mention_row list \<Rightarrow>
     feedback option option \<Rightarrow> message_dto" where
  "mapToResponseDto m atts sender groups ments my =
    (let allMentions = map (\<lambda>r. Member (mn_userId r)) ments
     in \<lparr>md_id = ms_id m, md_channelId = ms_channelId m, md_sender = sender_of m sender,
         md_content = parse_content (ms_content m), md_attachments = map at_file atts,
         md_isPinned = ms_isPinned m, md_parentId = ms_parentId m,
         md_createdAt = ms_createdAt m, md_updatedAt = ms_updatedAt m, md_reactions = groups,
         md_mentions = allMentions @ (if isMentionAll (ms_content m) \<and> EveryOne \<notin> set allMentions then [EveryOne] else []),
         md_replyCount = 0, md_myFeedback = my,
         md_linkPreviews = ms_linkPreviews m, md_toolCalls = ms_toolCalls m\<rparr>)"

end
