(* ===== verification/Message_Service.thy ===== *)
theory Message_Service
  imports Message_Data
begin

text \<open>
  \<open>service/message.service.ts\<close> of the message service: every operation as an action on the
  tables, with the jobs it puts on the queues. The channel and user services are asked
  through \<open>msg_env\<close>; the counters of the rate limit and the cache of pinned messages are in
  Redis, which no rollback undoes. The work \<open>createMessage\<close> leaves to \<open>process.nextTick\<close>
  runs after the answer, here task by task.
\<close>

section \<open>Surroundings\<close>

datatype redis_key = AiTriggerRateLimit "uuid option" | WorkspaceTriggerCount uuid

type_synonym pinned_key = "uuid \<times> nat \<times> nat \<times> uuid option"   \<comment> \<open>channel, version, limit, cursor\<close>

record msg_out =
  mo_jobs :: "msg_job list"
  mo_counters :: "redis_key counters"
  mo_pinnedVersion :: "uuid \<Rightarrow> nat"
  mo_pinned :: "pinned_key \<rightharpoonup> page"

record msg_env =
  me_channel :: "uuid \<Rightarrow> uuid \<Rightarrow> jstr + channel_info option"   \<comment> \<open>\<open>GET_CHANNEL\<close> of a channel for a member\<close>
  me_basic :: "uuid \<Rightarrow> rpc_error + channel_info"                   \<comment> \<open>\<open>GET_CHANNEL_BASIC_INFO\<close>\<close>
  me_users :: "uuid list \<Rightarrow> rpc_error + user_dto list"
  me_apps :: "uuid \<Rightarrow> rpc_error + uuid list"                        \<comment> \<open>apps subscribed in a workspace\<close>
  me_depth :: int                                                   \<comment> \<open>waiting and active jobs of the queue\<close>
  me_now :: int
  me_newId :: "msg_db \<Rightarrow> uuid"
  me_attachmentId :: "msg_db \<Rightarrow> nat \<Rightarrow> uuid"
  me_matches :: "jstr \<Rightarrow> json \<Rightarrow> bool"                           \<comment> \<open>\<open>to_tsvector @@ to_tsquery\<close> of Postgres\<close>
  me_cached :: "pinned_key \<Rightarrow> bool"                                \<comment> \<open>the key has not expired yet\<close>

type_synonym 'a msg_act = "(msg_db, msg_out, 'a) act"

definition addJob :: "msg_job \<Rightarrow> unit msg_act" where
  "addJob j = tell (\<lambda>o'. o'\<lparr>mo_jobs := mo_jobs o' @ [j]\<rparr>)"

definition channel_refused :: jstr where "channel_refused = js ''CHANNEL NOT FOUND OR USER NOT IN CHANNEL''"

text \<open>The \<open>catch\<close> also catches the error thrown inside the \<open>try\<close>: its code is lost, its text stays.\<close>

definition checkChannelExist :: "msg_env \<Rightarrow> uuid \<Rightarrow> uuid \<Rightarrow> channel_info msg_act" where
  "checkChannelExist env channelId senderId =
    (case me_channel env channelId senderId of
       Inl t \<Rightarrow> throw (Plain (or_str t (js ''Internal server error'')))
     | Inr None \<Rightarrow> throw (Plain channel_refused)
     | Inr (Some ch) \<Rightarrow> ret ch)"

definition getUsersInfo :: "msg_env \<Rightarrow> uuid list \<Rightarrow> (uuid option \<times> user_dto) list" where
  "getUsersInfo env userIds =
    (if userIds = [] then []
     else case me_users env (set_add_all userIds []) of
            Inl _ \<Rightarrow> []
          | Inr users \<Rightarrow> foldl (\<lambda>m u. AList.update (us_id u) u m) [] users)"

section \<open>Hydration\<close>

definition option_list :: "'a option \<Rightarrow> 'a list" where
  "option_list x = (case x of None \<Rightarrow> [] | Some y \<Rightarrow> [y])"

definition involved :: "entity list \<Rightarrow> uuid list" where
  "involved es = set_add_all
     (concat (map (\<lambda>e. option_list (ms_userId (en_row e)) @ map mn_userId (en_mentions e)) es)) []"

definition replyCount :: "msg_db \<Rightarrow> uuid \<Rightarrow> nat" where
  "replyCount db i = length (filter (\<lambda>m. ms_parentId m = Some i) (messages db))"

definition myFeedback :: "msg_db \<Rightarrow> uuid \<Rightarrow> uuid \<Rightarrow> feedback option" where
  "myFeedback db viewer i =
     map_option fb_type (find (\<lambda>f. fb_messageId f = i \<and> fb_userId f = viewer) (rev (feedbacks db)))"

definition hydrate :: "msg_env \<Rightarrow> msg_db \<Rightarrow> uuid option \<Rightarrow> entity list \<Rightarrow> message_dto list" where
  "hydrate env db viewer es =
    (let userMap = getUsersInfo env (involved es)
     in map (\<lambda>e. (mapToResponseDto (en_row e) (en_attachments e)
             (case ms_userId (en_row e) of None \<Rightarrow> None | Some u \<Rightarrow> map_of userMap (Some u))
             (groupReactions (en_reactions e)) (en_mentions e)
             (map_option (\<lambda>v. myFeedback db v (ms_id (en_row e))) viewer))
           \<lparr>md_replyCount := replyCount db (ms_id (en_row e))\<rparr>) es)"

definition hydrateMessages :: "msg_env \<Rightarrow> uuid option \<Rightarrow> entity list \<Rightarrow> message_dto list msg_act" where
  "hydrateMessages env viewer es = fetch (\<lambda>db. hydrate env db viewer es)"

definition hydrateOne :: "msg_env \<Rightarrow> uuid option \<Rightarrow> entity \<Rightarrow> message_dto msg_act" where
  "hydrateOne env viewer e = andThen (hydrateMessages env viewer [e]) (\<lambda>ds. ret (hd ds))"

definition find_message :: "uuid \<Rightarrow> msg_db \<Rightarrow> message option" where
  "find_message i db = find (\<lambda>m. ms_id m = i) (messages db)"

definition get_message :: "uuid \<Rightarrow> message msg_act" where
  "get_message i = andThen (fetch (find_message i)) (from_option (Coded ''MESSAGE_NOT_FOUND''))"

section \<open>Creating a message\<close>

definition new_attachments :: "msg_env \<Rightarrow> msg_db \<Rightarrow> uuid \<Rightarrow> file_ref list \<Rightarrow> attachment_row list" where
  "new_attachments env db i files =
     map (\<lambda>(k, f). \<lparr>at_id = me_attachmentId env db k, at_messageId = i, at_file = f\<rparr>) (enumerate 0 files)"

definition new_mentions :: "uuid \<Rightarrow> mention list \<Rightarrow> mention_row list" where
  "new_mentions i ms =
     concat (map (\<lambda>m. case m of EveryOne \<Rightarrow> [] | Member u \<Rightarrow> [\<lparr>mn_messageId = i, mn_userId = u\<rparr>]) ms)"

definition handleMentionsAndAttachments :: "msg_env \<Rightarrow> message \<Rightarrow> create_dto \<Rightarrow> entity msg_act" where
  "handleMentionsAndAttachments env m dto =
    andThen (fetch (\<lambda>db. new_attachments env db (ms_id m) (nullish (cr_attachments dto) []))) (\<lambda>atts.
    let ments = new_mentions (ms_id m) (nullish (cr_mentions dto) [])
    in andThen (store (\<lambda>db. db\<lparr>mentions := mentions db @ ments, attachments := attachments db @ atts\<rparr>)) (\<lambda>_.
       ret (bare m\<lparr>en_mentions := ments, en_attachments := atts\<rparr>)))"

definition insert_message :: "message \<Rightarrow> unit msg_act" where
  "insert_message m = store (\<lambda>db. db\<lparr>messages := messages db @ [m]\<rparr>)"

definition new_message :: "msg_env \<Rightarrow> msg_db \<Rightarrow> create_dto \<Rightarrow> message" where
  "new_message env db dto =
     \<lparr>ms_id = me_newId env db, ms_channelId = cr_channelId dto, ms_userId = Some (cr_senderId dto),
      ms_webhookId = None, ms_customName = None, ms_customAvatarUrl = None, ms_content = cr_content dto,
      ms_isPinned = False, ms_parentId = cr_parentId dto, ms_linkPreviews = None, ms_toolCalls = None,
      ms_createdAt = me_now env, ms_updatedAt = me_now env\<rparr>"

definition create_body :: "msg_env \<Rightarrow> create_dto \<Rightarrow> (message_dto \<times> entity) msg_act" where
  "create_body env dto = transaction
    (andThen (case cr_parentId dto of
         None \<Rightarrow> ret ()
       | Some p \<Rightarrow> andThen (fetch (\<lambda>db. find (\<lambda>m. ms_id m = p \<and> ms_channelId m = cr_channelId dto) (messages db)))
            (\<lambda>parent. ensure (Coded ''PARENT_NOT_FOUND'') (parent \<noteq> None))) (\<lambda>_.
     andThen (fetch (\<lambda>db. new_message env db dto)) (\<lambda>m.
     andThen (insert_message m) (\<lambda>_.
     andThen (handleMentionsAndAttachments env m dto) (\<lambda>saved.
     andThen (hydrateOne env None saved) (\<lambda>response.
     ret (response, saved)))))))"

section \<open>Events of a new message\<close>

definition participants :: "msg_db \<Rightarrow> uuid \<Rightarrow> uuid option list" where
  "participants db root =
    (let thread = filter (\<lambda>m. ms_id m = root \<or> ms_parentId m = Some root) (messages db)
     in set_add_all (map ms_userId thread @
          map (\<lambda>r. Some (mn_userId r)) (filter (\<lambda>r. mn_messageId r \<in> ms_id ` set thread) (mentions db))) [])"

definition notification_of :: "message_dto \<Rightarrow> channel_info \<Rightarrow> notification" where
  "notification_of r ch =
     \<lparr>nt_channelId = md_channelId r, nt_channelName = ch_name ch, nt_senderId = us_id (md_sender r),
      nt_senderName = us_firstName (md_sender r) @ [32] @ us_lastName (md_sender r), nt_messageId = md_id r,
      nt_mentions = Some (md_mentions r), nt_parentId = md_parentId r, nt_workspaceId = ch_workspaceId ch,
      nt_content = stringify (md_content r), nt_reaction = None, nt_recipientId = None\<rparr>"

definition broadcastMessageEvents :: "message_dto \<Rightarrow> channel_info \<Rightarrow> entity \<Rightarrow> unit msg_act" where
  "broadcastMessageEvents r ch saved =
    andThen (addJob (EmitEvent MESSAGE_RECEIVED
        (case md_parentId r of Some p \<Rightarrow> [ThreadRoom p, ChannelRoom (md_channelId r)] | None \<Rightarrow> [ChannelRoom (md_channelId r)])
        (MessageData r))) (\<lambda>_.
    andThen (case md_parentId r of
        None \<Rightarrow> ret ()
      | Some p \<Rightarrow>
          andThen (fetch (\<lambda>db. filter (\<lambda>u. u \<noteq> us_id (md_sender r)) (participants db p))) (\<lambda>userIds.
          if length userIds > 0 then
            andThen (addJob (EmitToUsers THREAD_MESSAGE_RECEIVED userIds r)) (\<lambda>_.
            if length (filter (\<lambda>u. u \<noteq> us_id (md_sender r)) userIds) > 0
            then addJob (CreateNotification (notification_of r ch)) else ret ())
          else ret ())) (\<lambda>_.
    andThen (if md_parentId r = None then addJob (IncrementUnread (md_channelId r) (us_id (md_sender r))) else ret ()) (\<lambda>_.
    if length (en_attachments saved) > 0
    then addJob (UpdateResources (map at_id (en_attachments saved)) (ms_id (en_row saved))) else ret ())))"

definition dispatchWebhookEvents :: "msg_env \<Rightarrow> message_dto \<Rightarrow> channel_info \<Rightarrow> unit msg_act" where
  "dispatchWebhookEvents env r ch =
    andThen (from_sum (me_apps env (ch_workspaceId ch))) (\<lambda>apps.
      each (\<lambda>app. addJob (OutboundWebhook app (ch_workspaceId ch) r)) apps)"

definition enqueue_previews :: "uuid \<Rightarrow> jstr list \<Rightarrow> unit msg_act" where
  "enqueue_previews i urls = (if length urls > 0 then addJob (GenerateLinkPreview i urls) else ret ())"

section \<open>The trigger of the agents\<close>

definition WORKSPACE_TRIGGER_PRIORITY_WINDOW_SEC :: int where "WORKSPACE_TRIGGER_PRIORITY_WINDOW_SEC = 60"
definition WORKSPACE_TRIGGER_PRIORITY_MAX :: int where "WORKSPACE_TRIGGER_PRIORITY_MAX = 1000"
definition WORKSPACE_TRIGGER_ADMISSION_LIMIT :: int where "WORKSPACE_TRIGGER_ADMISSION_LIMIT = 30"
definition MAX_ORCHESTRATION_QUEUE_DEPTH :: int where "MAX_ORCHESTRATION_QUEUE_DEPTH = 100"

definition count_up :: "redis_key \<Rightarrow> int \<Rightarrow> int \<Rightarrow> int msg_act" where
  "count_up k window now = outside (\<lambda>o'. let (n, cs) = incrementInWindow k window now (mo_counters o') in (n, o'\<lparr>mo_counters := cs\<rparr>))"

definition may_trigger :: "redis_key \<Rightarrow> int \<Rightarrow> int \<Rightarrow> int \<Rightarrow> bool msg_act" where
  "may_trigger k limit window now = outside (\<lambda>o'. let (b, cs) = isAllowed k limit window now (mo_counters o') in (b, o'\<lparr>mo_counters := cs\<rparr>))"

definition too_fast_text :: jstr where "too_fast_text = (uni ''B{1EA1}n {0111}ang h{1ECF}i h{01A1}i nhanh, {0111}{1EE3}i 1 ch{00FA}t nh{00E9}.'')"
definition workspace_busy_text :: jstr where "workspace_busy_text = (uni ''Workspace c{1EE7}a b{1EA1}n {0111}ang g{1EED}i y{00EA}u c{1EA7}u AI qu{00E1} nhanh, vui l{00F2}ng th{1EED} l{1EA1}i sau {00ED}t ph{00FA}t.'')"
definition system_busy_text :: jstr where "system_busy_text = (uni ''H{1EC7} th{1ED1}ng {0111}ang b{1EAD}n, vui l{00F2}ng th{1EED} l{1EA1}i sau {00ED}t ph{00FA}t.'')"

datatype trigger_outcome = Quiet | Notice "uuid option" jstr | Trigger ai_trigger int

text \<open>\<open>maybeTriggerAiOrchestration\<close> up to its last call: what it does is a notice of the bot, a job, or nothing.\<close>

definition trigger_outcome_of :: "msg_env \<Rightarrow> channel_info \<Rightarrow> create_dto \<Rightarrow> message \<Rightarrow> trigger_outcome msg_act" where
  "trigger_outcome_of env ch dto m =
    (if nullish (ch_memberIds ch) [] = [] then ret Quiet
     else case find us_isBot (map snd (getUsersInfo env (nullish (ch_memberIds ch) []))) of
       None \<Rightarrow> ret Quiet
     | Some agent \<Rightarrow>
         if ms_userId m = us_id agent then ret Quiet
         else if \<not> ch_direct ch \<and> \<not> (\<exists>u \<in> set (nullish (cr_mentions dto) []). case u of EveryOne \<Rightarrow> False | Member i \<Rightarrow> us_id agent = Some i)
         then ret Quiet
         else let notice = Notice (us_id agent) in
           andThen (may_trigger (AiTriggerRateLimit (ms_userId m)) 5 60 (me_now env)) (\<lambda>allowed.
           if \<not> allowed then ret (notice too_fast_text) else
           andThen (count_up (WorkspaceTriggerCount (ch_workspaceId ch)) WORKSPACE_TRIGGER_PRIORITY_WINDOW_SEC (me_now env)) (\<lambda>recent.
           if recent > WORKSPACE_TRIGGER_ADMISSION_LIMIT then ret (notice workspace_busy_text)
           else if me_depth env > MAX_ORCHESTRATION_QUEUE_DEPTH then ret (notice system_busy_text)
           else ret (Trigger
             \<lparr>ai_userId = ms_userId m, ai_channelId = ch_id ch, ai_workspaceId = ch_workspaceId ch,
              ai_messageId = ms_id m, ai_botUserId = us_id agent, ai_direct = ch_direct ch\<rparr>
             (min recent WORKSPACE_TRIGGER_PRIORITY_MAX)))))"

definition notice_dto :: "channel_info \<Rightarrow> uuid \<Rightarrow> jstr \<Rightarrow> create_dto" where
  "notice_dto ch agent t =
     \<lparr>cr_channelId = ch_id ch, cr_senderId = agent, cr_content = JStr t, cr_parentId = None,
      cr_mentions = None, cr_attachments = None\<rparr>"

text \<open>
  A notice is a message again; \<open>n\<close> bounds how often that may happen. Once is enough: the notice
  is sent by the bot that would answer it, and such a message triggers nothing
  (\<open>notices_do_not_nest\<close> in \<open>Message_Depth\<close>).
\<close>

function createMessage :: "nat \<Rightarrow> msg_env \<Rightarrow> create_dto \<Rightarrow> message_dto msg_act"
and maybeTriggerAiOrchestration :: "nat \<Rightarrow> msg_env \<Rightarrow> channel_info \<Rightarrow> create_dto \<Rightarrow> message \<Rightarrow> unit msg_act" where
  "createMessage n env dto =
    andThen (checkChannelExist env (cr_channelId dto) (cr_senderId dto)) (\<lambda>ch.
    andThen (create_body env dto) (\<lambda>(response, saved).
    andThen (from_sum (extractUrlsFromContent (cr_content dto))) (\<lambda>urls.
    andThen (swallow (enqueue_previews (ms_id (en_row saved)) urls)) (\<lambda>_.
    andThen (swallow (broadcastMessageEvents response ch saved)) (\<lambda>_.
    andThen (swallow (dispatchWebhookEvents env response ch)) (\<lambda>_.
    andThen (swallow (maybeTriggerAiOrchestration n env ch dto (en_row saved))) (\<lambda>_.
    ret response)))))))"
| "maybeTriggerAiOrchestration n env ch dto m =
    andThen (trigger_outcome_of env ch dto m) (\<lambda>oc.
      case oc of
        Quiet \<Rightarrow> ret ()
      | Trigger t p \<Rightarrow> addJob (ProcessAiTrigger t p)
      | Notice agent t \<Rightarrow>
          (case n of
             0 \<Rightarrow> throw (Broken (js ''depth''))
           | Suc k \<Rightarrow>
               (case agent of
                  None \<Rightarrow> throw (Broken (js ''senderId''))   \<comment> \<open>the user service gives every user an id\<close>
                | Some a \<Rightarrow> andThen (createMessage k env (notice_dto ch a t)) (\<lambda>_. ret ()))))"
  by pat_completeness auto
termination by (relation "measure (case_sum (\<lambda>(n, _). 2 * n + 1) (\<lambda>(n, _). 2 * n))") auto

declare createMessage.simps [simp del] maybeTriggerAiOrchestration.simps [simp del]

record webhook_job =
  wb_channelId :: uuid
  wb_webhookId :: uuid
  wb_customName :: "jstr option"
  wb_customAvatarUrl :: "jstr option"
  wb_content :: jstr
  wb_attachments :: "json list option"

definition webhook_message :: "msg_env \<Rightarrow> msg_db \<Rightarrow> webhook_job \<Rightarrow> message" where
  "webhook_message env db w =
     \<lparr>ms_id = me_newId env db, ms_channelId = wb_channelId w, ms_userId = None, ms_webhookId = Some (wb_webhookId w),
      ms_customName = wb_customName w, ms_customAvatarUrl = wb_customAvatarUrl w,
      ms_content = (case wb_attachments w of
          Some (a # as) \<Rightarrow> JObj [(js ''text'', JStr (wb_content w)), (js ''attachments'', JArr (a # as))]
        | _ \<Rightarrow> JStr (wb_content w)),
      ms_isPinned = False, ms_parentId = None, ms_linkPreviews = None, ms_toolCalls = None,
      ms_createdAt = me_now env, ms_updatedAt = me_now env\<rparr>"

definition createWebhookMessage :: "msg_env \<Rightarrow> webhook_job \<Rightarrow> message_dto msg_act" where
  "createWebhookMessage env w =
    andThen (transaction
      (andThen (fetch (\<lambda>db. webhook_message env db w)) (\<lambda>m.
       andThen (insert_message m) (\<lambda>_.
       andThen (hydrateOne env None (bare m)) (\<lambda>response. ret (response, bare m)))))) (\<lambda>(response, saved).
    andThen (from_sum (extractUrlsFromContent (ms_content (en_row saved)))) (\<lambda>urls.
    andThen (enqueue_previews (ms_id (en_row saved)) urls) (\<lambda>_.
    andThen (from_sum (me_basic env (wb_channelId w))) (\<lambda>ch.
    andThen (broadcastMessageEvents response ch saved) (\<lambda>_. ret response)))))"

section \<open>Pages\<close>

text \<open>\<open>orderBy('message.id')\<close> and \<open>take\<close>.\<close>

definition ascending :: "message list \<Rightarrow> message list" where
  "ascending ms = sort_key ms_id ms"

definition descending :: "message list \<Rightarrow> message list" where
  "descending ms = rev (sort_key ms_id ms)"

definition after_cursor :: "uuid option \<Rightarrow> message \<Rightarrow> bool" where   \<comment> \<open>\<open>message.id < :cursor\<close>\<close>
  "after_cursor c m = (case c of None \<Rightarrow> True | Some k \<Rightarrow> ms_id m < k)"

text \<open>\<open>resultMessages[resultMessages.length - 1].id\<close> of an empty array is a \<open>TypeError\<close>.\<close>

definition last_id :: "message list \<Rightarrow> rpc_error + uuid" where
  "last_id ms = (if ms = [] then Inl (Broken (js ''id'')) else Inr (ms_id (last ms)))"

definition first_id :: "message list \<Rightarrow> rpc_error + uuid" where
  "first_id ms = (if ms = [] then Inl (Broken (js ''id'')) else Inr (ms_id (hd ms)))"

definition next_cursor :: "bool \<Rightarrow> rpc_error + uuid \<Rightarrow> uuid option msg_act" where
  "next_cursor hasMore i =
     (if hasMore then andThen (from_sum i) (\<lambda>k. ret (Some k)) else ret None)"

text \<open>The rows of a page are the first \<open>limit\<close> of the \<open>limit + 1\<close> that were taken.\<close>

definition page_of :: "msg_env \<Rightarrow> nat \<Rightarrow> message list \<Rightarrow> page msg_act" where
  "page_of env limit rows =
    (let hasMore = length rows > limit;
         result = (if hasMore then take limit rows else rows)
     in andThen (fetch (\<lambda>db. map (load db) result)) (\<lambda>es.
        andThen (hydrateMessages env None es) (\<lambda>response.
        andThen (next_cursor hasMore (last_id result)) (\<lambda>c.
        ret \<lparr>pg_messages = response, pg_nextCursor = c\<rparr>))))"

record get_query =
  gq_channelId :: "uuid option"
  gq_userId :: uuid
  gq_parentId :: "uuid option"
  gq_limit :: "nat option"
  gq_cursor :: "uuid option"
  gq_after :: bool                 \<comment> \<open>\<open>direction === 'after'\<close>\<close>
  gq_afterDate :: "int option"

definition message_selected :: "get_query \<Rightarrow> uuid option \<Rightarrow> message \<Rightarrow> bool" where
  "message_selected q ch m \<longleftrightarrow>
     Some (ms_channelId m) = ch \<and>
     (case gq_parentId q of Some p \<Rightarrow> ms_parentId m = Some p | None \<Rightarrow> ms_parentId m = None) \<and>
     (case gq_afterDate q of Some d \<Rightarrow> ms_createdAt m \<ge> d | None \<Rightarrow> True) \<and>
     (case gq_cursor q of Some c \<Rightarrow> (if gq_after q then ms_id m > c else ms_id m < c) | None \<Rightarrow> True)"

definition selected_rows :: "get_query \<Rightarrow> msg_db \<Rightarrow> message list" where
  "selected_rows q db =
    (let ch = (case gq_channelId q of
           Some c \<Rightarrow> Some c
         | None \<Rightarrow> (case gq_parentId q of
               Some p \<Rightarrow> map_option ms_channelId (find_message p db)
             | None \<Rightarrow> None));
         rows = filter (message_selected q ch) (messages db)
     in take (nullish (gq_limit q) 20 + 1)
          (if gq_cursor q \<noteq> None \<and> gq_after q then ascending rows else descending rows))"

definition getMessages :: "msg_env \<Rightarrow> get_query \<Rightarrow> page msg_act" where
  "getMessages env q =
    andThen (case gq_channelId q of
        Some ch \<Rightarrow> andThen (checkChannelExist env ch (gq_userId q)) (\<lambda>_. ret ())
      | None \<Rightarrow>
          (case gq_parentId q of
             None \<Rightarrow> ret ()
           | Some p \<Rightarrow>
               andThen (fetch (find_message p)) (\<lambda>parent.
               andThen (from_option (Coded ''PARENT_NOT_FOUND'') parent) (\<lambda>m.
               andThen (checkChannelExist env (ms_channelId m) (gq_userId q)) (\<lambda>_. ret ()))))) (\<lambda>_.
    transaction
      (andThen (fetch (selected_rows q)) (\<lambda>rows.
       let limit = nullish (gq_limit q) 20;
           hasMore = length rows > limit;
           result = (if hasMore then take limit rows else rows);
           result = (if gq_after q then rev result else result)
       in andThen (fetch (\<lambda>db. map (load db) result)) (\<lambda>es.
          andThen (hydrateMessages env None es) (\<lambda>response.
          andThen (next_cursor hasMore (if gq_after q then first_id result else last_id result)) (\<lambda>c.
          ret \<lparr>pg_messages = response, pg_nextCursor = c\<rparr>))))))"

definition getMessageById :: "msg_env \<Rightarrow> uuid \<Rightarrow> uuid \<Rightarrow> message_dto msg_act" where
  "getMessageById env i userId = transaction
    (andThen (get_message i) (\<lambda>m.
     andThen (checkChannelExist env (ms_channelId m) userId) (\<lambda>_.
     andThen (fetch (\<lambda>db. load db m)) (hydrateOne env (Some userId)))))"

section \<open>Changing a message\<close>

definition save_message :: "message \<Rightarrow> unit msg_act" where
  "save_message m = store (\<lambda>db. db\<lparr>messages := map (\<lambda>x. if ms_id x = ms_id m then m else x) (messages db)\<rparr>)"

definition rooms_of :: "message \<Rightarrow> room list" where
  "rooms_of m = [ChannelRoom (ms_channelId m), ThreadRoom (case ms_parentId m of Some p \<Rightarrow> p | None \<Rightarrow> ms_id m)]"

definition replace_attachments :: "msg_env \<Rightarrow> uuid \<Rightarrow> file_ref list \<Rightarrow> unit msg_act" where
  "replace_attachments env i files = store (\<lambda>db.
     db\<lparr>attachments := filter (\<lambda>a. at_messageId a \<noteq> i) (attachments db) @ new_attachments env db i files\<rparr>)"

definition replace_mentions :: "uuid \<Rightarrow> mention list \<Rightarrow> unit msg_act" where
  "replace_mentions i ms = store (\<lambda>db.
     db\<lparr>mentions := filter (\<lambda>r. mn_messageId r \<noteq> i) (mentions db) @ new_mentions i ms\<rparr>)"

definition updateMessage :: "msg_env \<Rightarrow> uuid \<Rightarrow> uuid \<Rightarrow> update_dto \<Rightarrow> message_dto msg_act" where
  "updateMessage env i userId dto = transaction
    (andThen (get_message i) (\<lambda>m.
     andThen (ensure (Coded ''NOT_ALLOWED_EDIT'') (ms_userId m = Some userId)) (\<lambda>_.
     andThen (checkChannelExist env (ms_channelId m) userId) (\<lambda>_.
     let m = m\<lparr>ms_content := up_content dto,
               ms_toolCalls := (case up_toolCalls dto of Some t \<Rightarrow> Some t | None \<Rightarrow> ms_toolCalls m)\<rparr>
     in andThen (case up_attachments dto of None \<Rightarrow> ret () | Some fs \<Rightarrow> replace_attachments env i fs) (\<lambda>_.
        andThen (case up_mentions dto of None \<Rightarrow> ret () | Some ms \<Rightarrow> replace_mentions i ms) (\<lambda>_.
        andThen (save_message (m\<lparr>ms_updatedAt := me_now env\<rparr>)) (\<lambda>_.
        andThen (fetch (\<lambda>db. map_option (load db) (find_message i db))) (\<lambda>fresh.
        andThen (from_option (Broken (js ''id'')) fresh) (\<lambda>e.
        andThen (hydrateOne env None e) (\<lambda>response.
        andThen (addJob (EmitEvent MESSAGE_UPDATED (rooms_of m) (MessageData response))) (\<lambda>_.
        andThen (addJob (AuditEdited userId (ms_id m) (ms_channelId m))) (\<lambda>_.
        andThen (if nullish (up_attachments dto) [] \<noteq> []
           then addJob (UpdateResources (map fl_id (nullish (up_attachments dto) [])) (ms_id m)) else ret ()) (\<lambda>_.
        ret response)))))))))))))"

text \<open>
  The trigger \<open>delete_message_dependencies\<close> (\<open>migrations/\<close>) runs before a row is deleted:
  it deletes what belongs to the message, then the replies, whose triggers run in turn.
  The depth is bounded by the number of messages.
\<close>

definition drop_dependents :: "uuid \<Rightarrow> msg_db \<Rightarrow> msg_db" where
  "drop_dependents i db =
     db\<lparr>reactions := filter (\<lambda>r. re_messageId r \<noteq> i) (reactions db),
        mentions := filter (\<lambda>r. mn_messageId r \<noteq> i) (mentions db),
        attachments := filter (\<lambda>r. at_messageId r \<noteq> i) (attachments db),
        feedbacks := filter (\<lambda>r. fb_messageId r \<noteq> i) (feedbacks db)\<rparr>"

definition kids :: "uuid \<Rightarrow> msg_db \<Rightarrow> uuid list" where
  "kids i db = map ms_id (filter (\<lambda>m. ms_parentId m = Some i) (messages db))"

fun delete_row :: "nat \<Rightarrow> uuid \<Rightarrow> msg_db \<Rightarrow> msg_db" where
  "delete_row 0 i db = db"
| "delete_row (Suc n) i db =
    (let db = drop_dependents i db;
         db = fold (delete_row n) (kids i db) db
     in db\<lparr>messages := filter (\<lambda>m. ms_id m \<noteq> i) (messages db)\<rparr>)"

definition remove_message :: "uuid \<Rightarrow> unit msg_act" where
  "remove_message i = store (\<lambda>db. delete_row (length (messages db)) i db)"

definition deleteMessage :: "msg_env \<Rightarrow> uuid \<Rightarrow> uuid \<Rightarrow> bool msg_act" where
  "deleteMessage env i userId = transaction
    (andThen (get_message i) (\<lambda>m.
     andThen (ensure (Coded ''NOT_ALLOWED_DELETE'') (ms_userId m = Some userId)) (\<lambda>_.
     andThen (checkChannelExist env (ms_channelId m) userId) (\<lambda>_.
     andThen (remove_message (ms_id m)) (\<lambda>_.
     andThen (addJob (EmitEvent MESSAGE_DELETED
         (case ms_parentId m of
            Some p \<Rightarrow> [ThreadRoom p, ChannelRoom (ms_channelId m)]
          | None \<Rightarrow> [ChannelRoom (ms_channelId m), ThreadRoom (ms_id m)])
         (DeletedData (ms_id m) userId (ms_channelId m) (ms_parentId m)))) (\<lambda>_.
     andThen (addJob (AuditDeleted userId (ms_id m) (ms_channelId m))) (\<lambda>_. ret True)))))))"

section \<open>Reactions, feedback and pins\<close>

definition reaction_event :: "message_dto \<Rightarrow> uuid \<Rightarrow> jstr \<Rightarrow> bool \<Rightarrow> msg_job" where
  "reaction_event d userId emoji isAdded =
     EmitEvent REACTION_UPDATED
       [ChannelRoom (md_channelId d), ThreadRoom (case md_parentId d of Some p \<Rightarrow> p | None \<Rightarrow> md_id d)]
       (ReactionData (md_id d) (md_reactions d) userId emoji isAdded)"

definition flip_reaction :: "reaction_row \<Rightarrow> bool msg_act" where
  "flip_reaction r =
    andThen (fetch (\<lambda>db. r \<in> set (reactions db))) (\<lambda>existing.
    andThen (store (\<lambda>db. db\<lparr>reactions :=
       (if existing then filter (\<lambda>x. x \<noteq> r) (reactions db) else reactions db @ [r])\<rparr>)) (\<lambda>_.
    ret (\<not> existing)))"

definition notify_reaction :: "msg_env \<Rightarrow> message_dto \<Rightarrow> uuid \<Rightarrow> jstr \<Rightarrow> unit msg_act" where
  "notify_reaction env d userId emoji =
    andThen (checkChannelExist env (md_channelId d) userId) (\<lambda>ch.
    let reactor = map_of (getUsersInfo env [userId]) (Some userId)
    in addJob (CreateNotification
      \<lparr>nt_channelId = md_channelId d, nt_channelName = or_str (ch_name ch) (js ''Direct Message''),
       nt_senderId = Some userId,
       nt_senderName = (case reactor of Some u \<Rightarrow> us_firstName u @ [32] @ us_lastName u | None \<Rightarrow> js ''User''),
       nt_messageId = md_id d, nt_mentions = None, nt_parentId = None, nt_workspaceId = ch_workspaceId ch,
       nt_content = stringify (md_content d), nt_reaction = Some emoji, nt_recipientId = us_id (md_sender d)\<rparr>))"

definition toggleReaction :: "msg_env \<Rightarrow> uuid \<Rightarrow> uuid \<Rightarrow> jstr \<Rightarrow> bool msg_act" where
  "toggleReaction env userId i emoji = transaction
    (andThen (get_message i) (\<lambda>m.
     andThen (checkChannelExist env (ms_channelId m) userId) (\<lambda>_.
     andThen (flip_reaction \<lparr>re_messageId = i, re_userId = userId, re_emoji = emoji\<rparr>) (\<lambda>isAdded.
     andThen (getMessageById env i userId) (\<lambda>d.
     andThen (addJob (reaction_event d userId emoji isAdded)) (\<lambda>_.
     andThen (if isAdded \<and> us_id (md_sender d) \<noteq> Some userId then notify_reaction env d userId emoji else ret ()) (\<lambda>_.
     ret isAdded)))))))"

definition vote :: "uuid \<Rightarrow> uuid \<Rightarrow> feedback \<Rightarrow> feedback option msg_act" where
  "vote i userId t =
    andThen (fetch (\<lambda>db. find (\<lambda>f. fb_messageId f = i \<and> fb_userId f = userId) (feedbacks db))) (\<lambda>existing.
      case existing of
        None \<Rightarrow> andThen (store (\<lambda>db. db\<lparr>feedbacks := feedbacks db @ [\<lparr>fb_messageId = i, fb_userId = userId, fb_type = t\<rparr>]\<rparr>))
                  (\<lambda>_. ret (Some t))
      | Some f \<Rightarrow>
          if fb_type f = t
          then andThen (store (\<lambda>db. db\<lparr>feedbacks := filter (\<lambda>x. x \<noteq> f) (feedbacks db)\<rparr>)) (\<lambda>_. ret None)
          else andThen (store (\<lambda>db. db\<lparr>feedbacks := map (\<lambda>x. if x = f then f\<lparr>fb_type := t\<rparr> else x) (feedbacks db)\<rparr>))
                 (\<lambda>_. ret (Some t)))"

definition toggleFeedback :: "msg_env \<Rightarrow> uuid \<Rightarrow> uuid \<Rightarrow> feedback \<Rightarrow> bool msg_act" where
  "toggleFeedback env userId i t = transaction
    (andThen (get_message i) (\<lambda>m.
     andThen (checkChannelExist env (ms_channelId m) userId) (\<lambda>_.
     andThen (from_option (Coded ''NOT_AI_MESSAGE'') (ms_userId m)) (\<lambda>author.
     andThen (ensure (Coded ''NOT_AI_MESSAGE'')
        (case map_of (getUsersInfo env [author]) (Some author) of Some u \<Rightarrow> us_isBot u | None \<Rightarrow> False)) (\<lambda>_.
     andThen (vote i userId t) (\<lambda>my.
     andThen (addJob (EmitEvent MESSAGE_FEEDBACK_UPDATED [UserRoom userId] (FeedbackData i my))) (\<lambda>_. ret True)))))))"

definition invalidate_pinned :: "uuid \<Rightarrow> unit msg_act" where
  "invalidate_pinned ch = tell (\<lambda>o'. o'\<lparr>mo_pinnedVersion := (mo_pinnedVersion o')(ch := mo_pinnedVersion o' ch + 1)\<rparr>)"

definition togglePin :: "msg_env \<Rightarrow> uuid \<Rightarrow> uuid \<Rightarrow> bool msg_act" where
  "togglePin env i userId = transaction
    (andThen (get_message i) (\<lambda>m.
     andThen (checkChannelExist env (ms_channelId m) userId) (\<lambda>_.
     let m = m\<lparr>ms_isPinned := \<not> ms_isPinned m\<rparr>
     in andThen (save_message (m\<lparr>ms_updatedAt := me_now env\<rparr>)) (\<lambda>_.
        andThen (invalidate_pinned (ms_channelId m)) (\<lambda>_. ret (ms_isPinned m))))))"

section \<open>Search, pinned messages and the surroundings of a message\<close>

definition split_words :: "jstr \<Rightarrow> jstr list" where   \<comment> \<open>\<open>split(/\s+/)\<close> without the empty words\<close>
  "split_words t = filter (\<lambda>w. length w > 0) (split_from [spaces1] [] [] 0 t)"

definition formattedKeyword :: "jstr \<Rightarrow> jstr" where
  "formattedKeyword keyword =
     join (js '' & '') (map (\<lambda>w. w @ js '':*'')
       (split_words (filter (\<lambda>c. c \<notin> set (js ''&|!():*'')) (trim keyword))))"

definition searchMessages :: "msg_env \<Rightarrow> jstr \<Rightarrow> uuid \<Rightarrow> uuid \<Rightarrow> nat option \<Rightarrow> uuid option \<Rightarrow> page msg_act" where
  "searchMessages env keyword channelId senderId limit cursor =
    andThen (checkChannelExist env channelId senderId) (\<lambda>_.
    transaction
      (if formattedKeyword keyword = [] then ret \<lparr>pg_messages = [], pg_nextCursor = None\<rparr>
       else andThen (fetch (\<lambda>db. take (nullish limit 20 + 1) (descending (filter
              (\<lambda>m. ms_channelId m = channelId \<and> me_matches env (formattedKeyword keyword) (ms_content m) \<and> after_cursor cursor m)
              (messages db))))) (page_of env (nullish limit 20))))"

definition getPinnedMessages :: "msg_env \<Rightarrow> uuid \<Rightarrow> uuid \<Rightarrow> nat option \<Rightarrow> uuid option \<Rightarrow> page msg_act" where
  "getPinnedMessages env channelId userId limit cursor =
    andThen (checkChannelExist env channelId userId) (\<lambda>_.
    andThen (outside (\<lambda>o'. (mo_pinnedVersion o' channelId, o'))) (\<lambda>version.
    let key = (channelId, version, nullish limit 20, cursor)
    in andThen (outside (\<lambda>o'. (if me_cached env key then mo_pinned o' key else None, o'))) (\<lambda>cached.
       case cached of
         Some p \<Rightarrow> ret p
       | None \<Rightarrow>
           andThen (transaction
             (andThen (fetch (\<lambda>db. take (nullish limit 20 + 1) (descending (filter
                 (\<lambda>m. ms_channelId m = channelId \<and> ms_isPinned m \<and> after_cursor cursor m) (messages db)))))
               (page_of env (nullish limit 20)))) (\<lambda>p.
           andThen (tell (\<lambda>o'. o'\<lparr>mo_pinned := (mo_pinned o')(key \<mapsto> p)\<rparr>)) (\<lambda>_. ret p)))))"

record surrounding =
  su_messages :: "message_dto list"
  su_hasMoreBefore :: bool
  su_hasMoreAfter :: bool

definition getSurroundingMessages :: "msg_env \<Rightarrow> uuid \<Rightarrow> uuid \<Rightarrow> uuid \<Rightarrow> nat option \<Rightarrow> surrounding msg_act" where
  "getSurroundingMessages env channelId userId target limit =
    andThen (checkChannelExist env channelId userId) (\<lambda>_.
    transaction
      (let halfLimit = nullish limit 20 div 2
       in andThen (fetch (\<lambda>db. take (halfLimit + 1) (descending (filter
              (\<lambda>m. ms_channelId m = channelId \<and> ms_id m \<le> target) (messages db))))) (\<lambda>older.
          andThen (fetch (\<lambda>db. take (halfLimit + 1) (ascending (filter
              (\<lambda>m. ms_channelId m = channelId \<and> ms_id m > target) (messages db))))) (\<lambda>newer.
          let hasMoreBefore = length older > halfLimit; hasMoreAfter = length newer > halfLimit;
              resultOlder = (if hasMoreBefore then take halfLimit older else older);
              resultNewer = (if hasMoreAfter then take halfLimit newer else newer)
          in andThen (fetch (\<lambda>db. map (load db) (rev resultNewer @ resultOlder))) (\<lambda>es.
             andThen (hydrateMessages env None es) (\<lambda>response.
             ret \<lparr>su_messages = response, su_hasMoreBefore = hasMoreBefore, su_hasMoreAfter = hasMoreAfter\<rparr>))))))"

end
