(* ===== verification/Message_Invariant.thy ===== *)
theory Message_Invariant
  imports Message_Service
begin

text \<open>
  The tables of the message service stay consistent: ids are unique, a reply belongs to an
  earlier message of its channel, and reactions, mentions, attachments and votes belong to
  a message. Deleting a message removes exactly the messages below it.
\<close>

section \<open>The invariant\<close>

definition ids :: "msg_db \<Rightarrow> uuid set" where
  "ids db = ms_id ` set (messages db)"

definition parents_ok :: "message list \<Rightarrow> bool" where
  "parents_ok ms \<longleftrightarrow> (\<forall>m \<in> set ms. \<forall>p. ms_parentId m = Some p \<longrightarrow>
     p < ms_id m \<and> (\<exists>q \<in> set ms. ms_id q = p \<and> ms_channelId q = ms_channelId m))"

definition dependents_ok :: "msg_db \<Rightarrow> bool" where
  "dependents_ok db \<longleftrightarrow>
     re_messageId ` set (reactions db) \<union> mn_messageId ` set (mentions db) \<union>
     at_messageId ` set (attachments db) \<union> fb_messageId ` set (feedbacks db) \<subseteq> ids db"

definition votes_ok :: "msg_db \<Rightarrow> bool" where
  "votes_ok db \<longleftrightarrow> distinct (reactions db) \<and> distinct (map (\<lambda>f. (fb_messageId f, fb_userId f)) (feedbacks db))"

definition msg_ok :: "msg_db \<Rightarrow> bool" where
  "msg_ok db \<longleftrightarrow> distinct (map ms_id (messages db)) \<and> parents_ok (messages db) \<and> dependents_ok db \<and> votes_ok db"

definition empty_db :: msg_db where
  "empty_db = \<lparr>messages = [], mentions = [], reactions = [], feedbacks = [], attachments = []\<rparr>"

lemma msg_ok_empty [simp]: "msg_ok empty_db"
  by (simp add: empty_db_def msg_ok_def parents_ok_def dependents_ok_def votes_ok_def)

lemma find_message_in: "find_message i db = Some m \<Longrightarrow> m \<in> set (messages db) \<and> ms_id m = i"
  by (auto simp: find_message_def dest: find_Some_in)

lemma find_message_ids: "find_message i db = Some m \<Longrightarrow> i \<in> ids db"
  using find_message_in [of i db m] by (auto simp: ids_def)

section \<open>Deletion\<close>

inductive descends :: "msg_db \<Rightarrow> uuid \<Rightarrow> uuid \<Rightarrow> bool" for db i where
  descends_self: "descends db i i"
| descends_reply: "descends db i p \<Longrightarrow> m \<in> set (messages db) \<Longrightarrow> ms_parentId m = Some p \<Longrightarrow> descends db i (ms_id m)"

definition purge :: "uuid set \<Rightarrow> msg_db \<Rightarrow> msg_db" where
  "purge R db =
     db\<lparr>messages := filter (\<lambda>m. ms_id m \<notin> R) (messages db),
        reactions := filter (\<lambda>r. re_messageId r \<notin> R) (reactions db),
        mentions := filter (\<lambda>r. mn_messageId r \<notin> R) (mentions db),
        attachments := filter (\<lambda>r. at_messageId r \<notin> R) (attachments db),
        feedbacks := filter (\<lambda>r. fb_messageId r \<notin> R) (feedbacks db)\<rparr>"

definition closed_in :: "msg_db \<Rightarrow> uuid set \<Rightarrow> bool" where
  "closed_in db R \<longleftrightarrow> (\<forall>m \<in> set (messages db). \<forall>p \<in> R. ms_parentId m = Some p \<longrightarrow> ms_id m \<in> R)"

lemma purge_purge: "purge R' (purge R db) = purge (R \<union> R') db"
  by (simp add: purge_def conj_commute Un_commute)

lemma purge_empty [simp]: "purge {} db = db"
  by (simp add: purge_def)

lemma messages_purge: "messages (purge R db) = filter (\<lambda>m. ms_id m \<notin> R) (messages db)"
  by (simp add: purge_def)

lemma descends_mono: "descends (purge R db) i j \<Longrightarrow> descends db i j"
  by (induction rule: descends.induct) (auto simp: messages_purge intro: descends.intros)

lemma descends_trans: "descends db k j \<Longrightarrow> descends db i k \<Longrightarrow> descends db i j"
  by (induction rule: descends.induct) (auto intro: descends.intros)

lemma closed_descends: "closed_in db R \<Longrightarrow> i \<in> R \<Longrightarrow> descends db i j \<Longrightarrow> j \<in> R"
  by (rotate_tac 2, induction rule: descends.induct) (auto simp: closed_in_def)

definition newer :: "uuid \<Rightarrow> msg_db \<Rightarrow> nat" where
  "newer i db = length (filter (\<lambda>m. ms_id m > i) (messages db))"

lemma newer_purge: "newer i (purge R db) \<le> newer i db"
proof -
  have "filter (\<lambda>m. ms_id m > i) (messages (purge R db)) =
      filter (\<lambda>m. ms_id m \<notin> R) (filter (\<lambda>m. ms_id m > i) (messages db))"
    unfolding messages_purge filter_filter by (rule filter_cong) auto
  then show ?thesis unfolding newer_def by (metis length_filter_le)
qed

lemma newer_less: "m \<in> set (messages db) \<Longrightarrow> i < ms_id m \<Longrightarrow> newer (ms_id m) db < newer i db"
proof -
  assume m: "m \<in> set (messages db)" "i < ms_id m"
  have "filter (\<lambda>x. ms_id x > ms_id m) (messages db) =
      filter (\<lambda>x. ms_id x > ms_id m) (filter (\<lambda>x. ms_id x > i) (messages db))"
    using m(2) by (auto intro!: filter_cong)
  moreover have "length (filter (\<lambda>x. ms_id x > ms_id m) (filter (\<lambda>x. ms_id x > i) (messages db)))
      < length (filter (\<lambda>x. ms_id x > i) (messages db))"
    by (rule length_filter_less [of m]) (use m in auto)
  ultimately show ?thesis by (simp add: newer_def)
qed

definition removes :: "msg_db \<Rightarrow> (uuid \<Rightarrow> bool) \<Rightarrow> msg_db \<Rightarrow> uuid set \<Rightarrow> bool" where
  "removes db below db' R \<longleftrightarrow> db' = purge R db \<and> closed_in db R \<and> (\<forall>r \<in> R. below r)"

lemma fold_removes:
  assumes "\<And>k db. k \<in> set ks \<Longrightarrow> newer k db < n \<Longrightarrow> parents_ok' db \<Longrightarrow> \<exists>R. k \<in> R \<and> removes db (descends db k) (f k db) R"
    and "\<And>R db. parents_ok' db \<Longrightarrow> parents_ok' (purge R db)"
    and "parents_ok' db" "\<forall>k \<in> set ks. newer k db < n"
  shows "\<exists>R. set ks \<subseteq> R \<and> removes db (\<lambda>r. \<exists>k \<in> set ks. descends db k r) (fold f ks db) R"
  using assms
proof (induction ks arbitrary: db)
  case Nil
  then show ?case by (auto simp: removes_def closed_in_def intro!: exI [of _ "{}"])
next
  case (Cons k ks)
  from Cons.prems(1) [of k db] Cons.prems(3,4)
  obtain R where R: "k \<in> R" "removes db (descends db k) (f k db) R" by auto
  then have f: "f k db = purge R db" by (simp add: removes_def)
  have "\<exists>R'. set ks \<subseteq> R' \<and>
      removes (purge R db) (\<lambda>r. \<exists>k \<in> set ks. descends (purge R db) k r) (fold f ks (purge R db)) R'"
  proof (rule Cons.IH)
    show "\<exists>R. k \<in> R \<and> removes db (descends db k) (f k db) R" if "k \<in> set ks" "newer k db < n" "parents_ok' db" for k db
      using Cons.prems(1) that by simp
    show "\<forall>k \<in> set ks. newer k (purge R db) < n"
    proof
      fix k assume "k \<in> set ks"
      then have "newer k db < n" using Cons.prems(4) by simp
      then show "newer k (purge R db) < n" using newer_purge [of k R db] by linarith
    qed
  qed (use Cons.prems(2,3) in auto)
  then obtain R' where R': "set ks \<subseteq> R'"
    "removes (purge R db) (\<lambda>r. \<exists>k \<in> set ks. descends (purge R db) k r) (fold f ks (purge R db)) R'" by blast
  show ?case
  proof (intro exI [of _ "R \<union> R'"] conjI)
    show "set (k # ks) \<subseteq> R \<union> R'" using R(1) R'(1) by auto
    have "fold f (k # ks) db = purge (R \<union> R') db"
      using R'(2) by (simp add: removes_def f purge_purge)
    moreover have "closed_in db (R \<union> R')"
      using R(2) R'(2) by (auto simp: removes_def closed_in_def messages_purge)
    moreover have "\<exists>k' \<in> set (k # ks). descends db k' r" if r: "r \<in> R \<union> R'" for r
    proof (cases "r \<in> R")
      case True
      then show ?thesis using R(2) by (auto simp: removes_def)
    next
      case False
      then obtain k' where k': "k' \<in> set ks" "descends (purge R db) k' r" using r R'(2) by (auto simp: removes_def)
      from this(2) have "descends db k' r" by (rule descends_mono)
      then show ?thesis using k'(1) by auto
    qed
    ultimately show "removes db (\<lambda>r. \<exists>k \<in> set (k # ks). descends db k r) (fold f (k # ks) db) (R \<union> R')"
      unfolding removes_def by blast
  qed
qed

definition older_parents :: "msg_db \<Rightarrow> bool" where
  "older_parents db \<longleftrightarrow> (\<forall>m \<in> set (messages db). \<forall>p. ms_parentId m = Some p \<longrightarrow> p < ms_id m)"

lemma older_parents_purge: "older_parents db \<Longrightarrow> older_parents (purge R db)"
  by (auto simp: older_parents_def messages_purge)

lemma drop_dependents_purge:
  "(let db' = purge R (drop_dependents i db) in db'\<lparr>messages := filter (\<lambda>m. ms_id m \<noteq> i) (messages db')\<rparr>) = purge (insert i R) db"
  by (rule msg_db.equality) (auto simp: purge_def drop_dependents_def Let_def intro!: filter_cong)

lemma drop_dependents_messages [simp]: "messages (drop_dependents i db) = messages db"
  by (simp add: drop_dependents_def)

lemma descends_messages: "messages db = messages db' \<Longrightarrow> descends db i j = descends db' i j"
proof -
  have "descends db i j \<Longrightarrow> messages db = messages db' \<Longrightarrow> descends db' i j" for db db'
    by (induction rule: descends.induct) (auto intro: descends.intros)
  then show "messages db = messages db' \<Longrightarrow> descends db i j = descends db' i j" by metis
qed

lemma delete_row_removes:
  "newer i db < n \<Longrightarrow> older_parents db \<Longrightarrow> \<exists>R. i \<in> R \<and> removes db (descends db i) (delete_row n i db) R"
proof (induction n arbitrary: i db)
  case (Suc n)
  let ?db = "drop_dependents i db"
  have kid: "\<exists>m \<in> set (messages db). ms_id m = k \<and> ms_parentId m = Some i" if "k \<in> set (kids i db)" for k
    using that by (auto simp: kids_def)
  have "\<exists>R. set (kids i db) \<subseteq> R \<and>
      removes ?db (\<lambda>r. \<exists>k \<in> set (kids i db). descends ?db k r) (fold (delete_row n) (kids i db) ?db) R"
  proof (rule fold_removes [where parents_ok' = older_parents and n = n])
    show "older_parents ?db" using Suc.prems(2) by (simp add: older_parents_def)
    show "\<forall>k \<in> set (kids i db). newer k ?db < n"
    proof
      fix k assume "k \<in> set (kids i db)"
      then obtain m where m: "m \<in> set (messages db)" "ms_id m = k" "ms_parentId m = Some i" using kid by blast
      then have "i < k" using Suc.prems(2) by (auto simp: older_parents_def)
      then show "newer k ?db < n"
        using newer_less [of m db i] m Suc.prems(1) by (simp add: newer_def)
    qed
  qed (use Suc.IH older_parents_purge in auto)
  then obtain R where R: "set (kids i db) \<subseteq> R"
    "removes ?db (\<lambda>r. \<exists>k \<in> set (kids i db). descends ?db k r) (fold (delete_row n) (kids i db) ?db) R" by blast
  have del: "delete_row (Suc n) i db = purge (insert i R) db"
    using R(2) drop_dependents_purge [of R i db] by (simp add: removes_def kids_def)
  have closed: "closed_in db (insert i R)"
    using R by (auto simp: removes_def closed_in_def kids_def)
  have "descends db i r" if r: "r \<in> R" for r
  proof -
    obtain k where k: "k \<in> set (kids i db)" "descends ?db k r" using R(2) r by (auto simp: removes_def)
    then obtain m where "m \<in> set (messages db)" "ms_id m = k" "ms_parentId m = Some i" using kid by blast
    then have "descends db i k" using descends_reply [of db i i m] by (auto intro: descends_self)
    then show ?thesis using k(2) descends_messages [of ?db db k r] by (auto intro: descends_trans)
  qed
  then show ?case using del closed by (intro exI [of _ "insert i R"]) (auto simp: removes_def intro: descends_self)
qed simp

lemma delete_row_thread:
  assumes "msg_ok db" "i \<in> ids db"
  shows "delete_row (length (messages db)) i db = purge {j. descends db i j} db"
    and "closed_in db {j. descends db i j}"
proof -
  have "older_parents db" using assms(1) by (auto simp: msg_ok_def parents_ok_def older_parents_def)
  moreover obtain m where "m \<in> set (messages db)" "ms_id m = i" using assms(2) by (auto simp: ids_def)
  then have "newer i db < length (messages db)" unfolding newer_def by (intro length_filter_less [of m]) auto
  ultimately obtain R where R: "i \<in> R" "removes db (descends db i) (delete_row (length (messages db)) i db) R"
    using delete_row_removes by blast
  then have "R = {j. descends db i j}" using closed_descends by (auto simp: removes_def)
  then show "delete_row (length (messages db)) i db = purge {j. descends db i j} db" "closed_in db {j. descends db i j}"
    using R(2) by (auto simp: removes_def)
qed

lemma msg_ok_purge:
  assumes ok: "msg_ok db" and closed: "closed_in db R"
  shows "msg_ok (purge R db)"
proof -
  have "parents_ok (messages (purge R db))"
    unfolding parents_ok_def
  proof (intro ballI allI impI)
    fix m p assume m: "m \<in> set (messages (purge R db))" "ms_parentId m = Some p"
    then obtain q where q: "p < ms_id m" "q \<in> set (messages db)" "ms_id q = p" "ms_channelId q = ms_channelId m"
      using ok unfolding msg_ok_def parents_ok_def messages_purge by auto
    moreover have "p \<notin> R" using m closed by (auto simp: closed_in_def messages_purge)
    ultimately show "p < ms_id m \<and> (\<exists>q \<in> set (messages (purge R db)). ms_id q = p \<and> ms_channelId q = ms_channelId m)"
      by (auto simp: messages_purge)
  qed
  moreover have "ids (purge R db) = ids db - R" by (auto simp: ids_def messages_purge)
  then have "dependents_ok (purge R db)"
    using ok unfolding msg_ok_def dependents_ok_def by (auto simp: purge_def)
  moreover have "votes_ok (purge R db)" using ok by (simp add: msg_ok_def votes_ok_def purge_def distinct_map_filter)
  moreover have "distinct (map ms_id (messages (purge R db)))"
    using ok by (simp add: msg_ok_def messages_purge distinct_map_filter)
  ultimately show ?thesis by (simp add: msg_ok_def)
qed

end
