(* ===== verification/Message_Effects.thy ===== *)
theory Message_Effects
  imports Message_Invariant
begin

text \<open>
  What each operation of the message service makes of the tables, and that all of them keep
  the invariant. Ids made by \<open>uuidv7()\<close> are above the ids of the rows there are.
\<close>

definition fresh_ids :: "msg_env \<Rightarrow> bool" where
  "fresh_ids env \<longleftrightarrow> (\<forall>db. \<forall>m \<in> set (messages db). ms_id m < me_newId env db)"

section \<open>New messages\<close>

definition parent_there :: "create_dto \<Rightarrow> msg_db \<Rightarrow> bool" where
  "parent_there dto db \<longleftrightarrow> (\<forall>p. cr_parentId dto = Some p \<longrightarrow>
     (\<exists>q \<in> set (messages db). ms_id q = p \<and> ms_channelId q = cr_channelId dto))"

definition with_message :: "message \<Rightarrow> mention_row list \<Rightarrow> attachment_row list \<Rightarrow> msg_db \<Rightarrow> msg_db" where
  "with_message m ments atts db =
     db\<lparr>messages := messages db @ [m], mentions := mentions db @ ments, attachments := attachments db @ atts\<rparr>"

lemma msg_ok_with_message:
  assumes "msg_ok db" "\<forall>x \<in> set (messages db). ms_id x < ms_id m"
    "\<forall>p. ms_parentId m = Some p \<longrightarrow> (\<exists>q \<in> set (messages db). ms_id q = p \<and> ms_channelId q = ms_channelId m)"
    "mn_messageId ` set ments \<subseteq> {ms_id m}" "at_messageId ` set atts \<subseteq> {ms_id m}"
  shows "msg_ok (with_message m ments atts db)"
proof -
  have "parents_ok (messages db @ [m])"
    using assms(1-3) by (fastforce simp: msg_ok_def parents_ok_def split: option.splits)
  then show ?thesis
    using assms by (auto simp: msg_ok_def with_message_def dependents_ok_def votes_ok_def ids_def)
qed

lemma new_rows_of:
  "r \<in> set (new_mentions i ms) \<Longrightarrow> mn_messageId r = i"
  "a \<in> set (new_attachments env db i fs) \<Longrightarrow> at_messageId a = i"
  by (auto simp: new_mentions_def new_attachments_def split: mention.splits)

lemma new_message_fields [simp]:
  "ms_id (new_message env db dto) = me_newId env db" "ms_channelId (new_message env db dto) = cr_channelId dto"
  "ms_parentId (new_message env db dto) = cr_parentId dto" "ms_userId (new_message env db dto) = Some (cr_senderId dto)"
  by (simp_all add: new_message_def)

definition created :: "msg_env \<Rightarrow> create_dto \<Rightarrow> msg_db \<Rightarrow> msg_db \<Rightarrow> bool" where
  "created env dto d d' \<longleftrightarrow> parent_there dto d \<and>
     (let m = new_message env d dto
      in d' = with_message m (new_mentions (ms_id m) (nullish (cr_mentions dto) []))
            (new_attachments env (d\<lparr>messages := messages d @ [m]\<rparr>) (ms_id m) (nullish (cr_attachments dto) [])) d)"

lemma created_ok: "fresh_ids env \<Longrightarrow> msg_ok d \<Longrightarrow> created env dto d d' \<Longrightarrow> msg_ok d'"
  unfolding created_def Let_def
  by (auto simp: fresh_ids_def parent_there_def intro!: msg_ok_with_message dest: new_rows_of)

lemma holds_create:
  assumes "\<And>d d'. I d \<Longrightarrow> created env dto d d' \<Longrightarrow> I d'"
  shows "preserves (holds I) (create_body env dto)"
  unfolding create_body_def
proof (rule holds_transaction [where R = "\<lambda>d _ d'. created env dto d d'"])
  show "effect (andThen (case cr_parentId dto of
         None \<Rightarrow> ret ()
       | Some p \<Rightarrow> andThen (fetch (\<lambda>db. find (\<lambda>m. ms_id m = p \<and> ms_channelId m = cr_channelId dto) (messages db)))
            (\<lambda>parent. ensure (Coded ''PARENT_NOT_FOUND'') (parent \<noteq> None))) (\<lambda>_.
     andThen (fetch (\<lambda>db. new_message env db dto)) (\<lambda>m.
     andThen (insert_message m) (\<lambda>_.
     andThen (handleMentionsAndAttachments env m dto) (\<lambda>saved.
     andThen (hydrateOne env None saved) (\<lambda>response.
     ret (response, saved)))))))  (\<lambda>d _ d'. created env dto d d')"
    by (auto simp: effect_def act_unfold insert_message_def handleMentionsAndAttachments_def hydrateOne_def hydrateMessages_def
        created_def parent_there_def with_message_def find_None_iff split: option.splits dest: find_Some_in)
qed (use assms in auto)

definition webhook_created :: "msg_env \<Rightarrow> webhook_job \<Rightarrow> msg_db \<Rightarrow> msg_db \<Rightarrow> bool" where
  "webhook_created env w d d' \<longleftrightarrow> d' = with_message (webhook_message env d w) [] [] d"

lemma webhook_created_ok: "fresh_ids env \<Longrightarrow> msg_ok d \<Longrightarrow> webhook_created env w d d' \<Longrightarrow> msg_ok d'"
  unfolding webhook_created_def by (auto simp: fresh_ids_def webhook_message_def intro!: msg_ok_with_message)

lemma holds_jobs [preserves_intros]: "preserves (holds I) (addJob j)" "preserves (holds I) (enqueue_previews i us)"
  by (auto simp: addJob_def enqueue_previews_def intro!: preserves_intros)

lemma holds_broadcast [preserves_intros]: "preserves (holds I) (broadcastMessageEvents r ch e)"
  unfolding broadcastMessageEvents_def by (intro preserves_intros)

lemma holds_dispatch [preserves_intros]: "preserves (holds I) (dispatchWebhookEvents env r ch)"
  unfolding dispatchWebhookEvents_def by (intro preserves_intros)

lemma holds_check [preserves_intros]: "preserves (holds I) (checkChannelExist env c u)"
  unfolding checkChannelExist_def by (auto intro!: preserves_intros split: sum.split option.split)

lemma holds_trigger [preserves_intros]: "preserves (holds I) (trigger_outcome_of env ch dto m)"
  unfolding trigger_outcome_of_def may_trigger_def count_up_def Let_def
  by (auto intro!: preserves_intros split: option.split)

lemma holds_createMessage:
  assumes "\<And>dto d d'. I d \<Longrightarrow> created env dto d d' \<Longrightarrow> I d'"
  shows "preserves (holds I) (createMessage n env dto)" "preserves (holds I) (maybeTriggerAiOrchestration n env ch dto m)"
  using assms
proof (induction n env dto and n env ch dto m rule: createMessage_maybeTriggerAiOrchestration.induct)
  case (1 n env dto)
  show ?case
    unfolding createMessage.simps [of n env dto]
    by (intro preserves_intros holds_create 1(1)) (use 1(2) in blast)+
next
  case (2 n env ch dto m)
  show ?case
    unfolding maybeTriggerAiOrchestration.simps [of n env ch dto m]
  proof (intro preserves_andThen holds_trigger)
    fix oc :: trigger_outcome
    show "preserves (holds I) (case oc of Quiet \<Rightarrow> ret () | Notice agent t \<Rightarrow>
          (case n of 0 \<Rightarrow> throw (Broken (js ''depth''))
           | Suc k \<Rightarrow> (case agent of None \<Rightarrow> throw (Broken (js ''senderId''))
                | Some a \<Rightarrow> andThen (createMessage k env (notice_dto ch a t)) (\<lambda>_. ret ())))
        | Trigger t p \<Rightarrow> addJob (ProcessAiTrigger t p))"
      using 2(1) [OF _ _ 2(2)]
      by (cases oc; cases n) (simp_all add: preserves_intros split: option.split)
  qed
qed

lemma holds_createWebhook:
  assumes "\<And>d d'. I d \<Longrightarrow> webhook_created env w d d' \<Longrightarrow> I d'"
  shows "preserves (holds I) (createWebhookMessage env w)"
  unfolding createWebhookMessage_def
proof (intro preserves_intros)
  have "effect (andThen (fetch (\<lambda>db. webhook_message env db w)) (\<lambda>m.
       andThen (insert_message m) (\<lambda>_.
       andThen (hydrateOne env None (bare m)) (\<lambda>response. ret (response, bare m))))) (\<lambda>d _ d'. webhook_created env w d d')"
    by (auto simp: effect_def act_unfold insert_message_def hydrateOne_def hydrateMessages_def webhook_created_def with_message_def)
  then show "preserves (holds I) (transaction (andThen (fetch (\<lambda>db. webhook_message env db w)) (\<lambda>m.
       andThen (insert_message m) (\<lambda>_.
       andThen (hydrateOne env None (bare m)) (\<lambda>response. ret (response, bare m))))))"
    by (rule holds_transaction) (use assms in auto)
qed

section \<open>Changes\<close>

definition saved_in :: "message \<Rightarrow> msg_db \<Rightarrow> msg_db" where
  "saved_in m db = db\<lparr>messages := map (\<lambda>x. if ms_id x = ms_id m then m else x) (messages db)\<rparr>"

definition same_place :: "message \<Rightarrow> message \<Rightarrow> bool" where
  "same_place m m' \<longleftrightarrow> ms_id m' = ms_id m \<and> ms_parentId m' = ms_parentId m \<and> ms_channelId m' = ms_channelId m"

lemma msg_ok_saved:
  assumes ok: "msg_ok db" and m: "m \<in> set (messages db)" "same_place m m'"
  shows "msg_ok (saved_in m' db)"
proof -
  define f where "f = (\<lambda>x. if ms_id x = ms_id m' then m' else x)"
  have uniq: "x = m" if "x \<in> set (messages db)" "ms_id x = ms_id m" for x
    using ok m(1) that by (auto simp: msg_ok_def distinct_map dest: inj_onD)
  have f: "ms_id (f x) = ms_id x \<and> ms_parentId (f x) = ms_parentId x \<and> ms_channelId (f x) = ms_channelId x"
    if "x \<in> set (messages db)" for x
    using uniq [OF that] m(2) by (auto simp: same_place_def f_def)
  have saved: "saved_in m' db = db\<lparr>messages := map f (messages db)\<rparr>" by (simp add: saved_in_def f_def)
  have "map ms_id (map f (messages db)) = map ms_id (messages db)" using f by simp
  then have "distinct (map ms_id (map f (messages db)))" using ok by (simp add: msg_ok_def del: map_map)
  moreover have "ids (saved_in m' db) = ids db" using f by (auto simp: ids_def saved image_iff)
  moreover have "parents_ok (map f (messages db))"
    unfolding parents_ok_def
  proof (intro ballI allI impI)
    fix y p assume "y \<in> set (map f (messages db))" "ms_parentId y = Some p"
    then obtain x where x: "x \<in> set (messages db)" "y = f x" "ms_parentId x = Some p" using f by auto
    then obtain q where q: "p < ms_id x" "q \<in> set (messages db)" "ms_id q = p" "ms_channelId q = ms_channelId x"
      using ok unfolding msg_ok_def parents_ok_def by blast
    then show "p < ms_id y \<and> (\<exists>q \<in> set (map f (messages db)). ms_id q = p \<and> ms_channelId q = ms_channelId y)"
      using x f [of x] f [of q] by auto
  qed
  ultimately show ?thesis
    using ok by (simp add: msg_ok_def saved dependents_ok_def votes_ok_def)
qed

definition edited_message :: "msg_env \<Rightarrow> update_dto \<Rightarrow> message \<Rightarrow> message" where
  "edited_message env dto m =
     m\<lparr>ms_content := up_content dto,
       ms_toolCalls := (case up_toolCalls dto of Some t \<Rightarrow> Some t | None \<Rightarrow> ms_toolCalls m),
       ms_updatedAt := me_now env\<rparr>"

definition replaced_attachments :: "msg_env \<Rightarrow> uuid \<Rightarrow> file_ref list option \<Rightarrow> msg_db \<Rightarrow> msg_db" where
  "replaced_attachments env i fs db = (case fs of None \<Rightarrow> db | Some fs \<Rightarrow>
     db\<lparr>attachments := filter (\<lambda>a. at_messageId a \<noteq> i) (attachments db) @ new_attachments env db i fs\<rparr>)"

definition replaced_mentions :: "uuid \<Rightarrow> mention list option \<Rightarrow> msg_db \<Rightarrow> msg_db" where
  "replaced_mentions i ms db = (case ms of None \<Rightarrow> db | Some ms \<Rightarrow>
     db\<lparr>mentions := filter (\<lambda>r. mn_messageId r \<noteq> i) (mentions db) @ new_mentions i ms\<rparr>)"

definition may_touch :: "msg_env \<Rightarrow> uuid \<Rightarrow> message \<Rightarrow> bool" where   \<comment> \<open>the user is a member of the channel\<close>
  "may_touch env userId m \<longleftrightarrow> (\<exists>ch. me_channel env (ms_channelId m) userId = Inr (Some ch))"

definition edited :: "msg_env \<Rightarrow> uuid \<Rightarrow> uuid \<Rightarrow> update_dto \<Rightarrow> msg_db \<Rightarrow> msg_db \<Rightarrow> bool" where
  "edited env i userId dto d d' \<longleftrightarrow> (\<exists>m. find_message i d = Some m \<and> ms_userId m = Some userId \<and> may_touch env userId m \<and>
     d' = saved_in (edited_message env dto m)
            (replaced_mentions i (up_mentions dto) (replaced_attachments env i (up_attachments dto) d)))"

definition deleted :: "msg_env \<Rightarrow> uuid \<Rightarrow> uuid \<Rightarrow> msg_db \<Rightarrow> msg_db \<Rightarrow> bool" where
  "deleted env i userId d d' \<longleftrightarrow> (\<exists>m. find_message i d = Some m \<and> ms_userId m = Some userId \<and> may_touch env userId m \<and>
     d' = delete_row (length (messages d)) i d)"

definition flipped :: "reaction_row \<Rightarrow> msg_db \<Rightarrow> msg_db" where
  "flipped r db = db\<lparr>reactions :=
     (if r \<in> set (reactions db) then filter (\<lambda>x. x \<noteq> r) (reactions db) else reactions db @ [r])\<rparr>"

definition reacted :: "msg_env \<Rightarrow> uuid \<Rightarrow> uuid \<Rightarrow> jstr \<Rightarrow> msg_db \<Rightarrow> bool \<Rightarrow> msg_db \<Rightarrow> bool" where
  "reacted env userId i emoji d isAdded d' \<longleftrightarrow> (\<exists>m. find_message i d = Some m \<and> may_touch env userId m) \<and>
     (let r = \<lparr>re_messageId = i, re_userId = userId, re_emoji = emoji\<rparr>
      in d' = flipped r d \<and> isAdded = (r \<notin> set (reactions d)))"

definition voted :: "msg_env \<Rightarrow> uuid \<Rightarrow> uuid \<Rightarrow> feedback \<Rightarrow> msg_db \<Rightarrow> msg_db \<Rightarrow> bool" where
  "voted env userId i t d d' \<longleftrightarrow> (\<exists>m. find_message i d = Some m \<and> may_touch env userId m) \<and>
     d' = d\<lparr>feedbacks :=
       (case find (\<lambda>f. fb_messageId f = i \<and> fb_userId f = userId) (feedbacks d) of
          None \<Rightarrow> feedbacks d @ [\<lparr>fb_messageId = i, fb_userId = userId, fb_type = t\<rparr>]
        | Some f \<Rightarrow> if fb_type f = t then filter (\<lambda>x. x \<noteq> f) (feedbacks d)
                    else map (\<lambda>x. if x = f then f\<lparr>fb_type := t\<rparr> else x) (feedbacks d))\<rparr>"

definition pinned :: "msg_env \<Rightarrow> uuid \<Rightarrow> uuid \<Rightarrow> msg_db \<Rightarrow> msg_db \<Rightarrow> bool" where
  "pinned env i userId d d' \<longleftrightarrow> (\<exists>m. find_message i d = Some m \<and> may_touch env userId m \<and>
     d' = saved_in (m\<lparr>ms_isPinned := \<not> ms_isPinned m, ms_updatedAt := me_now env\<rparr>) d)"

lemmas operation_unfold = act_unfold get_message_def checkChannelExist_def addJob_def hydrateOne_def hydrateMessages_def may_touch_def

text \<open>The body of a transaction and what it comes to.\<close>

definition runs_as :: "('d, 'o, 'a) act \<Rightarrow> ('d \<Rightarrow> 'a \<Rightarrow> 'd \<Rightarrow> bool) \<Rightarrow> bool" where
  "runs_as m R \<longleftrightarrow> (\<exists>body. m = transaction body \<and> effect body R)"

lemma runs_asI: "m = transaction body \<Longrightarrow> effect body R \<Longrightarrow> runs_as m R"
  by (auto simp: runs_as_def)

lemma holds_runs_as: "runs_as m R \<Longrightarrow> (\<And>d x d'. I d \<Longrightarrow> R d x d' \<Longrightarrow> I d') \<Longrightarrow> preserves (holds I) m"
  unfolding runs_as_def using holds_transaction by blast

lemma effect_get [effect_intros]: "effect (get_message i) (\<lambda>d m d'. find_message i d = Some m \<and> d' = d)"
  by (rule effectI) (auto simp: operation_unfold split: option.splits)

lemma effect_check [effect_intros]:
  "effect (checkChannelExist env c u) (\<lambda>d ch d'. me_channel env c u = Inr (Some ch) \<and> d' = d)"
  by (rule effectI) (auto simp: operation_unfold split: option.splits sum.splits)

lemma effect_reads [effect_intros]:
  "effect (addJob j) (\<lambda>d _ d'. d' = d)" "effect (hydrateOne env v e) (\<lambda>d _ d'. d' = d)"
  "effect (invalidate_pinned c) (\<lambda>d _ d'. d' = d)" "effect (notify_reaction env m u emoji) (\<lambda>d _ d'. d' = d)"
  by (rule effectI; force simp: invalidate_pinned_def notify_reaction_def operation_unfold split: option.splits sum.splits)+

lemma effect_getMessageById [effect_intros]: "effect (getMessageById env i userId) (\<lambda>d _ d'. d' = d)"
  by (rule effectI) (auto simp: getMessageById_def transaction_def operation_unfold split: option.splits sum.splits if_splits)

lemma effect_flip [effect_intros]: "effect (flip_reaction r) (\<lambda>d b d'. d' = flipped r d \<and> b = (r \<notin> set (reactions d)))"
  by (rule effectI) (auto simp: flip_reaction_def flipped_def operation_unfold)

lemma effect_vote [effect_intros]:
  "effect (vote i userId t) (\<lambda>d _ d'. d' = d\<lparr>feedbacks :=
       (case find (\<lambda>f. fb_messageId f = i \<and> fb_userId f = userId) (feedbacks d) of
          None \<Rightarrow> feedbacks d @ [\<lparr>fb_messageId = i, fb_userId = userId, fb_type = t\<rparr>]
        | Some f \<Rightarrow> if fb_type f = t then filter (\<lambda>x. x \<noteq> f) (feedbacks d)
                    else map (\<lambda>x. if x = f then f\<lparr>fb_type := t\<rparr> else x) (feedbacks d))\<rparr>)"
  by (rule effectI) (auto simp: vote_def operation_unfold split: option.splits)

lemma effect_stores [effect_intros]:
  "effect (save_message m) (\<lambda>d _ d'. d' = saved_in m d)"
  "effect (replace_attachments env i fs) (\<lambda>d _ d'. d' = replaced_attachments env i (Some fs) d)"
  "effect (replace_mentions i ms) (\<lambda>d _ d'. d' = replaced_mentions i (Some ms) d)"
  "effect (remove_message i) (\<lambda>d _ d'. d' = delete_row (length (messages d)) i d)"
  by (rule effectI; auto simp: save_message_def saved_in_def replace_attachments_def replaced_attachments_def
      replace_mentions_def replaced_mentions_def remove_message_def operation_unfold)+

lemma replaced_none: "replaced_attachments env i None d = d" "replaced_mentions i None d = d"
  by (simp_all add: replaced_attachments_def replaced_mentions_def)

lemma updateMessage_runs: "runs_as (updateMessage env i userId dto) (\<lambda>d _ d'. edited env i userId dto d d')"
  by (rule runs_asI [OF updateMessage_def], rule effect_weaken, (rule effect_andThen effect_intros)+)
    (fastforce simp: edited_def may_touch_def edited_message_def replaced_none split: option.splits if_splits)

lemma deleteMessage_runs: "runs_as (deleteMessage env i userId) (\<lambda>d _ d'. deleted env i userId d d')"
  by (rule runs_asI [OF deleteMessage_def], rule effect_weaken, (rule effect_andThen effect_intros)+)
    (auto simp: deleted_def may_touch_def dest: find_message_in)

lemma toggleReaction_runs: "runs_as (toggleReaction env userId i emoji) (reacted env userId i emoji)"
  by (rule runs_asI [OF toggleReaction_def], rule effect_weaken, (rule effect_andThen effect_intros)+)
    (auto simp: reacted_def may_touch_def dest: find_message_in split: if_splits)

lemma toggleFeedback_runs: "runs_as (toggleFeedback env userId i t) (\<lambda>d _ d'. voted env userId i t d d')"
  by (rule runs_asI [OF toggleFeedback_def], rule effect_weaken, (rule effect_andThen effect_intros)+)
    (auto simp: voted_def may_touch_def dest: find_message_in)

lemma togglePin_runs: "runs_as (togglePin env i userId) (\<lambda>d _ d'. pinned env i userId d d')"
  by (rule runs_asI [OF togglePin_def], rule effect_weaken, (rule effect_andThen effect_intros)+)
    (auto simp: pinned_def may_touch_def dest: find_message_in)

end
