(* ===== verification/Message_Theorems.thy ===== *)
theory Message_Theorems
  imports Message_Effects
begin

text \<open>
  The properties of the message service: its tables stay consistent under every sequence of
  operations, only authors touch their messages, deletion and reactions do what they say,
  and the places where the events or the answers are wrong.
\<close>

section \<open>Operations\<close>

datatype msg_op =
    CreateOp create_dto | WebhookOp webhook_job | EditOp uuid uuid update_dto | DeleteOp uuid uuid
  | ReactOp uuid uuid jstr | VoteOp uuid uuid feedback | PinOp uuid uuid
  | PageOp get_query | OneOp uuid uuid | SearchOp jstr uuid uuid "nat option" "uuid option"
  | PinnedOp uuid uuid "nat option" "uuid option" | AroundOp uuid uuid uuid "nat option"

fun perform :: "msg_env \<Rightarrow> msg_op \<Rightarrow> (msg_db, msg_out) conn \<Rightarrow> (msg_db, msg_out) conn" where
  "perform env (CreateOp dto) s = snd (createMessage 1 env dto s)"
| "perform env (WebhookOp w) s = snd (createWebhookMessage env w s)"
| "perform env (EditOp i u dto) s = snd (updateMessage env i u dto s)"
| "perform env (DeleteOp i u) s = snd (deleteMessage env i u s)"
| "perform env (ReactOp u i e) s = snd (toggleReaction env u i e s)"
| "perform env (VoteOp u i t) s = snd (toggleFeedback env u i t s)"
| "perform env (PinOp i u) s = snd (togglePin env i u s)"
| "perform env (PageOp q) s = snd (getMessages env q s)"
| "perform env (OneOp i u) s = snd (getMessageById env i u s)"
| "perform env (SearchOp k c u l cur) s = snd (searchMessages env k c u l cur s)"
| "perform env (PinnedOp c u l cur) s = snd (getPinnedMessages env c u l cur s)"
| "perform env (AroundOp c u t l) s = snd (getSurroundingMessages env c u t l s)"

definition performs :: "(msg_env \<times> msg_op) list \<Rightarrow> (msg_db, msg_out) conn \<Rightarrow> (msg_db, msg_out) conn" where
  "performs ops s = foldl (\<lambda>s (env, op). perform env op s) s ops"

section \<open>Reading changes nothing\<close>

lemma effect_hydrateMessages [effect_intros]: "effect (hydrateMessages env v es) (\<lambda>d _ d'. d' = d)"
  unfolding hydrateMessages_def by (rule effect_weaken, rule effect_intros) simp

lemma effect_page [effect_intros]:
  "effect (next_cursor b i) (\<lambda>d _ d'. d' = d)" "effect (page_of env limit rows) (\<lambda>d _ d'. d' = d)"
  by (rule effectI; auto simp: next_cursor_def page_of_def hydrateMessages_def act_unfold split: sum.splits if_splits)+

lemma holds_reads:
  assumes "effect m (\<lambda>d _ d'. d' = d)"
  shows "preserves (holds I) (transaction m)"
  by (rule holds_transaction [OF assms]) simp

lemma holds_getMessages: "preserves (holds I) (getMessages env q)"
  unfolding getMessages_def
  by (intro preserves_intros holds_reads, rule effect_weaken, (rule effect_andThen effect_intros)+) auto

lemma holds_getMessageById: "preserves (holds I) (getMessageById env i u)"
  unfolding getMessageById_def
  by (intro holds_reads, rule effect_weaken, (rule effect_andThen effect_intros)+) auto

lemma holds_searchMessages: "preserves (holds I) (searchMessages env k c u l cur)"
  unfolding searchMessages_def
  by (intro preserves_intros holds_reads, rule effect_weaken, (rule effect_andThen effect_intros)+) (auto split: if_splits)

lemma holds_getPinnedMessages: "preserves (holds I) (getPinnedMessages env c u l cur)"
  unfolding getPinnedMessages_def Let_def
  by (intro preserves_intros holds_reads, rule effect_weaken, (rule effect_andThen effect_intros)+) auto

lemma holds_getSurroundingMessages: "preserves (holds I) (getSurroundingMessages env c u t l)"
  unfolding getSurroundingMessages_def
  by (intro preserves_intros holds_reads, rule effect_weaken, (rule effect_andThen effect_intros)+) auto

lemmas holds_readers = holds_getMessages holds_getMessageById holds_searchMessages holds_getPinnedMessages
  holds_getSurroundingMessages

section \<open>The tables stay consistent\<close>

lemma edited_ok: "msg_ok d \<Longrightarrow> edited env i u dto d d' \<Longrightarrow> msg_ok d'"
proof -
  assume ok: "msg_ok d" and "edited env i u dto d d'"
  then obtain m where m: "find_message i d = Some m"
    "d' = saved_in (edited_message env dto m)
       (replaced_mentions i (up_mentions dto) (replaced_attachments env i (up_attachments dto) d))"
    by (auto simp: edited_def)
  let ?d = "replaced_mentions i (up_mentions dto) (replaced_attachments env i (up_attachments dto) d)"
  have same: "messages ?d = messages d" "reactions ?d = reactions d" "feedbacks ?d = feedbacks d" "ids ?d = ids d"
    by (auto simp: replaced_mentions_def replaced_attachments_def ids_def split: option.splits)
  have "dependents_ok ?d"
    using ok find_message_ids [OF m(1)] unfolding msg_ok_def dependents_ok_def same
    by (auto simp: replaced_mentions_def replaced_attachments_def dest: new_rows_of split: option.splits)
  then have "msg_ok ?d" using ok by (simp add: msg_ok_def same votes_ok_def)
  moreover have "m \<in> set (messages ?d)" using find_message_in [OF m(1)] same by simp
  ultimately show "msg_ok d'"
    unfolding m(2) by (rule msg_ok_saved) (simp add: same_place_def edited_message_def)
qed

lemma deleted_ok: "msg_ok d \<Longrightarrow> deleted env i u d d' \<Longrightarrow> msg_ok d'"
  by (auto simp: deleted_def delete_row_thread find_message_ids intro!: msg_ok_purge)

lemma reacted_ok: "msg_ok d \<Longrightarrow> reacted env u i e d b d' \<Longrightarrow> msg_ok d'"
  by (auto simp: reacted_def Let_def flipped_def msg_ok_def dependents_ok_def votes_ok_def ids_def
      dest: find_message_ids [unfolded ids_def] split: if_splits)

lemma pinned_ok: "msg_ok d \<Longrightarrow> pinned env i u d d' \<Longrightarrow> msg_ok d'"
  by (auto simp: pinned_def same_place_def dest: find_message_in intro!: msg_ok_saved)

lemma voted_ok: "msg_ok d \<Longrightarrow> voted env u i t d d' \<Longrightarrow> msg_ok d'"
proof -
  let ?key = "\<lambda>f. (fb_messageId f, fb_userId f)"
  assume ok: "msg_ok d" and v: "voted env u i t d d'"
  then have i: "i \<in> ids d" by (auto simp: voted_def dest: find_message_ids)
  have dist: "distinct (map ?key (feedbacks d))" using ok by (simp add: msg_ok_def votes_ok_def)
  show "msg_ok d'"
  proof (cases "find (\<lambda>f. fb_messageId f = i \<and> fb_userId f = u) (feedbacks d)")
    case None
    then have "(i, u) \<notin> ?key ` set (feedbacks d)" by (auto simp: find_None_iff)
    then show ?thesis using ok v i None dist
      by (auto simp: voted_def msg_ok_def dependents_ok_def votes_ok_def ids_def)
  next
    case (Some f)
    then have f: "f \<in> set (feedbacks d)" "?key f = (i, u)" by (auto dest: find_Some_in)
    have "map ?key (map (\<lambda>x. if x = f then f\<lparr>fb_type := t\<rparr> else x) (feedbacks d)) = map ?key (feedbacks d)" by auto
    then have "distinct (map ?key (map (\<lambda>x. if x = f then f\<lparr>fb_type := t\<rparr> else x) (feedbacks d)))"
      using dist by (simp del: map_map)
    then show ?thesis using ok v i Some f dist
      by (auto simp: voted_def msg_ok_def dependents_ok_def votes_ok_def ids_def distinct_map_filter split: if_splits)
  qed
qed

lemma perform_ok: "fresh_ids env \<Longrightarrow> holds msg_ok s \<Longrightarrow> holds msg_ok (perform env op s)"
proof -
  assume fresh: "fresh_ids env" and s: "holds msg_ok s"
  have "preserves (holds msg_ok) (createMessage 1 env dto)" for dto
    by (rule holds_createMessage) (use created_ok fresh in blast)
  moreover have "preserves (holds msg_ok) (createWebhookMessage env w)" for w
    by (rule holds_createWebhook) (use webhook_created_ok fresh in blast)
  moreover note holds_runs_as [OF updateMessage_runs edited_ok] holds_runs_as [OF deleteMessage_runs deleted_ok]
    holds_runs_as [OF toggleReaction_runs reacted_ok] holds_runs_as [OF toggleFeedback_runs voted_ok]
    holds_runs_as [OF togglePin_runs pinned_ok] holds_readers
  ultimately show "holds msg_ok (perform env op s)"
    using s by (cases op) (simp_all add: preserves_def)
qed

text \<open>
  C6: whatever operations follow each other, the tables stay consistent: ids are unique, a
  reply has its parent in the same channel, every reaction, mention, attachment and vote
  belongs to a message, and nobody votes twice or gives one reaction twice.
\<close>

theorem messages_stay_consistent:
  assumes "\<forall>(env, op) \<in> set ops. fresh_ids env"
  shows "msg_ok (cn_committed (performs ops (connect empty_db out)))"
proof -
  have "holds msg_ok (performs ops s)" if "holds msg_ok s" for s
    using assms that unfolding performs_def
    by (induction ops arbitrary: s) (auto intro: perform_ok)
  from this [of "connect empty_db out"] show ?thesis by (simp add: holds_def)
qed

text \<open>An environment for the witnesses: everybody is a member of every channel, users are found.\<close>

definition demo_user :: "uuid \<Rightarrow> user_dto" where
  "demo_user i = \<lparr>us_id = Some i, us_firstName = js ''A'', us_lastName = js ''B'', us_avatarUrl = [], us_email = [],
     us_isApp = False, us_isBot = False\<rparr>"

definition demo_channel :: "uuid \<Rightarrow> channel_info" where
  "demo_channel c = \<lparr>ch_id = c, ch_name = js ''general'', ch_direct = False, ch_memberIds = None, ch_workspaceId = 9\<rparr>"

definition demo_env :: msg_env where
  "demo_env =
     \<lparr>me_channel = (\<lambda>c u. Inr (Some (demo_channel c))), me_basic = (\<lambda>c. Inr (demo_channel c)),
      me_users = (\<lambda>is. Inr (map demo_user is)), me_apps = (\<lambda>_. Inr []), me_depth = 0, me_now = 1000,
      me_newId = (\<lambda>db. Suc (Max (insert 0 (ids db)))), me_attachmentId = (\<lambda>db k. 100 + k),
      me_matches = (\<lambda>_ _. True), me_cached = (\<lambda>_. True)\<rparr>"

lemma demo_env_fresh: "fresh_ids demo_env"
proof -
  have "ms_id m < Suc (Max (insert 0 (ids db)))" if "m \<in> set (messages db)" for m db
    using that by (auto simp: ids_def less_Suc_eq_le intro!: Max_ge)
  then show ?thesis by (simp add: fresh_ids_def demo_env_def)
qed

lemma demo_env_fields [simp]:
  "me_channel demo_env c u = Inr (Some (demo_channel c))" "me_users demo_env us = Inr (map demo_user us)"
  "me_apps demo_env w = Inr []" "me_now demo_env = 1000" "me_cached demo_env k"
  "me_attachmentId demo_env db n = 100 + n" "us_id (demo_user i) = Some i" "\<not> us_isBot (demo_user i)"
  "ch_memberIds (demo_channel c) = None" "ch_workspaceId (demo_channel c) = 9"
  by (simp_all add: demo_env_def demo_user_def demo_channel_def)

definition demo_out :: msg_out where
  "demo_out = \<lparr>mo_jobs = [], mo_counters = Map.empty, mo_pinnedVersion = (\<lambda>_. 0), mo_pinned = Map.empty\<rparr>"

definition demo_message :: "uuid \<Rightarrow> uuid option \<Rightarrow> uuid \<Rightarrow> jstr \<Rightarrow> message" where
  "demo_message i p u t =
     \<lparr>ms_id = i, ms_channelId = 1, ms_userId = Some u, ms_webhookId = None, ms_customName = None,
      ms_customAvatarUrl = None, ms_content = JStr t, ms_isPinned = False, ms_parentId = p,
      ms_linkPreviews = None, ms_toolCalls = None, ms_createdAt = int i, ms_updatedAt = int i\<rparr>"

lemma demo_message_fields [simp]:
  "ms_id (demo_message i p u t) = i" "ms_parentId (demo_message i p u t) = p" "ms_channelId (demo_message i p u t) = 1"
  "ms_userId (demo_message i p u t) = Some u" "ms_content (demo_message i p u t) = JStr t"
  "ms_webhookId (demo_message i p u t) = None" "ms_createdAt (demo_message i p u t) = int i"
  "\<not> ms_isPinned (demo_message i p u t)"
  by (simp_all add: demo_message_def)

definition demo_db :: "message list \<Rightarrow> msg_db" where
  "demo_db ms = empty_db\<lparr>messages := ms\<rparr>"

lemma demo_db_fields [simp]:
  "messages (demo_db ms) = ms" "reactions (demo_db ms) = []" "mentions (demo_db ms) = []"
  "attachments (demo_db ms) = []" "feedbacks (demo_db ms) = []"
  by (simp_all add: demo_db_def empty_db_def)

lemma messages_stay_consistent_witness:
  "msg_ok (cn_committed (performs [(demo_env, CreateOp
       \<lparr>cr_channelId = 1, cr_senderId = 7, cr_content = JStr (js ''hi''), cr_parentId = None, cr_mentions = None, cr_attachments = None\<rparr>),
       (demo_env, PinOp 1 7)] (connect empty_db demo_out)))"
  by (rule messages_stay_consistent) (simp add: demo_env_fresh)

section \<open>Only authors touch their messages\<close>

definition keeps_message :: "uuid \<Rightarrow> message \<Rightarrow> msg_db \<Rightarrow> bool" where
  "keeps_message i m d \<longleftrightarrow> (\<exists>m'. find_message i d = Some m' \<and> ms_content m' = ms_content m)"

lemma keeps_with_message: "keeps_message i m d \<Longrightarrow> keeps_message i m (with_message m' a b d)"
  by (auto simp: keeps_message_def find_message_def with_message_def intro: find_append)

lemma find_map_saved:
  "find (\<lambda>x. ms_id x = i) (map (\<lambda>x. if ms_id x = ms_id n then n else x) ms) =
   map_option (\<lambda>x. if ms_id x = ms_id n then n else x) (find (\<lambda>x. ms_id x = i) ms)"
  by (induction ms) auto

lemma find_saved_in: "find_message i (saved_in n d) = map_option (\<lambda>x. if ms_id x = ms_id n then n else x) (find_message i d)"
  unfolding find_message_def saved_in_def using find_map_saved [of i n "messages d"] by simp

lemma find_filter: "(\<And>x. Q x \<Longrightarrow> P x) \<Longrightarrow> find Q (filter P xs) = find Q xs"
  by (induction xs) auto

lemma find_purge: "j \<notin> R \<Longrightarrow> find_message j (purge R d) = find_message j d"
  unfolding find_message_def messages_purge by (rule find_filter) auto

lemma find_purged: "j \<in> R \<Longrightarrow> find_message j (purge R d) = None"
  by (auto simp: find_message_def messages_purge find_None_iff)

lemma find_same_messages [simp]:
  "find_message i (replaced_mentions j ms d) = find_message i d"
  "find_message i (replaced_attachments env j fs d) = find_message i d"
  by (simp_all add: find_message_def replaced_mentions_def replaced_attachments_def split: option.split)

lemma runs_as_result:
  assumes "runs_as m R" "idle s"
  shows "idle (snd (m s))"
    and "fst (m s) = Inl e \<Longrightarrow> cn_committed (snd (m s)) = cn_committed s"
    and "fst (m s) = Inr x \<Longrightarrow> R (cn_committed s) x (cn_committed (snd (m s)))"
proof -
  obtain body where "m = transaction body" "effect body R" using assms(1) by (auto simp: runs_as_def)
  moreover obtain r t where "transaction body s = (r, t)" by fastforce
  ultimately show "idle (snd (m s))" "fst (m s) = Inl e \<Longrightarrow> cn_committed (snd (m s)) = cn_committed s"
    "fst (m s) = Inr x \<Longrightarrow> R (cn_committed s) x (cn_committed (snd (m s)))"
    using transaction_effect [of body R s r t] assms(2) by auto
qed

lemma runs_as_holds: "runs_as m R \<Longrightarrow> idle s \<Longrightarrow> P (cn_committed s) \<Longrightarrow>
   (\<And>x d'. R (cn_committed s) x d' \<Longrightarrow> P d') \<Longrightarrow> P (cn_committed (snd (m s)))"
  using runs_as_result [of m R s] by (cases "fst (m s)") auto

lemma edited_keeps:
  assumes "edited env j u dto d d'" "find_message i d = Some m"
  shows "keeps_message i m d' \<or> (j = i \<and> ms_userId m = Some u)"
proof (cases "j = i")
  case True
  then show ?thesis using assms by (auto simp: edited_def)
next
  case False
  then have "ms_id m \<noteq> ms_id n" if "find_message j d = Some n" for n
    using find_message_in [OF that] find_message_in [OF assms(2)] by simp
  then show ?thesis using assms by (auto simp: edited_def keeps_message_def find_saved_in edited_message_def)
qed

lemma deleted_keeps: "msg_ok d \<Longrightarrow> deleted env j u d d' \<Longrightarrow> find_message i d = Some m \<Longrightarrow>
   keeps_message i m d' \<or> (descends d j i \<and> (\<exists>a. find_message j d = Some a \<and> ms_userId a = Some u))"
  by (cases "descends d j i")
    (auto simp: deleted_def keeps_message_def delete_row_thread find_message_ids find_purge)

lemma find_message_tables [simp]:
  "find_message i (d\<lparr>reactions := rs\<rparr>) = find_message i d" "find_message i (d\<lparr>feedbacks := fs\<rparr>) = find_message i d"
  by (simp_all add: find_message_def)

lemma other_changes_keep:
  "reacted env u j e d b d' \<Longrightarrow> find_message i d = Some m \<Longrightarrow> keeps_message i m d'"
  "voted env u j t d d' \<Longrightarrow> find_message i d = Some m \<Longrightarrow> keeps_message i m d'"
  by (auto simp: reacted_def Let_def flipped_def voted_def keeps_message_def)

lemma pinned_keeps:
  assumes "pinned env j u d d'" "find_message i d = Some m"
  shows "keeps_message i m d'"
proof -
  obtain n where n: "find_message j d = Some n"
    "d' = saved_in (n\<lparr>ms_isPinned := \<not> ms_isPinned n, ms_updatedAt := me_now env\<rparr>) d"
    using assms(1) by (auto simp: pinned_def)
  let ?n = "n\<lparr>ms_isPinned := \<not> ms_isPinned n, ms_updatedAt := me_now env\<rparr>"
  have "ms_content (if ms_id m = ms_id n then ?n else m) = ms_content m"
    using find_message_in [OF assms(2)] find_message_in [OF n(1)] assms(2) n(1) by (cases "i = j") simp_all
  then show ?thesis unfolding n(2) by (simp add: keeps_message_def find_saved_in assms(2))
qed

lemma holds_committed:
  assumes "preserves (holds I) a" "I db"
  shows "I (cn_committed (snd (a (connect db out))))"
proof -
  have "holds I (connect db out)" using assms(2) by (simp add: holds_def)
  then have "holds I (snd (a (connect db out)))" using assms(1) unfolding preserves_def by blast
  then show ?thesis by (simp add: holds_def)
qed

text \<open>
  C7: a message loses its text only when its author edits it, and disappears only when its
  author, or the author of a message above it in the thread, deletes.
\<close>

theorem only_authors_change_messages:
  assumes "msg_ok db" "find_message i db = Some m"
  shows "case op of
      EditOp j u dto \<Rightarrow> keeps_message i m (cn_committed (perform env op (connect db out))) \<or> (j = i \<and> ms_userId m = Some u)
    | DeleteOp j u \<Rightarrow> keeps_message i m (cn_committed (perform env op (connect db out))) \<or>
        (descends db j i \<and> (\<exists>a. find_message j db = Some a \<and> ms_userId a = Some u))
    | _ \<Rightarrow> keeps_message i m (cn_committed (perform env op (connect db out)))"
proof -
  let ?I = "keeps_message i m" and ?s = "connect db out"
  have k: "?I db" using assms(2) by (simp add: keeps_message_def)
  have idle: "idle ?s" and db: "cn_committed ?s = db" by simp_all
  have "preserves (holds ?I) (createMessage 1 env dto)" for dto
    by (rule holds_createMessage) (auto simp: created_def Let_def intro: keeps_with_message)
  note create = holds_committed [OF this k]
  have "preserves (holds ?I) (createWebhookMessage env w)" for w
    by (rule holds_createWebhook) (auto simp: webhook_created_def intro: keeps_with_message)
  note webhook = holds_committed [OF this k]
  note reads = holds_readers [where I = ?I, THEN holds_committed [where I = ?I, OF _ k]]
  have edits: "?I (cn_committed (snd (updateMessage env j u dto ?s))) \<or> (j = i \<and> ms_userId m = Some u)" for j u dto
    by (rule runs_as_holds [OF updateMessage_runs idle]) (use k edited_keeps [OF _ assms(2)] in auto)
  have deletes: "?I (cn_committed (snd (deleteMessage env j u ?s))) \<or>
      (descends db j i \<and> (\<exists>a. find_message j db = Some a \<and> ms_userId a = Some u))" for j u
    by (rule runs_as_holds [OF deleteMessage_runs idle]) (use k deleted_keeps [OF assms(1) _ assms(2)] in auto)
  have reacts: "?I (cn_committed (snd (toggleReaction env u j e ?s)))" for u j e
    by (rule runs_as_holds [OF toggleReaction_runs idle]) (use k other_changes_keep [OF _ assms(2)] in auto)
  have votes: "?I (cn_committed (snd (toggleFeedback env u j t ?s)))" for u j t
    by (rule runs_as_holds [OF toggleFeedback_runs idle]) (use k other_changes_keep [OF _ assms(2)] in auto)
  have pins: "?I (cn_committed (snd (togglePin env j u ?s)))" for u j
    by (rule runs_as_holds [OF togglePin_runs idle]) (use k pinned_keeps [OF _ assms(2)] in auto)
  show ?thesis
    by (cases op) (simp_all add: create [unfolded One_nat_def] webhook reads edits deletes reacts votes pins)
qed

lemma only_authors_change_messages_witness:
  "keeps_message 1 (demo_message 1 None 7 (js ''old'')) (cn_committed (perform demo_env (EditOp 1 8
       \<lparr>up_content = JStr (js ''new''), up_attachments = None, up_mentions = None, up_toolCalls = None\<rparr>)
     (connect (demo_db [demo_message 1 None 7 (js ''old'')]) demo_out)))"
proof -
  let ?m = "demo_message 1 None 7 (js ''old'')"
  have found: "find_message 1 (demo_db [?m]) = Some ?m" by (simp add: find_message_def)
  have "msg_ok (demo_db [?m])" by (simp add: msg_ok_def parents_ok_def dependents_ok_def votes_ok_def)
  from only_authors_change_messages [OF this found, where op = "EditOp 1 8 \<lparr>up_content = JStr (js ''new''), up_attachments = None, up_mentions = None, up_toolCalls = None\<rparr>" and env = demo_env and out = demo_out]
  show ?thesis by simp
qed

end
