(* ===== verification/Message_Faults.thy ===== *)
theory Message_Faults
  imports Message_Theorems "HOL-Library.Multiset"
begin

text \<open>
  What deletion, reactions and notices do, and five places where the message service does
  not do what its comments say.
\<close>

section \<open>Deletion, reactions, notices\<close>

lemma runs_as_Inr:
  assumes "runs_as m R" "m (connect db out) = (Inr x, s)"
  shows "R db x (cn_committed s)"
  using runs_as_result(3) [OF assms(1), of "connect db out" x] assms(2) by simp

text \<open>
  C9: deleting a message deletes exactly the messages below it in its thread, with their
  reactions, mentions, attachments and votes.
\<close>

theorem delete_removes_thread:
  assumes "msg_ok db" "deleteMessage env i u (connect db out) = (Inr b, s)"
  shows "cn_committed s = purge {j. descends db i j} db"
  using runs_as_Inr [OF deleteMessage_runs assms(2)] assms(1)
  by (auto simp: deleted_def delete_row_thread find_message_ids)

definition demo_thread :: msg_db where
  "demo_thread = demo_db [demo_message 1 None 7 (js ''a''), demo_message 2 (Some 1) 8 (js ''b''),
     demo_message 3 (Some 2) 9 (js ''c''), demo_message 4 None 7 (js ''d'')]"

lemma demo_thread_ok: "msg_ok demo_thread"
  by (auto simp: demo_thread_def msg_ok_def parents_ok_def dependents_ok_def votes_ok_def ids_def)

lemma delete_removes_thread_witness:
  "\<exists>s. deleteMessage demo_env 1 7 (connect demo_thread demo_out) = (Inr True, s) \<and>
     cn_committed s = purge {j. descends demo_thread 1 j} demo_thread \<and> map ms_id (messages (cn_committed s)) = [4]"
proof -
  obtain r s where run: "deleteMessage demo_env 1 7 (connect demo_thread demo_out) = (r, s)" by fastforce
  have "fst (deleteMessage demo_env 1 7 (connect demo_thread demo_out)) = Inr True"
    "map ms_id (messages (cn_committed (snd (deleteMessage demo_env 1 7 (connect demo_thread demo_out))))) = [4]"
    by code_simp+
  then show ?thesis using run delete_removes_thread [OF demo_thread_ok, of demo_env 1 7 demo_out True s] by simp
qed

text \<open>
  A reaction given twice is as if it had not been given, and the two answers say added
  and removed in turn.
\<close>

theorem reaction_twice_is_nothing:
  assumes "msg_ok db" "toggleReaction env u i e (connect db out) = (Inr b, s)"
    "toggleReaction env u i e s = (Inr b', t)"
  shows "b' = (\<not> b) \<and> mset (reactions (cn_committed t)) = mset (reactions db)"
proof -
  have 1: "reacted env u i e db b (cn_committed s)" by (rule runs_as_Inr [OF toggleReaction_runs assms(2)])
  have "idle s" using runs_as_result(1) [OF toggleReaction_runs, of "connect db out" env u i e] assms(2) by simp
  then have 2: "reacted env u i e (cn_committed s) b' (cn_committed t)"
    using runs_as_result(3) [OF toggleReaction_runs, of s env u i e b'] assms(3) by simp
  have d: "distinct (reactions db)" using assms(1) by (simp add: msg_ok_def votes_ok_def)
  have "b' = (\<not> b)" "set (reactions (cn_committed t)) = set (reactions db)" "distinct (reactions (cn_committed t))"
    using 1 2 d by (auto simp: reacted_def Let_def flipped_def split: if_splits)
  then show ?thesis using d by (simp flip: set_eq_iff_mset_eq_distinct)
qed

lemma reaction_twice_is_nothing_witness:
  "\<exists>s t. toggleReaction demo_env 7 2 (js ''up'') (connect demo_thread demo_out) = (Inr True, s) \<and>
     toggleReaction demo_env 7 2 (js ''up'') s = (Inr False, t) \<and> mset (reactions (cn_committed t)) = {#}"
proof -
  let ?s = "snd (toggleReaction demo_env 7 2 (js ''up'') (connect demo_thread demo_out))"
  have "fst (toggleReaction demo_env 7 2 (js ''up'') (connect demo_thread demo_out)) = Inr True"
    "fst (toggleReaction demo_env 7 2 (js ''up'') ?s) = Inr False" by code_simp+
  then have runs: "toggleReaction demo_env 7 2 (js ''up'') (connect demo_thread demo_out) = (Inr True, ?s)"
    "toggleReaction demo_env 7 2 (js ''up'') ?s = (Inr False, snd (toggleReaction demo_env 7 2 (js ''up'') ?s))"
    by (simp_all add: prod_eq_iff)
  show ?thesis
    using runs reaction_twice_is_nothing [OF demo_thread_ok runs] by (auto simp: demo_thread_def)
qed

section \<open>Notices of the agent\<close>

text \<open>The bot a notice is sent by is the first one the user service finds, and it does not answer itself.\<close>

lemma notice_quiet:
  assumes "find us_isBot (map snd (getUsersInfo env (nullish (ch_memberIds ch) []))) = Some a" "ms_userId m = us_id a"
  shows "trigger_outcome_of env ch dto m = ret Quiet"
  using assms by (simp add: trigger_outcome_of_def)

section \<open>Where the service goes wrong\<close>

lemma getMessageById_value:
  assumes "getMessageById env i u s = (Inr d, t)"
  shows "md_id d = i \<and> md_reactions d = groupReactions (filter (\<lambda>r. re_messageId r = i) (reactions (cn_committed s))) \<and>
     cn_out t = cn_out s"
  using assms
  by (auto simp: getMessageById_def transaction_def operation_unfold hydrate_def mapToResponseDto_def load_def
      dest!: find_message_in split: option.splits sum.splits if_splits)

lemma notify_keeps_jobs:
  "notify_reaction env d u e s = (r, t) \<Longrightarrow> set (mo_jobs (cn_out s)) \<subseteq> set (mo_jobs (cn_out t))"
  by (auto simp: notify_reaction_def operation_unfold split: option.splits sum.splits)

text \<open>
  The event that tells the others of a reaction shows the reactions as they were before it:
  the message is read through a transaction of its own, which does not see the change.
\<close>

theorem reaction_event_is_stale:
  assumes "toggleReaction env u i e (connect db out) = (Inr b, s)"
  shows "\<exists>rooms. EmitEvent REACTION_UPDATED rooms
      (ReactionData i (groupReactions (filter (\<lambda>r. re_messageId r = i) (reactions db))) u e b) \<in> set (mo_jobs (cn_out s))"
proof -
  let ?s = "(connect db out)\<lparr>cn_current := db, cn_inTx := True\<rparr>" and ?r = "\<lparr>re_messageId = i, re_userId = u, re_emoji = e\<rparr>"
  obtain s1 d s2 s3 r t where
    flip: "flip_reaction ?r ?s = (Inr b, s1)" and get: "getMessageById env i u s1 = (Inr d, s2)"
    and job: "addJob (reaction_event d u e b) s2 = (Inr (), s3)"
    and rest: "(if b \<and> us_id (md_sender d) \<noteq> Some u then notify_reaction env d u e else ret ()) s3 = (Inr r, t)"
    and out: "cn_out s = cn_out t"
    using assms unfolding toggleReaction_def transaction_def
    by (auto simp: Let_def act_basic get_message_def checkChannelExist_def from_option_def throw_def fetch_def ret_def
        elim!: andThen_InrD split: prod.splits sum.splits option.splits)
  have "cn_committed s1 = db" using flip by (auto simp: flip_reaction_def operation_unfold)
  then have "reaction_event d u e b =
     EmitEvent REACTION_UPDATED [ChannelRoom (md_channelId d), ThreadRoom (case md_parentId d of Some p \<Rightarrow> p | None \<Rightarrow> md_id d)]
       (ReactionData i (groupReactions (filter (\<lambda>r. re_messageId r = i) (reactions db))) u e b)"
    using getMessageById_value [OF get] by (simp add: reaction_event_def)
  moreover have "reaction_event d u e b \<in> set (mo_jobs (cn_out s3))" using job by (auto simp: operation_unfold)
  moreover have "set (mo_jobs (cn_out s3)) \<subseteq> set (mo_jobs (cn_out s))"
    using rest out notify_keeps_jobs by (auto simp: ret_def split: if_splits)
  ultimately show ?thesis by auto
qed

lemma reaction_event_is_stale_witness:
  "\<exists>s rooms. toggleReaction demo_env 7 2 (js ''up'') (connect demo_thread demo_out) = (Inr True, s) \<and>
     length (reactions (cn_committed s)) = 1 \<and>
     EmitEvent REACTION_UPDATED rooms (ReactionData 2 [] 7 (js ''up'') True) \<in> set (mo_jobs (cn_out s))"
proof -
  let ?s = "snd (toggleReaction demo_env 7 2 (js ''up'') (connect demo_thread demo_out))"
  have "fst (toggleReaction demo_env 7 2 (js ''up'') (connect demo_thread demo_out)) = Inr True"
    "length (reactions (cn_committed ?s)) = 1" by code_simp+
  moreover have "groupReactions (filter (\<lambda>r. re_messageId r = 2) (reactions demo_thread)) = []"
    by (simp add: demo_thread_def groupReactions_def)
  ultimately show ?thesis
    using reaction_event_is_stale [of demo_env 7 2 "js ''up''" demo_thread demo_out True ?s] by (auto simp: prod_eq_iff)
qed

text \<open>
  When a message is created, the job that ties its attachments to it names the rows of the
  attachments where the resources are meant.
\<close>

theorem created_resources_are_missed:
  "last (mo_jobs (cn_out (snd (createMessage 1 demo_env
      \<lparr>cr_channelId = 1, cr_senderId = 7, cr_content = JStr (js ''hi''), cr_parentId = None, cr_mentions = None,
       cr_attachments = Some [\<lparr>fl_id = 55, fl_publicId = [], fl_url = [], fl_filename = [], fl_mimeType = [],
          fl_size = 1, fl_type = [], fl_thumbnailUrl = None\<rparr>]\<rparr> (connect empty_db demo_out)))))
   = UpdateResources [100] 1"
  by code_simp

text \<open>
  A mark whose link is a number makes the request fail although the message is stored, and
  nobody is told of the message.
\<close>

theorem stored_but_refused:
  "let (r, s) = createMessage 1 demo_env
      \<lparr>cr_channelId = 1, cr_senderId = 7,
       cr_content = JObj [(js ''marks'', JArr [JObj [(js ''type'', JStr (js ''link'')),
          (js ''attrs'', JObj [(js ''href'', JNum (js ''5''))])]])],
       cr_parentId = None, cr_mentions = None, cr_attachments = None\<rparr> (connect empty_db demo_out)
   in r = Inl (Broken (js ''replace'')) \<and> map ms_id (messages (cn_committed s)) = [1] \<and> mo_jobs (cn_out s) = []"
  by code_simp

text \<open>A message that was deleted still is among the pinned messages, from the cache.\<close>

theorem deleted_message_stays_pinned:
  "let pins = getPinnedMessages demo_env 1 7 None None;
       s = snd (togglePin demo_env 4 7 (connect demo_thread demo_out));
       s = snd (pins s);
       s = snd (deleteMessage demo_env 4 7 s)
   in find_message 4 (cn_committed s) = None \<and> (case fst (pins s) of Inr p \<Rightarrow> map md_id (pg_messages p) | Inl _ \<Rightarrow> []) = [4]"
  by code_simp

text \<open>The page around a message, asked for with a limit of one, does not contain the message.\<close>

theorem surroundings_miss_the_message:
  "(case fst (getSurroundingMessages demo_env 1 7 4 (Some 1) (connect demo_thread demo_out)) of
      Inr p \<Rightarrow> su_messages p = [] \<and> su_hasMoreBefore p | Inl _ \<Rightarrow> False)"
  by code_simp

text \<open>
  Asking for newer messages without a cursor gives the newest page oldest first, and a
  cursor that leads into the same page again.
\<close>

theorem newer_without_cursor_repeats:
  "let q = \<lparr>gq_channelId = Some 1, gq_userId = 7, gq_parentId = None, gq_limit = Some 2, gq_cursor = None, gq_after = True, gq_afterDate = None\<rparr>;
       db = demo_db (map (\<lambda>i. demo_message i None 7 []) [1, 2, 3, 4]);
       ids = (\<lambda>q. case fst (getMessages demo_env q (connect db demo_out)) of Inr p \<Rightarrow> (map md_id (pg_messages p), pg_nextCursor p) | Inl _ \<Rightarrow> ([], None))
   in ids q = ([3, 4], Some 3) \<and> ids (q\<lparr>gq_cursor := Some 3\<rparr>) = ([4], None)"
  by code_simp

end
