(* ===== verification/Keyset.thy ===== *)
theory Keyset
  imports Service
begin

text \<open>
  The contract of a list that is read page by page, newest first, each page from the last id
  of the one before, and what a client gets who follows the cursors to the end while new
  rows arrive.
\<close>

definition below :: "uuid option \<Rightarrow> uuid \<Rightarrow> bool" where
  "below c i \<longleftrightarrow> (case c of None \<Rightarrow> True | Some k \<Rightarrow> i < k)"

definition page_law :: "nat \<Rightarrow> uuid list \<Rightarrow> uuid list \<times> uuid option" where
  "page_law limit rest =
     (take limit rest, if length rest > limit then Some (last (take limit rest)) else None)"

definition newest_first :: "uuid list \<Rightarrow> bool" where
  "newest_first is \<longleftrightarrow> sorted_wrt (\<lambda>x y. y < x) is"

lemma newest_first_filter: "newest_first xs \<Longrightarrow> newest_first (filter P xs)"
  by (simp add: newest_first_def sorted_wrt_filter)

lemma below_last:
  assumes "newest_first xs" "0 < n" "n < length xs"
  shows "filter (below (Some (last (take n xs)))) xs = drop n xs"
proof -
  have xs: "xs = take n xs @ drop n xs" by simp
  have t: "take n xs \<noteq> []" using assms by auto
  have s: "sorted_wrt (\<lambda>x y. y < x) (take n xs @ drop n xs)" using assms(1) by (simp add: newest_first_def)
  then have "y < last (take n xs)" if "y \<in> set (drop n xs)" for y
    using that t unfolding sorted_wrt_append by auto
  moreover have "last (take n xs) \<le> y" if "y \<in> set (take n xs)" for y
  proof -
    obtain j where j: "j < n" "xs ! j = y" using \<open>y \<in> set (take n xs)\<close> by (auto simp: in_set_conv_nth)
    have "last (take n xs) = xs ! (n - 1)" using assms t by (simp add: last_conv_nth)
    moreover have "xs ! (n - 1) \<le> xs ! j"
    proof (cases "j = n - 1")
      case False
      then have "j < n - 1" using j by simp
      then have "xs ! (n - 1) < xs ! j"
        using sorted_wrt_nth_less [of "\<lambda>x y. y < x" xs j "n - 1"] assms by (simp add: newest_first_def)
      then show ?thesis by simp
    qed simp
    ultimately show ?thesis using j by simp
  qed
  ultimately have "filter (below (Some (last (take n xs)))) (take n xs) = []"
    "filter (below (Some (last (take n xs)))) (drop n xs) = drop n xs"
    by (fastforce simp: below_def filter_empty_conv filter_id_conv)+
  then show ?thesis using xs by (metis append_self_conv2 filter_append)
qed

text \<open>Follow the cursors; the rows may have changed before each page.\<close>

fun walk :: "('d \<Rightarrow> uuid option \<Rightarrow> uuid list \<times> uuid option) \<Rightarrow> nat \<Rightarrow> (nat \<Rightarrow> 'd) \<Rightarrow> uuid option \<Rightarrow> uuid list" where
  "walk fetch_page 0 ds c = []"
| "walk fetch_page (Suc n) ds c =
     (case fetch_page (ds 0) c of
        (is, None) \<Rightarrow> is
      | (is, Some k) \<Rightarrow> is @ walk fetch_page n (\<lambda>j. ds (Suc j)) (Some k))"

locale keyset_pages =
  fixes fetch_page :: "'d \<Rightarrow> uuid option \<Rightarrow> uuid list \<times> uuid option"
    and view :: "'d \<Rightarrow> uuid list"
    and ok :: "'d \<Rightarrow> bool"
    and limit :: nat
  assumes limit_pos: "0 < limit"
    and view_sorted: "ok d \<Longrightarrow> newest_first (view d)"
    and page: "fetch_page d c = page_law limit (filter (below c) (view d))"
begin

definition only_newer :: "uuid list \<Rightarrow> 'd \<Rightarrow> bool" where
  "only_newer old d \<longleftrightarrow> ok d \<and> (\<exists>new. view d = new @ old)"

lemma rest_of_old:
  assumes "only_newer old d" "k \<in> set old"
  shows "filter (below (Some k)) (view d) = filter (below (Some k)) old"
proof -
  obtain new where v: "view d = new @ old" "newest_first (new @ old)"
    using assms(1) view_sorted [of d] by (auto simp: only_newer_def)
  then have "k < x" if "x \<in> set new" for x
    using that assms(2) by (auto simp: newest_first_def sorted_wrt_append)
  then have "filter (below (Some k)) new = []" by (auto simp: filter_empty_conv below_def dest: less_trans)
  then show ?thesis using v by simp
qed

lemma walk_rest:
  assumes "\<forall>j. only_newer old (ds j)" "newest_first old" "rest = filter (below c) old"
    "filter (below c) (view (ds 0)) = rest" "length rest < n"
  shows "walk fetch_page n ds c = rest"
  using assms
proof (induction n arbitrary: ds c rest)
  case (Suc n)
  have first: "fetch_page (ds 0) c = (take limit rest, if length rest > limit then Some (last (take limit rest)) else None)"
    using page [of "ds 0" c] Suc.prems(4) by (simp add: page_law_def)
  show ?case
  proof (cases "length rest > limit")
    case False
    then show ?thesis by (simp add: first)
  next
    case True
    define k where "k = last (take limit rest)"
    have "take limit rest \<noteq> []" using True limit_pos by auto
    then have k: "k \<in> set rest" unfolding k_def by (meson in_set_takeD last_in_set)
    then have "below c k" using Suc.prems(3) by simp
    then have "(below c x \<and> below (Some k) x) = below (Some k) x" for x
      by (cases c) (auto simp: below_def)
    then have "filter (below (Some k)) rest = filter (below (Some k)) old"
      unfolding Suc.prems(3) filter_filter by simp
    moreover have "filter (below (Some k)) rest = drop limit rest"
      unfolding k_def by (rule below_last) (use Suc.prems(2,3) newest_first_filter limit_pos True in simp_all)
    ultimately have later: "filter (below (Some k)) old = drop limit rest" by simp
    have "k \<in> set old" using k Suc.prems(3) by simp
    then have "filter (below (Some k)) (view (ds (Suc 0))) = drop limit rest"
      using rest_of_old [of old "ds (Suc 0)" k] Suc.prems(1) later by auto
    then have "walk fetch_page n (\<lambda>j. ds (Suc j)) (Some k) = drop limit rest"
      using Suc.prems(1,2,5) later limit_pos True by (intro Suc.IH) simp_all
    then show ?thesis using True by (simp add: first k_def)
  qed
qed simp

lemma walk_complete:
  assumes "\<forall>j. only_newer (view (ds 0)) (ds j)" "length (view (ds 0)) < n"
  shows "walk fetch_page n ds None = view (ds 0)"
proof -
  have all: "filter (below None) xs = xs" for xs :: "uuid list" by (simp add: below_def)
  have "ok (ds 0)" using assms(1) by (simp add: only_newer_def)
  then show ?thesis
    by (intro walk_rest [OF assms(1)]) (use assms(2) view_sorted all in auto)
qed

end

end
