(* ===== verification/Message_Pages.thy ===== *)
theory Message_Pages
  imports Message_Faults Keyset
begin

text \<open>
  The pages of a channel, of a thread and of a search keep the contract of \<open>Keyset\<close>.
\<close>

section \<open>Pages as ids\<close>

definition page_ids :: "(rpc_error + page) \<Rightarrow> uuid list \<times> uuid option" where
  "page_ids r = (case r of Inr p \<Rightarrow> (map md_id (pg_messages p), pg_nextCursor p) | Inl _ \<Rightarrow> ([], None))"

lemma hydrate_ids: "map md_id (hydrate env db v es) = map (ms_id \<circ> en_row) es"
  by (simp add: hydrate_def mapToResponseDto_def Let_def)

lemma load_row [simp]: "en_row (load db m) = m"
  by (simp add: load_def)

text \<open>The rows of a query, newest first, and the page cut from them.\<close>

lemma descending_ids: "distinct (map ms_id ms) \<Longrightarrow> newest_first (map ms_id (descending ms))"
proof -
  assume d: "distinct (map ms_id ms)"
  have "sorted (map ms_id (sort_key ms_id ms))" by (rule sorted_sort_key)
  moreover have "distinct (map ms_id (sort_key ms_id ms))" using d by (simp add: distinct_map)
  ultimately have "sorted_wrt (<) (map ms_id (sort_key ms_id ms))" by (simp add: strict_sorted_iff)
  then show ?thesis by (simp add: newest_first_def descending_def sorted_wrt_rev flip: rev_map)
qed

lemma descending_filter: "descending (filter P ms) = filter P (descending ms)"
  by (simp add: descending_def filter_sort flip: rev_filter)

lemma map_filter_below: "map ms_id (filter (after_cursor c) ms) = filter (below c) (map ms_id ms)"
  by (induction ms) (simp_all add: after_cursor_def below_def)

lemma page_of_ids:
  assumes "rows = take (limit + 1) rest" "0 < limit"
  shows "page_ids (fst (page_of env limit rows s)) = page_law limit (map ms_id rest)"
proof (cases "length rest > limit")
  case True
  then have rows: "length rows > limit" "take limit rows = take limit rest" "take limit rest \<noteq> []"
    using assms by (auto simp: min_def)
  then have "fst (page_of env limit rows s) = Inr \<lparr>pg_messages = hydrate env (cn_current s) None (map (load (cn_current s)) (take limit rest)),
       pg_nextCursor = Some (ms_id (last (take limit rest)))\<rparr>"
    by (simp add: page_of_def hydrateMessages_def next_cursor_def last_id_def act_unfold)
  then show ?thesis using True rows(3) by (simp add: page_ids_def page_law_def hydrate_ids comp_def take_map last_map)
next
  case False
  then have "fst (page_of env limit rows s) = Inr \<lparr>pg_messages = hydrate env (cn_current s) None (map (load (cn_current s)) rest),
       pg_nextCursor = None\<rparr>"
    using assms by (simp add: page_of_def hydrateMessages_def next_cursor_def act_unfold)
  then show ?thesis using False by (simp add: page_ids_def page_law_def hydrate_ids comp_def)
qed

section \<open>The pages of a channel and of a search\<close>

definition channel_query :: "uuid \<Rightarrow> uuid \<Rightarrow> int option \<Rightarrow> uuid option \<Rightarrow> nat \<Rightarrow> uuid option \<Rightarrow> get_query" where
  "channel_query ch u since parent n c =
     \<lparr>gq_channelId = Some ch, gq_userId = u, gq_parentId = parent, gq_limit = Some n, gq_cursor = c,
      gq_after = False, gq_afterDate = since\<rparr>"

definition channel_page :: "msg_env \<Rightarrow> uuid \<Rightarrow> uuid \<Rightarrow> int option \<Rightarrow> uuid option \<Rightarrow> nat \<Rightarrow> msg_out \<Rightarrow> msg_db \<Rightarrow> uuid option \<Rightarrow>
    uuid list \<times> uuid option" where
  "channel_page env ch u since parent n out db c =
     page_ids (fst (getMessages env (channel_query ch u since parent n c) (connect db out)))"

definition is_member :: "msg_env \<Rightarrow> uuid \<Rightarrow> uuid \<Rightarrow> bool" where
  "is_member env ch u \<longleftrightarrow> (case me_channel env ch u of Inr (Some c) \<Rightarrow> True | _ \<Rightarrow> False)"

definition channel_ids :: "msg_env \<Rightarrow> uuid \<Rightarrow> uuid \<Rightarrow> int option \<Rightarrow> uuid option \<Rightarrow> msg_db \<Rightarrow> uuid list" where
  "channel_ids env ch u since parent db =
    (if is_member env ch u
     then map ms_id (descending (filter (\<lambda>m. ms_channelId m = ch \<and> ms_parentId m = parent \<and>
        (case since of None \<Rightarrow> True | Some d \<Rightarrow> ms_createdAt m \<ge> d)) (messages db)))
     else [])"

definition search_page :: "msg_env \<Rightarrow> jstr \<Rightarrow> uuid \<Rightarrow> uuid \<Rightarrow> nat \<Rightarrow> msg_out \<Rightarrow> msg_db \<Rightarrow> uuid option \<Rightarrow> uuid list \<times> uuid option" where
  "search_page env k ch u n out db c = page_ids (fst (searchMessages env k ch u (Some n) c (connect db out)))"

definition search_ids :: "msg_env \<Rightarrow> jstr \<Rightarrow> uuid \<Rightarrow> uuid \<Rightarrow> msg_db \<Rightarrow> uuid list" where
  "search_ids env k ch u db =
    (if is_member env ch u \<and> formattedKeyword k \<noteq> []
     then map ms_id (descending (filter (\<lambda>m. ms_channelId m = ch \<and> me_matches env (formattedKeyword k) (ms_content m)) (messages db)))
     else [])"

lemma refused_check:
  "\<not> is_member env ch u \<Longrightarrow> \<exists>e. checkChannelExist env ch u s = (Inl e, s)"
  "is_member env ch u \<Longrightarrow> \<exists>c. checkChannelExist env ch u s = (Inr c, s)"
  by (auto simp: is_member_def checkChannelExist_def throw_def ret_def split: sum.split option.split)

lemma page_law_Nil [simp]: "page_law n [] = ([], None)"
  by (simp add: page_law_def)

lemma fst_transaction: "fst (transaction m s) = fst (m (s\<lparr>cn_current := cn_committed s, cn_inTx := True\<rparr>))"
  by (simp add: transaction_def Let_def split: prod.split)

lemma search_page_law:
  assumes "0 < n"
  shows "search_page env k ch u n out db c = page_law n (filter (below c) (search_ids env k ch u db))"
proof (cases "is_member env ch u \<and> formattedKeyword k \<noteq> []")
  case True
  let ?P = "\<lambda>m. ms_channelId m = ch \<and> me_matches env (formattedKeyword k) (ms_content m)"
  let ?rest = "descending (filter (\<lambda>m. ms_channelId m = ch \<and> me_matches env (formattedKeyword k) (ms_content m) \<and> after_cursor c m) (messages db))"
  let ?s = "(connect db out)\<lparr>cn_current := db, cn_inTx := True\<rparr>"
  have "filter (below c) (search_ids env k ch u db) = map ms_id ?rest"
    using True by (auto simp: search_ids_def descending_filter map_filter_below [symmetric]
        intro!: arg_cong [where f = "map ms_id"] filter_cong)
  moreover have "page_ids (fst (searchMessages env k ch u (Some n) c (connect db out)))
      = page_ids (fst (page_of env n (take (n + 1) ?rest) ?s))"
    using refused_check(2) [of env ch u "connect db out"] True
    by (auto simp: searchMessages_def fst_transaction andThen_def [of "checkChannelExist env ch u"] andThen_def [of "fetch _"] fetch_def
        split: prod.split)
  ultimately show ?thesis using page_of_ids [OF refl assms] by (simp add: search_page_def)
next
  case False
  then show ?thesis
    using refused_check [of env ch u "connect db out"]
    by (cases "is_member env ch u")
      (auto simp: search_page_def search_ids_def searchMessages_def transaction_def Let_def andThen_def ret_def page_ids_def)
qed

lemma channel_page_law:
  assumes "0 < n"
  shows "channel_page env ch u since parent n out db c = page_law n (filter (below c) (channel_ids env ch u since parent db))"
proof (cases "is_member env ch u")
  case True
  let ?q = "channel_query ch u since parent n c"
  let ?rest = "descending (filter (message_selected ?q (Some ch)) (messages db))"
  let ?s = "(connect db out)\<lparr>cn_current := db, cn_inTx := True\<rparr>"
  have sel: "message_selected ?q (Some ch) m \<longleftrightarrow> (ms_channelId m = ch \<and> ms_parentId m = parent \<and>
        (case since of None \<Rightarrow> True | Some d \<Rightarrow> ms_createdAt m \<ge> d)) \<and> after_cursor c m" for m
    by (auto simp: message_selected_def channel_query_def after_cursor_def split: option.split)
  have ids: "filter (below c) (channel_ids env ch u since parent db) = map ms_id ?rest"
    using True unfolding sel by (simp add: channel_ids_def descending_filter map_filter_below [symmetric] conj_commute)
  moreover have "getMessages env ?q = andThen (andThen (checkChannelExist env ch u) (\<lambda>_. ret ())) (\<lambda>_.
      transaction (andThen (fetch (selected_rows ?q)) (page_of env n)))"
    by (simp add: getMessages_def channel_query_def page_of_def [abs_def] Let_def)
  moreover have "selected_rows ?q db = take (n + 1) ?rest"
    by (simp add: selected_rows_def channel_query_def)
  ultimately have "page_ids (fst (getMessages env ?q (connect db out))) = page_ids (fst (page_of env n (take (n + 1) ?rest) ?s))"
    using refused_check(2) [of env ch u "connect db out"] True
    by (auto simp: fst_transaction andThen_def [of "checkChannelExist env ch u"] andThen_def [of "andThen _ _"]
        andThen_def [of "fetch _"] fetch_def ret_def split: prod.split)
  then show ?thesis using page_of_ids [OF refl assms] ids by (simp add: channel_page_def)
next
  case False
  then show ?thesis
    using refused_check(1) [of env ch u "connect db out"]
    by (auto simp: channel_page_def channel_ids_def getMessages_def channel_query_def andThen_def page_ids_def)
qed

interpretation channel: keyset_pages "channel_page env ch u since parent (Suc n) out" "channel_ids env ch u since parent" msg_ok "Suc n"
proof unfold_locales
  show "channel_page env ch u since parent (Suc n) out d c = page_law (Suc n) (filter (below c) (channel_ids env ch u since parent d))" for d c
    by (rule channel_page_law) simp
  show "newest_first (channel_ids env ch u since parent d)" if "msg_ok d" for d
    using that by (auto simp: channel_ids_def msg_ok_def newest_first_def [of "[]"] intro!: descending_ids distinct_map_filter)
qed simp

interpretation search: keyset_pages "search_page env k ch u (Suc n) out" "search_ids env k ch u" msg_ok "Suc n"
proof unfold_locales
  show "search_page env k ch u (Suc n) out d c = page_law (Suc n) (filter (below c) (search_ids env k ch u d))" for d c
    by (rule search_page_law) simp
  show "newest_first (search_ids env k ch u d)" if "msg_ok d" for d
    using that by (auto simp: search_ids_def msg_ok_def newest_first_def [of "[]"] intro!: descending_ids distinct_map_filter)
qed simp

text \<open>
  C8: who scrolls back through a channel or a thread to the end sees every message that was there
  at the start exactly once, newest first, however many messages arrive meanwhile.
\<close>

theorem scrolling_back_is_complete:
  assumes "\<forall>j. msg_ok (dbs j) \<and> (\<exists>new. channel_ids env ch u since parent (dbs j) = new @ channel_ids env ch u since parent (dbs 0))"
    "length (channel_ids env ch u since parent (dbs 0)) < fuel"
  shows "walk (channel_page env ch u since parent (Suc n) out) fuel dbs None = channel_ids env ch u since parent (dbs 0)"
  by (rule channel.walk_complete) (use assms in \<open>simp_all add: channel.only_newer_def\<close>)

definition arrivals :: "nat \<Rightarrow> msg_db" where
  "arrivals j = demo_db (map (\<lambda>i. demo_message i None 7 []) [1..<(if j = 0 then 4 else 6)])"

lemma scrolling_back_is_complete_witness:
  "walk (channel_page demo_env 1 7 None None (Suc 0) demo_out) 4 arrivals None = [3, 2, 1]"
proof -
  have ok: "msg_ok (arrivals j)" for j
    by (simp add: arrivals_def msg_ok_def comp_def parents_ok_def dependents_ok_def votes_ok_def)
  have ids: "channel_ids demo_env 1 7 None None (arrivals j) = (if j = 0 then [3, 2, 1] else [5, 4, 3, 2, 1])" for j
    by (cases "j = 0") (simp_all only: arrivals_def if_True if_False, code_simp+)
  show ?thesis
    using scrolling_back_is_complete [of arrivals demo_env 1 7 None None 4 0 demo_out] ok ids by simp
qed

end
