(* ===== verification/Thread_Service.thy ===== *)
theory Thread_Service
  imports Message_Pages
begin

text \<open>
  \<open>service/thread.service.ts\<close>: the threads of a user, newest activity first, and the replies
  of one thread. Rows of equal activity or time come in the order of the table, newest last.
\<close>

definition involved_roots :: "uuid list \<Rightarrow> uuid \<Rightarrow> msg_db \<Rightarrow> uuid set" where
  "involved_roots channelIds u db =
     (\<lambda>m. nullish (ms_parentId m) (ms_id m)) `
       set (filter (\<lambda>m. ms_channelId m \<in> set channelIds \<and>
          (ms_userId m = Some u \<or> (\<exists>r \<in> set (mentions db). mn_messageId r = ms_id m \<and> mn_userId r = u))) (messages db))"

definition replies :: "uuid \<Rightarrow> msg_db \<Rightarrow> message list" where
  "replies root db = filter (\<lambda>m. ms_parentId m = Some root) (messages db)"

definition lastActivity :: "msg_db \<Rightarrow> message \<Rightarrow> int" where
  "lastActivity db root = foldr max (map ms_createdAt (replies (ms_id root) db)) 0"

definition paged_roots :: "uuid list \<Rightarrow> uuid \<Rightarrow> nat \<Rightarrow> uuid option \<Rightarrow> msg_db \<Rightarrow> message list" where
  "paged_roots channelIds u limit cursor db =
     take (limit + 1) (rev (sort_key (lastActivity db) (filter
       (\<lambda>r. ms_id r \<in> involved_roots channelIds u db \<and> ms_parentId r = None \<and> replies (ms_id r) db \<noteq> [] \<and> after_cursor cursor r)
       (messages db))))"

text \<open>\<open>channelsOf\<close> answers \<open>GET_CHANNELS\<close> of the channel service.\<close>

definition getUserThreads ::
    "msg_env \<Rightarrow> (uuid \<Rightarrow> uuid \<Rightarrow> rpc_error + uuid list) \<Rightarrow> uuid \<Rightarrow> uuid \<Rightarrow> nat option \<Rightarrow> uuid option \<Rightarrow> page msg_act" where
  "getUserThreads env channelsOf userId workspaceId limit cursor =
    andThen (from_sum (channelsOf workspaceId userId)) (\<lambda>channelIds.
      if channelIds = [] then ret \<lparr>pg_messages = [], pg_nextCursor = None\<rparr>
      else transaction
        (andThen (fetch (paged_roots channelIds userId (nullish limit 10) cursor)) (page_of env (nullish limit 10))))"

definition getFullThread :: "msg_env \<Rightarrow> uuid \<Rightarrow> nat option \<Rightarrow> uuid option \<Rightarrow> page msg_act" where
  "getFullThread env threadId limit cursor = transaction
    (andThen (fetch (\<lambda>db. take (nullish limit 30 + 1)
         (rev (sort_key ms_createdAt (filter (after_cursor cursor) (replies threadId db)))))) (\<lambda>rows.
     let hasMore = length rows > nullish limit 30;
         result = (if hasMore then take (nullish limit 30) rows else rows)
     in andThen (hydrateMessages env None (map bare result)) (\<lambda>response.
        andThen (next_cursor hasMore (last_id result)) (\<lambda>c.
        ret \<lparr>pg_messages = response, pg_nextCursor = c\<rparr>))))"

section \<open>Threads that are never shown\<close>

definition thread_page :: "nat \<Rightarrow> msg_db \<Rightarrow> uuid option \<Rightarrow> uuid list \<times> uuid option" where
  "thread_page n db c =
     page_ids (fst (getUserThreads demo_env (\<lambda>_ _. Inr [1]) 7 9 (Some n) c (connect db demo_out)))"

text \<open>
  The list of threads is ordered by the last reply but its cursor is the id of the first
  message: after a reply to the oldest thread the other threads are on no page.
\<close>

theorem threads_are_lost:
  "let db = demo_db [demo_message 1 None 7 [], demo_message 2 None 7 [], demo_message 3 (Some 2) 8 [], demo_message 4 (Some 1) 8 []]
   in fst (thread_page 10 db None) = [1, 2] \<and> walk (thread_page 1) 5 (\<lambda>_. db) None = [1]"
  by code_simp

text \<open>
  The replies of a thread are given to everybody: even where the channel refuses every user
  the page of the thread is answered.
\<close>

theorem thread_is_open_to_all:
  "let env = demo_env\<lparr>me_channel := (\<lambda>_ _. Inr None)\<rparr>
   in fst (getMessageById env 2 u (connect demo_thread demo_out)) = Inl (Plain channel_refused) \<and>
      page_ids (fst (getFullThread env 1 None None (connect demo_thread demo_out))) = ([2], None)"
  by code_simp

text \<open>The replies of a thread come without their reactions, mentions and attachments.\<close>

lemma full_thread_lacks_relations:
  "(case fst (getFullThread env root limit cursor (connect db out)) of
      Inl _ \<Rightarrow> True
    | Inr p \<Rightarrow> filter (\<lambda>d. md_reactions d \<noteq> [] \<or> md_attachments d \<noteq> []) (pg_messages p) = [])"
  by (auto simp: getFullThread_def transaction_def act_unfold hydrateMessages_def next_cursor_def last_id_def
      hydrate_def mapToResponseDto_def bare_def groupReactions_def filter_empty_conv split: prod.splits sum.splits if_splits)

end
