(* ===== verification/Auth_Data.thy ===== *)
theory Auth_Data
  imports Service
begin

text \<open>
  The data of the auth service (\<open>apps/auth/src\<close>): the rows of its tables (\<open>entity/\<close>), the
  claims of its tokens, what it keeps in Redis (\<open>libs/cached/src/authCached.service.ts\<close>), and
  the surroundings: JSON web tokens, SHA-256, argon2 and the user service are arguments.
  Rows with a unique index are identified by it and have no id here. Times are milliseconds.
\<close>

section \<open>Rows\<close>

datatype provider = LOCAL | GOOGLE | SSO

record auth_row =
  au_userId :: uuid
  au_provider :: provider
  au_providerId :: jstr
  au_password :: jstr

datatype verification_action = VERIFY_EMAIL | RESET_PASSWORD

record verification =
  vf_id :: uuid
  vf_userId :: uuid
  vf_code :: uuid
  vf_isUsed :: bool
  vf_action :: verification_action
  vf_expiresAt :: int

record session =
  se_userId :: uuid
  se_refreshToken :: jstr            \<comment> \<open>its hash\<close>
  se_device :: "jstr option"
  se_ipAddress :: "jstr option"
  se_userAgent :: "jstr option"
  se_isRevoked :: bool
  se_expiresAt :: int

record device =
  dv_userId :: uuid
  dv_deviceId :: jstr
  dv_ipAddress :: "jstr option"
  dv_userAgent :: "jstr option"
  dv_isTrusted :: bool
  dv_lastLoginAt :: int

record auth_db =
  auths :: "auth_row list"
  verifications :: "verification list"
  sessions :: "session list"
  devices :: "device list"

record metadata =
  rq_ipAddress :: "jstr option"
  rq_userAgent :: "jstr option"
  rq_device :: "jstr option"

record user =
  ur_id :: uuid
  ur_email :: jstr
  ur_status :: jstr
  ur_isTwoFactorEnabled :: bool

section \<open>Tokens\<close>

record claims =
  cl_sub :: uuid
  cl_email :: "jstr option"
  cl_tokenVersion :: "int option"
  cl_jti :: "uuid option"
  cl_state :: "jstr option"
  cl_type :: "jstr option"
  cl_deviceId :: "jstr option"
  cl_clientId :: "jstr option"
  cl_scopes :: "jstr list option"

definition claims_of :: "uuid \<Rightarrow> claims" where
  "claims_of u = \<lparr>cl_sub = u, cl_email = None, cl_tokenVersion = None, cl_jti = None, cl_state = None,
     cl_type = None, cl_deviceId = None, cl_clientId = None, cl_scopes = None\<rparr>"

definition OTP_STATE :: jstr where "OTP_STATE = js ''2FA_OTP_IS_BEING_VERIFIED''"
definition SECURE_ACCOUNT :: jstr where "SECURE_ACCOUNT = js ''SECURE_ACCOUNT''"

record tokens =
  tk_accessToken :: jstr
  tk_refreshToken :: jstr

datatype login_response = Tokens tokens | TwoFactor jstr

section \<open>Surroundings\<close>

record auth_env =
  ae_now :: int
  ae_rowId :: uuid                                                   \<comment> \<open>the id the database gives a new verification\<close>
  ae_code :: uuid                                                    \<comment> \<open>\<open>v7()\<close> as a code\<close>
  ae_jti :: uuid                                                     \<comment> \<open>\<open>v7()\<close> as the \<open>jti\<close> of a token\<close>
  ae_sign :: "claims \<Rightarrow> int \<Rightarrow> int \<Rightarrow> jstr"                           \<comment> \<open>claims, now, \<open>expiresIn\<close> in seconds\<close>
  ae_verify :: "jstr \<Rightarrow> int \<Rightarrow> claims option"
  ae_decode :: "jstr \<Rightarrow> claims option"
  ae_sha256 :: "jstr \<Rightarrow> jstr"
  ae_argonHash :: "jstr \<Rightarrow> jstr"
  ae_argonVerify :: "jstr \<Rightarrow> jstr \<Rightarrow> bool"
  ae_createUser :: "rpc_error + user"
  ae_deleteUser :: "rpc_error + unit"
  ae_changeStatus :: "rpc_error + unit"
  ae_userByEmail :: "rpc_error + user option"
  ae_userById :: "uuid \<Rightarrow> rpc_error + user option"
  ae_verifyOtp :: "uuid \<Rightarrow> jstr \<Rightarrow> rpc_error + unit"

datatype auth_event =
    SendVerificationEmail jstr uuid
  | SendPasswordResetEmail jstr uuid
  | SendUnrecognizedDeviceEmail jstr jstr     \<comment> \<open>with the token that secures the account\<close>
  | ForceLogout uuid
  | UserCreated jstr jstr
  | UserDeleted uuid
  | StatusChanged uuid jstr
  | PresenceRemoved uuid

record auth_out =
  ao_events :: "auth_event list"
  ao_version :: "uuid \<rightharpoonup> int"
  ao_blacklist :: "jstr \<rightharpoonup> int"            \<comment> \<open>until when\<close>
  ao_rotation :: "jstr \<rightharpoonup> tokens \<times> int"

type_synonym 'a auth_act = "(auth_db, auth_out, 'a) act"

text \<open>
  What is relied on: a signed token is verified with its claims until it expires, whole seconds
  counted; equal hashes come from equal texts; a password matches the hash of itself only.
\<close>

definition expiry :: "int \<Rightarrow> int \<Rightarrow> int" where
  "expiry now life = 1000 * (now div 1000 + life)"

definition jwt_ok :: "auth_env \<Rightarrow> bool" where
  "jwt_ok env \<longleftrightarrow> (\<forall>c now life t. ae_verify env (ae_sign env c now life) t = (if t < expiry now life then Some c else None))"

definition sha_ok :: "auth_env \<Rightarrow> bool" where
  "sha_ok env \<longleftrightarrow> inj (ae_sha256 env)"

definition argon_ok :: "auth_env \<Rightarrow> bool" where
  "argon_ok env \<longleftrightarrow> (\<forall>p q. ae_argonVerify env (ae_argonHash env p) q \<longleftrightarrow> p = q)"

section \<open>Units of time and the entries in Redis\<close>

datatype ttl_unit = DAY | HOUR | MINUTE | SECOND

definition buildTTL :: "ttl_unit \<Rightarrow> int \<Rightarrow> int" where
  "buildTTL u v = (case u of
     DAY \<Rightarrow> v * 24 * 60 * 60 * 1000 | HOUR \<Rightarrow> v * 60 * 60 * 1000 | MINUTE \<Rightarrow> v * 60 * 1000 | SECOND \<Rightarrow> v * 1000)"

text \<open>\<open>SET key value EX seconds\<close> and \<open>GET\<close>.\<close>

definition set_ex :: "int \<Rightarrow> int \<Rightarrow> int" where
  "set_ex now seconds = now + 1000 * seconds"

definition blacklistToken :: "auth_env \<Rightarrow> jstr \<Rightarrow> int \<Rightarrow> unit auth_act" where
  "blacklistToken env token expiresIn =
     tell (\<lambda>o'. o'\<lparr>ao_blacklist := (ao_blacklist o')(ae_sha256 env token \<mapsto> set_ex (ae_now env) expiresIn)\<rparr>)"

definition isBlacklisted :: "auth_env \<Rightarrow> jstr \<Rightarrow> auth_out \<Rightarrow> bool" where
  "isBlacklisted env token o' \<longleftrightarrow> (case ao_blacklist o' (ae_sha256 env token) of None \<Rightarrow> False | Some t \<Rightarrow> ae_now env < t)"

definition getUserTokenVersion :: "uuid \<Rightarrow> auth_out \<Rightarrow> int" where
  "getUserTokenVersion u o' = (case ao_version o' u of Some v \<Rightarrow> v | None \<Rightarrow> 1)"

text \<open>\<open>INCR\<close> counts from 0 where there is no key.\<close>

definition bumpUserTokenVersion :: "uuid \<Rightarrow> unit auth_act" where
  "bumpUserTokenVersion u = tell (\<lambda>o'. o'\<lparr>ao_version := (ao_version o')(u \<mapsto> nullish (ao_version o' u) 0 + 1)\<rparr>)"

definition ROTATION_GRACE_TTL :: int where "ROTATION_GRACE_TTL = 15"

definition cacheRotationResult :: "auth_env \<Rightarrow> jstr \<Rightarrow> tokens \<Rightarrow> unit auth_act" where
  "cacheRotationResult env old new =
     tell (\<lambda>o'. o'\<lparr>ao_rotation := (ao_rotation o')(ae_sha256 env old \<mapsto> (new, set_ex (ae_now env) ROTATION_GRACE_TTL))\<rparr>)"

definition getRotationResult :: "auth_env \<Rightarrow> jstr \<Rightarrow> auth_out \<Rightarrow> tokens option" where
  "getRotationResult env old o' =
    (case ao_rotation o' (ae_sha256 env old) of None \<Rightarrow> None | Some (new, t) \<Rightarrow> if ae_now env < t then Some new else None)"

text \<open>Statements.\<close>

definition log_event :: "auth_event \<Rightarrow> unit auth_act" where
  "log_event e = tell (\<lambda>o'. o'\<lparr>ao_events := ao_events o' @ [e]\<rparr>)"

definition find_auth :: "provider \<Rightarrow> jstr \<Rightarrow> auth_db \<Rightarrow> auth_row option" where
  "find_auth p email db = find (\<lambda>a. au_providerId a = email \<and> au_provider a = p) (auths db)"

definition find_local :: "uuid \<Rightarrow> auth_db \<Rightarrow> auth_row option" where
  "find_local u db = find (\<lambda>a. au_userId a = u \<and> au_provider a = LOCAL) (auths db)"

definition insert_auth :: "auth_row \<Rightarrow> unit auth_act" where
  "insert_auth a = checked (\<lambda>db. find_auth (au_provider a) (au_providerId a) db = None)
     (\<lambda>db. db\<lparr>auths := auths db @ [a]\<rparr>)"

definition set_password :: "auth_row \<Rightarrow> jstr \<Rightarrow> unit auth_act" where
  "set_password a h = store (\<lambda>db. db\<lparr>auths := map
     (\<lambda>x. if au_provider x = au_provider a \<and> au_providerId x = au_providerId a then x\<lparr>au_password := h\<rparr> else x) (auths db)\<rparr>)"

definition insert_verification :: "verification \<Rightarrow> unit auth_act" where
  "insert_verification v = store (\<lambda>db. db\<lparr>verifications := verifications db @ [v]\<rparr>)"

definition save_verification :: "verification \<Rightarrow> unit auth_act" where
  "save_verification v = store (\<lambda>db. db\<lparr>verifications := map (\<lambda>x. if vf_id x = vf_id v then v else x) (verifications db)\<rparr>)"

definition insert_session :: "session \<Rightarrow> unit auth_act" where
  "insert_session s = checked (\<lambda>db. se_refreshToken s \<notin> se_refreshToken ` set (sessions db))
     (\<lambda>db. db\<lparr>sessions := sessions db @ [s]\<rparr>)"

definition revoke_where :: "(session \<Rightarrow> bool) \<Rightarrow> auth_db \<Rightarrow> auth_db" where
  "revoke_where P db = db\<lparr>sessions := map (\<lambda>s. if P s \<and> \<not> se_isRevoked s then s\<lparr>se_isRevoked := True\<rparr> else s) (sessions db)\<rparr>"

end
