(* ===== verification/Auth_Service.thy ===== *)
theory Auth_Service
  imports Auth_Data
begin

text \<open>
  \<open>auth.service.ts\<close> of the auth service, every operation as an action on its tables and on
  Redis, and the guard of the gateway (\<open>jwt_auth.guard.ts\<close>) that reads the access tokens.
\<close>

section \<open>Registration\<close>

definition new_verification :: "auth_env \<Rightarrow> uuid \<Rightarrow> verification_action \<Rightarrow> verification" where
  "new_verification env u a =
     \<lparr>vf_id = ae_rowId env, vf_userId = u, vf_code = ae_code env, vf_isUsed = False, vf_action = a,
      vf_expiresAt = ae_now env + buildTTL MINUTE 5\<rparr>"

definition new_auth :: "user \<Rightarrow> provider \<Rightarrow> jstr \<Rightarrow> jstr \<Rightarrow> auth_row" where
  "new_auth u p email password =
     \<lparr>au_userId = ur_id u, au_provider = p, au_providerId = email, au_password = password\<rparr>"

definition create_user :: "auth_env \<Rightarrow> jstr \<Rightarrow> jstr \<Rightarrow> user auth_act" where
  "create_user env email status =
    andThen (from_sum (ae_createUser env)) (\<lambda>u. andThen (log_event (UserCreated email status)) (\<lambda>_. ret u))"

definition register_rows :: "auth_env \<Rightarrow> jstr \<Rightarrow> jstr \<Rightarrow> user \<Rightarrow> unit auth_act" where
  "register_rows env email hash u = transaction
    (andThen (insert_auth (new_auth u LOCAL email hash)) (\<lambda>_. insert_verification (new_verification env (ur_id u) VERIFY_EMAIL)))"

definition delete_user :: "auth_env \<Rightarrow> uuid \<Rightarrow> unit auth_act" where
  "delete_user env u = andThen (from_sum (ae_deleteUser env)) (\<lambda>_. log_event (UserDeleted u))"

definition register :: "auth_env \<Rightarrow> jstr \<Rightarrow> jstr \<Rightarrow> unit auth_act" where
  "register env email password =
    andThen (fetch (find_auth LOCAL email)) (\<lambda>existing.
    andThen (ensure (Coded ''ACCOUNT_ALREADY_EXIST'') (existing = None)) (\<lambda>_.
    andThen (rescue (create_user env email (js ''pending''))
       (\<lambda>_. throw (Plain (js ''Failed to create user service record'')))) (\<lambda>u.
    andThen (rescue (register_rows env email (ae_argonHash env password) u)
       (\<lambda>e. andThen (swallow (delete_user env (ur_id u))) (\<lambda>_. throw e))) (\<lambda>_.
    log_event (SendVerificationEmail email (ae_code env))))))"

definition find_code :: "uuid \<Rightarrow> verification_action \<Rightarrow> auth_db \<Rightarrow> verification option" where
  "find_code code a db = find (\<lambda>v. vf_code v = code \<and> vf_action v = a \<and> \<not> vf_isUsed v) (verifications db)"

definition verifyEmail :: "auth_env \<Rightarrow> uuid \<Rightarrow> unit auth_act" where
  "verifyEmail env code =
    andThen (transaction
      (andThen (fetch (find_code code VERIFY_EMAIL)) (\<lambda>found.
       andThen (from_option (Coded ''ACCOUNT_INVALID_VERIFICATION_CODE'') found) (\<lambda>v.
       andThen (ensure (Coded ''ACCOUNT_VERIFICATION_CODE_EXPIRED'') (\<not> vf_expiresAt v < ae_now env)) (\<lambda>_.
       andThen (fetch (find_local (vf_userId v))) (\<lambda>auth.
       andThen (from_option (Coded ''ACCOUNT_NOT_FOUND'') auth) (\<lambda>a.
       andThen (save_verification (v\<lparr>vf_isUsed := True\<rparr>)) (\<lambda>_. ret (au_userId a))))))))) (\<lambda>u.
    andThen (from_sum (ae_changeStatus env)) (\<lambda>_. log_event (StatusChanged u (js ''active''))))"

section \<open>Tokens and sessions\<close>

definition generateTokens :: "auth_env \<Rightarrow> uuid \<Rightarrow> jstr \<Rightarrow> tokens auth_act" where
  "generateTokens env u email =
    andThen (outside (\<lambda>o'. (getUserTokenVersion u o', o'))) (\<lambda>version.
    let c = (claims_of u)\<lparr>cl_email := Some email, cl_tokenVersion := Some version\<rparr>
    in ret \<lparr>tk_accessToken = ae_sign env c (ae_now env) 1800,
            tk_refreshToken = ae_sign env (c\<lparr>cl_jti := Some (ae_jti env)\<rparr>) (ae_now env) 604800\<rparr>)"

definition new_session :: "auth_env \<Rightarrow> uuid \<Rightarrow> jstr \<Rightarrow> metadata option \<Rightarrow> session" where
  "new_session env u refreshToken md =
     \<lparr>se_userId = u, se_refreshToken = ae_sha256 env refreshToken,
      se_device = Option.bind md rq_device, se_ipAddress = Option.bind md rq_ipAddress,
      se_userAgent = Option.bind md rq_userAgent, se_isRevoked = False,
      se_expiresAt = ae_now env + buildTTL DAY 7\<rparr>"

definition createSession :: "auth_env \<Rightarrow> uuid \<Rightarrow> jstr \<Rightarrow> metadata option \<Rightarrow> unit auth_act" where
  "createSession env u refreshToken md = insert_session (new_session env u refreshToken md)"

definition set_device :: "auth_env \<Rightarrow> uuid \<Rightarrow> jstr \<Rightarrow> metadata \<Rightarrow> device \<Rightarrow> device" where
  "set_device env u d md x =
    (if dv_userId x = u \<and> dv_deviceId x = d
     then x\<lparr>dv_lastLoginAt := ae_now env,
            dv_ipAddress := (if truthy (rq_ipAddress md) then rq_ipAddress md else dv_ipAddress x),
            dv_userAgent := (if truthy (rq_userAgent md) then rq_userAgent md else dv_userAgent x)\<rparr>
     else x)"

definition device_known :: "uuid \<Rightarrow> jstr \<Rightarrow> auth_db \<Rightarrow> bool" where
  "device_known u d db \<longleftrightarrow> (\<exists>x \<in> set (devices db). dv_userId x = u \<and> dv_deviceId x = d)"

definition handleDeviceTracking :: "auth_env \<Rightarrow> uuid \<Rightarrow> jstr \<Rightarrow> metadata option \<Rightarrow> unit auth_act" where
  "handleDeviceTracking env u email md =
    (case md of
       None \<Rightarrow> ret ()
     | Some md \<Rightarrow>
         if \<not> truthy (rq_device md) then ret ()
         else let d = the (rq_device md) in
           andThen (fetch (device_known u d)) (\<lambda>known.
           if known then store (\<lambda>db. db\<lparr>devices := map (set_device env u d md) (devices db)\<rparr>)
           else
             andThen (checked (\<lambda>db. \<not> device_known u d db) (\<lambda>db. db\<lparr>devices := devices db @
                [\<lparr>dv_userId = u, dv_deviceId = d, dv_ipAddress = rq_ipAddress md, dv_userAgent = rq_userAgent md,
                  dv_isTrusted = False, dv_lastLoginAt = ae_now env\<rparr>]\<rparr>)) (\<lambda>_.
             log_event (SendUnrecognizedDeviceEmail email
               (ae_sign env ((claims_of u)\<lparr>cl_deviceId := Some d, cl_type := Some SECURE_ACCOUNT\<rparr>) (ae_now env) 3600)))))"

definition generateTempToken :: "auth_env \<Rightarrow> uuid \<Rightarrow> jstr \<Rightarrow> jstr" where
  "generateTempToken env u email =
     ae_sign env ((claims_of u)\<lparr>cl_email := Some email, cl_state := Some OTP_STATE\<rparr>) (ae_now env) 300"

definition open_session :: "auth_env \<Rightarrow> uuid \<Rightarrow> jstr \<Rightarrow> metadata option \<Rightarrow> tokens auth_act" where
  "open_session env u email md =
    andThen (generateTokens env u email) (\<lambda>t.
    andThen (createSession env u (tk_refreshToken t) md) (\<lambda>_. ret t))"

definition verifyOtpFromAuthenticator :: "auth_env \<Rightarrow> jstr \<Rightarrow> jstr \<Rightarrow> metadata option \<Rightarrow> tokens auth_act" where
  "verifyOtpFromAuthenticator env tempToken otp md =
    andThen (from_option (Plain (js ''jwt'')) (ae_verify env tempToken (ae_now env))) (\<lambda>payload.
    andThen (ensure (Coded ''INVALID_ACCESS_TOKEN'') (cl_state payload = Some OTP_STATE)) (\<lambda>_.
    andThen (from_sum (ae_verifyOtp env (cl_sub payload) otp)) (\<lambda>_.
    andThen (from_sum (ae_userById env (cl_sub payload))) (\<lambda>found.
    andThen (from_option (Coded ''ACCOUNT_NOT_FOUND'') found) (\<lambda>u.
    open_session env (ur_id u) (ur_email u) md)))))"

section \<open>Logging in\<close>

text \<open>The second half of the three logins: a second factor, or a device and a session.\<close>

definition finish_login :: "auth_env \<Rightarrow> user \<Rightarrow> uuid \<Rightarrow> jstr \<Rightarrow> metadata option \<Rightarrow> login_response auth_act" where
  "finish_login env u userId email md =
    (if ur_isTwoFactorEnabled u then ret (TwoFactor (generateTempToken env userId email))
     else andThen (handleDeviceTracking env userId email md) (\<lambda>_.
          andThen (open_session env userId email md) (\<lambda>t. ret (Tokens t))))"

definition login :: "auth_env \<Rightarrow> jstr \<Rightarrow> jstr \<Rightarrow> metadata option \<Rightarrow> login_response auth_act" where
  "login env email password md =
    andThen (fetch (find_auth LOCAL email)) (\<lambda>auth.
    andThen (from_option (Coded ''INVALID_CREDENTIALS'') auth) (\<lambda>a.
    andThen (from_option (Coded ''INVALID_CREDENTIALS'') (case ae_userByEmail env of Inl _ \<Rightarrow> None | Inr u \<Rightarrow> u)) (\<lambda>u.
    andThen (ensure (Coded ''INVALID_CREDENTIALS'') (ae_argonVerify env (au_password a) password)) (\<lambda>_.
    andThen (ensure (Coded ''ACCOUNT_NOT_VERIFIED'') (ur_status u = js ''active'')) (\<lambda>_.
    finish_login env u (au_userId a) email md)))))"

definition loginGoogle :: "auth_env \<Rightarrow> jstr \<Rightarrow> metadata option \<Rightarrow> login_response auth_act" where
  "loginGoogle env email md =
    andThen (fetch (find_auth GOOGLE email)) (\<lambda>auth.
    andThen (case auth of
        None \<Rightarrow> andThen (create_user env email (js ''active'')) (\<lambda>u.
                 andThen (insert_auth (new_auth u GOOGLE email [])) (\<lambda>_. ret (new_auth u GOOGLE email [], Some u)))
      | Some a \<Rightarrow> andThen (from_sum (ae_userById env (au_userId a))) (\<lambda>found. ret (a, found))) (\<lambda>(a, found).
    andThen (from_option (Coded ''ACCOUNT_NOT_FOUND'') found) (\<lambda>u. finish_login env u (au_userId a) email md)))"

definition loginSso :: "auth_env \<Rightarrow> jstr \<Rightarrow> metadata option \<Rightarrow> login_response auth_act" where
  "loginSso env email md =
    andThen (fetch (find_auth SSO email)) (\<lambda>auth.
    andThen (case auth of
        None \<Rightarrow> andThen (case (case ae_userByEmail env of Inl _ \<Rightarrow> None | Inr u \<Rightarrow> u) of
                   Some u \<Rightarrow> ret u
                 | None \<Rightarrow> create_user env email (js ''active'')) (\<lambda>u.
                 andThen (insert_auth (new_auth u SSO email [])) (\<lambda>_. ret (new_auth u SSO email [], Some u)))
      | Some a \<Rightarrow> andThen (from_sum (ae_userById env (au_userId a))) (\<lambda>found. ret (a, found))) (\<lambda>(a, found).
    andThen (from_option (Coded ''ACCOUNT_NOT_FOUND'') found) (\<lambda>u. finish_login env u (au_userId a) email md)))"

section \<open>Rotation of refresh tokens\<close>

definition of_user :: "uuid \<Rightarrow> session \<Rightarrow> bool" where
  "of_user u s \<longleftrightarrow> se_userId s = u"

definition with_token :: "jstr \<Rightarrow> session \<Rightarrow> bool" where
  "with_token h s \<longleftrightarrow> se_refreshToken s = h"

text \<open>A revoked session: the pair another request has just been given, or every session is closed.\<close>

definition refresh_revoked :: "auth_env \<Rightarrow> jstr \<Rightarrow> session \<Rightarrow> tokens auth_act" where
  "refresh_revoked env refreshToken s =
    andThen (outside (\<lambda>o'. (getRotationResult env refreshToken o', o'))) (\<lambda>cached.
    case cached of
      Some t \<Rightarrow> ret t
    | None \<Rightarrow>
        andThen (elsewhere (revoke_where (of_user (se_userId s)))) (\<lambda>_.
        andThen (bumpUserTokenVersion (se_userId s)) (\<lambda>_. throw (Coded ''INVALID_REFRESH_TOKEN''))))"

definition refresh_rotate :: "auth_env \<Rightarrow> jstr \<Rightarrow> metadata option \<Rightarrow> session \<Rightarrow> tokens auth_act" where
  "refresh_rotate env refreshToken md s =
    andThen (ensure (Coded ''INVALID_REFRESH_TOKEN'') (\<not> se_expiresAt s < ae_now env)) (\<lambda>_.
    andThen (from_option (Coded ''INVALID_REFRESH_TOKEN'')
       (case Option.bind (ae_decode env refreshToken) cl_email of None \<Rightarrow> None | Some e \<Rightarrow> if e = [] then None else Some e)) (\<lambda>email.
    andThen (store (revoke_where (with_token (se_refreshToken s)))) (\<lambda>_.
    andThen (generateTokens env (se_userId s) email) (\<lambda>t.
    andThen (createSession env (se_userId s) (tk_refreshToken t) md) (\<lambda>_.
    andThen (cacheRotationResult env refreshToken t) (\<lambda>_. ret t))))))"

definition refresh :: "auth_env \<Rightarrow> jstr \<Rightarrow> metadata option \<Rightarrow> tokens auth_act" where
  "refresh env refreshToken md =
    andThen (from_option (Coded ''INVALID_REFRESH_TOKEN'') (ae_verify env refreshToken (ae_now env))) (\<lambda>_.
    transaction
      (andThen (fetch (\<lambda>db. find (with_token (ae_sha256 env refreshToken)) (sessions db))) (\<lambda>found.
       andThen (from_option (Coded ''INVALID_REFRESH_TOKEN'') found) (\<lambda>s.
       if se_isRevoked s then refresh_revoked env refreshToken s else refresh_rotate env refreshToken md s))))"

section \<open>Logging out\<close>

definition logout :: "auth_env \<Rightarrow> jstr \<Rightarrow> jstr \<Rightarrow> unit auth_act" where
  "logout env accessToken refreshToken =
    andThen (ensure (Coded ''INVALID_REFRESH_TOKEN'') (refreshToken \<noteq> [])) (\<lambda>_.
    andThen (ensure (Coded ''INVALID_ACCESS_TOKEN'') (accessToken \<noteq> [])) (\<lambda>_.
    let P = (\<lambda>s. with_token (ae_sha256 env refreshToken) s \<and> se_expiresAt s > ae_now env)
    in andThen (store_count (\<lambda>db. length (filter (\<lambda>s. P s \<and> \<not> se_isRevoked s) (sessions db))) (revoke_where P)) (\<lambda>affected.
       andThen (ensure (Coded ''INVALID_REFRESH_TOKEN'') (affected \<noteq> 0)) (\<lambda>_.
       andThen (blacklistToken env accessToken (buildTTL MINUTE 30)) (\<lambda>_.
       case ae_verify env accessToken (ae_now env) of
         None \<Rightarrow> ret ()
       | Some payload \<Rightarrow> log_event (PresenceRemoved (cl_sub payload)))))))"

definition logoutAll :: "auth_env \<Rightarrow> jstr \<Rightarrow> unit auth_act" where
  "logoutAll env accessToken =
    andThen (ensure (Coded ''INVALID_ACCESS_TOKEN'') (accessToken \<noteq> [])) (\<lambda>_.
    andThen (from_option (Coded ''INVALID_ACCESS_TOKEN'') (ae_verify env accessToken (ae_now env))) (\<lambda>payload.
    andThen (store (revoke_where (of_user (cl_sub payload)))) (\<lambda>_.
    andThen (bumpUserTokenVersion (cl_sub payload)) (\<lambda>_. log_event (PresenceRemoved (cl_sub payload))))))"

section \<open>Passwords\<close>

definition forgotPassword :: "auth_env \<Rightarrow> jstr \<Rightarrow> unit auth_act" where
  "forgotPassword env email =
    andThen (fetch (find_auth LOCAL email)) (\<lambda>auth.
    andThen (from_option (Coded ''ACCOUNT_NOT_FOUND'') auth) (\<lambda>a.
    andThen (insert_verification (new_verification env (au_userId a) RESET_PASSWORD)) (\<lambda>_.
    log_event (SendPasswordResetEmail email (ae_code env)))))"

definition find_valid_code :: "uuid option \<Rightarrow> uuid \<Rightarrow> int \<Rightarrow> auth_db \<Rightarrow> verification option" where
  "find_valid_code u code now db = find (\<lambda>v. (case u of None \<Rightarrow> True | Some u \<Rightarrow> vf_userId v = u) \<and>
      vf_code v = code \<and> vf_action v = RESET_PASSWORD \<and> \<not> vf_isUsed v \<and> vf_expiresAt v > now) (verifications db)"

definition verifyResetPassword :: "auth_env \<Rightarrow> uuid \<Rightarrow> unit auth_act" where
  "verifyResetPassword env code =
    andThen (fetch (find_valid_code None code (ae_now env))) (\<lambda>found.
    andThen (from_option (Coded ''ACCOUNT_VERIFICATION_CODE_EXPIRED'') found) (\<lambda>v.
    andThen (from_sum (ae_userById env (vf_userId v))) (\<lambda>u.
    ensure (Coded ''ACCOUNT_NOT_FOUND'') (u \<noteq> None))))"

definition resetPassword :: "auth_env \<Rightarrow> jstr \<Rightarrow> uuid \<Rightarrow> jstr \<Rightarrow> unit auth_act" where
  "resetPassword env email code password =
    andThen (fetch (find_auth LOCAL email)) (\<lambda>auth.
    andThen (from_option (Coded ''ACCOUNT_NOT_FOUND'') auth) (\<lambda>a.
    transaction
      (andThen (fetch (find_valid_code (Some (au_userId a)) code (ae_now env))) (\<lambda>found.
       andThen (from_option (Coded ''ACCOUNT_VERIFICATION_CODE_EXPIRED'') found) (\<lambda>v.
       andThen (set_password a (ae_argonHash env password)) (\<lambda>_.
       save_verification (v\<lparr>vf_isUsed := True\<rparr>)))))))"

definition verifyPassword :: "auth_env \<Rightarrow> jstr \<Rightarrow> jstr \<Rightarrow> bool auth_act" where
  "verifyPassword env email password =
    andThen (fetch (find_auth LOCAL email)) (\<lambda>auth.
    andThen (from_option (Coded ''ACCOUNT_NOT_FOUND'') auth) (\<lambda>a. ret (ae_argonVerify env (au_password a) password)))"

definition changePassword :: "auth_env \<Rightarrow> jstr \<Rightarrow> jstr \<Rightarrow> unit auth_act" where
  "changePassword env email password =
    andThen (fetch (find_auth LOCAL email)) (\<lambda>auth.
    andThen (from_option (Coded ''ACCOUNT_NOT_FOUND'') auth) (\<lambda>a. set_password a (ae_argonHash env password)))"

definition resend_event :: "verification_action \<Rightarrow> jstr \<Rightarrow> uuid \<Rightarrow> auth_event" where
  "resend_event a email code =
    (case a of VERIFY_EMAIL \<Rightarrow> SendVerificationEmail email code | RESET_PASSWORD \<Rightarrow> SendPasswordResetEmail email code)"

definition resendCode :: "auth_env \<Rightarrow> jstr \<Rightarrow> verification_action \<Rightarrow> unit auth_act" where
  "resendCode env email action =
    andThen (transaction
      (andThen (fetch (find_auth LOCAL email)) (\<lambda>auth.
       andThen (from_option (Coded ''ACCOUNT_NOT_FOUND'') auth) (\<lambda>a.
       andThen (fetch (\<lambda>db. find (\<lambda>v. vf_userId v = au_userId a \<and> vf_action v = action \<and> \<not> vf_isUsed v \<and>
           vf_expiresAt v > ae_now env) (verifications db))) (\<lambda>found.
       case found of
         Some v \<Rightarrow> save_verification (v\<lparr>vf_code := ae_code env, vf_expiresAt := ae_now env + buildTTL MINUTE 5\<rparr>)
       | None \<Rightarrow> insert_verification (new_verification env (au_userId a) action)))))) (\<lambda>_.
    log_event (resend_event action email (ae_code env)))"

definition secureAccount :: "auth_env \<Rightarrow> jstr \<Rightarrow> unit auth_act" where
  "secureAccount env token =
    andThen (from_option (Coded ''INVALID_ACCESS_TOKEN'') (ae_verify env token (ae_now env))) (\<lambda>payload.
    andThen (ensure (Coded ''INVALID_ACCESS_TOKEN'') (cl_type payload = Some SECURE_ACCOUNT)) (\<lambda>_.
    let u = cl_sub payload
    in andThen (store (revoke_where (of_user u))) (\<lambda>_.
       andThen (bumpUserTokenVersion u) (\<lambda>_.
       andThen (log_event (PresenceRemoved u)) (\<lambda>_.
       andThen (log_event (ForceLogout u)) (\<lambda>_.
       andThen (store (\<lambda>db. db\<lparr>devices := map (\<lambda>d. if dv_userId d = u \<and> Some (dv_deviceId d) = cl_deviceId payload
          then d\<lparr>dv_isTrusted := False\<rparr> else d) (devices db)\<rparr>)) (\<lambda>_.
       andThen (fetch (find_local u)) (\<lambda>auth.
       case auth of
         None \<Rightarrow> ret ()
       | Some a \<Rightarrow>
           andThen (insert_verification (new_verification env (au_userId a) RESET_PASSWORD)) (\<lambda>_.
           case ae_userById env u of
             Inr (Some x) \<Rightarrow> if ur_email x = [] then ret () else log_event (SendPasswordResetEmail (ur_email x) (ae_code env))
           | _ \<Rightarrow> ret ())))))))))"

section \<open>The guard of the gateway\<close>

definition IGNORE_ROUTES :: "jstr list" where "IGNORE_ROUTES = [js ''/docs'', js ''/favicon.ico'']"

text \<open>\<open>authorization?.split(' ')[1]\<close>, where \<open>None\<close> is \<open>undefined\<close>.\<close>

definition bearer :: "jstr option \<Rightarrow> jstr option" where
  "bearer header = Option.bind header (\<lambda>h.
     case dropWhile (\<lambda>c. c \<noteq> 32) h of [] \<Rightarrow> None | _ # t \<Rightarrow> Some (takeWhile (\<lambda>c. c \<noteq> 32) t))"

definition token_accepted :: "auth_env \<Rightarrow> auth_out \<Rightarrow> jstr \<Rightarrow> claims option" where
  "token_accepted env o' token =
    (case ae_verify env token (ae_now env) of
       None \<Rightarrow> None
     | Some payload \<Rightarrow>
         if isBlacklisted env token o' then None
         else if cl_tokenVersion payload \<noteq> Some (getUserTokenVersion (cl_sub payload) o') then None
         else Some payload)"

text \<open>The answer carries \<open>req.user\<close>.\<close>

definition canActivate :: "auth_env \<Rightarrow> auth_out \<Rightarrow> jstr \<Rightarrow> bool \<Rightarrow> jstr option \<Rightarrow> rpc_error + claims option" where
  "canActivate env o' url isPublic header =
    (if \<exists>r \<in> set IGNORE_ROUTES. starts_with r url then Inr None
     else if isPublic then Inr None
     else case bearer header of
       None \<Rightarrow> Inl (Coded ''UNAUTHORIZED'')
     | Some token \<Rightarrow>
         if token = [] then Inl (Coded ''UNAUTHORIZED'')
         else case token_accepted env o' token of
           None \<Rightarrow> Inl (Coded ''UNAUTHORIZED'')
         | Some payload \<Rightarrow> Inr (Some payload))"

end
