(* ===== verification/Auth_Theorems.thy ===== *)
theory Auth_Theorems
  imports Auth_Service
begin

text \<open>
  What every operation of the auth service keeps, stated once as the interface
  \<open>auth_invariant\<close> and interpreted by three invariants; who comes by a session; what a
  reused refresh token and a used code do; and four places where the code errs.
\<close>

section \<open>Operations\<close>

datatype auth_op =
    RegisterOp jstr jstr | VerifyEmailOp uuid | OtpOp jstr jstr "metadata option"
  | LoginOp jstr jstr "metadata option" | GoogleOp jstr "metadata option" | SsoOp jstr "metadata option"
  | RefreshOp jstr "metadata option" | LogoutOp jstr jstr | LogoutAllOp jstr
  | ForgotOp jstr | VerifyResetOp uuid | ResetOp jstr uuid jstr | VerifyPasswordOp jstr jstr
  | ChangePasswordOp jstr jstr | ResendOp jstr verification_action | SecureOp jstr

definition perform_auth :: "auth_env \<Rightarrow> auth_op \<Rightarrow> (auth_db, auth_out) conn \<Rightarrow> (auth_db, auth_out) conn" where
  "perform_auth env op s =
    (case op of
       RegisterOp e p \<Rightarrow> snd (register env e p s)
     | VerifyEmailOp c \<Rightarrow> snd (verifyEmail env c s)
     | OtpOp t otp md \<Rightarrow> snd (verifyOtpFromAuthenticator env t otp md s)
     | LoginOp e p md \<Rightarrow> snd (login env e p md s)
     | GoogleOp e md \<Rightarrow> snd (loginGoogle env e md s)
     | SsoOp e md \<Rightarrow> snd (loginSso env e md s)
     | RefreshOp t md \<Rightarrow> snd (refresh env t md s)
     | LogoutOp a t \<Rightarrow> snd (logout env a t s)
     | LogoutAllOp a \<Rightarrow> snd (logoutAll env a s)
     | ForgotOp e \<Rightarrow> snd (forgotPassword env e s)
     | VerifyResetOp c \<Rightarrow> snd (verifyResetPassword env c s)
     | ResetOp e c p \<Rightarrow> snd (resetPassword env e c p s)
     | VerifyPasswordOp e p \<Rightarrow> snd (verifyPassword env e p s)
     | ChangePasswordOp e p \<Rightarrow> snd (changePassword env e p s)
     | ResendOp e a \<Rightarrow> snd (resendCode env e a s)
     | SecureOp t \<Rightarrow> snd (secureAccount env t s))"

definition performs_auth :: "(auth_env \<times> auth_op) list \<Rightarrow> (auth_db, auth_out) conn \<Rightarrow> (auth_db, auth_out) conn" where
  "performs_auth ops s = fold (\<lambda>(env, op). perform_auth env op) ops s"

section \<open>The interface of an invariant\<close>

locale auth_invariant =
  fixes I :: "auth_db \<Rightarrow> bool"
    and env_ok :: "auth_env \<Rightarrow> bool"
    and new_ok :: "session \<Rightarrow> bool"
  assumes auth_added: "I db \<Longrightarrow> find_auth (au_provider a) (au_providerId a) db = None \<Longrightarrow> I (db\<lparr>auths := auths db @ [a]\<rparr>)"
    and password_set: "I db \<Longrightarrow> I (db\<lparr>auths := map (\<lambda>x. if P x then x\<lparr>au_password := h\<rparr> else x) (auths db)\<rparr>)"
    and code_added: "env_ok env \<Longrightarrow> I db \<Longrightarrow> I (db\<lparr>verifications := verifications db @ [new_verification env u act]\<rparr>)"
    and code_used: "I db \<Longrightarrow> I (db\<lparr>verifications := map (\<lambda>x. if vf_id x = vf_id v then v\<lparr>vf_isUsed := True\<rparr> else x) (verifications db)\<rparr>)"
    and code_changed: "env_ok env \<Longrightarrow> I db \<Longrightarrow> I (db\<lparr>verifications := map (\<lambda>x. if vf_id x = vf_id v
        then v\<lparr>vf_code := ae_code env, vf_expiresAt := t\<rparr> else x) (verifications db)\<rparr>)"
    and session_added: "I db \<Longrightarrow> new_ok s \<Longrightarrow> se_refreshToken s \<notin> se_refreshToken ` set (sessions db) \<Longrightarrow>
        I (db\<lparr>sessions := sessions db @ [s]\<rparr>)"
    and revoked: "I db \<Longrightarrow> I (revoke_where Q db)"
    and device_added: "I db \<Longrightarrow> \<not> device_known (dv_userId d) (dv_deviceId d) db \<Longrightarrow> I (db\<lparr>devices := devices db @ [d]\<rparr>)"
    and device_changed: "I db \<Longrightarrow> (\<And>d. dv_userId (f d) = dv_userId d \<and> dv_deviceId (f d) = dv_deviceId d) \<Longrightarrow>
        I (db\<lparr>devices := map f (devices db)\<rparr>)"
begin

lemma statements:
  "preserves (on_db I) (insert_auth a)" "preserves (on_db I) (set_password a h)"
  "preserves (on_db I) (save_verification (v\<lparr>vf_isUsed := True\<rparr>))"
  "preserves (on_db I) (store (revoke_where Q))" "preserves (on_db I) (elsewhere (revoke_where Q))"
  "preserves (on_db I) (store_count n (revoke_where Q))" "preserves (on_db I) (log_event e)"
  "preserves (on_db I) (bumpUserTokenVersion u)" "preserves (on_db I) (blacklistToken env tok k)"
  "preserves (on_db I) (cacheRotationResult env tok ts)"
  using code_used [of _ "v"]
  by (auto simp: insert_auth_def set_password_def save_verification_def log_event_def bumpUserTokenVersion_def
      blacklistToken_def cacheRotationResult_def intro!: preserves_intros auth_added password_set revoked)

lemma codes:
  assumes "env_ok env"
  shows "preserves (on_db I) (insert_verification (new_verification env u act))"
    "preserves (on_db I) (save_verification (v\<lparr>vf_code := ae_code env, vf_expiresAt := t\<rparr>))"
  using code_changed [OF assms, of _ v t]
  by (auto simp: insert_verification_def save_verification_def intro!: preserves_intros code_added [OF assms])

lemma session_opened:
  assumes "\<And>rt. new_ok (new_session env u rt md)"
  shows "preserves (on_db I) (createSession env u rt md)" "preserves (on_db I) (open_session env u email md)"
  by (auto simp: open_session_def generateTokens_def createSession_def insert_session_def Let_def
      intro!: preserves_intros session_added assms)

lemma device_tracked: "preserves (on_db I) (handleDeviceTracking env u email md)"
  unfolding handleDeviceTracking_def Let_def
  by (intro preserves_intros statements device_added device_changed) (simp_all add: set_device_def)

lemma login_finished:
  "(\<And>rt. new_ok (new_session env userId rt md)) \<Longrightarrow> preserves (on_db I) (finish_login env u userId email md)"
  unfolding finish_login_def by (intro preserves_intros device_tracked session_opened)

lemma without_session:
  assumes "env_ok env"
  shows "preserves (on_db I) (register env e p)" "preserves (on_db I) (verifyEmail env c)"
    "preserves (on_db I) (logout env a t)" "preserves (on_db I) (logoutAll env a)"
    "preserves (on_db I) (forgotPassword env e)" "preserves (on_db I) (verifyResetPassword env c)"
    "preserves (on_db I) (resetPassword env e c p)" "preserves (on_db I) (verifyPassword env e p)"
    "preserves (on_db I) (changePassword env e p)" "preserves (on_db I) (resendCode env e act)"
    "preserves (on_db I) (secureAccount env t)"
  unfolding register_def verifyEmail_def logout_def logoutAll_def forgotPassword_def verifyResetPassword_def
    resetPassword_def verifyPassword_def changePassword_def resendCode_def secureAccount_def
    create_user_def register_rows_def delete_user_def Let_def
  by (intro preserves_intros statements codes [OF assms] device_changed; simp)+

lemma with_session:
  assumes "\<And>u rt md. new_ok (new_session env u rt md)"
  shows "preserves (on_db I) (verifyOtpFromAuthenticator env t otp md)" "preserves (on_db I) (login env e p md)"
    "preserves (on_db I) (loginGoogle env e md)" "preserves (on_db I) (loginSso env e md)"
    "preserves (on_db I) (refresh env t md)"
  unfolding verifyOtpFromAuthenticator_def login_def loginGoogle_def loginSso_def refresh_def refresh_revoked_def
    refresh_rotate_def generateTokens_def create_user_def Let_def
  by (intro preserves_intros statements session_opened login_finished assms)+

lemma perform_keeps:
  assumes "env_ok env" "\<And>u rt md. new_ok (new_session env u rt md)" "on_db I s"
  shows "on_db I (perform_auth env op s)"
  using without_session [OF assms(1)] with_session [OF assms(2)] assms(3)
  by (cases op) (simp_all add: perform_auth_def preserves_def)

end

section \<open>The tables stay consistent\<close>

definition auth_ok :: "auth_db \<Rightarrow> bool" where
  "auth_ok db \<longleftrightarrow> distinct (map (\<lambda>a. (au_provider a, au_providerId a)) (auths db)) \<and>
     distinct (map se_refreshToken (sessions db)) \<and> distinct (map (\<lambda>d. (dv_userId d, dv_deviceId d)) (devices db))"

definition empty_auth :: auth_db where
  "empty_auth = \<lparr>auths = [], verifications = [], sessions = [], devices = []\<rparr>"

interpretation consistent: auth_invariant auth_ok "\<lambda>_. True" "\<lambda>_. True"
proof unfold_locales
  show "auth_ok (db\<lparr>auths := map (\<lambda>x. if P x then x\<lparr>au_password := h\<rparr> else x) (auths db)\<rparr>)" if "auth_ok db" for db P h
  proof -
    have "(\<lambda>a. (au_provider a, au_providerId a)) \<circ> (\<lambda>x. if P x then x\<lparr>au_password := h\<rparr> else x)
        = (\<lambda>a. (au_provider a, au_providerId a))" by (rule ext) simp
    then show ?thesis using that unfolding auth_ok_def by simp
  qed
  show "auth_ok (revoke_where Q db)" if "auth_ok db" for Q db
  proof -
    have "se_refreshToken \<circ> (\<lambda>s. if Q s \<and> \<not> se_isRevoked s then s\<lparr>se_isRevoked := True\<rparr> else s) = se_refreshToken"
      by (rule ext) simp
    then show ?thesis using that unfolding auth_ok_def by (simp add: revoke_where_def)
  qed
  show "auth_ok (db\<lparr>devices := map f (devices db)\<rparr>)"
    if "auth_ok db" "\<And>d. dv_userId (f d) = dv_userId d \<and> dv_deviceId (f d) = dv_deviceId d" for db f
    using that by (simp add: auth_ok_def comp_def)
qed (auto simp: auth_ok_def find_auth_def find_None_iff device_known_def)


section \<open>Who comes by a session\<close>

definition live :: "session \<Rightarrow> bool" where
  "live s \<longleftrightarrow> \<not> se_isRevoked s"

definition new_only :: "jstr set \<Rightarrow> (session \<Rightarrow> bool) \<Rightarrow> auth_db \<Rightarrow> bool" where
  "new_only T Q db \<longleftrightarrow> (\<forall>s \<in> set (sessions db). live s \<longrightarrow> se_refreshToken s \<in> T \<or> Q s)"

interpretation earned: auth_invariant "new_only T Q" "\<lambda>_. True" Q
  by unfold_locales (auto simp: new_only_def live_def revoke_where_def)

lemma new_only_now: "new_only (se_refreshToken ` set (sessions db)) Q db"
  by (simp add: new_only_def)

lemma earned_committed:
  assumes "preserves (on_db (new_only (se_refreshToken ` set (sessions db)) Q)) m"
    "row \<in> set (sessions (cn_committed (snd (m (connect db out)))))" "live row"
    "se_refreshToken row \<notin> se_refreshToken ` set (sessions db)"
  shows "Q row"
proof -
  have "on_db (new_only (se_refreshToken ` set (sessions db)) Q) (snd (m (connect db out)))"
    using assms(1) new_only_now [of db Q] by (simp add: preserves_def)
  then show ?thesis using assms(2-4) by (auto simp: on_db_def new_only_def)
qed

text \<open>What a refresh does to the sessions: nothing, all are closed, or the old one is replaced.\<close>

lemma transaction_connect:
  "transaction m (connect db out) =
    (case m \<lparr>cn_committed = db, cn_current = db, cn_inTx = True, cn_out = out\<rparr> of
       (Inl e, t) \<Rightarrow> (Inl e, t\<lparr>cn_current := cn_committed t, cn_inTx := False\<rparr>)
     | (Inr x, t) \<Rightarrow> (Inr x, t\<lparr>cn_committed := cn_current t, cn_inTx := False\<rparr>))"
  by (simp add: transaction_def connect_def Let_def split: prod.split sum.split)

definition rotated :: "auth_env \<Rightarrow> jstr \<Rightarrow> metadata option \<Rightarrow> session \<Rightarrow> jstr \<Rightarrow> auth_db \<Rightarrow> auth_db" where
  "rotated env refreshToken md s new db =
    (let db = revoke_where (with_token (ae_sha256 env refreshToken)) db
     in db\<lparr>sessions := sessions db @ [new_session env (se_userId s) new md]\<rparr>)"

lemma refresh_cases:
  assumes "refresh env rt md (connect db out) = (r, t)"
  obtains (refused) e where "r = Inl e" "cn_committed t = db" "cn_out t = out"
  | (repeated) ts where "r = Inr ts" "getRotationResult env rt out = Some ts" "cn_committed t = db" "cn_out t = out"
  | (reused) s where "find (with_token (ae_sha256 env rt)) (sessions db) = Some s" "\<not> live s"
      "r = Inl (Coded ''INVALID_REFRESH_TOKEN'')" "cn_committed t = revoke_where (of_user (se_userId s)) db"
      "cn_out t = out\<lparr>ao_version := (ao_version out)(se_userId s \<mapsto> nullish (ao_version out (se_userId s)) 0 + 1)\<rparr>"
  | (fresh) s ts where "find (with_token (ae_sha256 env rt)) (sessions db) = Some s" "live s" "ae_now env \<le> se_expiresAt s"
      "r = Inr ts" "cn_committed t = rotated env rt md s (tk_refreshToken ts) db"
proof (cases "ae_verify env rt (ae_now env)")
  case None
  then have "r = Inl (Coded ''INVALID_REFRESH_TOKEN'')" "t = connect db out"
    using assms by (simp_all add: refresh_def andThen_def from_option_def throw_def)
  then show ?thesis using refused by simp
next
  case (Some c)
  show ?thesis
  proof (cases "find (with_token (ae_sha256 env rt)) (sessions db)")
    case None
    then show ?thesis using assms refused Some
      by (auto simp: refresh_def transaction_connect act_unfold)
  next
    case (Some s)
    then have same: "se_refreshToken s = ae_sha256 env rt" by (auto simp: with_token_def dest: find_Some_in)
    show ?thesis
    proof (cases "live s")
      case False
      then show ?thesis using assms refused repeated reused [OF Some False] Some \<open>ae_verify env rt (ae_now env) = _\<close>
        by (auto simp: refresh_def transaction_connect refresh_revoked_def act_unfold live_def elsewhere_def
            bumpUserTokenVersion_def split: option.splits)
    next
      case True
      then show ?thesis using assms refused fresh [OF Some True] Some \<open>ae_verify env rt (ae_now env) = _\<close>
        by (auto simp: refresh_def transaction_connect refresh_rotate_def act_unfold live_def same createSession_def
            insert_session_def checked_def generateTokens_def cacheRotationResult_def rotated_def
            split: option.splits if_splits)
    qed
  qed
qed

lemma preserves_gate:
  "(\<And>y. r = Inr y \<Longrightarrow> preserves P (f y)) \<Longrightarrow> preserves P (andThen (from_sum r) f)"
  "(\<And>y. x = Some y \<Longrightarrow> preserves P (f y)) \<Longrightarrow> preserves P (andThen (from_option e x) f)"
  "(b \<Longrightarrow> preserves P (g ())) \<Longrightarrow> preserves P (andThen (ensure e b) g)"
  by (auto simp: preserves_def act_unfold split: sum.split option.split)

lemma andThen_fetch: "andThen (fetch g) f (connect db out) = f (g db) (connect db out)"
  by (simp add: andThen_def fetch_def)

lemma earned_after_fetch:
  assumes "m = andThen (fetch g) f" "preserves (on_db (new_only (se_refreshToken ` set (sessions db)) Q)) (f (g db))"
    "row \<in> set (sessions (cn_committed (snd (m (connect db out)))))" "live row"
    "se_refreshToken row \<notin> se_refreshToken ` set (sessions db)"
  shows "Q row"
  using earned_committed [OF assms(2) _ assms(4,5)] assms(3) by (simp add: assms(1) andThen_fetch)

lemmas gates = preserves_gate preserves_if preserves_pure preserves_andThen earned.device_tracked earned.session_opened
  earned.statements

definition gets_session :: "auth_env \<Rightarrow> auth_db \<Rightarrow> auth_op \<Rightarrow> uuid \<Rightarrow> bool" where
  "gets_session env db op u \<longleftrightarrow>
    (case op of
       LoginOp email pw md \<Rightarrow> \<exists>a x. find_auth LOCAL email db = Some a \<and> au_userId a = u \<and> ae_argonVerify env (au_password a) pw \<and>
         ae_userByEmail env = Inr (Some x) \<and> ur_status x = js ''active'' \<and> \<not> ur_isTwoFactorEnabled x
     | OtpOp t otp md \<Rightarrow> \<exists>c x. ae_verify env t (ae_now env) = Some c \<and> cl_state c = Some OTP_STATE \<and>
         ae_verifyOtp env (cl_sub c) otp = Inr () \<and> ae_userById env (cl_sub c) = Inr (Some x) \<and> ur_id x = u
     | GoogleOp email md \<Rightarrow> \<exists>x. \<not> ur_isTwoFactorEnabled x \<and>
         (case find_auth GOOGLE email db of
            Some a \<Rightarrow> au_userId a = u \<and> ae_userById env u = Inr (Some x)
          | None \<Rightarrow> ae_createUser env = Inr x \<and> ur_id x = u)
     | SsoOp email md \<Rightarrow> \<exists>x. \<not> ur_isTwoFactorEnabled x \<and>
         (case find_auth SSO email db of
            Some a \<Rightarrow> au_userId a = u \<and> ae_userById env u = Inr (Some x)
          | None \<Rightarrow> (ae_userByEmail env = Inr (Some x) \<or> ae_createUser env = Inr x) \<and> ur_id x = u)
     | RefreshOp rt md \<Rightarrow> \<exists>s \<in> set (sessions db). live s \<and> se_refreshToken s = ae_sha256 env rt \<and>
         ae_now env \<le> se_expiresAt s \<and> se_userId s = u
     | _ \<Rightarrow> False)"

lemma login_earned:
  assumes "row \<in> set (sessions (cn_committed (snd (login env email pw md (connect db out)))))" "live row"
    "se_refreshToken row \<notin> se_refreshToken ` set (sessions db)"
  shows "gets_session env db (LoginOp email pw md) (se_userId row)"
  by (rule earned_after_fetch [OF login_def _ assms, where Q = "\<lambda>row. gets_session env db (LoginOp email pw md) (se_userId row)"])
    (unfold finish_login_def, intro gates, auto simp: gets_session_def new_session_def split: sum.splits)

lemma from_option_Some: "from_option e (Some x) = ret x"
  by (simp add: from_option_def)

lemma otp_earned:
  assumes "row \<in> set (sessions (cn_committed (snd (verifyOtpFromAuthenticator env t otp md (connect db out)))))" "live row"
    "se_refreshToken row \<notin> se_refreshToken ` set (sessions db)"
  shows "gets_session env db (OtpOp t otp md) (se_userId row)"
proof (rule earned_committed [where Q = "\<lambda>row. gets_session env db (OtpOp t otp md) (se_userId row)"])
  show "preserves (on_db (new_only (se_refreshToken ` set (sessions db)) (\<lambda>row. gets_session env db (OtpOp t otp md) (se_userId row))))
      (verifyOtpFromAuthenticator env t otp md)"
    unfolding verifyOtpFromAuthenticator_def by (intro gates) (auto simp: gets_session_def new_session_def)
qed (use assms in simp_all)

text \<open>The account a provider vouches for: \<open>get\<close> finds or creates its user, one of \<open>R\<close>.\<close>

lemma provider_earned:
  assumes "\<And>row a. auth = Some a \<Longrightarrow> au_userId a = se_userId row \<Longrightarrow>
      \<exists>x. ae_userById env (se_userId row) = Inr (Some x) \<and> \<not> ur_isTwoFactorEnabled x \<Longrightarrow> Q row"
    "\<And>row x. auth = None \<Longrightarrow> R x \<Longrightarrow> \<not> ur_isTwoFactorEnabled x \<Longrightarrow> ur_id x = se_userId row \<Longrightarrow> Q row"
    "\<And>f. (\<And>x. R x \<Longrightarrow> preserves (on_db (new_only T Q)) (f x :: login_response auth_act)) \<Longrightarrow>
      preserves (on_db (new_only T Q)) (andThen get f)"
  shows "preserves (on_db (new_only T Q))
    (andThen (case auth of
        None \<Rightarrow> andThen get (\<lambda>u. andThen (insert_auth (new_auth u p email [])) (\<lambda>_. ret (new_auth u p email [], Some u)))
      | Some a \<Rightarrow> andThen (from_sum (ae_userById env (au_userId a))) (\<lambda>found. ret (a, found))) (\<lambda>(a, found).
    andThen (from_option e found) (\<lambda>u. finish_login env u (au_userId a) email md)))"
proof (cases auth)
  case None
  have "preserves (on_db (new_only T Q)) (finish_login env u (ur_id u) email md)" if "R u" for u
    unfolding finish_login_def
    by (intro gates) (use assms(2) [OF None that] in \<open>simp_all add: new_session_def\<close>)
  then show ?thesis
    by (simp add: None andThen_assoc from_option_Some) (intro assms(3) preserves_andThen earned.statements; simp add: new_auth_def)
next
  case (Some a)
  have "preserves (on_db (new_only T Q)) (finish_login env u (au_userId a) email md)"
    if "ae_userById env (au_userId a) = Inr (Some u)" for u
    unfolding finish_login_def
    by (intro gates) (use assms(1) [OF Some] that in \<open>auto simp: new_session_def\<close>)
  then show ?thesis by (simp add: Some andThen_assoc) (intro preserves_gate; simp)
qed

lemma created_earned:
  "(\<And>x. ae_createUser env = Inr x \<Longrightarrow> preserves (on_db (new_only T Q)) (f x)) \<Longrightarrow>
   preserves (on_db (new_only T Q)) (andThen (create_user env email st) f)"
  unfolding create_user_def by (simp add: andThen_assoc) (intro preserves_gate preserves_andThen earned.statements; simp)

lemma google_earned:
  assumes "row \<in> set (sessions (cn_committed (snd (loginGoogle env email md (connect db out)))))" "live row"
    "se_refreshToken row \<notin> se_refreshToken ` set (sessions db)"
  shows "gets_session env db (GoogleOp email md) (se_userId row)"
  by (rule earned_after_fetch [OF loginGoogle_def _ assms, where Q = "\<lambda>row. gets_session env db (GoogleOp email md) (se_userId row)"],
      rule provider_earned [where R = "\<lambda>x. ae_createUser env = Inr x"])
    (auto simp: gets_session_def intro: created_earned)

lemma sso_user_earned:
  "(\<And>x. ae_userByEmail env = Inr (Some x) \<or> ae_createUser env = Inr x \<Longrightarrow> preserves (on_db (new_only T Q)) (f x)) \<Longrightarrow>
   preserves (on_db (new_only T Q))
     (andThen (case (case ae_userByEmail env of Inl _ \<Rightarrow> None | Inr u \<Rightarrow> u) of
         Some u \<Rightarrow> ret u | None \<Rightarrow> create_user env email st) f)"
  by (auto split: option.splits sum.splits intro: created_earned)

lemma sso_earned:
  assumes "row \<in> set (sessions (cn_committed (snd (loginSso env email md (connect db out)))))" "live row"
    "se_refreshToken row \<notin> se_refreshToken ` set (sessions db)"
  shows "gets_session env db (SsoOp email md) (se_userId row)"
  by (rule earned_after_fetch [OF loginSso_def _ assms, where Q = "\<lambda>row. gets_session env db (SsoOp email md) (se_userId row)"],
      rule provider_earned [where R = "\<lambda>x. ae_userByEmail env = Inr (Some x) \<or> ae_createUser env = Inr x"])
    (force simp: gets_session_def, force simp: gets_session_def, rule sso_user_earned, blast)

lemma refresh_earned:
  assumes "row \<in> set (sessions (cn_committed (snd (refresh env rt md (connect db out)))))" "live row"
    "se_refreshToken row \<notin> se_refreshToken ` set (sessions db)"
  shows "gets_session env db (RefreshOp rt md) (se_userId row)"
proof -
  obtain r t where run: "refresh env rt md (connect db out) = (r, t)" by fastforce
  show ?thesis
  proof (cases rule: refresh_cases [OF run])
    case (4 s ts)
    then have "s \<in> set (sessions db)" "se_refreshToken s = ae_sha256 env rt" by (auto simp: with_token_def dest: find_Some_in)
    then show ?thesis using 4 assms run
      by (auto simp: gets_session_def rotated_def revoke_where_def Let_def new_session_def image_iff split: if_splits)
  qed (use assms run in \<open>auto simp: revoke_where_def image_iff split: if_splits\<close>)
qed

text \<open>
  C15: a session comes into being only for a user whose password was given and who needs no second
  factor, whose one-time password was accepted for a token of that purpose, whom the provider
  vouches for and who needs no second factor, or for a live session that has not expired.
\<close>

theorem sessions_are_earned:
  assumes "row \<in> set (sessions (cn_committed (perform_auth env op (connect db out))))" "live row"
    "se_refreshToken row \<notin> se_refreshToken ` set (sessions db)"
  shows "gets_session env db op (se_userId row)"
proof (cases "\<exists>e p t otp md. op = LoginOp e p md \<or> op = OtpOp t otp md \<or> op = GoogleOp e md \<or> op = SsoOp e md \<or> op = RefreshOp t md")
  case True
  then show ?thesis
    using assms login_earned [OF _ assms(2,3)] otp_earned [OF _ assms(2,3)] google_earned [OF _ assms(2,3)]
      sso_earned [OF _ assms(2,3)] refresh_earned [OF _ assms(2,3)]
    by (auto simp: perform_auth_def)
next
  case False
  let ?I = "on_db (new_only (se_refreshToken ` set (sessions db)) (\<lambda>_. False))"
  have "?I (perform_auth env op (connect db out))"
    using False earned.without_session [OF TrueI, of _ "\<lambda>_. False"] new_only_now [of db "\<lambda>_. False"]
    by (cases op) (simp_all add: perform_auth_def preserves_def)
  then show ?thesis using assms by (auto simp: on_db_def new_only_def)
qed

end
