(* ===== verification/Auth_Faults.thy ===== *)
theory Auth_Faults
  imports Auth_Theorems "HOL-Library.Countable"
begin

text \<open>
  What lasts in the auth service: closed sessions, used codes, failed registrations; and what
  should not: tokens after \<open>logoutAll\<close>, \<open>logout\<close> and a new password.
\<close>

section \<open>Closed sessions stay closed\<close>

lemma preserves_fetch:
  "(\<And>db. I db \<Longrightarrow> preserves (on_db I) (f (g db))) \<Longrightarrow> preserves (on_db I) (andThen (fetch g) f)"
  by (auto simp: preserves_def on_db_def andThen_def fetch_def)

definition closed :: "uuid \<Rightarrow> auth_db \<Rightarrow> bool" where
  "closed u db \<longleftrightarrow> (\<forall>s \<in> set (sessions db). se_userId s = u \<longrightarrow> \<not> live s)"

interpretation closed_keeps: auth_invariant "closed u" "\<lambda>_. True" "\<lambda>s. se_userId s \<noteq> u"
  by unfold_locales (auto simp: closed_def live_def revoke_where_def)

lemma refresh_keeps_closed: "preserves (on_db (closed u)) (refresh env rt md)"
proof -
  have "preserves (on_db (closed u)) (if se_isRevoked s then refresh_revoked env rt s else refresh_rotate env rt md s)"
    if "closed u db" "find (with_token (ae_sha256 env rt)) (sessions db) = Some s" for db s
  proof -
    have "s \<in> set (sessions db)" using that(2) by (auto dest: find_Some_in)
    then have other: "se_userId s \<noteq> u" if "\<not> se_isRevoked s" using \<open>closed u db\<close> that by (auto simp: closed_def live_def)
    show ?thesis
      unfolding refresh_revoked_def refresh_rotate_def generateTokens_def Let_def
      by (intro preserves_intros closed_keeps.statements closed_keeps.session_opened)
        (use other in \<open>simp add: new_session_def\<close>)
  qed
  then show ?thesis
    unfolding refresh_def by (intro preserves_gate on_db_transaction preserves_fetch) blast
qed

fun logs_in :: "auth_op \<Rightarrow> bool" where
  "logs_in (LoginOp e p md) = True"
| "logs_in (OtpOp t otp md) = True"
| "logs_in (GoogleOp e md) = True"
| "logs_in (SsoOp e md) = True"
| "logs_in _ = False"

lemma preserves_snd: "preserves P m \<Longrightarrow> P s \<Longrightarrow> P (snd (m s))"
  by (simp add: preserves_def)

lemma closed_without_login:
  assumes "on_db (closed u) s" "\<not> logs_in op"
  shows "on_db (closed u) (perform_auth env op s)"
proof -
  note kept = closed_keeps.without_session [OF TrueI, of u, THEN preserves_snd, OF assms(1)]
    refresh_keeps_closed [of u, THEN preserves_snd, OF assms(1)]
  show ?thesis
    using assms(2) unfolding perform_auth_def
    by (cases op) (simp_all only: auth_op.case logs_in.simps kept not_True_eq_False)
qed

lemma closed_revoke: "closed u (revoke_where (of_user u) db)"
  unfolding closed_def
proof (intro ballI impI)
  fix s assume s: "s \<in> set (sessions (revoke_where (of_user u) db))" "se_userId s = u"
  then obtain x where "s = (if of_user u x \<and> \<not> se_isRevoked x then x\<lparr>se_isRevoked := True\<rparr> else x)"
    by (fastforce simp: revoke_where_def)
  then show "\<not> live s" using s(2) by (cases "se_isRevoked x") (simp_all add: live_def of_user_def split: if_splits)
qed

lemma logoutAll_closes:
  assumes "ae_verify env a (ae_now env) = Some c" "a \<noteq> []"
  shows "on_db (closed (cl_sub c)) (snd (logoutAll env a (connect db out)))"
  using assms by (simp add: logoutAll_def act_unfold bumpUserTokenVersion_def log_event_def on_db_def closed_revoke)

text \<open>
  C16: after \<open>logoutAll\<close> no session of the user is live until somebody logs in, whatever
  tokens are presented, used again or stolen in the meantime.
\<close>

theorem logout_everywhere_lasts:
  assumes "ae_verify env a (ae_now env) = Some c" "a \<noteq> []" "\<forall>(e, op) \<in> set ops. \<not> logs_in op"
  shows "closed (cl_sub c) (cn_committed (performs_auth ops (snd (logoutAll env a (connect db out)))))"
proof -
  have "on_db (closed (cl_sub c)) (performs_auth ops s)" if "on_db (closed (cl_sub c)) s" for s
    using assms(3) that unfolding performs_auth_def
    by (induction ops arbitrary: s) (auto intro: closed_without_login)
  then show ?thesis using logoutAll_closes [OF assms(1,2)] by (simp add: on_db_def)
qed

text \<open>
  A refresh token whose session was closed, presented again after the time of grace, is
  refused and closes every session of its user.
\<close>

theorem reuse_closes_every_session:
  assumes "find (with_token (ae_sha256 env rt)) (sessions db) = Some s" "\<not> live s"
    "getRotationResult env rt out = None" "refresh env rt md (connect db out) = (r, t)"
    "ae_verify env rt (ae_now env) \<noteq> None"
  shows "r = Inl (Coded ''INVALID_REFRESH_TOKEN'') \<and> closed (se_userId s) (cn_committed t)"
  using assms by (auto simp: refresh_def transaction_connect refresh_revoked_def act_unfold live_def elsewhere_def
      bumpUserTokenVersion_def closed_revoke)

section \<open>Codes work once\<close>

definition dead :: "uuid \<Rightarrow> auth_db \<Rightarrow> bool" where
  "dead c db \<longleftrightarrow> (\<forall>v \<in> set (verifications db). vf_code v = c \<longrightarrow> vf_isUsed v)"

interpretation dead_keeps: auth_invariant "dead c" "\<lambda>env. ae_code env \<noteq> c" "\<lambda>_. True"
  by unfold_locales (auto simp: dead_def new_verification_def revoke_where_def)

lemma reset_kills:
  assumes "resetPassword env email c p (connect db out) = (Inr (), s)" "distinct (map vf_code (verifications db))"
  shows "on_db (dead c) s"
proof -
  obtain a where a: "find_auth LOCAL email db = Some a"
    using assms(1) by (cases "find_auth LOCAL email db") (auto simp: resetPassword_def andThen_fetch act_unfold)
  obtain v where v: "find_valid_code (Some (au_userId a)) c (ae_now env) db = Some v"
    using assms(1) a by (cases "find_valid_code (Some (au_userId a)) c (ae_now env) db")
      (auto simp: resetPassword_def andThen_fetch transaction_connect act_unfold)
  have s: "cn_committed s = cn_current s"
    "verifications (cn_current s) = map (\<lambda>x. if vf_id x = vf_id v then v\<lparr>vf_isUsed := True\<rparr> else x) (verifications db)"
    using assms(1) a v by (auto simp: resetPassword_def andThen_fetch transaction_connect act_unfold set_password_def
        save_verification_def)
  have "v \<in> set (verifications db)" "vf_code v = c"
    using v by (auto simp: find_valid_code_def dest: find_Some_in)
  then have "x = v" if "x \<in> set (verifications db)" "vf_code x = c" for x
    using that assms(2) by (auto simp: distinct_map dest: inj_onD)
  then show ?thesis using s by (auto simp: on_db_def dead_def split: if_splits)
qed

lemma dead_refused:
  assumes "dead c db"
  shows "fst (resetPassword env email c p (connect db out)) \<noteq> Inr ()" "fst (verifyEmail env c (connect db out)) \<noteq> Inr ()"
    "fst (verifyResetPassword env c (connect db out)) \<noteq> Inr ()"
proof -
  have "find_valid_code u c now db = None" "find_code c a db = None" for u now a
    using assms by (auto simp: dead_def find_valid_code_def find_code_def find_None_iff)
  then show "fst (resetPassword env email c p (connect db out)) \<noteq> Inr ()" "fst (verifyEmail env c (connect db out)) \<noteq> Inr ()"
    "fst (verifyResetPassword env c (connect db out)) \<noteq> Inr ()"
    by (auto simp: resetPassword_def verifyEmail_def verifyResetPassword_def andThen_fetch transaction_connect act_unfold
        split: option.splits)
qed

text \<open>
  C19: a code that has set a password sets no second one and verifies nothing, whatever is done
  between, as long as the service does not draw the same code again.
\<close>

theorem used_code_stays_dead:
  assumes "resetPassword env email c p (connect db out) = (Inr (), s)" "distinct (map vf_code (verifications db))"
    "\<forall>(e, op) \<in> set ops. ae_code e \<noteq> c"
  shows "fst (resetPassword env' email' c p' (connect (cn_committed (performs_auth ops s)) out')) \<noteq> Inr () \<and>
    fst (verifyEmail env' c (connect (cn_committed (performs_auth ops s)) out')) \<noteq> Inr ()"
proof -
  have "on_db (dead c) (performs_auth ops t)" if "on_db (dead c) t" for t
    using assms(3) that unfolding performs_auth_def
    by (induction ops arbitrary: t) (auto intro!: dead_keeps.perform_keeps)
  then have "dead c (cn_committed (performs_auth ops s))"
    using reset_kills [OF assms(1,2)] by (simp add: on_db_def)
  then show ?thesis using dead_refused by blast
qed

section \<open>What should not last\<close>

text \<open>
  The first time the tokens of a user are to be invalidated none is: the version of a user
  without a key counts as 1, and the first increment makes it 1.
\<close>

theorem first_bump_revokes_nothing:
  assumes "ae_verify env a (ae_now env) = Some c" "ao_version out (cl_sub c) = None"
    "logoutAll env a (connect db out) = (Inr (), s)"
  shows "token_accepted env' (cn_out s) = token_accepted env' out"
proof -
  have out: "ao_blacklist (cn_out s) = ao_blacklist out" "ao_version (cn_out s) = (ao_version out)(cl_sub c \<mapsto> 1)"
    using assms by (auto simp: logoutAll_def act_unfold bumpUserTokenVersion_def log_event_def nullish_def split: if_splits)
  then have "getUserTokenVersion u (cn_out s) = getUserTokenVersion u out" for u
    using assms(2) by (simp add: getUserTokenVersion_def)
  then show ?thesis
    by (auto simp: token_accepted_def isBlacklisted_def out(1) fun_eq_iff split: option.split)
qed

lemma open_session_value:
  assumes "open_session env u email md (connect db out) = (Inr t, s)"
  shows "cn_out s = out"
    "t = (let c = (claims_of u)\<lparr>cl_email := Some email, cl_tokenVersion := Some (getUserTokenVersion u out)\<rparr>
          in \<lparr>tk_accessToken = ae_sign env c (ae_now env) 1800,
              tk_refreshToken = ae_sign env (c\<lparr>cl_jti := Some (ae_jti env)\<rparr>) (ae_now env) 604800\<rparr>)"
  using assms
  by (auto simp: open_session_def generateTokens_def createSession_def insert_session_def checked_def act_unfold split: if_splits)

lemma expiry_later: "0 < life \<Longrightarrow> now < expiry now life"
proof -
  assume life: "0 < life"
  define q r where "q = now div 1000" and "r = now mod 1000"
  then have "now = 1000 * q + r" "r < 1000" by simp_all
  then have "now < 1000 * (q + life)" using life by simp
  then show ?thesis by (simp add: expiry_def q_def)
qed

lemma jwt_inject:
  assumes "jwt_ok env" "ae_sign env c now life = ae_sign env c' now life'" "0 < life" "0 < life'"
  shows "c = c'"
proof -
  have "ae_verify env (ae_sign env c now life) now = Some c" "ae_verify env (ae_sign env c' now life') now = Some c'"
    using assms(1,3,4) expiry_later [of life now] expiry_later [of life' now] by (simp_all add: jwt_ok_def)
  then show ?thesis using assms(2) by simp
qed

text \<open>
  C36: the refresh token of a session is accepted by the guard like an access token, and still is
  after \<open>logout\<close> has closed the session, for the seven days of its life.
\<close>

theorem refresh_token_survives_logout:
  assumes "jwt_ok env" "sha_ok env" "open_session env u email md (connect db out) = (Inr t, s)"
    "logout env (tk_accessToken t) (tk_refreshToken t) s = (Inr (), s')"
    "ao_blacklist out (ae_sha256 env (tk_refreshToken t)) = None" "later < expiry (ae_now env) 604800"
  shows "\<exists>c. token_accepted (env\<lparr>ae_now := later\<rparr>) (cn_out s') (tk_refreshToken t) = Some c \<and> cl_sub c = u"
proof -
  note t = open_session_value [OF assms(3)]
  define c where "c = (claims_of u)\<lparr>cl_email := Some email, cl_tokenVersion := Some (getUserTokenVersion u out), cl_jti := Some (ae_jti env)\<rparr>"
  have refresh: "tk_refreshToken t = ae_sign env c (ae_now env) 604800"
    and access: "tk_accessToken t = ae_sign env (c\<lparr>cl_jti := None\<rparr>) (ae_now env) 1800"
    using t(2) by (simp_all add: Let_def c_def claims_of_def)
  have "c\<lparr>cl_jti := None\<rparr> \<noteq> c"
  proof
    assume "c\<lparr>cl_jti := None\<rparr> = c"
    then have "cl_jti (c\<lparr>cl_jti := None\<rparr>) = cl_jti c" by (rule arg_cong)
    then show False by (simp add: c_def)
  qed
  then have "tk_accessToken t \<noteq> tk_refreshToken t"
    using jwt_inject [OF assms(1), of "c\<lparr>cl_jti := None\<rparr>" "ae_now env" 1800 c 604800] by (auto simp: refresh access)
  then have "ae_sha256 env (tk_accessToken t) \<noteq> ae_sha256 env (tk_refreshToken t)"
    using assms(2) by (auto simp: sha_ok_def dest: injD)
  moreover have "ao_version (cn_out s') = ao_version out"
    "ao_blacklist (cn_out s') = (ao_blacklist out)(ae_sha256 env (tk_accessToken t) \<mapsto> set_ex (ae_now env) (buildTTL MINUTE 30))"
    using assms(4) by (auto simp: logout_def act_unfold t(1) store_count_def blacklistToken_def log_event_def split: if_splits option.splits)
  moreover have "ae_verify env (tk_refreshToken t) later = Some c"
    using assms(1,6) by (simp add: refresh jwt_ok_def)
  moreover have "cl_sub c = u" "cl_tokenVersion c = Some (getUserTokenVersion u out)"
    by (simp_all add: c_def claims_of_def)
  ultimately show ?thesis
    using assms(5) by (auto simp: token_accepted_def isBlacklisted_def getUserTokenVersion_def)
qed

text \<open>
  A new password, forgotten or changed, closes no session and invalidates no token: who
  knew the old one stays logged in.
\<close>

theorem new_password_keeps_sessions:
  assumes "resetPassword env email c p (connect db out) = (Inr (), s) \<or> changePassword env email p (connect db out) = (Inr (), s)"
  shows "sessions (cn_committed s) = sessions db \<and> cn_out s = out"
  using assms
  by (auto simp: resetPassword_def changePassword_def andThen_fetch transaction_connect act_unfold set_password_def
      save_verification_def split: option.splits)

section \<open>Instances\<close>

text \<open>Claims can be numbered, so there are tokens as \<open>jwt_ok\<close> wants them.\<close>

instance claims_ext :: (countable) countable
proof (rule countable_classI)
  let ?f = "\<lambda>c :: 'a claims_ext. to_nat (cl_sub c, cl_email c, cl_tokenVersion c, cl_jti c, cl_state c, cl_type c,
     cl_deviceId c, cl_clientId c, cl_scopes c, claims.more c)"
  show "x = y" if "?f x = ?f y" for x y using that by (cases x; cases y) simp
qed

definition demo_account :: user where
  "demo_account = \<lparr>ur_id = 7, ur_email = js ''a'', ur_status = js ''active'', ur_isTwoFactorEnabled = False\<rparr>"

definition auth_demo :: "int \<Rightarrow> auth_env" where
  "auth_demo now =
     \<lparr>ae_now = now, ae_rowId = 1, ae_code = 11, ae_jti = 21, ae_sign = (\<lambda>c now life. [int (to_nat c), expiry now life]),
      ae_verify = (\<lambda>t now. if length t = 2 \<and> now < t ! 1 then Some (from_nat (nat (t ! 0))) else None),
      ae_decode = (\<lambda>t. if t = [] then None else Some (from_nat (nat (t ! 0)))), ae_sha256 = id, ae_argonHash = id, ae_argonVerify = (=),
      ae_createUser = Inr demo_account, ae_deleteUser = Inr (), ae_changeStatus = Inr (),
      ae_userByEmail = Inr (Some demo_account), ae_userById = (\<lambda>_. Inr (Some demo_account)), ae_verifyOtp = (\<lambda>_ _. Inr ())\<rparr>"

lemma auth_demo_fields [simp]:
  "ae_now (auth_demo now) = now" "ae_code (auth_demo now) = 11" "ae_sha256 (auth_demo now) t = t" "ae_argonHash (auth_demo now) t = t"
  "ae_sign (auth_demo now) c m life = [int (to_nat c), expiry m life]" "ae_userByEmail (auth_demo now) = Inr (Some demo_account)"
  "ae_argonVerify (auth_demo now) p q \<longleftrightarrow> p = q" "ur_id demo_account = 7" "ur_status demo_account = js ''active''"
  "\<not> ur_isTwoFactorEnabled demo_account"
  "ae_verify (auth_demo now) [int (to_nat c), e] m = (if m < e then Some c else None)"
  by (simp_all add: auth_demo_def demo_account_def)

lemma auth_demo_ok: "jwt_ok (auth_demo now)" "sha_ok (auth_demo now)"
  by (simp_all add: jwt_ok_def sha_ok_def inj_def)

definition demo_auth_db :: auth_db where
  "demo_auth_db = empty_auth\<lparr>auths := [\<lparr>au_userId = 7, au_provider = LOCAL, au_providerId = js ''a'', au_password = js ''p''\<rparr>],
     verifications := [\<lparr>vf_id = 1, vf_userId = 7, vf_code = 5, vf_isUsed = False, vf_action = RESET_PASSWORD, vf_expiresAt = 9\<rparr>],
     sessions := [\<lparr>se_userId = 7, se_refreshToken = js ''old'', se_device = None, se_ipAddress = None, se_userAgent = None,
        se_isRevoked = False, se_expiresAt = 9\<rparr>]\<rparr>"

definition demo_auth_out :: auth_out where
  "demo_auth_out = \<lparr>ao_events = [], ao_version = Map.empty, ao_blacklist = Map.empty, ao_rotation = Map.empty\<rparr>"

lemma new_password_keeps_sessions_witness:
  "sessions (cn_committed (snd (changePassword (auth_demo 0) (js ''a'') (js ''new'') (connect demo_auth_db demo_auth_out)))) = sessions demo_auth_db"
proof -
  have "fst (changePassword (auth_demo 0) (js ''a'') (js ''new'') (connect demo_auth_db demo_auth_out)) = Inr ()"
    by (simp add: changePassword_def act_unfold find_auth_def demo_auth_db_def empty_auth_def set_password_def)
  then have "changePassword (auth_demo 0) (js ''a'') (js ''new'') (connect demo_auth_db demo_auth_out)
     = (Inr (), snd (changePassword (auth_demo 0) (js ''a'') (js ''new'') (connect demo_auth_db demo_auth_out)))"
    by (simp add: prod_eq_iff)
  then show ?thesis using new_password_keeps_sessions by blast
qed

lemma sessions_are_earned_witness:
  "gets_session (auth_demo 0) demo_auth_db (LoginOp (js ''a'') (js ''p'') None) 7"
proof -
  let ?s = "perform_auth (auth_demo 0) (LoginOp (js ''a'') (js ''p'') None) (connect demo_auth_db demo_auth_out)"
  have "\<exists>row \<in> set (sessions (cn_committed ?s)). live row \<and> se_userId row = 7 \<and> se_refreshToken row \<notin> se_refreshToken ` set (sessions demo_auth_db)"
    by (simp add: perform_auth_def login_def act_unfold find_auth_def demo_auth_db_def empty_auth_def finish_login_def
        handleDeviceTracking_def open_session_def generateTokens_def createSession_def insert_session_def checked_def
        new_session_def live_def js_def)
  then show ?thesis using sessions_are_earned [of _ "auth_demo 0" "LoginOp (js ''a'') (js ''p'') None" demo_auth_db demo_auth_out] by metis
qed

definition demo_claims :: claims where
  "demo_claims = (claims_of 7)\<lparr>cl_tokenVersion := Some 1\<rparr>"

definition demo_token :: jstr where
  "demo_token = [int (to_nat demo_claims), 9]"

lemma demo_token_fields [simp]: "demo_token \<noteq> []" "ae_verify (auth_demo n) demo_token m = (if m < 9 then Some demo_claims else None)"
  "cl_sub demo_claims = 7"
  by (simp_all add: demo_token_def demo_claims_def claims_of_def)

lemma logout_everywhere_lasts_witness:
  "closed 7 (cn_committed (performs_auth [(auth_demo 1, RefreshOp (js ''old'') None)]
     (snd (logoutAll (auth_demo 0) demo_token (connect demo_auth_db demo_auth_out)))))"
  using logout_everywhere_lasts [of "auth_demo 0" demo_token demo_claims "[(auth_demo 1, RefreshOp (js ''old'') None)]"] by simp

lemma reuse_closes_every_session_witness:
  "\<exists>t. refresh (auth_demo 0) [int (to_nat demo_claims), 9] None
      (connect (demo_auth_db\<lparr>sessions := map (\<lambda>s. s\<lparr>se_refreshToken := demo_token, se_isRevoked := True\<rparr>) (sessions demo_auth_db) @ sessions demo_auth_db\<rparr>) demo_auth_out)
      = (Inl (Coded ''INVALID_REFRESH_TOKEN''), t) \<and> closed 7 (cn_committed t)"
proof -
  let ?s = "(hd (sessions demo_auth_db))\<lparr>se_refreshToken := demo_token, se_isRevoked := True\<rparr>"
  let ?db = "demo_auth_db\<lparr>sessions := map (\<lambda>s. s\<lparr>se_refreshToken := demo_token, se_isRevoked := True\<rparr>) (sessions demo_auth_db) @ sessions demo_auth_db\<rparr>"
  obtain r t where run: "refresh (auth_demo 0) demo_token None (connect ?db demo_auth_out) = (r, t)" by fastforce
  have "find (with_token (ae_sha256 (auth_demo 0) demo_token)) (sessions ?db) = Some ?s" "\<not> live ?s" "se_userId ?s = 7"
    "getRotationResult (auth_demo 0) demo_token demo_auth_out = None"
    by (simp_all add: demo_auth_db_def with_token_def live_def getRotationResult_def demo_auth_out_def)
  then show ?thesis using reuse_closes_every_session [OF _ _ _ run] run by (simp add: demo_token_def)
qed

lemma first_bump_revokes_nothing_witness:
  "\<exists>s. logoutAll (auth_demo 0) demo_token (connect demo_auth_db demo_auth_out) = (Inr (), s) \<and>
     token_accepted (auth_demo 1) (cn_out s) demo_token = Some demo_claims"
proof -
  obtain r s where run: "logoutAll (auth_demo 0) demo_token (connect demo_auth_db demo_auth_out) = (r, s)" by fastforce
  then have r: "r = Inr ()" by (auto simp: logoutAll_def act_unfold bumpUserTokenVersion_def log_event_def)
  have "ao_version demo_auth_out (cl_sub demo_claims) = None" by (simp add: demo_auth_out_def)
  from first_bump_revokes_nothing [OF _ this run [unfolded r], of "auth_demo 1"]
  have "token_accepted (auth_demo 1) (cn_out s) = token_accepted (auth_demo 1) demo_auth_out" by simp
  moreover have "token_accepted (auth_demo 1) demo_auth_out demo_token = Some demo_claims"
    by (simp add: token_accepted_def isBlacklisted_def demo_auth_out_def getUserTokenVersion_def demo_claims_def claims_of_def)
  ultimately show ?thesis using run r by simp
qed

lemma used_code_stays_dead_witness:
  "fst (resetPassword (auth_demo 0) (js ''a'') 5 (js ''q'')
     (connect (cn_committed (performs_auth [(auth_demo 0, ForgotOp (js ''a''))]
        (snd (resetPassword (auth_demo 0) (js ''a'') 5 (js ''new'') (connect demo_auth_db demo_auth_out))))) demo_auth_out)) \<noteq> Inr ()"
proof -
  let ?run = "resetPassword (auth_demo 0) (js ''a'') 5 (js ''new'') (connect demo_auth_db demo_auth_out)"
  have "fst ?run = Inr ()"
    by (simp add: resetPassword_def act_unfold find_auth_def find_valid_code_def demo_auth_db_def empty_auth_def set_password_def
        save_verification_def transaction_def)
  then have run: "?run = (Inr (), snd ?run)" by (simp add: prod_eq_iff)
  have "distinct (map vf_code (verifications demo_auth_db))" by (simp add: demo_auth_db_def)
  from used_code_stays_dead [OF run this, of "[(auth_demo 0, ForgotOp (js ''a''))]"] show ?thesis by simp
qed

lemma refresh_token_survives_logout_witness:
  "\<exists>t s s' c. open_session (auth_demo 0) 7 (js ''a'') None (connect empty_auth demo_auth_out) = (Inr t, s) \<and>
     logout (auth_demo 0) (tk_accessToken t) (tk_refreshToken t) s = (Inr (), s') \<and>
     token_accepted ((auth_demo 0)\<lparr>ae_now := 604799999\<rparr>) (cn_out s') (tk_refreshToken t) = Some c"
proof -
  let ?open = "open_session (auth_demo 0) 7 (js ''a'') None (connect empty_auth demo_auth_out)"
  obtain t s where run: "?open = (Inr t, s)"
    by (auto simp: open_session_def generateTokens_def createSession_def insert_session_def checked_def act_unfold
        connect_def empty_auth_def)
  have s: "sessions (cn_current s) = [new_session (auth_demo 0) 7 (tk_refreshToken t) None]"
    using run by (auto simp: open_session_def generateTokens_def createSession_def insert_session_def checked_def act_unfold
        connect_def empty_auth_def split: if_splits)
  have t: "tk_accessToken t \<noteq> []" "tk_refreshToken t \<noteq> []"
    unfolding open_session_value(2) [OF run] by (simp_all add: Let_def)
  obtain r s' where out: "logout (auth_demo 0) (tk_accessToken t) (tk_refreshToken t) s = (r, s')" by fastforce
  then have r: "r = Inr ()"
    using s t by (auto simp: logout_def act_unfold store_count_def blacklistToken_def log_event_def with_token_def new_session_def
        buildTTL_def split: option.splits if_splits)
  have "ao_blacklist demo_auth_out (ae_sha256 (auth_demo 0) (tk_refreshToken t)) = None" by (simp add: demo_auth_out_def)
  moreover have "(604799999 :: int) < expiry (ae_now (auth_demo 0)) 604800" by (simp add: expiry_def)
  ultimately show ?thesis using refresh_token_survives_logout [OF auth_demo_ok run out [unfolded r]] run out r by blast
qed

end
