(* ===== verification/Oauth_Service.thy ===== *)
theory Oauth_Service
  imports Auth_Faults
begin

text \<open>
  \<open>oauth.service.ts\<close> and \<open>strategy/oauth\<close> of the auth service: the clients developers register,
  the consent of a user, and codes and tokens made from it. TypeORM's \<open>save\<close> writes the row
  with the primary key of the entity if there is one, and inserts a row otherwise.
\<close>

section \<open>Rows\<close>

datatype OAuthScope = OPENID | PROFILE | EMAIL | CHANNELS_READ | CHANNELS_WRITE | USERS_READ

definition scope_text :: "OAuthScope \<Rightarrow> jstr" where
  "scope_text s = js (case s of OPENID \<Rightarrow> ''openid'' | PROFILE \<Rightarrow> ''profile'' | EMAIL \<Rightarrow> ''email''
     | CHANNELS_READ \<Rightarrow> ''channels:read'' | CHANNELS_WRITE \<Rightarrow> ''channels:write'' | USERS_READ \<Rightarrow> ''users:read'')"

record client =
  oc_id :: uuid
  oc_ownerId :: uuid
  oc_name :: jstr
  oc_logoUrl :: "jstr option"
  oc_clientId :: jstr
  oc_clientSecret :: jstr
  oc_redirectUris :: "jstr list"
  oc_allowedScopes :: "OAuthScope list"
  oc_createdAt :: int

record auth_code =
  oa_code :: jstr
  oa_clientId :: jstr
  oa_userId :: uuid
  oa_redirectUri :: jstr
  oa_scopes :: "OAuthScope list"
  oa_expiresAt :: int

record oauth_token =
  ot_accessToken :: jstr             \<comment> \<open>the primary key\<close>
  ot_refreshToken :: jstr
  ot_clientId :: jstr
  ot_userId :: uuid
  ot_expiresAt :: int
  ot_createdAt :: int

record oauth_db =
  clients :: "client list"
  codes :: "auth_code list"
  oauth_tokens :: "oauth_token list"

record profile = user +
  pf_firstName :: "jstr option"
  pf_lastName :: "jstr option"
  pf_avatarUrl :: "jstr option"

record oauth_env = auth_env +
  oe_rowId :: uuid
  oe_clientId :: jstr                                \<comment> \<open>\<open>randomUUID()\<close>\<close>
  oe_secret :: jstr                                  \<comment> \<open>\<open>randomBytes(32)\<close>\<close>
  oe_code :: jstr                                    \<comment> \<open>\<open>randomBytes(24)\<close>\<close>
  oe_refreshToken :: jstr                            \<comment> \<open>\<open>randomBytes(40)\<close>\<close>
  oe_verifyExpired :: "jstr \<Rightarrow> claims option"        \<comment> \<open>\<open>verifyAsync\<close> with \<open>ignoreExpiration\<close>\<close>
  oe_profile :: "uuid \<Rightarrow> rpc_error + profile option"
  oe_validUrl :: "jstr \<Rightarrow> bool"                      \<comment> \<open>\<open>new URL(\<dots>)\<close> accepts the text\<close>

type_synonym 'a oauth_act = "(oauth_db, unit, 'a) act"

definition no_client :: rpc_error where "no_client = Coded ''CLIENT_NOT_FOUND''"

section \<open>The console of the developer\<close>

record client_dto =
  cd_name :: jstr
  cd_logoUrl :: "jstr option"
  cd_redirectUris :: "jstr list"

text \<open>The answer is the row without its secret; where the code gives the secret it is the second component.\<close>

definition mapClientToResponse :: "client \<Rightarrow> client" where
  "mapClientToResponse c = c\<lparr>oc_clientSecret := []\<rparr>"

definition createClient :: "oauth_env \<Rightarrow> uuid \<Rightarrow> client_dto \<Rightarrow> (client \<times> jstr) oauth_act" where
  "createClient env ownerId dto =
    (let c = \<lparr>oc_id = oe_rowId env, oc_ownerId = ownerId, oc_name = cd_name dto,
              oc_logoUrl = (if truthy (cd_logoUrl dto) then cd_logoUrl dto else None),
              oc_clientId = oe_clientId env, oc_clientSecret = ae_argonHash env (oe_secret env),
              oc_redirectUris = cd_redirectUris dto, oc_allowedScopes = [OPENID, PROFILE, EMAIL], oc_createdAt = ae_now env\<rparr>
     in andThen (checked (\<lambda>db. oc_clientId c \<notin> oc_clientId ` set (clients db)) (\<lambda>db. db\<lparr>clients := clients db @ [c]\<rparr>)) (\<lambda>_.
        ret (mapClientToResponse c, oe_secret env)))"

definition getClients :: "uuid \<Rightarrow> client list oauth_act" where
  "getClients ownerId = fetch (\<lambda>db. map mapClientToResponse
     (rev (sort_key oc_createdAt (filter (\<lambda>c. oc_ownerId c = ownerId) (clients db)))))"

definition owned_client :: "uuid \<Rightarrow> uuid \<Rightarrow> client oauth_act" where
  "owned_client ownerId i =
    andThen (fetch (\<lambda>db. find (\<lambda>c. oc_id c = i \<and> oc_ownerId c = ownerId) (clients db))) (from_option no_client)"

definition getClientDetails :: "uuid \<Rightarrow> uuid \<Rightarrow> client oauth_act" where
  "getClientDetails ownerId i = andThen (owned_client ownerId i) (\<lambda>c. ret (mapClientToResponse c))"

definition save_client :: "client \<Rightarrow> unit oauth_act" where
  "save_client c = store (\<lambda>db. db\<lparr>clients := map (\<lambda>x. if oc_id x = oc_id c then c else x) (clients db)\<rparr>)"

record client_update =
  cu_name :: "jstr option"
  cu_logoUrl :: "jstr option"
  cu_redirectUris :: "jstr list option"
  cu_allowedScopes :: "OAuthScope list option"

definition updateClient :: "uuid \<Rightarrow> uuid \<Rightarrow> client_update \<Rightarrow> client oauth_act" where
  "updateClient ownerId i d =
    andThen (owned_client ownerId i) (\<lambda>c.
    let c = c\<lparr>oc_name := nullish (cu_name d) (oc_name c),
              oc_logoUrl := (case cu_logoUrl d of None \<Rightarrow> oc_logoUrl c | Some l \<Rightarrow> Some l),
              oc_redirectUris := nullish (cu_redirectUris d) (oc_redirectUris c),
              oc_allowedScopes := nullish (cu_allowedScopes d) (oc_allowedScopes c)\<rparr>
    in andThen (save_client c) (\<lambda>_. ret (mapClientToResponse c)))"

definition regenerateClientSecret :: "oauth_env \<Rightarrow> uuid \<Rightarrow> uuid \<Rightarrow> (client \<times> jstr) oauth_act" where
  "regenerateClientSecret env ownerId i =
    andThen (owned_client ownerId i) (\<lambda>c.
    let c = c\<lparr>oc_clientSecret := ae_argonHash env (oe_secret env)\<rparr>
    in andThen (save_client c) (\<lambda>_. ret (mapClientToResponse c, oe_secret env)))"

definition deleteClient :: "uuid \<Rightarrow> uuid \<Rightarrow> bool oauth_act" where
  "deleteClient ownerId i =
    (let P = (\<lambda>c. oc_id c = i \<and> oc_ownerId c = ownerId)
     in andThen (store_count (\<lambda>db. length (filter P (clients db))) (\<lambda>db. db\<lparr>clients := filter (\<lambda>c. \<not> P c) (clients db)\<rparr>)) (\<lambda>affected.
        andThen (ensure no_client (affected \<noteq> 0)) (\<lambda>_. ret True)))"

section \<open>Consent\<close>

definition find_client :: "jstr \<Rightarrow> client oauth_act" where
  "find_client i = andThen (fetch (\<lambda>db. find (\<lambda>c. oc_clientId c = i) (clients db))) (from_option no_client)"

definition getAuthorizeDetails :: "jstr \<Rightarrow> jstr \<Rightarrow> (jstr \<times> jstr option \<times> OAuthScope list) oauth_act" where
  "getAuthorizeDetails clientId redirectUri =
    andThen (find_client clientId) (\<lambda>c.
    andThen (ensure (Coded ''REDIRECT_URI_MISMATCH'') (redirectUri \<in> set (oc_redirectUris c))) (\<lambda>_.
    ret (oc_name c, oc_logoUrl c, oc_allowedScopes c)))"

text \<open>The redirect is the address and the code its parameter \<open>code\<close> carries.\<close>

definition approveConsent :: "oauth_env \<Rightarrow> uuid \<Rightarrow> jstr \<Rightarrow> jstr \<Rightarrow> OAuthScope list \<Rightarrow> (jstr \<times> jstr) oauth_act" where
  "approveConsent env userId clientId redirectUri scopes =
    andThen (find_client clientId) (\<lambda>c.
    andThen (ensure (Coded ''REDIRECT_URI_MISMATCH'') (redirectUri \<in> set (oc_redirectUris c))) (\<lambda>_.
    andThen (ensure (Coded ''INVALID_SCOPE'') (length (filter (\<lambda>s. s \<notin> set (oc_allowedScopes c)) scopes) = 0)) (\<lambda>_.
    andThen (checked (\<lambda>db. oe_code env \<notin> oa_code ` set (codes db)) (\<lambda>db. db\<lparr>codes := codes db @
       [\<lparr>oa_code = oe_code env, oa_clientId = clientId, oa_userId = userId, oa_redirectUri = redirectUri,
         oa_scopes = scopes, oa_expiresAt = ae_now env + buildTTL MINUTE 10\<rparr>]\<rparr>)) (\<lambda>_.
    andThen (ensure (Broken (js ''Invalid URL'')) (oe_validUrl env redirectUri)) (\<lambda>_.
    ret (redirectUri, oe_code env))))))"

section \<open>Codes and tokens\<close>

record exchange_dto =
  ex_clientId :: jstr
  ex_clientSecret :: jstr
  ex_grantType :: "jstr option"
  ex_code :: "jstr option"
  ex_redirectUri :: "jstr option"
  ex_refreshToken :: "jstr option"

text \<open>\<open>save\<close> of a token: its key is the access token.\<close>

definition save_token :: "oauth_token \<Rightarrow> unit oauth_act" where
  "save_token t = checked
     (\<lambda>db. \<forall>x \<in> set (oauth_tokens db). ot_refreshToken x = ot_refreshToken t \<longrightarrow> ot_accessToken x = ot_accessToken t)
     (\<lambda>db. db\<lparr>oauth_tokens :=
        (if ot_accessToken t \<in> ot_accessToken ` set (oauth_tokens db)
         then map (\<lambda>x. if ot_accessToken x = ot_accessToken t then t else x) (oauth_tokens db)
         else oauth_tokens db @ [t])\<rparr>)"

definition access_token :: "oauth_env \<Rightarrow> uuid \<Rightarrow> jstr \<Rightarrow> jstr list \<Rightarrow> jstr" where
  "access_token env u clientId scopes =
     ae_sign env ((claims_of u)\<lparr>cl_clientId := Some clientId, cl_scopes := Some scopes, cl_type := Some (js ''oauth_access'')\<rparr>)
       (ae_now env) 3600"

definition exchange_code :: "oauth_env \<Rightarrow> exchange_dto \<Rightarrow> tokens oauth_act" where
  "exchange_code env d =
    andThen (ensure (Plain (js ''code and redirectUri parameters are required'')) (truthy (ex_code d) \<and> truthy (ex_redirectUri d))) (\<lambda>_.
    andThen (fetch (\<lambda>db. find (\<lambda>a. oa_code a = the (ex_code d)) (codes db))) (\<lambda>found.
    andThen (from_option (Coded ''AUTH_CODE_EXPIRED'') found) (\<lambda>a.
    andThen (ensure (Coded ''AUTH_CODE_EXPIRED'') (\<not> oa_expiresAt a < ae_now env)) (\<lambda>_.
    andThen (ensure (Coded ''REDIRECT_URI_MISMATCH'') (oa_clientId a = ex_clientId d \<and> Some (oa_redirectUri a) = ex_redirectUri d)) (\<lambda>_.
    andThen (store (\<lambda>db. db\<lparr>codes := filter (\<lambda>x. oa_code x \<noteq> oa_code a) (codes db)\<rparr>)) (\<lambda>_.
    let t = \<lparr>ot_accessToken = access_token env (oa_userId a) (oa_clientId a) (map scope_text (oa_scopes a)),
             ot_refreshToken = oe_refreshToken env, ot_clientId = oa_clientId a, ot_userId = oa_userId a,
             ot_expiresAt = ae_now env + buildTTL HOUR 1, ot_createdAt = ae_now env\<rparr>
    in andThen (save_token t) (\<lambda>_. ret \<lparr>tk_accessToken = ot_accessToken t, tk_refreshToken = ot_refreshToken t\<rparr>)))))))"

definition exchange_refresh :: "oauth_env \<Rightarrow> exchange_dto \<Rightarrow> tokens oauth_act" where
  "exchange_refresh env d =
    andThen (ensure (Plain (js ''refresh_token parameter is required'')) (truthy (ex_refreshToken d))) (\<lambda>_.
    andThen (fetch (\<lambda>db. find (\<lambda>t. Some (ot_refreshToken t) = ex_refreshToken d) (oauth_tokens db))) (\<lambda>found.
    andThen (from_option (Plain (js ''Invalid refresh token'')) found) (\<lambda>old.
    andThen (ensure (Plain (js ''Refresh token client ID mismatch'')) (ot_clientId old = ex_clientId d)) (\<lambda>_.
    andThen (from_option (Plain (js ''Could not retrieve scopes from original access token''))
       (oe_verifyExpired env (ot_accessToken old))) (\<lambda>payload.
    let t = old\<lparr>ot_accessToken := access_token env (ot_userId old) (ot_clientId old) (nullish (cl_scopes payload) []),
                ot_refreshToken := oe_refreshToken env, ot_expiresAt := ae_now env + buildTTL HOUR 1\<rparr>
    in andThen (save_token t) (\<lambda>_. ret \<lparr>tk_accessToken = ot_accessToken t, tk_refreshToken = ot_refreshToken t\<rparr>))))))"

definition grant_type :: "exchange_dto \<Rightarrow> jstr" where
  "grant_type d = (if truthy (ex_grantType d) then the (ex_grantType d) else js ''authorization_code'')"

definition authenticate_client :: "oauth_env \<Rightarrow> jstr \<Rightarrow> jstr \<Rightarrow> unit oauth_act" where
  "authenticate_client env clientId secret =
    andThen (find_client clientId) (\<lambda>c.
    ensure (Coded ''INVALID_CLIENT_SECRET'') (ae_argonVerify env (oc_clientSecret c) secret))"

definition exchangeToken :: "oauth_env \<Rightarrow> exchange_dto \<Rightarrow> tokens oauth_act" where
  "exchangeToken env d =
    andThen (authenticate_client env (ex_clientId d) (ex_clientSecret d)) (\<lambda>_.
    if grant_type d = js ''authorization_code'' then transaction (exchange_code env d)
    else if grant_type d = js ''refresh_token'' then transaction (exchange_refresh env d)
    else throw (Plain (js ''Unsupported grant_type: '' @ grant_type d)))"

section \<open>Using and revoking tokens\<close>

record user_info =
  ui_sub :: uuid
  ui_name :: jstr
  ui_email :: jstr
  ui_picture :: "jstr option"

definition valid_token :: "oauth_env \<Rightarrow> jstr \<Rightarrow> (oauth_token \<times> claims) oauth_act" where
  "valid_token env accessToken =
    andThen (ensure (Coded ''INVALID_TOKEN'') (accessToken \<noteq> [])) (\<lambda>_.
    andThen (fetch (\<lambda>db. find (\<lambda>t. ot_accessToken t = accessToken) (oauth_tokens db))) (\<lambda>found.
    andThen (from_option (Coded ''INVALID_TOKEN'') found) (\<lambda>t.
    andThen (ensure (Coded ''INVALID_TOKEN'') (\<not> ot_expiresAt t < ae_now env)) (\<lambda>_.
    andThen (from_option (Coded ''INVALID_TOKEN'') (ae_verify env accessToken (ae_now env))) (\<lambda>payload. ret (t, payload))))))"

definition display_name :: "profile \<Rightarrow> jstr" where
  "display_name u = or_str
     (trim (join [32] (filter (\<lambda>n. n \<noteq> []) [nullish (pf_firstName u) [], nullish (pf_lastName u) []])))
     (takeWhile (\<lambda>c. c \<noteq> 64) (ur_email u))"

definition getUserInfo :: "oauth_env \<Rightarrow> jstr \<Rightarrow> user_info oauth_act" where
  "getUserInfo env accessToken =
    andThen (valid_token env accessToken) (\<lambda>(t, payload).
    case oe_profile env (ot_userId t) of
      Inl _ \<Rightarrow> throw (Plain (js ''Internal error communicating with User microservice''))
    | Inr None \<Rightarrow> throw (Coded ''INVALID_TOKEN'')
    | Inr (Some u) \<Rightarrow> ret \<lparr>ui_sub = ur_id u, ui_name = display_name u, ui_email = ur_email u,
          ui_picture = (if truthy (pf_avatarUrl u) then pf_avatarUrl u else None)\<rparr>)"

definition verifyTokenScope :: "oauth_env \<Rightarrow> jstr \<Rightarrow> jstr \<Rightarrow> (uuid \<times> jstr) oauth_act" where
  "verifyTokenScope env accessToken requiredScope =
    andThen (valid_token env accessToken) (\<lambda>(t, payload).
    andThen (ensure (Plain (js ''Forbidden: Token is missing required scope '' @ [39] @ requiredScope @ [39]))
       (case cl_scopes payload of None \<Rightarrow> False | Some ss \<Rightarrow> requiredScope \<in> set ss)) (\<lambda>_.
    ret (ot_userId t, ot_clientId t)))"

definition revokeToken :: "oauth_env \<Rightarrow> jstr \<Rightarrow> jstr \<Rightarrow> jstr \<Rightarrow> unit oauth_act" where
  "revokeToken env clientId secret token =
    andThen (authenticate_client env clientId secret) (\<lambda>_.
    transaction
      (andThen (fetch (\<lambda>db. find (\<lambda>t. (ot_accessToken t = token \<or> ot_refreshToken t = token) \<and> ot_clientId t = clientId) (oauth_tokens db))) (\<lambda>found.
       case found of
         None \<Rightarrow> ret ()
       | Some t \<Rightarrow> store (\<lambda>db. db\<lparr>oauth_tokens := filter (\<lambda>x. ot_accessToken x \<noteq> ot_accessToken t) (oauth_tokens db)\<rparr>))))"

record authorized_client =
  ac_client :: client                        \<comment> \<open>id, clientId, name and logo of it are answered\<close>
  ac_scopes :: "jstr list"
  ac_authorizedAt :: int

definition authorized_scopes :: "oauth_env \<Rightarrow> oauth_token list \<Rightarrow> jstr list" where
  "authorized_scopes env ts =
    (case (case find (\<lambda>t. ot_expiresAt t > ae_now env) ts of Some t \<Rightarrow> Some t | None \<Rightarrow> (case ts of [] \<Rightarrow> None | t # _ \<Rightarrow> Some t)) of
       None \<Rightarrow> []
     | Some t \<Rightarrow> nullish (Option.bind (ae_decode env (ot_accessToken t)) cl_scopes) [])"

definition getAuthorizedClients :: "oauth_env \<Rightarrow> uuid \<Rightarrow> authorized_client list oauth_act" where
  "getAuthorizedClients env userId = fetch (\<lambda>db.
     let tokens = filter (\<lambda>t. ot_userId t = userId) (oauth_tokens db)
     in map (\<lambda>c. let ts = filter (\<lambda>t. ot_clientId t = oc_clientId c) tokens
                 in \<lparr>ac_client = c, ac_scopes = authorized_scopes env ts,
                     ac_authorizedAt = (case rev (sort_key ot_createdAt ts) of [] \<Rightarrow> ae_now env | t # _ \<Rightarrow> ot_createdAt t)\<rparr>)
          (filter (\<lambda>c. oc_clientId c \<in> ot_clientId ` set tokens) (clients db)))"

definition revokeAuthorizedClient :: "uuid \<Rightarrow> jstr \<Rightarrow> unit oauth_act" where
  "revokeAuthorizedClient userId clientId = transaction
    (store (\<lambda>db. db\<lparr>oauth_tokens := filter (\<lambda>t. \<not> (ot_userId t = userId \<and> ot_clientId t = clientId)) (oauth_tokens db)\<rparr>))"

end
