(* ===== verification/Oauth_Theorems.thy ===== *)
theory Oauth_Theorems
  imports Oauth_Service
begin

text \<open>
  Every token goes back to the consent of its user, a code makes one token, and three places
  where tokens live longer or tell more than they should.
\<close>

section \<open>Operations\<close>

datatype oauth_op =
    CreateClientOp uuid client_dto | UpdateClientOp uuid uuid client_update | SecretOp uuid uuid | DeleteClientOp uuid uuid
  | ApproveOp uuid jstr jstr "OAuthScope list" | ExchangeOp exchange_dto | RevokeOp jstr jstr jstr | RevokeClientOp uuid jstr

definition perform_oauth :: "oauth_env \<Rightarrow> oauth_op \<Rightarrow> (oauth_db, unit) conn \<Rightarrow> (oauth_db, unit) conn" where
  "perform_oauth env op s =
    (case op of
       CreateClientOp o' d \<Rightarrow> snd (createClient env o' d s)
     | UpdateClientOp o' i d \<Rightarrow> snd (updateClient o' i d s)
     | SecretOp o' i \<Rightarrow> snd (regenerateClientSecret env o' i s)
     | DeleteClientOp o' i \<Rightarrow> snd (deleteClient o' i s)
     | ApproveOp u c uri ss \<Rightarrow> snd (approveConsent env u c uri ss s)
     | ExchangeOp d \<Rightarrow> snd (exchangeToken env d s)
     | RevokeOp c sec t \<Rightarrow> snd (revokeToken env c sec t s)
     | RevokeClientOp u c \<Rightarrow> snd (revokeAuthorizedClient u c s))"

definition performs_oauth :: "(oauth_env \<times> oauth_op) list \<Rightarrow> (oauth_db, unit) conn \<Rightarrow> (oauth_db, unit) conn" where
  "performs_oauth ops s = fold (\<lambda>(env, op). perform_oauth env op) ops s"

definition empty_oauth :: oauth_db where
  "empty_oauth = \<lparr>clients = [], codes = [], oauth_tokens = []\<rparr>"

lemma client_statements:
  assumes "\<And>cs db. I (db\<lparr>clients := cs\<rparr>) \<longleftrightarrow> I db"
  shows "preserves (on_db I) (createClient env o' d)" "preserves (on_db I) (updateClient o' i u)"
    "preserves (on_db I) (regenerateClientSecret env o' i)" "preserves (on_db I) (deleteClient o' i)"
    "preserves (on_db I) (authenticate_client env c sec)" "preserves (on_db I) (find_client c)"
  unfolding createClient_def updateClient_def regenerateClientSecret_def deleteClient_def authenticate_client_def
    find_client_def owned_client_def save_client_def Let_def
  by (intro preserves_intros; simp add: assms)+

section \<open>Consent\<close>

text \<open>What users have agreed to, and a table that holds nothing else; \<open>va\<close> reads a token of any age.\<close>

type_synonym consent = "uuid \<times> jstr \<times> jstr list"

definition consents :: "(oauth_env \<times> oauth_op) list \<Rightarrow> consent set" where
  "consents ops = {(u, c, map scope_text ss) | env u c uri ss. (env, ApproveOp u c uri ss) \<in> set ops}"

definition token_consent :: "(jstr \<Rightarrow> claims option) \<Rightarrow> consent set \<Rightarrow> oauth_token \<Rightarrow> bool" where
  "token_consent va C t \<longleftrightarrow> (\<exists>c ss. va (ot_accessToken t) = Some c \<and> cl_sub c = ot_userId t \<and> cl_scopes c = Some ss \<and>
     (ot_userId t, ot_clientId t, ss) \<in> C)"

definition consented :: "(jstr \<Rightarrow> claims option) \<Rightarrow> consent set \<Rightarrow> oauth_db \<Rightarrow> bool" where
  "consented va C db \<longleftrightarrow>
     (\<forall>a \<in> set (codes db). (oa_userId a, oa_clientId a, map scope_text (oa_scopes a)) \<in> C) \<and>
     (\<forall>t \<in> set (oauth_tokens db). token_consent va C t)"

definition signs_for :: "(jstr \<Rightarrow> claims option) \<Rightarrow> oauth_env \<Rightarrow> bool" where
  "signs_for va env \<longleftrightarrow> oe_verifyExpired env = va \<and> (\<forall>c now life. va (ae_sign env c now life) = Some c)"

lemma consented_clients [simp]: "consented va C (db\<lparr>clients := cs\<rparr>) \<longleftrightarrow> consented va C db"
  by (simp add: consented_def)

lemma consented_fewer:
  "consented va C db \<Longrightarrow> consented va C (db\<lparr>codes := filter P (codes db)\<rparr>)"
  "consented va C db \<Longrightarrow> consented va C (db\<lparr>oauth_tokens := filter Q (oauth_tokens db)\<rparr>)"
  by (auto simp: consented_def)

lemma consented_save: "token_consent va C t \<Longrightarrow> preserves (on_db (consented va C)) (save_token t)"
  unfolding save_token_def by (intro preserves_intros) (auto simp: consented_def)

lemma access_token_claims: "signs_for va env \<Longrightarrow> va (access_token env u c ss) =
   Some ((claims_of u)\<lparr>cl_clientId := Some c, cl_scopes := Some ss, cl_type := Some (js ''oauth_access'')\<rparr>)"
  by (simp add: signs_for_def access_token_def)

lemma consented_exchange_code:
  assumes "signs_for va env"
  shows "preserves (on_db (consented va C)) (exchange_code env d)"
  unfolding exchange_code_def Let_def
  by (intro preserves_gate preserves_fetch preserves_andThen on_db_store consented_save preserves_pure)
    (auto simp: token_consent_def access_token_claims [OF assms] claims_of_def consented_def dest!: find_Some_in)

lemma consented_exchange_refresh:
  assumes "signs_for va env"
  shows "preserves (on_db (consented va C)) (exchange_refresh env d)"
proof -
  have old: "token_consent va C old" if "consented va C db" "find P (oauth_tokens db) = Some old" for db P old
    using that by (auto simp: consented_def dest: find_Some_in)
  have va: "oe_verifyExpired env = va" using assms by (simp add: signs_for_def)
  have saved: "preserves (on_db (consented va C)) (save_token (old\<lparr>ot_accessToken := access_token env (ot_userId old) (ot_clientId old) (nullish (cl_scopes p) []),
      ot_refreshToken := r, ot_expiresAt := e\<rparr>))" if "token_consent va C old" "va (ot_accessToken old) = Some p" for old p r e
    by (rule consented_save) (use that in \<open>auto simp: token_consent_def access_token_claims [OF assms] claims_of_def nullish_def\<close>)
  show ?thesis
    unfolding exchange_refresh_def Let_def va
    by (intro preserves_gate preserves_fetch preserves_andThen preserves_pure, rule saved, erule (1) old)
qed

lemma consented_keeps:
  assumes "signs_for va env" "\<And>u c uri ss. op = ApproveOp u c uri ss \<Longrightarrow> (u, c, map scope_text ss) \<in> C"
    "on_db (consented va C) s"
  shows "on_db (consented va C) (perform_oauth env op s)"
proof -
  have approve: "preserves (on_db (consented va C)) (approveConsent env u c uri ss)" if "(u, c, map scope_text ss) \<in> C" for u c uri ss
    unfolding approveConsent_def
    by (intro preserves_intros client_statements) (use that in \<open>auto simp: consented_def\<close>)
  have "preserves (on_db (consented va C)) (exchangeToken env d)" for d
    unfolding exchangeToken_def
    by (intro preserves_intros client_statements consented_exchange_code consented_exchange_refresh assms(1)) simp
  moreover have "preserves (on_db (consented va C)) (revokeToken env c sec t)" "preserves (on_db (consented va C)) (revokeAuthorizedClient u c)" for c sec t u
    unfolding revokeToken_def revokeAuthorizedClient_def
    by (intro preserves_intros client_statements consented_fewer; simp)+
  moreover note client_statements [of "consented va C", OF consented_clients]
  ultimately have kept: "on_db (consented va C) (snd (exchangeToken env d s))" "on_db (consented va C) (snd (revokeToken env c sec t s))"
    "on_db (consented va C) (snd (revokeAuthorizedClient u c s))" "on_db (consented va C) (snd (createClient env o' cd s))"
    "on_db (consented va C) (snd (updateClient o' i cu s))" "on_db (consented va C) (snd (regenerateClientSecret env o' i s))"
    "on_db (consented va C) (snd (deleteClient o' i s))" for d c sec t u o' i cd cu
    using assms(3) by (simp_all only: preserves_snd)
  show ?thesis
  proof (cases op)
    case (ApproveOp u c uri ss)
    then show ?thesis using approve [OF assms(2) [OF ApproveOp]] assms(3) by (simp add: perform_oauth_def preserves_snd)
  qed (simp_all only: perform_oauth_def oauth_op.case kept)
qed

text \<open>
  C17: every token in the table was made for a client the user has agreed to, with exactly the
  scopes of one consent, also after any number of refreshes.
\<close>

theorem tokens_have_consent:
  assumes "\<forall>(env, op) \<in> set ops. signs_for va env"
    "t \<in> set (oauth_tokens (cn_committed (performs_oauth ops (connect empty_oauth ()))))"
  shows "token_consent va (consents ops) t"
proof -
  have "on_db (consented va (consents all)) (performs_oauth ops s)"
    if "\<forall>(env, op) \<in> set ops. signs_for va env" "set ops \<subseteq> set all" "on_db (consented va (consents all)) s" for ops all s
    using that unfolding performs_oauth_def
  proof (induction ops arbitrary: s)
    case (Cons p ops)
    obtain env op where p: "p = (env, op)" by fastforce
    have "on_db (consented va (consents all)) (perform_oauth env op s)"
      using Cons.prems by (intro consented_keeps) (auto simp: p consents_def)
    then show ?case using Cons by (simp add: p)
  qed simp
  from this [OF assms(1) subset_refl, of "connect empty_oauth ()"]
  show ?thesis using assms(2) by (simp add: on_db_def consented_def empty_oauth_def)
qed

section \<open>A code makes one token\<close>

definition spent :: "jstr \<Rightarrow> oauth_db \<Rightarrow> bool" where
  "spent k db \<longleftrightarrow> (\<forall>a \<in> set (codes db). oa_code a \<noteq> k)"

lemma spent_other [simp]: "spent k (db\<lparr>clients := cs\<rparr>) \<longleftrightarrow> spent k db" "spent k (db\<lparr>oauth_tokens := ts\<rparr>) \<longleftrightarrow> spent k db"
  by (simp_all add: spent_def)

lemma spent_keeps:
  assumes "oe_code env \<noteq> k" "on_db (spent k) s"
  shows "on_db (spent k) (perform_oauth env op s)"
proof -
  have save: "preserves (on_db (spent k)) (save_token t)" for t
    unfolding save_token_def by (intro preserves_intros) simp
  have fewer: "spent k db \<Longrightarrow> spent k (db\<lparr>codes := filter P (codes db)\<rparr>)" for P db
    by (auto simp: spent_def)
  have "preserves (on_db (spent k)) (approveConsent env u c uri ss)" for u c uri ss
    unfolding approveConsent_def
    by (intro preserves_intros client_statements) (use assms(1) in \<open>auto simp: spent_def\<close>)
  moreover have "preserves (on_db (spent k)) (exchangeToken env d)" for d
    unfolding exchangeToken_def exchange_code_def exchange_refresh_def Let_def
    by (intro preserves_intros client_statements save fewer) simp_all
  moreover have "preserves (on_db (spent k)) (revokeToken env c sec t)" "preserves (on_db (spent k)) (revokeAuthorizedClient u c)" for c sec t u
    unfolding revokeToken_def revokeAuthorizedClient_def
    by (intro preserves_intros client_statements; simp)+
  moreover note client_statements [of "spent k", OF spent_other(1)]
  ultimately have kept: "on_db (spent k) (snd (exchangeToken env d s))" "on_db (spent k) (snd (revokeToken env c sec t s))"
    "on_db (spent k) (snd (revokeAuthorizedClient u c s))" "on_db (spent k) (snd (createClient env o' cd s))"
    "on_db (spent k) (snd (updateClient o' i cu s))" "on_db (spent k) (snd (regenerateClientSecret env o' i s))"
    "on_db (spent k) (snd (deleteClient o' i s))" "on_db (spent k) (snd (approveConsent env u' c' uri ss s))"
    for d c sec t u o' i cd cu u' c' uri ss
    using assms(2) by (simp_all only: preserves_snd)
  show ?thesis by (cases op) (simp_all only: perform_oauth_def oauth_op.case kept)
qed

lemma authenticate_client_value:
  assumes "authenticate_client env c sec (connect db ()) = (r, s)"
  shows "s = connect db ()"
  using assms by (auto simp: authenticate_client_def find_client_def act_unfold split: option.splits if_splits)

lemma exchange_runs:
  assumes "exchangeToken env d (connect db ()) = (Inr t, s)"
  shows "fst (authenticate_client env (ex_clientId d) (ex_clientSecret d) (connect db ())) = Inr ()"
    "grant_type d = js ''authorization_code'' \<Longrightarrow> transaction (exchange_code env d) (connect db ()) = (Inr t, s)"
    "grant_type d = js ''refresh_token'' \<Longrightarrow> transaction (exchange_refresh env d) (connect db ()) = (Inr t, s)"
proof -
  obtain u where auth: "authenticate_client env (ex_clientId d) (ex_clientSecret d) (connect db ()) = (Inr (), u)"
    and run: "(if grant_type d = js ''authorization_code'' then transaction (exchange_code env d)
      else if grant_type d = js ''refresh_token'' then transaction (exchange_refresh env d)
      else throw (Plain (js ''Unsupported grant_type: '' @ grant_type d))) u = (Inr t, s)"
    using assms unfolding exchangeToken_def by (elim andThen_InrD) simp
  then have "u = connect db ()" using authenticate_client_value by blast
  then show "fst (authenticate_client env (ex_clientId d) (ex_clientSecret d) (connect db ())) = Inr ()"
    "grant_type d = js ''authorization_code'' \<Longrightarrow> transaction (exchange_code env d) (connect db ()) = (Inr t, s)"
    "grant_type d = js ''refresh_token'' \<Longrightarrow> transaction (exchange_refresh env d) (connect db ()) = (Inr t, s)"
    using auth run by (simp_all add: js_def)
qed

lemma exchange_codeD:
  assumes "exchangeToken env d (connect db ()) = (Inr t, s)" "grant_type d = js ''authorization_code''"
  shows "spent (the (ex_code d)) (cn_committed s) \<and> \<not> spent (the (ex_code d)) db \<and> cn_current s = cn_committed s"
proof -
  have "transaction (exchange_code env d) (connect db ()) = (Inr t, s)" by (rule exchange_runs(2) [OF assms])
  then show ?thesis
    by (auto simp: transaction_connect exchange_code_def act_unfold save_token_def checked_def spent_def
        split: option.splits if_splits prod.splits sum.splits dest!: find_Some_in)
qed

text \<open>C18: a code that has been exchanged for a token is never exchanged again.\<close>

theorem code_makes_one_token:
  assumes "exchangeToken env d (connect db ()) = (Inr t, s)" "grant_type d = js ''authorization_code''"
    "\<forall>(e, op) \<in> set ops. oe_code e \<noteq> the (ex_code d)"
    "grant_type d' = js ''authorization_code''" "ex_code d' = ex_code d"
  shows "fst (exchangeToken env' d' (connect (cn_committed (performs_oauth ops s)) ())) \<noteq> Inr t'"
proof
  let ?s = "performs_oauth ops s"
  assume "fst (exchangeToken env' d' (connect (cn_committed ?s) ())) = Inr t'"
  then have "exchangeToken env' d' (connect (cn_committed ?s) ()) = (Inr t', snd (exchangeToken env' d' (connect (cn_committed ?s) ())))"
    by (simp add: prod_eq_iff)
  from exchange_codeD [OF this assms(4)] have "\<not> spent (the (ex_code d)) (cn_committed ?s)" using assms(5) by simp
  moreover have "on_db (spent (the (ex_code d))) (performs_oauth ops u)" if "on_db (spent (the (ex_code d))) u" for u
    using assms(3) that unfolding performs_oauth_def
    by (induction ops arbitrary: u) (auto intro!: spent_keeps)
  ultimately show False using exchange_codeD [OF assms(1,2)] by (simp add: on_db_def)
qed

section \<open>Tokens that live too long or tell too much\<close>

text \<open>
  Refreshing a token makes a new row, since its primary key changes, and the old row stays:
  the old refresh token can be exchanged again.
\<close>

theorem old_refresh_token_still_works:
  assumes "exchangeToken env d (connect db ()) = (Inr t, s)" "grant_type d = js ''refresh_token''"
    "tk_accessToken t \<notin> ot_accessToken ` set (oauth_tokens db)"
    "r \<notin> ot_refreshToken ` set (oauth_tokens (cn_committed s))"
  shows "\<exists>t'. fst (exchangeToken (env\<lparr>oe_refreshToken := r\<rparr>) d (connect (cn_committed s) ())) = Inr t'"
proof -
  note run = exchange_runs(3) [OF assms(1,2)] and auth = exchange_runs(1) [OF assms(1)]
  have given: "truthy (ex_refreshToken d)"
    using run by (cases "truthy (ex_refreshToken d)") (simp_all add: transaction_connect exchange_refresh_def act_unfold)
  obtain old where found: "find (\<lambda>t. Some (ot_refreshToken t) = ex_refreshToken d) (oauth_tokens db) = Some old"
    using run given by (cases "find (\<lambda>t. Some (ot_refreshToken t) = ex_refreshToken d) (oauth_tokens db)")
      (simp_all add: transaction_connect exchange_refresh_def act_unfold)
  have owner: "ot_clientId old = ex_clientId d"
    using run given found by (cases "ot_clientId old = ex_clientId d") (simp_all add: transaction_connect exchange_refresh_def act_unfold)
  obtain p where p: "oe_verifyExpired env (ot_accessToken old) = Some p"
    using run given found owner by (cases "oe_verifyExpired env (ot_accessToken old)")
      (simp_all add: transaction_connect exchange_refresh_def act_unfold)
  note old = found owner p given
  have "t = \<lparr>tk_accessToken = access_token env (ot_userId old) (ot_clientId old) (nullish (cl_scopes p) []), tk_refreshToken = oe_refreshToken env\<rparr>"
    using run old by (simp add: transaction_connect exchange_refresh_def act_unfold save_token_def checked_def split: if_splits)
  then have t: "tk_accessToken t = access_token env (ot_userId old) (ot_clientId old) (nullish (cl_scopes p) [])" by simp
  have db: "cn_committed s = db\<lparr>oauth_tokens := oauth_tokens db @
       [old\<lparr>ot_accessToken := tk_accessToken t, ot_refreshToken := oe_refreshToken env, ot_expiresAt := ae_now env + buildTTL HOUR 1\<rparr>]\<rparr>"
    using run old assms(3) unfolding t
    by (auto simp: transaction_connect exchange_refresh_def act_unfold save_token_def checked_def split: if_splits)
  have clients: "clients (cn_committed s) = clients db" by (simp add: db)
  then have "fst (authenticate_client (env\<lparr>oe_refreshToken := r\<rparr>) (ex_clientId d) (ex_clientSecret d) (connect (cn_committed s) ())) = Inr ()"
    using auth by (auto simp: authenticate_client_def find_client_def act_unfold split: option.splits if_splits)
  then have "authenticate_client (env\<lparr>oe_refreshToken := r\<rparr>) (ex_clientId d) (ex_clientSecret d) (connect (cn_committed s) ())
      = (Inr (), connect (cn_committed s) ())"
    using authenticate_client_value by (metis prod.collapse)
  moreover have "find (\<lambda>t. Some (ot_refreshToken t) = ex_refreshToken d) (oauth_tokens (cn_committed s)) = Some old"
    using old(1) by (simp add: db find_append)
  moreover have "access_token (env\<lparr>oe_refreshToken := r\<rparr>) u c ss = access_token env u c ss" for u c ss
    by (simp add: access_token_def)
  ultimately show ?thesis
    using assms(2,4) old
    by (auto simp: exchangeToken_def andThen_Inr transaction_connect exchange_refresh_def act_unfold save_token_def checked_def js_def)
qed

text \<open>When a developer deletes a client, its tokens go on working.\<close>

theorem deleted_clients_tokens_work:
  assumes "deleteClient o' i (connect db ()) = (Inr b, s)"
  shows "fst (getUserInfo env tok (connect (cn_committed s) ())) = fst (getUserInfo env tok (connect db ())) \<and>
    fst (verifyTokenScope env tok scope (connect (cn_committed s) ())) = fst (verifyTokenScope env tok scope (connect db ()))"
proof -
  have "oauth_tokens (cn_committed s) = oauth_tokens db"
    using assms by (auto simp: deleteClient_def act_unfold store_count_def split: if_splits)
  then have "valid_token env tok (connect (cn_committed s) ()) =
     (fst (valid_token env tok (connect db ())), connect (cn_committed s) ())"
    "valid_token env tok (connect db ()) = (fst (valid_token env tok (connect db ())), connect db ())"
    by (auto simp: valid_token_def act_unfold split: option.splits)
  then show ?thesis
    by (cases "fst (valid_token env tok (connect db ()))")
      (auto simp: getUserInfo_def verifyTokenScope_def andThen_def act_basic split: prod.splits sum.splits option.splits)
qed

text \<open>The name and the address of a user are told for every valid token, whatever its scopes.\<close>

theorem userinfo_ignores_scopes:
  assumes "find (\<lambda>t. ot_accessToken t = tok) (oauth_tokens db) = Some t" "tok \<noteq> []" "ae_now env \<le> ot_expiresAt t"
    "ae_verify env tok (ae_now env) = Some c" "oe_profile env (ot_userId t) = Inr (Some u)"
  shows "\<exists>info. fst (getUserInfo env tok (connect db ())) = Inr info \<and> ui_email info = ur_email u"
  using assms by (simp add: getUserInfo_def valid_token_def act_unfold)

section \<open>Instances\<close>

definition oauth_demo :: "jstr \<Rightarrow> oauth_env" where
  "oauth_demo r =
     \<lparr>ae_now = 0, ae_rowId = 1, ae_code = 11, ae_jti = 21, ae_sign = (\<lambda>c now life. [int (to_nat c), expiry now life]),
      ae_verify = (\<lambda>t now. if length t = 2 \<and> now < t ! 1 then Some (from_nat (nat (t ! 0))) else None),
      ae_decode = (\<lambda>t. if t = [] then None else Some (from_nat (nat (t ! 0)))), ae_sha256 = id, ae_argonHash = id, ae_argonVerify = (=),
      ae_createUser = Inr demo_account, ae_deleteUser = Inr (), ae_changeStatus = Inr (),
      ae_userByEmail = Inr (Some demo_account), ae_userById = (\<lambda>_. Inr (Some demo_account)), ae_verifyOtp = (\<lambda>_ _. Inr ()),
      oe_rowId = 1, oe_clientId = js ''client'', oe_secret = js ''secret'', oe_code = js ''code'', oe_refreshToken = r,
      oe_verifyExpired = (\<lambda>t. if t = [] then None else Some (from_nat (nat (t ! 0)))),
      oe_profile = (\<lambda>u. Inr (Some \<lparr>ur_id = u, ur_email = js ''a'', ur_status = js ''active'', ur_isTwoFactorEnabled = False,
         pf_firstName = None, pf_lastName = None, pf_avatarUrl = None\<rparr>)), oe_validUrl = (\<lambda>_. True)\<rparr>"

lemma oauth_demo_fields [simp]:
  "ae_now (oauth_demo r) = 0" "ae_sign (oauth_demo r) c m life = [int (to_nat c), expiry m life]"
  "ae_verify (oauth_demo r) [int (to_nat c), e] m = (if m < e then Some c else None)"
  "oe_verifyExpired (oauth_demo r) [int (to_nat c), e] = Some c" "ae_argonHash (oauth_demo r) t = t"
  "ae_argonVerify (oauth_demo r) p q \<longleftrightarrow> p = q" "oe_clientId (oauth_demo r) = js ''client''" "oe_secret (oauth_demo r) = js ''secret''"
  "oe_code (oauth_demo r) = js ''code''" "oe_refreshToken (oauth_demo r) = r" "oe_validUrl (oauth_demo r) t" "oe_rowId (oauth_demo r) = 1"
  by (simp_all add: oauth_demo_def)

lemma oauth_demo_signs: "signs_for (oe_verifyExpired (oauth_demo r)) (oauth_demo r')"
  by (simp add: signs_for_def oauth_demo_def)

definition demo_exchange :: "jstr \<Rightarrow> exchange_dto" where
  "demo_exchange grant = \<lparr>ex_clientId = js ''client'', ex_clientSecret = js ''secret'', ex_grantType = Some grant,
     ex_code = Some (js ''code''), ex_redirectUri = Some (js ''uri''), ex_refreshToken = Some (js ''r'')\<rparr>"

definition demo_client :: client where
  "demo_client = \<lparr>oc_id = 1, oc_ownerId = 5, oc_name = [], oc_logoUrl = None, oc_clientId = js ''client'', oc_clientSecret = js ''secret'',
     oc_redirectUris = [js ''uri''], oc_allowedScopes = [OPENID], oc_createdAt = 0\<rparr>"

definition demo_oauth :: oauth_db where
  "demo_oauth = \<lparr>clients = [demo_client],
     codes = [\<lparr>oa_code = js ''code'', oa_clientId = js ''client'', oa_userId = 7, oa_redirectUri = js ''uri'', oa_scopes = [OPENID], oa_expiresAt = 9\<rparr>],
     oauth_tokens = [\<lparr>ot_accessToken = demo_token, ot_refreshToken = js ''r'', ot_clientId = js ''client'', ot_userId = 7, ot_expiresAt = 9, ot_createdAt = 0\<rparr>]\<rparr>"

lemma demo_authenticated: "authenticate_client (oauth_demo r) (js ''client'') (js ''secret'') (connect demo_oauth ()) = (Inr (), connect demo_oauth ())"
  by (simp add: authenticate_client_def find_client_def act_unfold demo_oauth_def demo_client_def)

lemma userinfo_ignores_scopes_witness:
  "cl_scopes demo_claims = None \<and> (\<exists>info. fst (getUserInfo (oauth_demo []) demo_token (connect demo_oauth ())) = Inr info \<and> ui_email info = js ''a'')"
proof -
  have "ae_verify (oauth_demo []) demo_token (ae_now (oauth_demo [])) = Some demo_claims" by (simp add: demo_token_def)
  from userinfo_ignores_scopes [OF _ _ _ this, of demo_oauth "hd (oauth_tokens demo_oauth)"] show ?thesis
    by (simp add: demo_oauth_def oauth_demo_def demo_claims_def claims_of_def)
qed

lemma deleted_clients_tokens_work_witness:
  "fst (verifyTokenScope (oauth_demo []) demo_token [] (connect (cn_committed (snd (deleteClient 5 1 (connect demo_oauth ())))) ()))
   = fst (verifyTokenScope (oauth_demo []) demo_token [] (connect demo_oauth ()))"
proof -
  have "fst (deleteClient 5 1 (connect demo_oauth ())) = Inr True"
    by (simp add: deleteClient_def act_unfold store_count_def demo_oauth_def demo_client_def)
  then have "deleteClient 5 1 (connect demo_oauth ()) = (Inr True, snd (deleteClient 5 1 (connect demo_oauth ())))" by (simp add: prod_eq_iff)
  then show ?thesis using deleted_clients_tokens_work by blast
qed

definition demo_flow :: "(oauth_env \<times> oauth_op) list" where
  "demo_flow =
     [(oauth_demo (js ''r''), CreateClientOp 5 \<lparr>cd_name = [], cd_logoUrl = None, cd_redirectUris = [js ''uri'']\<rparr>),
      (oauth_demo (js ''r''), ApproveOp 7 (js ''client'') (js ''uri'') [OPENID]),
      (oauth_demo (js ''r''), ExchangeOp (demo_exchange (js ''authorization_code'')))]"

lemmas flow_simps = performs_oauth_def perform_oauth_def createClient_def approveConsent_def exchangeToken_def exchange_code_def
  authenticate_client_def find_client_def save_token_def checked_def demo_exchange_def grant_type_def truthy_def Let_def
  act_unfold transaction_def empty_oauth_def connect_def buildTTL_def

lemma tokens_have_consent_witness:
  "\<exists>t \<in> set (oauth_tokens (cn_committed (performs_oauth demo_flow (connect empty_oauth ())))).
     token_consent (oe_verifyExpired (oauth_demo [])) (consents demo_flow) t \<and> ot_userId t = 7"
proof -
  have "\<exists>t \<in> set (oauth_tokens (cn_committed (performs_oauth demo_flow (connect empty_oauth ())))). ot_userId t = 7"
    by (simp add: demo_flow_def flow_simps js_def)
  moreover have "\<forall>(env, op) \<in> set demo_flow. signs_for (oe_verifyExpired (oauth_demo [])) env"
    by (simp add: demo_flow_def oauth_demo_signs)
  ultimately show ?thesis using tokens_have_consent by blast
qed

lemma code_makes_one_token_witness:
  "\<forall>t'. fst (exchangeToken (oauth_demo []) (demo_exchange (js ''authorization_code''))
     (connect (cn_committed (snd (exchangeToken (oauth_demo (js ''s'')) (demo_exchange (js ''authorization_code'')) (connect demo_oauth ())))) ())) \<noteq> Inr t'"
proof -
  let ?run = "exchangeToken (oauth_demo (js ''s'')) (demo_exchange (js ''authorization_code'')) (connect demo_oauth ())"
  have "\<exists>t. fst ?run = Inr t" by (simp add: flow_simps demo_oauth_def demo_client_def js_def)
  then obtain t where "?run = (Inr t, snd ?run)" by (auto simp: prod_eq_iff)
  from code_makes_one_token [OF this, of "[]"] show ?thesis
    by (simp add: demo_exchange_def grant_type_def performs_oauth_def truthy_def js_def)
qed

lemma old_refresh_token_still_works_witness:
  "\<exists>t s t'. exchangeToken (oauth_demo (js ''s'')) (demo_exchange (js ''refresh_token'')) (connect demo_oauth ()) = (Inr t, s) \<and>
     fst (exchangeToken ((oauth_demo (js ''s''))\<lparr>oe_refreshToken := js ''u''\<rparr>) (demo_exchange (js ''refresh_token'')) (connect (cn_committed s) ())) = Inr t'"
proof -
  let ?run = "exchangeToken (oauth_demo (js ''s'')) (demo_exchange (js ''refresh_token'')) (connect demo_oauth ())"
  have outcome: "fst ?run = Inr \<lparr>tk_accessToken = access_token (oauth_demo (js ''s'')) 7 (js ''client'') [], tk_refreshToken = js ''s''\<rparr>"
    "set (map ot_refreshToken (oauth_tokens (cn_committed (snd ?run)))) \<subseteq> {js ''r'', js ''s''}"
    by (simp_all add: flow_simps demo_oauth_def demo_client_def js_def demo_token_def exchange_refresh_def demo_claims_def claims_of_def nullish_def)
  have run: "?run = (Inr \<lparr>tk_accessToken = access_token (oauth_demo (js ''s'')) 7 (js ''client'') [], tk_refreshToken = js ''s''\<rparr>, snd ?run)"
    using outcome(1) by (simp add: prod_eq_iff)
  have "access_token (oauth_demo (js ''s'')) 7 (js ''client'') [] \<noteq> demo_token"
    by (simp add: access_token_def demo_token_def expiry_def)
  moreover have "js ''u'' \<notin> ot_refreshToken ` set (oauth_tokens (cn_committed (snd ?run)))"
    using outcome(2) by (auto simp: js_def)
  ultimately show ?thesis
    using old_refresh_token_still_works [OF run, of "js ''u''"] run
    by (force simp: demo_exchange_def grant_type_def truthy_def js_def demo_oauth_def)
qed

end
