(* ===== verification/Cached.thy ===== *)
theory Cached
  imports Service
begin

text \<open>
  \<open>libs/cached/src/cached.service.ts\<close>: values kept in Redis for a time, and lists kept
  under a version that every change of the list increments. The cells of one kind of key are a
  field of the record of what is outside the database; the actions are given its selector and
  its update. A value that is no object (\<open>null\<close>, \<open>undefined\<close>, \<open>false\<close>) is \<open>None\<close>.
  Here requests come one after another; \<open>List_Cache\<close> interleaves them.
\<close>

type_synonym ('k, 'v) cells = "'k \<rightharpoonup> 'v \<times> int"   \<comment> \<open>the value and the millisecond it expires at\<close>

definition TTL_SHORT :: int where "TTL_SHORT = 300"
definition TTL_LONG :: int where "TTL_LONG = 86400"

text \<open>\<open>Math.random()\<close> is \<open>r\<close> over \<open>2 ^ 53\<close>.\<close>

definition withJitter :: "int \<Rightarrow> int \<Rightarrow> int" where
  "withJitter r ttl = ttl + (r * ttl) div (10 * 2 ^ 53)"

definition live_cell :: "int \<Rightarrow> ('k, 'v) cells \<Rightarrow> 'k \<Rightarrow> 'v option" where
  "live_cell now cs k = (case cs k of None \<Rightarrow> None | Some (v, t) \<Rightarrow> if now < t then Some v else None)"

definition set_cell :: "int \<Rightarrow> int \<Rightarrow> 'k \<Rightarrow> 'v \<Rightarrow> int \<Rightarrow> ('k, 'v) cells \<Rightarrow> ('k, 'v) cells" where
  "set_cell r now k v ttl cs = cs(k \<mapsto> (v, now + 1000 * withJitter r ttl))"

definition del_cell :: "'k \<Rightarrow> ('k, 'v) cells \<Rightarrow> ('k, 'v) cells" where
  "del_cell k cs = cs(k := None)"

definition look :: "('o \<Rightarrow> 'a) \<Rightarrow> ('d, 'o, 'a) act" where
  "look f = outside (\<lambda>o'. (f o', o'))"

definition getOrSetDetail ::
    "('o \<Rightarrow> ('k, 'v) cells) \<Rightarrow> ((('k, 'v) cells \<Rightarrow> ('k, 'v) cells) \<Rightarrow> 'o \<Rightarrow> 'o) \<Rightarrow> int \<Rightarrow> int \<Rightarrow> 'k \<Rightarrow> int \<Rightarrow>
     ('d, 'o, 'v option) act \<Rightarrow> ('d, 'o, 'v option) act" where
  "getOrSetDetail sel upd r now k ttl fetcher =
    andThen (look (\<lambda>o'. live_cell now (sel o') k)) (\<lambda>cached.
    case cached of
      Some v \<Rightarrow> ret (Some v)
    | None \<Rightarrow>
        andThen fetcher (\<lambda>data.
        andThen (case data of None \<Rightarrow> ret () | Some v \<Rightarrow> tell (upd (set_cell r now k v ttl))) (\<lambda>_.
        ret data)))"

definition invalidateDetail :: "((('k, 'v) cells \<Rightarrow> ('k, 'v) cells) \<Rightarrow> 'o \<Rightarrow> 'o) \<Rightarrow> 'k \<Rightarrow> ('d, 'o, unit) act" where
  "invalidateDetail upd k = tell (upd (del_cell k))"

text \<open>Versions: a key that is not there counts as 0, and \<open>INCR\<close> makes it 1.\<close>

type_synonym 't versions = "'t \<Rightarrow> nat"

definition getVersion :: "'t \<Rightarrow> 't versions \<Rightarrow> nat" where
  "getVersion t vs = vs t"

definition bumpVersion :: "'t \<Rightarrow> 't versions \<Rightarrow> 't versions" where
  "bumpVersion t vs = vs(t := vs t + 1)"

definition getOrSetList ::
    "('o \<Rightarrow> 't versions) \<Rightarrow> ('o \<Rightarrow> ('k, 'v) cells) \<Rightarrow> ((('k, 'v) cells \<Rightarrow> ('k, 'v) cells) \<Rightarrow> 'o \<Rightarrow> 'o) \<Rightarrow> int \<Rightarrow> int \<Rightarrow>
     't \<Rightarrow> (nat \<Rightarrow> 'k) \<Rightarrow> int \<Rightarrow> ('d, 'o, 'v option) act \<Rightarrow> ('d, 'o, 'v option) act" where
  "getOrSetList vs sel upd r now t key ttl fetcher =
    andThen (look (\<lambda>o'. getVersion t (vs o'))) (\<lambda>version.
    getOrSetDetail sel upd r now (key version) ttl fetcher)"

definition invalidateList :: "(('t versions \<Rightarrow> 't versions) \<Rightarrow> 'o \<Rightarrow> 'o) \<Rightarrow> 't \<Rightarrow> ('d, 'o, unit) act" where
  "invalidateList upd t = tell (upd (bumpVersion t))"

definition invalidateListBulk :: "(('t versions \<Rightarrow> 't versions) \<Rightarrow> 'o \<Rightarrow> 'o) \<Rightarrow> 't list \<Rightarrow> ('d, 'o, unit) act" where
  "invalidateListBulk upd ts = tell (upd (fold bumpVersion ts))"

section \<open>Laws\<close>

lemma withJitter_range: "0 \<le> ttl \<Longrightarrow> 0 \<le> r \<Longrightarrow> r < 2 ^ 53 \<Longrightarrow> ttl \<le> withJitter r ttl \<and> withJitter r ttl \<le> ttl + ttl div 10"
proof -
  assume r: "0 \<le> ttl" "0 \<le> r" "r < 2 ^ 53"
  have "(r * ttl) div (10 * 2 ^ 53) \<le> (2 ^ 53 * ttl) div (10 * 2 ^ 53)"
    by (rule zdiv_mono1) (use r in \<open>auto intro: mult_right_mono\<close>)
  also have "(2 ^ 53 * ttl) div (10 * 2 ^ 53) = ttl div 10"
    using div_mult_mult1 [of "2 ^ 53" ttl "10 :: int"] by (simp add: mult.commute)
  finally show ?thesis using r by (simp add: withJitter_def pos_imp_zdiv_nonneg_iff)
qed

lemma look_run [act_simps]: "look f s = (Inr (f (cn_out s)), s)"
  by (simp add: look_def outside_def Let_def)

lemma on_db_look [preserves_intros]: "preserves (on_db I) (look f)"
  unfolding look_def by (rule on_db_outside)

lemma on_db_detail [preserves_intros]:
  "preserves (on_db I) fetcher \<Longrightarrow> preserves (on_db I) (getOrSetDetail sel upd r now k ttl fetcher)"
  unfolding getOrSetDetail_def by (intro preserves_intros)

lemma on_db_list [preserves_intros]:
  "preserves (on_db I) fetcher \<Longrightarrow> preserves (on_db I) (getOrSetList vs sel upd r now t key ttl fetcher)"
  unfolding getOrSetList_def by (intro preserves_intros)

lemma on_db_invalidate [preserves_intros]:
  "preserves (on_db I) (invalidateDetail upd' k)" "preserves (on_db I) (invalidateList upd t)"
  "preserves (on_db I) (invalidateListBulk upd ts)"
  unfolding invalidateDetail_def invalidateList_def invalidateListBulk_def by (rule on_db_tell)+

lemma bump_all: "fold bumpVersion ts vs t = vs t + count_list ts t"
  by (induction ts arbitrary: vs) (auto simp: bumpVersion_def)

end
