(* ===== verification/Task_Data.thy ===== *)
theory Task_Data
  imports Cached
begin

text \<open>
  The data of the task service (\<open>apps/task/src\<close>): the rows of its tables (\<open>entity/\<close>), the
  DTOs (\<open>dto/\<close>), the responses (\<open>type/task.response.ts\<close>) and the mappings from rows to
  responses. Dates are milliseconds. Left out are the \<open>version\<close> columns (no operation asks for an
  optimistic lock) and the time stamps of rows no response shows.
\<close>

section \<open>Rows\<close>

record board =
  bo_id :: uuid
  bo_workspaceId :: uuid
  bo_backgroundUrl :: jstr
  bo_name :: jstr
  bo_createdAt :: int
  bo_updatedAt :: int

record board_member =
  bm_id :: uuid
  bm_boardId :: uuid
  bm_memberId :: uuid        \<comment> \<open>the \<open>userId\<close> of a member of the workspace\<close>

record task_group =
  gr_id :: uuid
  gr_boardId :: uuid
  gr_name :: jstr
  gr_order :: int
  gr_createdAt :: int
  gr_updatedAt :: int

record label =
  lb_id :: uuid
  lb_boardId :: uuid
  lb_name :: jstr
  lb_color :: jstr

record task =
  ta_id :: uuid
  ta_groupId :: uuid
  ta_title :: jstr
  ta_description :: "jstr option"
  ta_startDate :: "int option"
  ta_dueDate :: "int option"
  ta_order :: int
  ta_isDone :: bool
  ta_createdAt :: int
  ta_updatedAt :: int

record task_label =          \<comment> \<open>the junction table \<open>task_label_mapping\<close>\<close>
  tl_taskId :: uuid
  tl_labelId :: uuid

record task_member =
  tm_id :: uuid
  tm_taskId :: uuid
  tm_memberId :: uuid

record task_attachment =
  tt_id :: uuid
  tt_taskId :: uuid
  tt_title :: jstr
  tt_link :: jstr

record checklist =
  cl_id :: uuid
  cl_taskId :: uuid
  cl_name :: jstr

record checklist_item =
  ci_id :: uuid
  ci_checklistId :: uuid
  ci_content :: jstr
  ci_isCompleted :: bool

record task_db =
  boards :: "board list"
  board_members :: "board_member list"
  groups :: "task_group list"
  labels :: "label list"
  tasks :: "task list"
  task_labels :: "task_label list"
  task_members :: "task_member list"
  task_attachments :: "task_attachment list"
  checklists :: "checklist list"
  checklist_items :: "checklist_item list"

section \<open>DTOs and responses\<close>

record create_task = ct_groupId :: uuid   ct_title :: jstr

record update_task =
  ut_title :: "jstr option"
  ut_description :: "jstr option option"   \<comment> \<open>absent, \<open>null\<close> or a text\<close>
  ut_startDate :: "int option option"
  ut_dueDate :: "int option option"
  ut_labelIds :: "uuid list option"
  ut_order :: "int option"
  ut_groupId :: "uuid option"

record query_task = qt_groupId :: uuid   qt_page :: "nat option"   qt_limit :: "nat option"

record drag_drop = dd_taskId :: uuid   dd_targetGroupId :: uuid   dd_targetOrder :: int

record filter_tasks =
  ft_boardId :: uuid
  ft_name :: "jstr option"
  ft_startDate :: "int option"
  ft_dueDate :: "int option"
  ft_status :: "jstr option"
  ft_groupId :: "uuid option"
  ft_memberIds :: "uuid list option"
  ft_labelIds :: "uuid list option"

record update_board = ub_name :: "jstr option"   ub_backgroundUrl :: "jstr option"
record update_group = ug_name :: "jstr option"   ug_order :: "int option"
record update_label = ul_name :: "jstr option"   ul_color :: "jstr option"
record update_item = ui_content :: "jstr option"   ui_isCompleted :: "bool option"

text \<open>The mapped labels, members, attachments and items have the columns of their rows.\<close>

record checklist_response =
  kr_id :: uuid
  kr_taskId :: uuid
  kr_name :: jstr
  kr_items :: "checklist_item list"

record task_response =
  tr_id :: uuid
  tr_groupId :: uuid
  tr_title :: jstr
  tr_description :: "jstr option"
  tr_startDate :: "int option"
  tr_dueDate :: "int option"
  tr_order :: int
  tr_labels :: "label list"
  tr_members :: "task_member list"
  tr_attachments :: "task_attachment list"
  tr_checklists :: "checklist_response list"
  tr_isDone :: bool
  tr_createdAt :: int
  tr_updatedAt :: int

record 'a offset_page =
  op_data :: "'a list"
  op_page :: nat
  op_limit :: nat
  op_total :: nat
  op_totalPages :: nat

text \<open>A task with the relations that were loaded with it; those that were not are empty in a response.\<close>

record task_entity =
  te_row :: task
  te_labels :: "label list"
  te_members :: "task_member list"
  te_attachments :: "task_attachment list"
  te_checklists :: "(checklist \<times> checklist_item list) list"

definition bare_task :: "task \<Rightarrow> task_entity" where
  "bare_task t = \<lparr>te_row = t, te_labels = [], te_members = [], te_attachments = [], te_checklists = []\<rparr>"

definition labels_of :: "task_db \<Rightarrow> uuid \<Rightarrow> label list" where
  "labels_of db i = filter (\<lambda>l. \<exists>m \<in> set (task_labels db). tl_taskId m = i \<and> tl_labelId m = lb_id l) (labels db)"

definition members_of :: "task_db \<Rightarrow> uuid \<Rightarrow> task_member list" where
  "members_of db i = filter (\<lambda>m. tm_taskId m = i) (task_members db)"

definition items_of :: "task_db \<Rightarrow> uuid \<Rightarrow> checklist_item list" where
  "items_of db c = filter (\<lambda>x. ci_checklistId x = c) (checklist_items db)"

definition load_task :: "task_db \<Rightarrow> task \<Rightarrow> task_entity" where
  "load_task db t =
     \<lparr>te_row = t, te_labels = labels_of db (ta_id t), te_members = members_of db (ta_id t),
      te_attachments = filter (\<lambda>a. tt_taskId a = ta_id t) (task_attachments db),
      te_checklists = map (\<lambda>c. (c, items_of db (cl_id c))) (filter (\<lambda>c. cl_taskId c = ta_id t) (checklists db))\<rparr>"

definition mapChecklistResponse :: "checklist \<Rightarrow> checklist_item list \<Rightarrow> checklist_response" where
  "mapChecklistResponse c items = \<lparr>kr_id = cl_id c, kr_taskId = cl_taskId c, kr_name = cl_name c, kr_items = items\<rparr>"

definition mapTaskResponse :: "task_entity \<Rightarrow> task_response" where
  "mapTaskResponse e = (let t = te_row e in
     \<lparr>tr_id = ta_id t, tr_groupId = ta_groupId t, tr_title = ta_title t, tr_description = ta_description t,
      tr_startDate = ta_startDate t, tr_dueDate = ta_dueDate t, tr_order = ta_order t,
      tr_labels = te_labels e, tr_members = te_members e, tr_attachments = te_attachments e,
      tr_checklists = map (\<lambda>(c, is). mapChecklistResponse c is) (te_checklists e),
      tr_isDone = ta_isDone t, tr_createdAt = ta_createdAt t, tr_updatedAt = ta_updatedAt t\<rparr>)"

section \<open>Surroundings\<close>

record ws_member =           \<comment> \<open>what the workspace service answers to \<open>GET_MEMBER\<close>\<close>
  wm_userId :: uuid
  wm_role :: string
  wm_firstName :: "jstr option"
  wm_lastName :: "jstr option"

record reminder =            \<comment> \<open>a job \<open>task_deadline_<id>\<close> and the time it runs at\<close>
  rm_groupId :: uuid
  rm_boardId :: uuid
  rm_at :: int

datatype task_audit =
    TaskCreated uuid uuid uuid jstr        \<comment> \<open>actor, task, group, title\<close>
  | TaskUpdated uuid uuid uuid jstr
  | TaskDeleted uuid uuid uuid
  | TaskAssigned uuid uuid uuid uuid       \<comment> \<open>actor, target, task, group\<close>
  | TaskUnassigned uuid uuid uuid uuid

record push =
  pu_recipientId :: uuid
  pu_type :: string
  pu_content :: jstr
  pu_objectId :: uuid
  pu_workspaceId :: uuid
  pu_groupId :: uuid
  pu_boardId :: uuid
  pu_taskTitle :: jstr
  pu_actor :: "(uuid \<times> jstr) option"

type_synonym list_key = "uuid \<times> nat \<times> nat \<times> nat"              \<comment> \<open>group, version, page, limit\<close>
type_synonym board_list_key = "(uuid \<times> uuid) \<times> nat \<times> nat \<times> nat" \<comment> \<open>workspace and member, version, page, limit\<close>

record task_out =
  to_lists :: "(list_key, task_response offset_page) cells"
  to_boardLists :: "(board_list_key, board offset_page) cells"
  to_memberships :: "(uuid \<times> uuid, unit) cells"
  to_boards :: "(uuid, board) cells"
  to_groups :: "(uuid, task_group) cells"
  to_wsMembers :: "(uuid \<times> uuid, ws_member) cells"
  to_listVersion :: "uuid versions"
  to_boardListVersion :: "(uuid \<times> uuid) versions"
  to_reminders :: "uuid \<rightharpoonup> reminder"
  to_audit :: "task_audit list"
  to_pushes :: "push list"

record task_env =
  kv_now :: int
  kv_random :: int                                              \<comment> \<open>\<open>Math.random()\<close>, over \<open>2 ^ 53\<close>\<close>
  kv_member :: "uuid \<Rightarrow> uuid \<Rightarrow> rpc_error + ws_member option"    \<comment> \<open>the workspace service\<close>
  kv_newId :: "task_db \<Rightarrow> uuid"
  kv_ilike :: "jstr \<Rightarrow> jstr \<Rightarrow> bool"                            \<comment> \<open>\<open>ILIKE\<close> of Postgres: pattern and text\<close>
  kv_savedGroup :: "uuid \<Rightarrow> uuid \<Rightarrow> uuid"

text \<open>
  \<open>kv_savedGroup old new\<close>: an entity whose relation \<open>group\<close> is loaded and whose column
  \<open>groupId\<close> of the same join column is assigned holds two values for it; which one
  \<open>save\<close> writes is TypeORM's.
\<close>

type_synonym 'a task_act = "(task_db, task_out, 'a) act"

end
