(* ===== verification/Task_Service.thy ===== *)
theory Task_Service
  imports Task_Data
begin

text \<open>
  The task service: \<open>services/task-common.service.ts\<close>, \<open>task.service.ts\<close> and
  \<open>processors/task.processor.ts\<close>. Statements outside \<open>transaction\<close> commit at once; what is in
  Redis and on the queues no rollback undoes. The boards, groups, labels and checklists are in
  \<open>Board_Service\<close>.
\<close>

section \<open>Membership\<close>

definition find_board :: "uuid \<Rightarrow> task_db \<Rightarrow> board option" where
  "find_board i db = find (\<lambda>b. bo_id b = i) (boards db)"

definition find_group :: "uuid \<Rightarrow> task_db \<Rightarrow> task_group option" where
  "find_group i db = find (\<lambda>g. gr_id g = i) (groups db)"

definition find_task :: "uuid \<Rightarrow> task_db \<Rightarrow> task option" where
  "find_task i db = find (\<lambda>t. ta_id t = i) (tasks db)"

definition is_member :: "uuid \<Rightarrow> uuid \<Rightarrow> task_db \<Rightarrow> bool" where
  "is_member b m db \<longleftrightarrow> (\<exists>x \<in> set (board_members db). bm_boardId x = b \<and> bm_memberId x = m)"

definition get_board :: "uuid \<Rightarrow> board task_act" where
  "get_board i = andThen (fetch (find_board i)) (from_option (Coded ''BOARD_NOT_FOUND''))"

definition get_group :: "uuid \<Rightarrow> task_group task_act" where
  "get_group i = andThen (fetch (find_group i)) (from_option (Coded ''GROUP_NOT_FOUND''))"

definition getBoardById :: "task_env \<Rightarrow> uuid \<Rightarrow> board option task_act" where
  "getBoardById env i =
     getOrSetDetail to_boards to_boards_update (kv_random env) (kv_now env) i TTL_LONG
       (andThen (get_board i) (\<lambda>b. ret (Some b)))"

definition getWorkspaceMember :: "task_env \<Rightarrow> uuid \<Rightarrow> uuid \<Rightarrow> ws_member task_act" where
  "getWorkspaceMember env w u =
    rescue
      (andThen (getOrSetDetail to_wsMembers to_wsMembers_update (kv_random env) (kv_now env) (w, u) TTL_SHORT
         (from_sum (kv_member env w u))) (from_option (Plain (js ''Member not found''))))
      (\<lambda>e. throw (Coded ''NOT_MEMBER_OF_WORKSPACE''))"

definition getWorkspaceMemberId :: "task_env \<Rightarrow> uuid \<Rightarrow> uuid \<Rightarrow> uuid task_act" where
  "getWorkspaceMemberId env w u = andThen (getWorkspaceMember env w u) (\<lambda>m. ret (wm_userId m))"

definition getWorkspaceMemberRole :: "task_env \<Rightarrow> uuid \<Rightarrow> uuid \<Rightarrow> string task_act" where
  "getWorkspaceMemberRole env w u = andThen (getWorkspaceMember env w u) (\<lambda>m. ret (wm_role m))"

definition checkWorkspaceRole :: "task_env \<Rightarrow> uuid \<Rightarrow> uuid \<Rightarrow> unit task_act" where
  "checkWorkspaceRole env w u =
    andThen (getWorkspaceMemberRole env w u) (\<lambda>role.
    ensure (Coded ''NOT_ALLOWED'') (role = ''owner'' \<or> role = ''admin''))"

text \<open>With the manager of a transaction the rows are read, without it a true answer is cached.\<close>

definition checkBoardMembership_tx :: "task_env \<Rightarrow> uuid \<Rightarrow> uuid \<Rightarrow> unit task_act" where
  "checkBoardMembership_tx env boardId u =
    andThen (get_board boardId) (\<lambda>b.
    andThen (getWorkspaceMemberId env (bo_workspaceId b) u) (\<lambda>memberId.
    andThen (fetch (is_member boardId memberId)) (\<lambda>found.
    ensure (Coded ''MEMBER_NOT_IN_BOARD'') found)))"

definition checkBoardMembership :: "task_env \<Rightarrow> uuid \<Rightarrow> uuid \<Rightarrow> unit task_act" where
  "checkBoardMembership env boardId u =
    andThen (getOrSetDetail to_memberships to_memberships_update (kv_random env) (kv_now env) (boardId, u) TTL_SHORT
      (andThen (getBoardById env boardId) (\<lambda>b.
       andThen (from_option (Coded ''BOARD_NOT_FOUND'') b) (\<lambda>b.
       andThen (getWorkspaceMemberId env (bo_workspaceId b) u) (\<lambda>memberId.
       andThen (fetch (is_member boardId memberId)) (\<lambda>found.
       ret (if found then Some () else None))))))) (\<lambda>isMember.
    ensure (Coded ''MEMBER_NOT_IN_BOARD'') (isMember \<noteq> None))"

section \<open>Statements\<close>

definition get_task :: "uuid \<Rightarrow> task task_act" where
  "get_task i = andThen (fetch (find_task i)) (from_option (Coded ''TASK_NOT_FOUND''))"

text \<open>The relation \<open>group\<close> of a task; the foreign key has it exist.\<close>

definition group_of_task :: "task \<Rightarrow> task_group task_act" where
  "group_of_task t = andThen (fetch (find_group (ta_groupId t))) (from_option (Broken (js ''task.group'')))"

definition insert_task :: "task \<Rightarrow> unit task_act" where
  "insert_task t = store (\<lambda>db. db\<lparr>tasks := tasks db @ [t]\<rparr>)"

definition relabel :: "uuid \<Rightarrow> uuid list \<Rightarrow> task_db \<Rightarrow> task_db" where
  "relabel i ls db = db\<lparr>task_labels :=
     filter (\<lambda>m. tl_taskId m = i \<longrightarrow> tl_labelId m \<in> set ls) (task_labels db) @
     map (\<lambda>l. \<lparr>tl_taskId = i, tl_labelId = l\<rparr>)
       (filter (\<lambda>l. \<lparr>tl_taskId = i, tl_labelId = l\<rparr> \<notin> set (task_labels db)) ls)\<rparr>"

definition replaced_task :: "uuid \<Rightarrow> task \<Rightarrow> task_db \<Rightarrow> task_db" where
  "replaced_task i t db = db\<lparr>tasks := map (\<lambda>x. if ta_id x = i then t else x) (tasks db)\<rparr>"

text \<open>Rows that refer to a deleted one go with it.\<close>

definition delete_checklists :: "(checklist \<Rightarrow> bool) \<Rightarrow> task_db \<Rightarrow> task_db" where
  "delete_checklists P db =
    (let gone = map cl_id (filter P (checklists db))
     in db\<lparr>checklists := filter (\<lambda>c. \<not> P c) (checklists db),
          checklist_items := filter (\<lambda>x. ci_checklistId x \<notin> set gone) (checklist_items db)\<rparr>)"

definition delete_tasks :: "(task \<Rightarrow> bool) \<Rightarrow> task_db \<Rightarrow> task_db" where
  "delete_tasks P db =
    (let gone = map ta_id (filter P (tasks db))
     in delete_checklists (\<lambda>c. cl_taskId c \<in> set gone)
         (db\<lparr>tasks := filter (\<lambda>t. \<not> P t) (tasks db),
            task_labels := filter (\<lambda>m. tl_taskId m \<notin> set gone) (task_labels db),
            task_members := filter (\<lambda>m. tm_taskId m \<notin> set gone) (task_members db),
            task_attachments := filter (\<lambda>a. tt_taskId a \<notin> set gone) (task_attachments db)\<rparr>))"

text \<open>An integer column has 32 bits.\<close>

definition int4 :: "int \<Rightarrow> bool" where
  "int4 n \<longleftrightarrow> - (2 ^ 31) \<le> n \<and> n < 2 ^ 31"

definition out_of_range :: rpc_error where "out_of_range = Broken (js ''value out of range for type integer'')"

text \<open>\<open>update(TaskEntity, { groupId, order: Between(lo, hi) }, { order: () => 'order + d' })\<close>; \<open>None\<close> is no upper end.\<close>

definition in_span :: "uuid \<Rightarrow> int \<Rightarrow> int option \<Rightarrow> task \<Rightarrow> bool" where
  "in_span g lo hi t \<longleftrightarrow> ta_groupId t = g \<and> lo \<le> ta_order t \<and> (case hi of None \<Rightarrow> True | Some h \<Rightarrow> ta_order t \<le> h)"

definition shifted :: "task_env \<Rightarrow> uuid \<Rightarrow> int \<Rightarrow> int option \<Rightarrow> int \<Rightarrow> task_db \<Rightarrow> task_db" where
  "shifted env g lo hi d db = db\<lparr>tasks := map (\<lambda>t. if in_span g lo hi t
     then t\<lparr>ta_order := ta_order t + d, ta_updatedAt := kv_now env\<rparr> else t) (tasks db)\<rparr>"

definition shift_tasks :: "task_env \<Rightarrow> uuid \<Rightarrow> int \<Rightarrow> int option \<Rightarrow> int \<Rightarrow> unit task_act" where
  "shift_tasks env g lo hi d =
    andThen (fetch (\<lambda>db. \<forall>t \<in> set (tasks db). in_span g lo hi t \<longrightarrow> int4 (ta_order t + d))) (\<lambda>fits.
    andThen (ensure out_of_range (fits \<and> int4 lo \<and> (case hi of None \<Rightarrow> True | Some h \<Rightarrow> int4 h))) (\<lambda>_.
    store (shifted env g lo hi d)))"

definition placed :: "task_env \<Rightarrow> uuid \<Rightarrow> uuid \<Rightarrow> int \<Rightarrow> task_db \<Rightarrow> task_db" where
  "placed env i g k db = db\<lparr>tasks := map (\<lambda>t. if ta_id t = i
     then t\<lparr>ta_groupId := g, ta_order := k, ta_updatedAt := kv_now env\<rparr> else t) (tasks db)\<rparr>"

definition place_task :: "task_env \<Rightarrow> uuid \<Rightarrow> uuid \<Rightarrow> int \<Rightarrow> unit task_act" where
  "place_task env i g k = andThen (ensure out_of_range (int4 k)) (\<lambda>_. store (placed env i g k))"

definition list_changed :: "uuid \<Rightarrow> unit task_act" where
  "list_changed g = invalidateList to_listVersion_update g"

definition audit :: "task_audit \<Rightarrow> unit task_act" where
  "audit a = tell (\<lambda>o'. o'\<lparr>to_audit := to_audit o' @ [a]\<rparr>)"

definition send_push :: "push \<Rightarrow> unit task_act" where
  "send_push p = tell (\<lambda>o'. o'\<lparr>to_pushes := to_pushes o' @ [p]\<rparr>)"

section \<open>Reminders\<close>

definition reminderBuffer :: int where "reminderBuffer = 30 * 60 * 1000"

definition handleTaskDeadlineJob :: "task_env \<Rightarrow> uuid \<Rightarrow> uuid \<Rightarrow> uuid \<Rightarrow> int option \<Rightarrow> unit task_act" where
  "handleTaskDeadlineJob env taskId groupId boardId dueDate =
    andThen (tell (\<lambda>o'. o'\<lparr>to_reminders := (to_reminders o')(taskId := None)\<rparr>)) (\<lambda>_.
    case dueDate of
      None \<Rightarrow> ret ()
    | Some deadline \<Rightarrow>
        let delay = max 0 (deadline - kv_now env - reminderBuffer)
        in if deadline < kv_now env then ret ()
           else tell (\<lambda>o'. o'\<lparr>to_reminders := (to_reminders o')(taskId \<mapsto>
             \<lparr>rm_groupId = groupId, rm_boardId = boardId, rm_at = kv_now env + delay\<rparr>)\<rparr>))"

text \<open>\<open>TaskProcessor.process\<close>: the job is taken off the queue and every member of the task is told.\<close>

definition due_push :: "task \<Rightarrow> board \<Rightarrow> task_group \<Rightarrow> task_member \<Rightarrow> push" where
  "due_push t b g m =
     \<lparr>pu_recipientId = tm_memberId m, pu_type = ''TASK_DUE_SOON'',
      pu_content = (uni ''Nhi{1EC7}m v{1EE5} {0022}'') @ ta_title t @ (uni ''{0022} s{1EAF}p {0111}{1EBF}n h{1EA1}n!''),
      pu_objectId = ta_id t, pu_workspaceId = bo_workspaceId b, pu_groupId = ta_groupId t,
      pu_boardId = gr_boardId g, pu_taskTitle = ta_title t, pu_actor = None\<rparr>"

definition process_reminder :: "uuid \<Rightarrow> nat task_act" where
  "process_reminder taskId =
    andThen (tell (\<lambda>o'. o'\<lparr>to_reminders := (to_reminders o')(taskId := None)\<rparr>)) (\<lambda>_.
    andThen (fetch (find_task taskId)) (\<lambda>t.
    case t of
      None \<Rightarrow> ret 0
    | Some t \<Rightarrow>
        andThen (fetch (\<lambda>db. members_of db taskId)) (\<lambda>members.
        andThen (group_of_task t) (\<lambda>g.
        andThen (get_board (gr_boardId g)) (\<lambda>b.
        andThen (each (\<lambda>m. send_push (due_push t b g m)) members) (\<lambda>_.
        ret (length members)))))))"

section \<open>Tasks\<close>

definition last_order :: "uuid \<Rightarrow> task_db \<Rightarrow> int option" where
  "last_order g db = (case map ta_order (filter (\<lambda>t. ta_groupId t = g) (tasks db)) of
     [] \<Rightarrow> None | k # ks \<Rightarrow> Some (fold max ks k))"

definition new_task :: "task_env \<Rightarrow> task_db \<Rightarrow> create_task \<Rightarrow> int \<Rightarrow> task" where
  "new_task env db dto k =
     \<lparr>ta_id = kv_newId env db, ta_groupId = ct_groupId dto, ta_title = ct_title dto, ta_description = None,
      ta_startDate = None, ta_dueDate = None, ta_order = k, ta_isDone = False,
      ta_createdAt = kv_now env, ta_updatedAt = kv_now env\<rparr>"

definition createNewTask :: "task_env \<Rightarrow> create_task \<Rightarrow> uuid \<Rightarrow> task_response task_act" where
  "createNewTask env dto requesterId =
    andThen (transaction
      (andThen (get_group (ct_groupId dto)) (\<lambda>group.
       andThen (checkBoardMembership_tx env (gr_boardId group) requesterId) (\<lambda>_.
       andThen (fetch (\<lambda>db. case last_order (ct_groupId dto) db of Some k \<Rightarrow> k + 1 | None \<Rightarrow> 0)) (\<lambda>nextOrder.
       andThen (fetch (\<lambda>db. new_task env db dto nextOrder)) (\<lambda>saved.
       andThen (ensure out_of_range (int4 nextOrder)) (\<lambda>_.
       andThen (insert_task saved) (\<lambda>_.
       ret (saved, gr_boardId group))))))))) (\<lambda>(saved, boardId).
    let result = mapTaskResponse (bare_task saved)
    in andThen (list_changed (ct_groupId dto)) (\<lambda>_.
       andThen (case ta_dueDate saved of
           None \<Rightarrow> ret ()
         | Some d \<Rightarrow> handleTaskDeadlineJob env (ta_id saved) (ta_groupId saved) boardId (Some d)) (\<lambda>_.
       andThen (audit (TaskCreated requesterId (tr_id result) (ct_groupId dto) (tr_title result))) (\<lambda>_.
       ret result))))"

text \<open>
  \<open>Object.assign(task, updateData)\<close> and the row that \<open>save\<close> makes of it: in memory the group is
  the one of the DTO, in the table it is \<open>kv_savedGroup\<close>. \<open>updated_at\<close> changes with a column.
\<close>

definition assign_task :: "update_task \<Rightarrow> task \<Rightarrow> task" where
  "assign_task dto t = t\<lparr>ta_groupId := nullish (ut_groupId dto) (ta_groupId t), ta_title := nullish (ut_title dto) (ta_title t),
     ta_description := nullish (ut_description dto) (ta_description t), ta_startDate := nullish (ut_startDate dto) (ta_startDate t),
     ta_dueDate := nullish (ut_dueDate dto) (ta_dueDate t), ta_order := nullish (ut_order dto) (ta_order t)\<rparr>"

definition saved_task :: "task_env \<Rightarrow> update_task \<Rightarrow> task \<Rightarrow> task" where
  "saved_task env dto t =
    (let t' = (assign_task dto t)\<lparr>ta_groupId :=
        (case ut_groupId dto of None \<Rightarrow> ta_groupId t | Some g \<Rightarrow> kv_savedGroup env (ta_groupId t) g)\<rparr>
     in if t' = t then t else t'\<lparr>ta_updatedAt := kv_now env\<rparr>)"

definition updateTaskDetails :: "task_env \<Rightarrow> uuid \<Rightarrow> update_task \<Rightarrow> uuid \<Rightarrow> task_response task_act" where
  "updateTaskDetails env i dto requesterId =
    andThen (transaction
      (andThen (get_task i) (\<lambda>t.
       andThen (fetch (\<lambda>db. load_task db t)) (\<lambda>e.
       andThen (group_of_task t) (\<lambda>group.
       andThen (checkBoardMembership_tx env (gr_boardId group) requesterId) (\<lambda>_.
       andThen (case ut_labelIds dto of
           None \<Rightarrow> ret (te_labels e)
         | Some ids \<Rightarrow> fetch (\<lambda>db. filter (\<lambda>l. lb_id l \<in> set ids) (labels db))) (\<lambda>new_labels.
       let t' = saved_task env dto t
       in andThen (ensure out_of_range (int4 (ta_order t'))) (\<lambda>_.
          andThen (checked (\<lambda>db. \<exists>g \<in> set (groups db). gr_id g = ta_groupId t')
             (replaced_task i t')) (\<lambda>_.
          andThen (case ut_labelIds dto of None \<Rightarrow> ret () | Some ids \<Rightarrow> store (relabel i (map lb_id new_labels))) (\<lambda>_.
          ret (e\<lparr>te_row := (assign_task dto t)\<lparr>ta_updatedAt := ta_updatedAt t'\<rparr>, te_labels := new_labels\<rparr>,
               gr_boardId group)))))))))))
      (\<lambda>(updated, boardId).
    let result = mapTaskResponse updated
    in andThen (list_changed (ta_groupId (te_row updated))) (\<lambda>_.
       andThen (handleTaskDeadlineJob env i (ta_groupId (te_row updated)) boardId (ta_dueDate (te_row updated))) (\<lambda>_.
       andThen (audit (TaskUpdated requesterId i (ta_groupId (te_row updated)) (tr_title result))) (\<lambda>_.
       ret result))))"

text \<open>Most operations look up the task of a board the requester must be a member of.\<close>

definition own_task :: "task_env \<Rightarrow> uuid \<Rightarrow> uuid \<Rightarrow> (task \<times> task_group) task_act" where
  "own_task env i requesterId =
    andThen (get_task i) (\<lambda>t.
    andThen (group_of_task t) (\<lambda>group.
    andThen (checkBoardMembership_tx env (gr_boardId group) requesterId) (\<lambda>_.
    ret (t, group))))"

definition removeTask :: "task_env \<Rightarrow> uuid \<Rightarrow> uuid \<Rightarrow> uuid task_act" where
  "removeTask env i requesterId =
    andThen (transaction
      (andThen (own_task env i requesterId) (\<lambda>(t, group).
       andThen (store (delete_tasks (\<lambda>x. ta_id x = i))) (\<lambda>_.
       ret (ta_groupId t, gr_boardId group))))) (\<lambda>(groupId, boardId).
    andThen (list_changed groupId) (\<lambda>_.
    andThen (handleTaskDeadlineJob env i groupId boardId None) (\<lambda>_.
    andThen (audit (TaskDeleted requesterId i groupId)) (\<lambda>_.
    ret i))))"

definition getTaskDetails :: "task_env \<Rightarrow> uuid \<Rightarrow> uuid \<Rightarrow> task_response task_act" where
  "getTaskDetails env i requesterId =
    andThen (get_task i) (\<lambda>t.
    andThen (group_of_task t) (\<lambda>group.
    andThen (fetch (\<lambda>db. load_task db t)) (\<lambda>e.
    andThen (checkBoardMembership env (gr_boardId group) requesterId) (\<lambda>_.
    ret (mapTaskResponse e)))))"

definition getGroupById :: "task_env \<Rightarrow> uuid \<Rightarrow> task_group option task_act" where
  "getGroupById env g =
     getOrSetDetail to_groups to_groups_update (kv_random env) (kv_now env) g TTL_LONG
       (andThen (get_group g) (\<lambda>x. ret (Some x)))"

text \<open>A page of a list; \<open>page\<close> counts from 1.\<close>

definition offset_page :: "nat \<Rightarrow> nat \<Rightarrow> 'a list \<Rightarrow> 'a offset_page" where
  "offset_page p l xs =
     \<lparr>op_data = take l (drop ((p - 1) * l) xs), op_page = p, op_limit = l, op_total = length xs,
      op_totalPages = (length xs + l - 1) div l\<rparr>"

definition group_listing :: "uuid \<Rightarrow> task_db \<Rightarrow> task_response list" where
  "group_listing g db = map (\<lambda>t. mapTaskResponse (load_task db t))
     (sort_key ta_order (filter (\<lambda>t. ta_groupId t = g) (tasks db)))"

definition getTasksInGroup :: "task_env \<Rightarrow> query_task \<Rightarrow> uuid \<Rightarrow> task_response offset_page task_act" where
  "getTasksInGroup env q requesterId =
    (let g = qt_groupId q; p = nullish (qt_page q) 1;
         l = min (case qt_limit q of None \<Rightarrow> 20 | Some n \<Rightarrow> if n = 0 then 20 else n) 100
     in andThen (getGroupById env g) (\<lambda>group.
        andThen (from_option (Coded ''GROUP_NOT_FOUND'') group) (\<lambda>group.
        andThen (checkBoardMembership env (gr_boardId group) requesterId) (\<lambda>_.
        andThen (getOrSetList to_listVersion to_lists to_lists_update (kv_random env) (kv_now env) g
            (\<lambda>version. (g, version, p, l)) TTL_LONG
            (fetch (\<lambda>db. Some (offset_page p l (group_listing g db))))) (\<lambda>r.
        from_option (Broken []) r)))))"

section \<open>Members, labels, attachments\<close>

definition assigner_name :: "ws_member option \<Rightarrow> jstr" where
  "assigner_name m = (case m of
     None \<Rightarrow> js ''User''
   | Some m \<Rightarrow> or_str (trim (or_opt (wm_firstName m) [] @ js '' '' @ or_opt (wm_lastName m) [])) (js ''User''))"

definition assigned_push :: "uuid \<Rightarrow> uuid \<Rightarrow> jstr \<Rightarrow> task \<Rightarrow> task_group \<Rightarrow> board \<Rightarrow> push" where
  "assigned_push memberId requesterId name t g b =
     \<lparr>pu_recipientId = memberId, pu_type = ''TASK_ASSIGNED'',
      pu_content = (uni ''B{1EA1}n {0111}{00E3} {0111}{01B0}{1EE3}c ph{00E2}n c{00F4}ng v{00E0}o nhi{1EC7}m v{1EE5} {0022}'') @ ta_title t @ js ''\"'',
      pu_objectId = ta_id t, pu_workspaceId = bo_workspaceId b, pu_groupId = ta_groupId t,
      pu_boardId = gr_boardId g, pu_taskTitle = ta_title t, pu_actor = Some (requesterId, name)\<rparr>"

definition assignMemberToTask :: "task_env \<Rightarrow> uuid \<Rightarrow> uuid \<Rightarrow> uuid \<Rightarrow> unit task_act" where
  "assignMemberToTask env taskId memberId requesterId =
    andThen (transaction
      (andThen (own_task env taskId requesterId) (\<lambda>(t, group).
       andThen (get_board (gr_boardId group)) (\<lambda>b.
       andThen (fetch (is_member (gr_boardId group) memberId)) (\<lambda>member.
       andThen (ensure (Coded ''MEMBER_NOT_IN_BOARD'') member) (\<lambda>_.
       andThen (fetch (\<lambda>db. \<exists>m \<in> set (task_members db). tm_taskId m = taskId \<and> tm_memberId m = memberId)) (\<lambda>existing.
       andThen (ensure (Coded ''MEMBER_ALREADY_ASSIGNED_TO_TASK'') (\<not> existing)) (\<lambda>_.
       andThen (store (\<lambda>db. db\<lparr>task_members := task_members db @
           [\<lparr>tm_id = kv_newId env db, tm_taskId = taskId, tm_memberId = memberId\<rparr>]\<rparr>)) (\<lambda>_.
       ret (t, group, b)))))))))) (\<lambda>(t, group, b).
    andThen (list_changed (ta_groupId t)) (\<lambda>_.
    andThen (audit (TaskAssigned requesterId memberId taskId (ta_groupId t))) (\<lambda>_.
    andThen (rescue (andThen (getWorkspaceMember env (bo_workspaceId b) requesterId) (\<lambda>m. ret (Some m)))
       (\<lambda>e. ret None)) (\<lambda>assigner.
    send_push (assigned_push memberId requesterId (assigner_name assigner) t group b)))))"

definition unassignMemberFromTask :: "task_env \<Rightarrow> uuid \<Rightarrow> uuid \<Rightarrow> uuid \<Rightarrow> unit task_act" where
  "unassignMemberFromTask env taskId memberId requesterId =
    andThen (transaction
      (andThen (own_task env taskId requesterId) (\<lambda>(t, group).
       andThen (store_count (\<lambda>db. length (filter (\<lambda>m. tm_taskId m = taskId \<and> tm_memberId m = memberId) (task_members db)))
         (\<lambda>db. db\<lparr>task_members := filter (\<lambda>m. \<not> (tm_taskId m = taskId \<and> tm_memberId m = memberId)) (task_members db)\<rparr>))
         (\<lambda>affected.
       andThen (ensure (Coded ''MEMBER_NOT_ASSIGNED_TO_TASK'') (affected \<noteq> 0)) (\<lambda>_.
       ret (ta_groupId t)))))) (\<lambda>groupId.
    andThen (list_changed groupId) (\<lambda>_.
    audit (TaskUnassigned requesterId memberId taskId groupId)))"

definition toggleTaskLabel :: "task_env \<Rightarrow> uuid \<Rightarrow> uuid \<Rightarrow> uuid \<Rightarrow> unit task_act" where
  "toggleTaskLabel env taskId labelId requesterId =
    andThen (transaction
      (andThen (own_task env taskId requesterId) (\<lambda>(t, group).
       andThen (fetch (\<lambda>db. find (\<lambda>l. lb_id l = labelId) (labels db))) (\<lambda>label.
       andThen (from_option (Coded ''LABEL_NOT_FOUND'') label) (\<lambda>label.
       andThen (fetch (\<lambda>db. map lb_id (labels_of db taskId))) (\<lambda>old.
       andThen (store (relabel taskId (if labelId \<in> set old then filter (\<lambda>l. l \<noteq> labelId) old else old @ [labelId]))) (\<lambda>_.
       ret (ta_groupId t)))))))) list_changed"

definition addAttachment :: "task_env \<Rightarrow> uuid \<Rightarrow> jstr \<Rightarrow> jstr \<Rightarrow> uuid \<Rightarrow> unit task_act" where
  "addAttachment env taskId title link requesterId =
    andThen (transaction
      (andThen (own_task env taskId requesterId) (\<lambda>(t, group).
       andThen (store (\<lambda>db. db\<lparr>task_attachments := task_attachments db @
           [\<lparr>tt_id = kv_newId env db, tt_taskId = taskId, tt_title = title, tt_link = link\<rparr>]\<rparr>)) (\<lambda>_.
       ret (ta_groupId t))))) list_changed"

definition find_attachment :: "uuid \<Rightarrow> task_db \<Rightarrow> task_attachment option" where
  "find_attachment i db = find (\<lambda>a. tt_id a = i) (task_attachments db)"

definition updateAttachment :: "task_env \<Rightarrow> uuid \<Rightarrow> uuid \<Rightarrow> jstr \<Rightarrow> jstr \<Rightarrow> uuid \<Rightarrow> unit task_act" where
  "updateAttachment env taskId attachmentId title link requesterId =
    andThen (transaction
      (andThen (own_task env taskId requesterId) (\<lambda>(t, group).
       andThen (fetch (find_attachment attachmentId)) (\<lambda>a.
       andThen (from_option (Coded ''ATTACHMENT_NOT_FOUND'') a) (\<lambda>a.
       andThen (store (\<lambda>db. db\<lparr>task_attachments := map (\<lambda>x. if tt_id x = tt_id a
           then x\<lparr>tt_title := title, tt_link := link\<rparr> else x) (task_attachments db)\<rparr>)) (\<lambda>_.
       ret (ta_groupId t))))))) list_changed"

definition deleteAttachment :: "task_env \<Rightarrow> uuid \<Rightarrow> uuid \<Rightarrow> unit task_act" where
  "deleteAttachment env i requesterId =
    andThen (transaction
      (andThen (fetch (find_attachment i)) (\<lambda>a.
       andThen (from_option (Coded ''ATTACHMENT_NOT_FOUND'') a) (\<lambda>a.
       andThen (fetch (find_task (tt_taskId a))) (\<lambda>t.
       andThen (from_option (Broken (js ''task.group'')) t) (\<lambda>t.
       andThen (group_of_task t) (\<lambda>group.
       andThen (checkBoardMembership_tx env (gr_boardId group) requesterId) (\<lambda>_.
       andThen (store (\<lambda>db. db\<lparr>task_attachments := filter (\<lambda>x. tt_id x \<noteq> i) (task_attachments db)\<rparr>)) (\<lambda>_.
       ret (ta_groupId t)))))))))) list_changed"

section \<open>Moving tasks\<close>

definition moveTaskWithinGroup :: "task_env \<Rightarrow> task \<Rightarrow> int \<Rightarrow> unit task_act" where
  "moveTaskWithinGroup env t target =
    (let current = ta_order t
     in if current = target then ret ()
        else andThen (if current < target
               then shift_tasks env (ta_groupId t) (current + 1) (Some target) (- 1)
               else shift_tasks env (ta_groupId t) target (Some (current - 1)) 1) (\<lambda>_.
             place_task env (ta_id t) (ta_groupId t) target))"

definition moveTaskToDifferentGroup :: "task_env \<Rightarrow> task \<Rightarrow> uuid \<Rightarrow> int \<Rightarrow> unit task_act" where
  "moveTaskToDifferentGroup env t targetGroup target =
    andThen (shift_tasks env (ta_groupId t) (ta_order t + 1) None (- 1)) (\<lambda>_.
    andThen (shift_tasks env targetGroup target None 1) (\<lambda>_.
    place_task env (ta_id t) targetGroup target))"

definition dragDropTask :: "task_env \<Rightarrow> drag_drop \<Rightarrow> uuid \<Rightarrow> unit task_act" where
  "dragDropTask env dto requesterId =
    andThen (transaction
      (andThen (fetch (find_task (dd_taskId dto))) (\<lambda>t.
       andThen (fetch (find_group (dd_targetGroupId dto))) (\<lambda>targetGroup.
       andThen (from_option (Coded ''TASK_NOT_FOUND'') t) (\<lambda>t.
       andThen (from_option (Coded ''GROUP_NOT_FOUND'') targetGroup) (\<lambda>targetGroup.
       andThen (group_of_task t) (\<lambda>group.
       andThen (checkBoardMembership_tx env (gr_boardId group) requesterId) (\<lambda>_.
       andThen (if gr_boardId group \<noteq> gr_boardId targetGroup
           then checkBoardMembership_tx env (gr_boardId targetGroup) requesterId else ret ()) (\<lambda>_.
       andThen (if ta_groupId t = gr_id targetGroup then moveTaskWithinGroup env t (dd_targetOrder dto)
           else moveTaskToDifferentGroup env t (gr_id targetGroup) (dd_targetOrder dto)) (\<lambda>_.
       ret (ta_groupId t, gr_id targetGroup)))))))))))
      (\<lambda>(source, target).
    andThen (list_changed source) (\<lambda>_.
    if source \<noteq> target then list_changed target else ret ()))"

definition changeTaskGroup :: "task_env \<Rightarrow> uuid \<Rightarrow> uuid \<Rightarrow> uuid \<Rightarrow> unit task_act" where
  "changeTaskGroup env taskId targetGroupId requesterId =
    andThen (transaction
      (andThen (get_task taskId) (\<lambda>t.
       andThen (get_group targetGroupId) (\<lambda>targetGroup.
       andThen (group_of_task t) (\<lambda>group.
       andThen (checkBoardMembership_tx env (gr_boardId group) requesterId) (\<lambda>_.
       andThen (checkBoardMembership_tx env (gr_boardId targetGroup) requesterId) (\<lambda>_.
       andThen (fetch (\<lambda>db. nullish (last_order targetGroupId db) 0)) (\<lambda>maxOrder.
       andThen (place_task env taskId targetGroupId (maxOrder + 1024)) (\<lambda>_.
       ret (ta_groupId t))))))))))
      (\<lambda>source.
    andThen (list_changed source) (\<lambda>_. list_changed targetGroupId))"

section \<open>Filtering\<close>

definition given :: "'a option \<Rightarrow> ('a \<Rightarrow> bool) \<Rightarrow> bool" where
  "given x P \<longleftrightarrow> (case x of None \<Rightarrow> True | Some y \<Rightarrow> P y)"

definition matches_filter :: "task_env \<Rightarrow> task_db \<Rightarrow> filter_tasks \<Rightarrow> task \<Rightarrow> bool" where
  "matches_filter env db dto t \<longleftrightarrow>
     (\<exists>g \<in> set (groups db). gr_id g = ta_groupId t \<and> gr_boardId g = ft_boardId dto) \<and>
     given (ft_name dto) (\<lambda>n. n = [] \<or> kv_ilike env ([37] @ n @ [37]) (ta_title t)) \<and>
     given (ft_startDate dto) (\<lambda>d. case ta_startDate t of None \<Rightarrow> False | Some s \<Rightarrow> d \<le> s) \<and>
     given (ft_dueDate dto) (\<lambda>d. case ta_dueDate t of None \<Rightarrow> False | Some e \<Rightarrow> e \<le> d) \<and>
     given (ft_groupId dto) (\<lambda>g. ta_groupId t = g) \<and>
     given (ft_status dto) (\<lambda>s. s = [] \<or> ta_isDone t = (s = js ''completed'')) \<and>
     given (ft_memberIds dto) (\<lambda>ms. ms = [] \<or> (\<exists>m \<in> set (task_members db). tm_taskId m = ta_id t \<and> tm_memberId m \<in> set ms)) \<and>
     given (ft_labelIds dto) (\<lambda>ls. ls = [] \<or> (\<exists>l \<in> set (labels_of db (ta_id t)). lb_id l \<in> set ls))"

definition filterTasks :: "task_env \<Rightarrow> filter_tasks \<Rightarrow> uuid \<Rightarrow> task_response list task_act" where
  "filterTasks env dto requesterId =
    andThen (checkBoardMembership env (ft_boardId dto) requesterId) (\<lambda>_.
    fetch (\<lambda>db. map (\<lambda>t. mapTaskResponse (bare_task t
        \<lparr>te_labels := labels_of db (ta_id t), te_members := members_of db (ta_id t)\<rparr>))
      (sort_key ta_order (filter (matches_filter env db dto) (tasks db)))))"

end
