(* ===== verification/Board_Service.thy ===== *)
theory Board_Service
  imports Task_Service
begin

text \<open>
  The rest of the task service: \<open>services/board.service.ts\<close>, \<open>group.service.ts\<close>,
  \<open>label.service.ts\<close> and \<open>checklist.service.ts\<close>.
\<close>

section \<open>Boards\<close>

definition board_list_changed :: "uuid \<times> uuid \<Rightarrow> unit task_act" where
  "board_list_changed k = invalidateList to_boardListVersion_update k"

definition membership_changed :: "uuid \<Rightarrow> uuid \<Rightarrow> unit task_act" where
  "membership_changed b m = invalidateDetail to_memberships_update (b, m)"

definition createNewBoard :: "task_env \<Rightarrow> uuid \<Rightarrow> jstr \<Rightarrow> jstr \<Rightarrow> uuid \<Rightarrow> board task_act" where
  "createNewBoard env workspaceId name backgroundUrl requesterId =
    andThen (transaction
      (andThen (checkWorkspaceRole env workspaceId requesterId) (\<lambda>_.
       andThen (getWorkspaceMemberId env workspaceId requesterId) (\<lambda>memberId.
       andThen (fetch (\<lambda>db. \<lparr>bo_id = kv_newId env db, bo_workspaceId = workspaceId, bo_backgroundUrl = backgroundUrl,
           bo_name = name, bo_createdAt = kv_now env, bo_updatedAt = kv_now env\<rparr>)) (\<lambda>saved.
       andThen (store (\<lambda>db. db\<lparr>boards := boards db @ [saved]\<rparr>)) (\<lambda>_.
       andThen (store (\<lambda>db. db\<lparr>board_members := board_members db @
           [\<lparr>bm_id = kv_newId env db, bm_boardId = bo_id saved, bm_memberId = memberId\<rparr>]\<rparr>)) (\<lambda>_.
       ret (saved, memberId)))))))) (\<lambda>(result, memberId).
    andThen (board_list_changed (workspaceId, memberId)) (\<lambda>_.
    andThen (membership_changed (bo_id result) memberId) (\<lambda>_.
    ret result)))"

definition saved_board :: "task_env \<Rightarrow> update_board \<Rightarrow> board \<Rightarrow> board" where
  "saved_board env dto b =
    (let b' = b\<lparr>bo_backgroundUrl := nullish (ub_backgroundUrl dto) (bo_backgroundUrl b), bo_name := nullish (ub_name dto) (bo_name b)\<rparr>
     in if b' = b then b else b'\<lparr>bo_updatedAt := kv_now env\<rparr>)"

definition member_ids :: "uuid \<Rightarrow> task_db \<Rightarrow> uuid list" where
  "member_ids b db = map bm_memberId (filter (\<lambda>m. bm_boardId m = b) (board_members db))"

definition updateBoardInfo :: "task_env \<Rightarrow> uuid \<Rightarrow> update_board \<Rightarrow> uuid \<Rightarrow> board task_act" where
  "updateBoardInfo env i dto requesterId =
    andThen (transaction
      (andThen (get_board i) (\<lambda>b.
       andThen (checkWorkspaceRole env (bo_workspaceId b) requesterId) (\<lambda>_.
       andThen (checkBoardMembership_tx env i requesterId) (\<lambda>_.
       let saved = saved_board env dto b
       in andThen (store (\<lambda>db. db\<lparr>boards := map (\<lambda>x. if bo_id x = i then saved else x) (boards db)\<rparr>)) (\<lambda>_.
          andThen (fetch (member_ids i)) (\<lambda>members.
          ret (saved, members)))))))) (\<lambda>(result, members).
    andThen (invalidateListBulk to_boardListVersion_update (map (\<lambda>m. (bo_workspaceId result, m)) members)) (\<lambda>_.
    andThen (each (membership_changed i) members) (\<lambda>_.
    ret result)))"

definition delete_groups :: "(task_group \<Rightarrow> bool) \<Rightarrow> task_db \<Rightarrow> task_db" where
  "delete_groups P db =
    (let gone = map gr_id (filter P (groups db))
     in delete_tasks (\<lambda>t. ta_groupId t \<in> set gone) (db\<lparr>groups := filter (\<lambda>g. \<not> P g) (groups db)\<rparr>))"

definition delete_board :: "uuid \<Rightarrow> task_db \<Rightarrow> task_db" where
  "delete_board i db = delete_groups (\<lambda>g. gr_boardId g = i)
     (db\<lparr>boards := filter (\<lambda>b. bo_id b \<noteq> i) (boards db),
        board_members := filter (\<lambda>m. bm_boardId m \<noteq> i) (board_members db)\<rparr>)"

definition deleteBoard :: "task_env \<Rightarrow> uuid \<Rightarrow> uuid \<Rightarrow> uuid task_act" where
  "deleteBoard env i requesterId =
    andThen (transaction
      (andThen (get_board i) (\<lambda>b.
       andThen (checkWorkspaceRole env (bo_workspaceId b) requesterId) (\<lambda>_.
       andThen (fetch (member_ids i)) (\<lambda>members.
       andThen (store_count (\<lambda>db. length (filter (\<lambda>b. bo_id b = i) (boards db))) (delete_board i)) (\<lambda>affected.
       andThen (ensure (Coded ''BOARD_NOT_FOUND'') (affected \<noteq> 0)) (\<lambda>_.
       ret (bo_workspaceId b, members)))))))) (\<lambda>(workspaceId, members).
    andThen (invalidateListBulk to_boardListVersion_update (map (\<lambda>m. (workspaceId, m)) members)) (\<lambda>_.
    andThen (each (membership_changed i) members) (\<lambda>_.
    ret i)))"

definition board_listing :: "uuid \<Rightarrow> uuid \<Rightarrow> task_db \<Rightarrow> board list" where
  "board_listing w m db = rev (sort_key bo_createdAt (rev (filter (\<lambda>b. bo_workspaceId b = w \<and> is_member (bo_id b) m db) (boards db))))"

definition getBoardsInWorkspace :: "task_env \<Rightarrow> uuid \<Rightarrow> nat option \<Rightarrow> nat option \<Rightarrow> uuid \<Rightarrow> board offset_page task_act" where
  "getBoardsInWorkspace env workspaceId pageNo limit requesterUserId =
    andThen (getWorkspaceMemberId env workspaceId requesterUserId) (\<lambda>memberId.
    let p = nullish pageNo 1; l = nullish limit 20
    in andThen (getOrSetList to_boardListVersion to_boardLists to_boardLists_update (kv_random env) (kv_now env)
           (workspaceId, memberId) (\<lambda>version. ((workspaceId, memberId), version, p, l)) TTL_LONG
           (fetch (\<lambda>db. Some (offset_page p l (board_listing workspaceId memberId db))))) (\<lambda>r.
       from_option (Broken []) r))"

definition getBoardDetails :: "task_env \<Rightarrow> uuid \<Rightarrow> uuid \<Rightarrow> board task_act" where
  "getBoardDetails env i requesterId = andThen (checkBoardMembership env i requesterId) (\<lambda>_. get_board i)"

definition getBoardMembers :: "task_env \<Rightarrow> uuid \<Rightarrow> uuid \<Rightarrow> (uuid \<times> uuid) list task_act" where
  "getBoardMembers env i requesterId =
    andThen (checkBoardMembership env i requesterId) (\<lambda>_.
    fetch (\<lambda>db. map (\<lambda>m. (bm_id m, bm_memberId m)) (filter (\<lambda>m. bm_boardId m = i) (board_members db))))"

definition addMemberToBoard :: "task_env \<Rightarrow> uuid \<Rightarrow> uuid \<Rightarrow> uuid \<Rightarrow> unit task_act" where
  "addMemberToBoard env boardId memberId requesterId =
    andThen (transaction
      (andThen (get_board boardId) (\<lambda>b.
       andThen (checkWorkspaceRole env (bo_workspaceId b) requesterId) (\<lambda>_.
       andThen (fetch (is_member boardId memberId)) (\<lambda>existing.
       andThen (ensure (Coded ''MEMBER_ALREADY_IN_BOARD'') (\<not> existing)) (\<lambda>_.
       andThen (store (\<lambda>db. db\<lparr>board_members := board_members db @
           [\<lparr>bm_id = kv_newId env db, bm_boardId = boardId, bm_memberId = memberId\<rparr>]\<rparr>)) (\<lambda>_.
       ret (bo_workspaceId b)))))))) (\<lambda>workspaceId.
    andThen (board_list_changed (workspaceId, memberId)) (\<lambda>_.
    membership_changed boardId memberId))"

definition removeMemberFromBoard :: "task_env \<Rightarrow> uuid \<Rightarrow> uuid \<Rightarrow> uuid \<Rightarrow> unit task_act" where
  "removeMemberFromBoard env boardId memberId requesterId =
    andThen (transaction
      (andThen (get_board boardId) (\<lambda>b.
       andThen (checkBoardMembership_tx env boardId requesterId) (\<lambda>_.
       andThen (getWorkspaceMemberId env (bo_workspaceId b) requesterId) (\<lambda>requesterMemberId.
       andThen (if requesterMemberId \<noteq> memberId then checkWorkspaceRole env (bo_workspaceId b) requesterId
           else andThen (getWorkspaceMemberRole env (bo_workspaceId b) requesterId) (\<lambda>role.
                ensure (Coded ''OWNER_CANNOT_LEAVE_BOARD'') (role \<noteq> ''owner''))) (\<lambda>_.
       andThen (store (\<lambda>db. db\<lparr>board_members :=
           filter (\<lambda>m. \<not> (bm_boardId m = boardId \<and> bm_memberId m = memberId)) (board_members db)\<rparr>)) (\<lambda>_.
       ret (bo_workspaceId b)))))))) (\<lambda>workspaceId.
    andThen (board_list_changed (workspaceId, memberId)) (\<lambda>_.
    membership_changed boardId memberId))"

section \<open>Groups\<close>

definition last_group_order :: "uuid \<Rightarrow> task_db \<Rightarrow> int option" where
  "last_group_order b db = (case map gr_order (filter (\<lambda>g. gr_boardId g = b) (groups db)) of
     [] \<Rightarrow> None | k # ks \<Rightarrow> Some (fold max ks k))"

definition addGroupToBoard :: "task_env \<Rightarrow> uuid \<Rightarrow> jstr \<Rightarrow> uuid \<Rightarrow> task_group task_act" where
  "addGroupToBoard env boardId name requesterId = transaction
    (andThen (checkBoardMembership_tx env boardId requesterId) (\<lambda>_.
     andThen (fetch (\<lambda>db. case last_group_order boardId db of Some k \<Rightarrow> k + 1 | None \<Rightarrow> 0)) (\<lambda>nextOrder.
     andThen (ensure out_of_range (int4 nextOrder)) (\<lambda>_.
     andThen (fetch (\<lambda>db. \<lparr>gr_id = kv_newId env db, gr_boardId = boardId, gr_name = name, gr_order = nextOrder,
         gr_createdAt = kv_now env, gr_updatedAt = kv_now env\<rparr>)) (\<lambda>saved.
     andThen (store (\<lambda>db. db\<lparr>groups := groups db @ [saved]\<rparr>)) (\<lambda>_.
     ret saved))))))"

definition saved_group :: "task_env \<Rightarrow> update_group \<Rightarrow> task_group \<Rightarrow> task_group" where
  "saved_group env dto g =
    (let g' = g\<lparr>gr_name := nullish (ug_name dto) (gr_name g), gr_order := nullish (ug_order dto) (gr_order g)\<rparr>
     in if g' = g then g else g'\<lparr>gr_updatedAt := kv_now env\<rparr>)"

definition replaced_group :: "task_group \<Rightarrow> task_db \<Rightarrow> task_db" where
  "replaced_group g db = db\<lparr>groups := map (\<lambda>x. if gr_id x = gr_id g then g else x) (groups db)\<rparr>"

definition save_group :: "task_group \<Rightarrow> unit task_act" where
  "save_group g = store (replaced_group g)"

definition updateGroupInfo :: "task_env \<Rightarrow> uuid \<Rightarrow> update_group \<Rightarrow> uuid \<Rightarrow> task_group task_act" where
  "updateGroupInfo env i dto requesterId = transaction
    (andThen (get_group i) (\<lambda>g.
     andThen (checkBoardMembership_tx env (gr_boardId g) requesterId) (\<lambda>_.
     andThen (ensure out_of_range (int4 (gr_order (saved_group env dto g)))) (\<lambda>_.
     andThen (save_group (saved_group env dto g)) (\<lambda>_.
     ret (saved_group env dto g))))))"

definition removeGroupFromBoard :: "task_env \<Rightarrow> uuid \<Rightarrow> uuid \<Rightarrow> uuid task_act" where
  "removeGroupFromBoard env i requesterId =
    andThen (transaction
      (andThen (get_group i) (\<lambda>g.
       andThen (checkBoardMembership_tx env (gr_boardId g) requesterId) (\<lambda>_.
       store (delete_groups (\<lambda>x. gr_id x = i)))))) (\<lambda>_.
    andThen (list_changed i) (\<lambda>_. ret i))"

definition getGroupsByBoardId :: "task_env \<Rightarrow> uuid \<Rightarrow> uuid \<Rightarrow> task_group list task_act" where
  "getGroupsByBoardId env boardId requesterId =
    andThen (checkBoardMembership env boardId requesterId) (\<lambda>_.
    fetch (\<lambda>db. sort_key gr_order (filter (\<lambda>g. gr_boardId g = boardId) (groups db))))"

definition in_group_span :: "uuid \<Rightarrow> int \<Rightarrow> int \<Rightarrow> task_group \<Rightarrow> bool" where
  "in_group_span b lo hi g \<longleftrightarrow> gr_boardId g = b \<and> lo \<le> gr_order g \<and> gr_order g \<le> hi"

definition shifted_groups :: "task_env \<Rightarrow> uuid \<Rightarrow> int \<Rightarrow> int \<Rightarrow> int \<Rightarrow> task_db \<Rightarrow> task_db" where
  "shifted_groups env b lo hi d db = db\<lparr>groups := map (\<lambda>g. if in_group_span b lo hi g
     then g\<lparr>gr_order := gr_order g + d, gr_updatedAt := kv_now env\<rparr> else g) (groups db)\<rparr>"

definition shift_groups :: "task_env \<Rightarrow> uuid \<Rightarrow> int \<Rightarrow> int \<Rightarrow> int \<Rightarrow> unit task_act" where
  "shift_groups env b lo hi d =
    andThen (fetch (\<lambda>db. \<forall>g \<in> set (groups db). in_group_span b lo hi g \<longrightarrow> int4 (gr_order g + d))) (\<lambda>fits.
    andThen (ensure out_of_range (fits \<and> int4 lo \<and> int4 hi)) (\<lambda>_.
    store (shifted_groups env b lo hi d)))"

definition changeGroupOrder :: "task_env \<Rightarrow> uuid \<Rightarrow> uuid \<Rightarrow> uuid \<Rightarrow> unit task_act" where
  "changeGroupOrder env sourceGroupId targetGroupId requesterId = transaction
    (andThen (fetch (find_group sourceGroupId)) (\<lambda>s.
     andThen (fetch (find_group targetGroupId)) (\<lambda>t.
     andThen (from_option (Coded ''GROUP_NOT_FOUND'') s) (\<lambda>s.
     andThen (from_option (Coded ''GROUP_NOT_FOUND'') t) (\<lambda>t.
     andThen (ensure (Coded ''GROUPS_NOT_IN_SAME_BOARD'') (gr_boardId s = gr_boardId t)) (\<lambda>_.
     andThen (checkBoardMembership_tx env (gr_boardId s) requesterId) (\<lambda>_.
     if gr_order s = gr_order t then ret ()
     else andThen (if gr_order s < gr_order t
            then shift_groups env (gr_boardId s) (gr_order s + 1) (gr_order t) (- 1)
            else shift_groups env (gr_boardId s) (gr_order t) (gr_order s - 1) 1) (\<lambda>_.
          save_group (s\<lparr>gr_order := gr_order t, gr_updatedAt := kv_now env\<rparr>)))))))))"

section \<open>Labels\<close>

definition createNewLabel :: "task_env \<Rightarrow> uuid \<Rightarrow> jstr \<Rightarrow> jstr \<Rightarrow> uuid \<Rightarrow> label task_act" where
  "createNewLabel env boardId name color requesterId =
    andThen (checkBoardMembership env boardId requesterId) (\<lambda>_.
    andThen (fetch (\<lambda>db. \<lparr>lb_id = kv_newId env db, lb_boardId = boardId, lb_name = name, lb_color = color\<rparr>)) (\<lambda>saved.
    andThen (store (\<lambda>db. db\<lparr>labels := labels db @ [saved]\<rparr>)) (\<lambda>_.
    ret saved)))"

definition find_label :: "uuid \<Rightarrow> task_db \<Rightarrow> label option" where
  "find_label i db = find (\<lambda>l. lb_id l = i) (labels db)"

definition group_ids :: "uuid \<Rightarrow> task_db \<Rightarrow> uuid list" where
  "group_ids b db = map gr_id (filter (\<lambda>g. gr_boardId g = b) (groups db))"

definition assign_label :: "update_label \<Rightarrow> label \<Rightarrow> label" where
  "assign_label dto l = l\<lparr>lb_name := nullish (ul_name dto) (lb_name l), lb_color := nullish (ul_color dto) (lb_color l)\<rparr>"

definition updateLabelInfo :: "task_env \<Rightarrow> uuid \<Rightarrow> update_label \<Rightarrow> uuid \<Rightarrow> label task_act" where
  "updateLabelInfo env i dto requesterId =
    andThen (transaction
      (andThen (fetch (find_label i)) (\<lambda>l.
       andThen (from_option (Coded ''LABEL_NOT_FOUND'') l) (\<lambda>l.
       andThen (checkBoardMembership_tx env (lb_boardId l) requesterId) (\<lambda>_.
       andThen (store (\<lambda>db. db\<lparr>labels := map (\<lambda>x. if lb_id x = i then assign_label dto l else x) (labels db)\<rparr>)) (\<lambda>_.
       andThen (fetch (group_ids (lb_boardId l))) (\<lambda>groupIds.
       ret (assign_label dto l, groupIds)))))))) (\<lambda>(result, groupIds).
    andThen (invalidateListBulk to_listVersion_update groupIds) (\<lambda>_.
    ret result))"

definition deleteLabel :: "task_env \<Rightarrow> uuid \<Rightarrow> uuid \<Rightarrow> uuid task_act" where
  "deleteLabel env i requesterId =
    andThen (transaction
      (andThen (fetch (find_label i)) (\<lambda>l.
       andThen (from_option (Coded ''LABEL_NOT_FOUND'') l) (\<lambda>l.
       andThen (checkBoardMembership_tx env (lb_boardId l) requesterId) (\<lambda>_.
       andThen (store (\<lambda>db. db\<lparr>labels := filter (\<lambda>x. lb_id x \<noteq> i) (labels db),
           task_labels := filter (\<lambda>m. tl_labelId m \<noteq> i) (task_labels db)\<rparr>)) (\<lambda>_.
       fetch (group_ids (lb_boardId l)))))))) (\<lambda>groupIds.
    andThen (invalidateListBulk to_listVersion_update groupIds) (\<lambda>_.
    ret i))"

definition getLabelsInBoard :: "task_env \<Rightarrow> uuid \<Rightarrow> uuid \<Rightarrow> label list task_act" where
  "getLabelsInBoard env boardId requesterId =
    andThen (checkBoardMembership env boardId requesterId) (\<lambda>_.
    fetch (\<lambda>db. filter (\<lambda>l. lb_boardId l = boardId) (labels db)))"

section \<open>Checklists\<close>

text \<open>The task and the group a checklist or an item belongs to, with the membership in the board.\<close>

definition find_checklist :: "uuid \<Rightarrow> task_db \<Rightarrow> checklist option" where
  "find_checklist i db = find (\<lambda>c. cl_id c = i) (checklists db)"

definition find_item :: "uuid \<Rightarrow> task_db \<Rightarrow> checklist_item option" where
  "find_item i db = find (\<lambda>x. ci_id x = i) (checklist_items db)"

definition group_of_checklist :: "task_db \<Rightarrow> checklist \<Rightarrow> task_group option" where
  "group_of_checklist db c = Option.bind (find_task (cl_taskId c) db) (\<lambda>t. find_group (ta_groupId t) db)"

definition own_checklist :: "task_env \<Rightarrow> uuid \<Rightarrow> uuid \<Rightarrow> (checklist \<times> uuid) task_act" where
  "own_checklist env i requesterId =
    andThen (fetch (\<lambda>db. Option.bind (find_checklist i db) (\<lambda>c. map_option (\<lambda>g. (c, g)) (group_of_checklist db c)))) (\<lambda>r.
    andThen (from_option (Coded ''CHECKLIST_NOT_FOUND'') r) (\<lambda>(c, g).
    andThen (checkBoardMembership_tx env (gr_boardId g) requesterId) (\<lambda>_.
    ret (c, gr_id g))))"

definition own_item :: "task_env \<Rightarrow> uuid \<Rightarrow> uuid \<Rightarrow> (checklist_item \<times> uuid) task_act" where
  "own_item env i requesterId =
    andThen (fetch (\<lambda>db. Option.bind (find_item i db) (\<lambda>x. Option.bind (find_checklist (ci_checklistId x) db)
       (\<lambda>c. map_option (\<lambda>g. (x, g)) (group_of_checklist db c))))) (\<lambda>r.
    andThen (from_option (Coded ''CHECKLIST_ITEM_NOT_FOUND'') r) (\<lambda>(x, g).
    andThen (checkBoardMembership_tx env (gr_boardId g) requesterId) (\<lambda>_.
    ret (x, gr_id g))))"

definition createChecklist :: "task_env \<Rightarrow> uuid \<Rightarrow> jstr \<Rightarrow> uuid \<Rightarrow> checklist_response task_act" where
  "createChecklist env taskId name requesterId =
    andThen (transaction
      (andThen (own_task env taskId requesterId) (\<lambda>(t, group).
       andThen (fetch (\<lambda>db. \<lparr>cl_id = kv_newId env db, cl_taskId = taskId, cl_name = name\<rparr>)) (\<lambda>saved.
       andThen (store (\<lambda>db. db\<lparr>checklists := checklists db @ [saved]\<rparr>)) (\<lambda>_.
       ret (mapChecklistResponse saved [], ta_groupId t)))))) (\<lambda>(result, groupId).
    andThen (list_changed groupId) (\<lambda>_. ret result))"

definition updateChecklist :: "task_env \<Rightarrow> uuid \<Rightarrow> jstr option \<Rightarrow> uuid \<Rightarrow> checklist_response task_act" where
  "updateChecklist env i name requesterId =
    andThen (transaction
      (andThen (own_checklist env i requesterId) (\<lambda>(c, groupId).
       let saved = c\<lparr>cl_name := nullish name (cl_name c)\<rparr>
       in andThen (store (\<lambda>db. db\<lparr>checklists := map (\<lambda>x. if cl_id x = i then saved else x) (checklists db)\<rparr>)) (\<lambda>_.
          andThen (fetch (\<lambda>db. items_of db i)) (\<lambda>items.
          ret (mapChecklistResponse saved items, groupId)))))) (\<lambda>(result, groupId).
    andThen (list_changed groupId) (\<lambda>_. ret result))"

definition deleteChecklist :: "task_env \<Rightarrow> uuid \<Rightarrow> uuid \<Rightarrow> uuid task_act" where
  "deleteChecklist env i requesterId =
    andThen (transaction
      (andThen (own_checklist env i requesterId) (\<lambda>(c, groupId).
       andThen (store (delete_checklists (\<lambda>x. cl_id x = i))) (\<lambda>_.
       ret groupId)))) (\<lambda>groupId.
    andThen (list_changed groupId) (\<lambda>_. ret i))"

definition getChecklistsInTask :: "task_env \<Rightarrow> uuid \<Rightarrow> uuid \<Rightarrow> checklist_response list task_act" where
  "getChecklistsInTask env taskId requesterId =
    andThen (get_task taskId) (\<lambda>t.
    andThen (fetch (find_group (ta_groupId t))) (\<lambda>g.
    andThen (from_option (Coded ''TASK_NOT_FOUND'') g) (\<lambda>g.
    andThen (checkBoardMembership env (gr_boardId g) requesterId) (\<lambda>_.
    fetch (\<lambda>db. map (\<lambda>c. mapChecklistResponse c (items_of db (cl_id c)))
      (filter (\<lambda>c. cl_taskId c = taskId) (checklists db)))))))"

definition addChecklistItem :: "task_env \<Rightarrow> uuid \<Rightarrow> jstr \<Rightarrow> uuid \<Rightarrow> checklist_item task_act" where
  "addChecklistItem env checklistId content requesterId =
    andThen (transaction
      (andThen (own_checklist env checklistId requesterId) (\<lambda>(c, groupId).
       andThen (fetch (\<lambda>db. \<lparr>ci_id = kv_newId env db, ci_checklistId = checklistId, ci_content = content, ci_isCompleted = False\<rparr>)) (\<lambda>saved.
       andThen (store (\<lambda>db. db\<lparr>checklist_items := checklist_items db @ [saved]\<rparr>)) (\<lambda>_.
       ret (saved, groupId)))))) (\<lambda>(result, groupId).
    andThen (list_changed groupId) (\<lambda>_. ret result))"

definition save_item :: "checklist_item \<Rightarrow> unit task_act" where
  "save_item x = store (\<lambda>db. db\<lparr>checklist_items := map (\<lambda>y. if ci_id y = ci_id x then x else y) (checklist_items db)\<rparr>)"

definition changed_item :: "task_env \<Rightarrow> uuid \<Rightarrow> (checklist_item \<Rightarrow> checklist_item) \<Rightarrow> uuid \<Rightarrow> checklist_item task_act" where
  "changed_item env i f requesterId =
    andThen (transaction
      (andThen (own_item env i requesterId) (\<lambda>(x, groupId).
       andThen (save_item (f x)) (\<lambda>_.
       ret (f x, groupId))))) (\<lambda>(result, groupId).
    andThen (list_changed groupId) (\<lambda>_. ret result))"

definition updateChecklistItem :: "task_env \<Rightarrow> uuid \<Rightarrow> update_item \<Rightarrow> uuid \<Rightarrow> checklist_item task_act" where
  "updateChecklistItem env i dto requesterId = changed_item env i
     (\<lambda>x. x\<lparr>ci_content := nullish (ui_content dto) (ci_content x), ci_isCompleted := nullish (ui_isCompleted dto) (ci_isCompleted x)\<rparr>)
     requesterId"

definition toggleChecklistItem :: "task_env \<Rightarrow> uuid \<Rightarrow> uuid \<Rightarrow> checklist_item task_act" where
  "toggleChecklistItem env i requesterId = changed_item env i (\<lambda>x. x\<lparr>ci_isCompleted := \<not> ci_isCompleted x\<rparr>) requesterId"

definition deleteChecklistItem :: "task_env \<Rightarrow> uuid \<Rightarrow> uuid \<Rightarrow> uuid task_act" where
  "deleteChecklistItem env i requesterId =
    andThen (transaction
      (andThen (own_item env i requesterId) (\<lambda>(x, groupId).
       andThen (store (\<lambda>db. db\<lparr>checklist_items := filter (\<lambda>y. ci_id y \<noteq> i) (checklist_items db)\<rparr>)) (\<lambda>_.
       ret groupId)))) (\<lambda>groupId.
    andThen (list_changed groupId) (\<lambda>_. ret i))"

section \<open>Operations\<close>

datatype task_op =
    CreateTask create_task | UpdateTask uuid update_task | RemoveTask uuid | TaskDetails uuid | TasksInGroup query_task
  | AssignMember uuid uuid | UnassignMember uuid uuid | ToggleLabel uuid uuid
  | AddAttachment uuid jstr jstr | UpdateAttachment uuid uuid jstr jstr | DeleteAttachment uuid
  | DragDrop drag_drop | ChangeTaskGroup uuid uuid | FilterTasks filter_tasks
  | CreateBoard uuid jstr jstr | UpdateBoard uuid update_board | DeleteBoard uuid
  | BoardsInWorkspace uuid "nat option" "nat option" | BoardDetails uuid | BoardMembers uuid
  | AddMember uuid uuid | RemoveMember uuid uuid
  | AddGroup uuid jstr | UpdateGroup uuid update_group | RemoveGroup uuid | GroupsInBoard uuid | ChangeGroupOrder uuid uuid
  | CreateLabel uuid jstr jstr | UpdateLabel uuid update_label | DeleteLabel uuid | LabelsInBoard uuid
  | CreateChecklist uuid jstr | UpdateChecklist uuid "jstr option" | DeleteChecklist uuid | ChecklistsInTask uuid
  | AddItem uuid jstr | UpdateItem uuid update_item | DeleteItem uuid | ToggleItem uuid
  | Reminder uuid

definition perform_task :: "task_env \<Rightarrow> uuid \<Rightarrow> task_op \<Rightarrow> (task_db, task_out) conn \<Rightarrow> (task_db, task_out) conn" where
  "perform_task env u op s =
    (case op of
       CreateTask dto \<Rightarrow> snd (createNewTask env dto u s)
     | UpdateTask i dto \<Rightarrow> snd (updateTaskDetails env i dto u s)
     | RemoveTask i \<Rightarrow> snd (removeTask env i u s)
     | TaskDetails i \<Rightarrow> snd (getTaskDetails env i u s)
     | TasksInGroup q \<Rightarrow> snd (getTasksInGroup env q u s)
     | AssignMember i m \<Rightarrow> snd (assignMemberToTask env i m u s)
     | UnassignMember i m \<Rightarrow> snd (unassignMemberFromTask env i m u s)
     | ToggleLabel i l \<Rightarrow> snd (toggleTaskLabel env i l u s)
     | AddAttachment i t l \<Rightarrow> snd (addAttachment env i t l u s)
     | UpdateAttachment i a t l \<Rightarrow> snd (updateAttachment env i a t l u s)
     | DeleteAttachment a \<Rightarrow> snd (deleteAttachment env a u s)
     | DragDrop dto \<Rightarrow> snd (dragDropTask env dto u s)
     | ChangeTaskGroup i g \<Rightarrow> snd (changeTaskGroup env i g u s)
     | FilterTasks dto \<Rightarrow> snd (filterTasks env dto u s)
     | CreateBoard w n b \<Rightarrow> snd (createNewBoard env w n b u s)
     | UpdateBoard i dto \<Rightarrow> snd (updateBoardInfo env i dto u s)
     | DeleteBoard i \<Rightarrow> snd (deleteBoard env i u s)
     | BoardsInWorkspace w p l \<Rightarrow> snd (getBoardsInWorkspace env w p l u s)
     | BoardDetails i \<Rightarrow> snd (getBoardDetails env i u s)
     | BoardMembers i \<Rightarrow> snd (getBoardMembers env i u s)
     | AddMember b m \<Rightarrow> snd (addMemberToBoard env b m u s)
     | RemoveMember b m \<Rightarrow> snd (removeMemberFromBoard env b m u s)
     | AddGroup b n \<Rightarrow> snd (addGroupToBoard env b n u s)
     | UpdateGroup i dto \<Rightarrow> snd (updateGroupInfo env i dto u s)
     | RemoveGroup i \<Rightarrow> snd (removeGroupFromBoard env i u s)
     | GroupsInBoard b \<Rightarrow> snd (getGroupsByBoardId env b u s)
     | ChangeGroupOrder a b \<Rightarrow> snd (changeGroupOrder env a b u s)
     | CreateLabel b n c \<Rightarrow> snd (createNewLabel env b n c u s)
     | UpdateLabel i dto \<Rightarrow> snd (updateLabelInfo env i dto u s)
     | DeleteLabel i \<Rightarrow> snd (deleteLabel env i u s)
     | LabelsInBoard b \<Rightarrow> snd (getLabelsInBoard env b u s)
     | CreateChecklist i n \<Rightarrow> snd (createChecklist env i n u s)
     | UpdateChecklist i n \<Rightarrow> snd (updateChecklist env i n u s)
     | DeleteChecklist i \<Rightarrow> snd (deleteChecklist env i u s)
     | ChecklistsInTask i \<Rightarrow> snd (getChecklistsInTask env i u s)
     | AddItem c t \<Rightarrow> snd (addChecklistItem env c t u s)
     | UpdateItem i dto \<Rightarrow> snd (updateChecklistItem env i dto u s)
     | DeleteItem i \<Rightarrow> snd (deleteChecklistItem env i u s)
     | ToggleItem i \<Rightarrow> snd (toggleChecklistItem env i u s)
     | Reminder i \<Rightarrow> snd (process_reminder i s))"

definition performs_task :: "(task_env \<times> uuid \<times> task_op) list \<Rightarrow> (task_db, task_out) conn \<Rightarrow> (task_db, task_out) conn" where
  "performs_task ops s = fold (\<lambda>(env, u, op). perform_task env u op) ops s"

end
