(* ===== verification/Task_Spec.thy ===== *)
theory Task_Spec
  imports Board_Service
begin

text \<open>
  What the task service may do to a database: the relation \<open>task_change\<close>, one rule for every
  way an operation changes the tables, with who may do it and the groups whose lists it
  declares out of date. \<open>Task_Refinement\<close> shows that every operation does nothing or one such
  change. With \<open>F = Some C\<close> the rules are narrowed to the changes that declare every group they
  concern, and that make no group with an id in \<open>C\<close>.
\<close>

section \<open>Who may\<close>

definition may :: "uuid \<Rightarrow> uuid \<Rightarrow> task_db \<Rightarrow> bool" where
  "may u b d \<longleftrightarrow> find_board b d \<noteq> None \<and> is_member b u d"

definition own :: "uuid \<Rightarrow> uuid \<Rightarrow> task_db \<Rightarrow> task \<Rightarrow> task_group \<Rightarrow> bool" where
  "own u i d t g \<longleftrightarrow> find_task i d = Some t \<and> find_group (ta_groupId t) d = Some g \<and> may u (gr_boardId g) d"

text \<open>\<open>T w u m\<close>: the workspace service has answered \<open>m\<close> for user \<open>u\<close> in workspace \<open>w\<close>.\<close>

type_synonym answers = "uuid \<Rightarrow> uuid \<Rightarrow> ws_member \<Rightarrow> bool"

definition admin :: "answers \<Rightarrow> uuid \<Rightarrow> uuid \<Rightarrow> bool" where
  "admin T u w \<longleftrightarrow> (\<exists>m. T w u m \<and> (wm_role m = ''owner'' \<or> wm_role m = ''admin''))"

definition all_ids :: "task_db \<Rightarrow> uuid set" where
  "all_ids d = bo_id ` set (boards d) \<union> bm_id ` set (board_members d) \<union> gr_id ` set (groups d) \<union> lb_id ` set (labels d) \<union>
     ta_id ` set (tasks d) \<union> tm_id ` set (task_members d) \<union> tt_id ` set (task_attachments d) \<union>
     cl_id ` set (checklists d) \<union> ci_id ` set (checklist_items d)"

text \<open>
  What is relied on: the workspace service answers the member it is asked for, and the database
  gives new rows new ids.
\<close>

definition task_env_ok :: "answers \<Rightarrow> task_env \<Rightarrow> bool" where
  "task_env_ok T env \<longleftrightarrow> (\<forall>w u m. kv_member env w u = Inr (Some m) \<longrightarrow> T w u m \<and> wm_userId m = u) \<and>
     (\<forall>d. kv_newId env d \<notin> all_ids d)"

section \<open>The changes\<close>

definition label_used_in :: "uuid \<Rightarrow> uuid set \<Rightarrow> task_db \<Rightarrow> bool" where
  "label_used_in l G d \<longleftrightarrow> (\<forall>m \<in> set (task_labels d). tl_labelId m = l \<longrightarrow>
     (\<forall>t \<in> set (tasks d). ta_id t = tl_taskId m \<longrightarrow> ta_groupId t \<in> G))"

inductive task_change :: "answers \<Rightarrow> uuid set option \<Rightarrow> uuid \<Rightarrow> uuid list \<Rightarrow> task_db \<Rightarrow> task_db \<Rightarrow> bool" for T F u where
  task_created: "find_group (ta_groupId t) d = Some g \<Longrightarrow> may u (gr_boardId g) d \<Longrightarrow> ta_id t \<notin> all_ids d \<Longrightarrow> \<not> ta_isDone t \<Longrightarrow>
    ta_order t = (case last_order (ta_groupId t) d of Some k \<Rightarrow> k + 1 | None \<Rightarrow> 0) \<Longrightarrow>
    task_change T F u [ta_groupId t] d (d\<lparr>tasks := tasks d @ [t]\<rparr>)"
| task_updated: "own u i d t g \<Longrightarrow> ta_id t' = i \<Longrightarrow> ta_isDone t' = ta_isDone t \<Longrightarrow> ta_groupId t' \<in> gr_id ` set (groups d) \<Longrightarrow>
    (\<forall>xs. ls = Some xs \<longrightarrow> set xs \<subseteq> lb_id ` set (labels d)) \<Longrightarrow>
    (F \<noteq> None \<longrightarrow> announced = ta_groupId t \<and> ta_groupId t' = ta_groupId t) \<Longrightarrow>
    task_change T F u [announced] d ((case ls of None \<Rightarrow> \<lambda>d. d | Some xs \<Rightarrow> relabel i xs) (replaced_task i t' d))"
| task_removed: "own u i d t g \<Longrightarrow> task_change T F u [ta_groupId t] d (delete_tasks (\<lambda>x. ta_id x = i) d)"
| member_assigned: "own u i d t g \<Longrightarrow> is_member (gr_boardId g) m d \<Longrightarrow>
    \<not> (\<exists>x \<in> set (task_members d). tm_taskId x = i \<and> tm_memberId x = m) \<Longrightarrow> k \<notin> all_ids d \<Longrightarrow>
    task_change T F u [ta_groupId t] d (d\<lparr>task_members := task_members d @ [\<lparr>tm_id = k, tm_taskId = i, tm_memberId = m\<rparr>]\<rparr>)"
| member_unassigned: "own u i d t g \<Longrightarrow> task_change T F u [ta_groupId t] d
    (d\<lparr>task_members := filter (\<lambda>x. \<not> (tm_taskId x = i \<and> tm_memberId x = m)) (task_members d)\<rparr>)"
| labels_set: "own u i d t g \<Longrightarrow> set xs \<subseteq> lb_id ` set (labels d) \<Longrightarrow> task_change T F u [ta_groupId t] d (relabel i xs d)"
| attachment_added: "own u i d t g \<Longrightarrow> k \<notin> all_ids d \<Longrightarrow> task_change T F u [ta_groupId t] d
    (d\<lparr>task_attachments := task_attachments d @ [\<lparr>tt_id = k, tt_taskId = i, tt_title = n, tt_link = l\<rparr>]\<rparr>)"
| attachment_changed: "own u i d t g \<Longrightarrow> find_attachment j d = Some a \<Longrightarrow> (F \<noteq> None \<longrightarrow> tt_taskId a = i) \<Longrightarrow>
    task_change T F u [ta_groupId t] d (d\<lparr>task_attachments := map (\<lambda>x. if tt_id x = tt_id a
      then x\<lparr>tt_title := n, tt_link := l\<rparr> else x) (task_attachments d)\<rparr>)"
| attachment_removed: "find_attachment j d = Some a \<Longrightarrow> own u (tt_taskId a) d t g \<Longrightarrow> task_change T F u [ta_groupId t] d
    (d\<lparr>task_attachments := filter (\<lambda>x. tt_id x \<noteq> j) (task_attachments d)\<rparr>)"
| moved_up: "own u i d t g \<Longrightarrow> ta_order t < k \<Longrightarrow> task_change T F u [ta_groupId t] d
    (placed env i (ta_groupId t) k (shifted env (ta_groupId t) (ta_order t + 1) (Some k) (- 1) d))"
| moved_down: "own u i d t g \<Longrightarrow> k < ta_order t \<Longrightarrow> task_change T F u [ta_groupId t] d
    (placed env i (ta_groupId t) k (shifted env (ta_groupId t) k (Some (ta_order t - 1)) 1 d))"
| moved_over: "own u i d t g \<Longrightarrow> find_group g' d = Some h \<Longrightarrow> may u (gr_boardId h) d \<Longrightarrow> g' \<noteq> ta_groupId t \<Longrightarrow>
    task_change T F u [ta_groupId t, g'] d
      (placed env i g' k (shifted env g' k None 1 (shifted env (ta_groupId t) (ta_order t + 1) None (- 1) d)))"
| moved_last: "own u i d t g \<Longrightarrow> find_group g' d = Some h \<Longrightarrow> may u (gr_boardId h) d \<Longrightarrow>
    task_change T F u [ta_groupId t, g'] d (placed env i g' (nullish (last_order g' d) 0 + 1024) d)"
| board_created: "admin T u (bo_workspaceId b) \<Longrightarrow> bo_id b \<notin> all_ids d \<Longrightarrow> k \<notin> all_ids (d\<lparr>boards := boards d @ [b]\<rparr>) \<Longrightarrow>
    task_change T F u [] d (d\<lparr>boards := boards d @ [b], board_members := board_members d @ [\<lparr>bm_id = k, bm_boardId = bo_id b, bm_memberId = u\<rparr>]\<rparr>)"
| board_updated: "find_board i d = Some b \<Longrightarrow> admin T u (bo_workspaceId b) \<Longrightarrow> may u i d \<Longrightarrow>
    bo_id b' = i \<Longrightarrow> bo_workspaceId b' = bo_workspaceId b \<Longrightarrow>
    task_change T F u [] d (d\<lparr>boards := map (\<lambda>x. if bo_id x = i then b' else x) (boards d)\<rparr>)"
| board_deleted: "find_board i d = Some b \<Longrightarrow> admin T u (bo_workspaceId b) \<Longrightarrow>
    task_change T F u [] d (delete_board i d)"
| member_added: "find_board i d = Some b \<Longrightarrow> admin T u (bo_workspaceId b) \<Longrightarrow> \<not> is_member i m d \<Longrightarrow> k \<notin> all_ids d \<Longrightarrow>
    task_change T F u [] d (d\<lparr>board_members := board_members d @ [\<lparr>bm_id = k, bm_boardId = i, bm_memberId = m\<rparr>]\<rparr>)"
| member_removed: "find_board i d = Some b \<Longrightarrow> may u i d \<Longrightarrow> u \<noteq> m \<longrightarrow> admin T u (bo_workspaceId b) \<Longrightarrow>
    task_change T F u [] d (d\<lparr>board_members := filter (\<lambda>x. \<not> (bm_boardId x = i \<and> bm_memberId x = m)) (board_members d)\<rparr>)"
| group_added: "may u (gr_boardId g) d \<Longrightarrow> gr_id g \<notin> all_ids d \<Longrightarrow> (\<forall>C. F = Some C \<longrightarrow> gr_id g \<notin> C) \<Longrightarrow>
    gr_order g = (case last_group_order (gr_boardId g) d of Some k \<Rightarrow> k + 1 | None \<Rightarrow> 0) \<Longrightarrow>
    task_change T F u [] d (d\<lparr>groups := groups d @ [g]\<rparr>)"
| group_updated: "find_group i d = Some g \<Longrightarrow> may u (gr_boardId g) d \<Longrightarrow> gr_id g' = i \<Longrightarrow> gr_boardId g' = gr_boardId g \<Longrightarrow>
    task_change T F u [] d (replaced_group g' d)"
| group_removed: "find_group i d = Some g \<Longrightarrow> may u (gr_boardId g) d \<Longrightarrow> task_change T F u [i] d (delete_groups (\<lambda>x. gr_id x = i) d)"
| groups_up: "find_group i d = Some g \<Longrightarrow> find_group j d = Some h \<Longrightarrow> gr_boardId g = gr_boardId h \<Longrightarrow> may u (gr_boardId g) d \<Longrightarrow>
    gr_order g < gr_order h \<Longrightarrow> task_change T F u [] d
      (replaced_group (g\<lparr>gr_order := gr_order h, gr_updatedAt := n\<rparr>) (shifted_groups env (gr_boardId g) (gr_order g + 1) (gr_order h) (- 1) d))"
| groups_down: "find_group i d = Some g \<Longrightarrow> find_group j d = Some h \<Longrightarrow> gr_boardId g = gr_boardId h \<Longrightarrow> may u (gr_boardId g) d \<Longrightarrow>
    gr_order h < gr_order g \<Longrightarrow> task_change T F u [] d
      (replaced_group (g\<lparr>gr_order := gr_order h, gr_updatedAt := n\<rparr>) (shifted_groups env (gr_boardId g) (gr_order h) (gr_order g - 1) 1 d))"
| label_created: "is_member (lb_boardId l) u d \<Longrightarrow> lb_id l \<notin> all_ids d \<Longrightarrow> task_change T F u [] d (d\<lparr>labels := labels d @ [l]\<rparr>)"
| label_updated: "find_label i d = Some l \<Longrightarrow> may u (lb_boardId l) d \<Longrightarrow> lb_id l' = i \<Longrightarrow> lb_boardId l' = lb_boardId l \<Longrightarrow>
    (F \<noteq> None \<longrightarrow> label_used_in i (set (group_ids (lb_boardId l) d)) d) \<Longrightarrow>
    task_change T F u (group_ids (lb_boardId l) d) d (d\<lparr>labels := map (\<lambda>x. if lb_id x = i then l' else x) (labels d)\<rparr>)"
| label_deleted: "find_label i d = Some l \<Longrightarrow> may u (lb_boardId l) d \<Longrightarrow>
    (F \<noteq> None \<longrightarrow> label_used_in i (set (group_ids (lb_boardId l) d)) d) \<Longrightarrow>
    task_change T F u (group_ids (lb_boardId l) d) d
      (d\<lparr>labels := filter (\<lambda>x. lb_id x \<noteq> i) (labels d), task_labels := filter (\<lambda>m. tl_labelId m \<noteq> i) (task_labels d)\<rparr>)"
| checklist_created: "own u i d t g \<Longrightarrow> k \<notin> all_ids d \<Longrightarrow> task_change T F u [ta_groupId t] d
    (d\<lparr>checklists := checklists d @ [\<lparr>cl_id = k, cl_taskId = i, cl_name = n\<rparr>]\<rparr>)"
| checklist_updated: "find_checklist i d = Some c \<Longrightarrow> own u (cl_taskId c) d t g \<Longrightarrow> task_change T F u [ta_groupId t] d
    (d\<lparr>checklists := map (\<lambda>x. if cl_id x = i then c\<lparr>cl_name := n\<rparr> else x) (checklists d)\<rparr>)"
| checklist_deleted: "find_checklist i d = Some c \<Longrightarrow> own u (cl_taskId c) d t g \<Longrightarrow>
    task_change T F u [ta_groupId t] d (delete_checklists (\<lambda>x. cl_id x = i) d)"
| item_added: "find_checklist i d = Some c \<Longrightarrow> own u (cl_taskId c) d t g \<Longrightarrow> k \<notin> all_ids d \<Longrightarrow> task_change T F u [ta_groupId t] d
    (d\<lparr>checklist_items := checklist_items d @ [\<lparr>ci_id = k, ci_checklistId = i, ci_content = n, ci_isCompleted = False\<rparr>]\<rparr>)"
| item_changed: "find_item i d = Some x \<Longrightarrow> find_checklist (ci_checklistId x) d = Some c \<Longrightarrow> own u (cl_taskId c) d t g \<Longrightarrow>
    ci_id x' = ci_id x \<Longrightarrow> ci_checklistId x' = ci_checklistId x \<Longrightarrow> task_change T F u [ta_groupId t] d
    (d\<lparr>checklist_items := map (\<lambda>y. if ci_id y = ci_id x' then x' else y) (checklist_items d)\<rparr>)"
| item_deleted: "find_item i d = Some x \<Longrightarrow> find_checklist (ci_checklistId x) d = Some c \<Longrightarrow> own u (cl_taskId c) d t g \<Longrightarrow>
    task_change T F u [ta_groupId t] d (d\<lparr>checklist_items := filter (\<lambda>y. ci_id y \<noteq> i) (checklist_items d)\<rparr>)"

section \<open>Looking up\<close>

lemma find_SomeD: "find P xs = Some x \<Longrightarrow> x \<in> set xs \<and> P x"
  by (auto simp: find_Some_iff)

lemma find_ids:
  "find_board i d = Some b \<Longrightarrow> bo_id b = i" "find_group i d = Some g \<Longrightarrow> gr_id g = i" "find_task i d = Some t \<Longrightarrow> ta_id t = i"
  "find_label i d = Some l \<Longrightarrow> lb_id l = i" "find_attachment i d = Some a \<Longrightarrow> tt_id a = i"
  "find_checklist i d = Some c \<Longrightarrow> cl_id c = i" "find_item i d = Some x \<Longrightarrow> ci_id x = i"
  by (auto simp: find_board_def find_group_def find_task_def find_label_def find_attachment_def find_checklist_def
      find_item_def dest: find_SomeD)

lemma find_mem:
  "find_board i d = Some b \<Longrightarrow> b \<in> set (boards d)" "find_group i d = Some g \<Longrightarrow> g \<in> set (groups d)"
  "find_task i d = Some t \<Longrightarrow> t \<in> set (tasks d)" "find_label i d = Some l \<Longrightarrow> l \<in> set (labels d)"
  "find_attachment i d = Some a \<Longrightarrow> a \<in> set (task_attachments d)" "find_checklist i d = Some c \<Longrightarrow> c \<in> set (checklists d)"
  "find_item i d = Some x \<Longrightarrow> x \<in> set (checklist_items d)"
  by (auto simp: find_board_def find_group_def find_task_def find_label_def find_attachment_def find_checklist_def
      find_item_def dest: find_SomeD)

end
