(* ===== verification/Task_Run.thy ===== *)
theory Task_Run
  imports Task_Spec
begin

text \<open>
  How an operation of the task service runs: what is known after its checks, what its
  transaction commits, and what it declares out of date afterwards.
\<close>

lemma look_Inr [inr_iffs]: "look k s = (Inr y, t) \<longleftrightarrow> y = k (cn_out s) \<and> t = s"
  by (auto simp: act_simps)

section \<open>Asking the workspace service\<close>

definition out_ok :: "answers \<Rightarrow> task_out \<Rightarrow> bool" where
  "out_ok T o' \<longleftrightarrow> (\<forall>w u m e. to_wsMembers o' (w, u) = Some (m, e) \<longrightarrow> T w u m \<and> wm_userId m = u)"

text \<open>Nothing but the cache of members has changed, and that for the right.\<close>

definition asked :: "answers \<Rightarrow> (task_db, task_out) conn \<Rightarrow> (task_db, task_out) conn \<Rightarrow> bool" where
  "asked T s t \<longleftrightarrow> (\<exists>c. t = s\<lparr>cn_out := (cn_out s)\<lparr>to_wsMembers := c\<rparr>\<rparr>) \<and> (out_ok T (cn_out s) \<longrightarrow> out_ok T (cn_out t))"

lemma asked_refl [simp]: "asked T s s"
proof -
  have "s = s\<lparr>cn_out := (cn_out s)\<lparr>to_wsMembers := to_wsMembers (cn_out s)\<rparr>\<rparr>" by simp
  then show ?thesis unfolding asked_def by metis
qed

lemma asked_trans: "asked T s t \<Longrightarrow> asked T t u \<Longrightarrow> asked T s u"
  unfolding asked_def by fastforce

lemma asked_fields:
  "asked T s t \<Longrightarrow> cn_current t = cn_current s \<and> cn_committed t = cn_committed s \<and> cn_inTx t = cn_inTx s"
  by (auto simp: asked_def)

lemma asked_cached:
  assumes "T w u m" "wm_userId m = u"
  shows "asked T s (s\<lparr>cn_out := to_wsMembers_update (set_cell r now (w, u) m ttl) (cn_out s)\<rparr>)"
proof -
  let ?c = "set_cell r now (w, u) m ttl (to_wsMembers (cn_out s))"
  have eq: "to_wsMembers_update (set_cell r now (w, u) m ttl) (cn_out s) = (cn_out s)\<lparr>to_wsMembers := ?c\<rparr>" by simp
  have "out_ok T ((cn_out s)\<lparr>to_wsMembers := ?c\<rparr>)" if "out_ok T (cn_out s)"
    using that assms by (auto simp: out_ok_def set_cell_def split: if_splits)
  then show ?thesis unfolding asked_def eq by auto
qed

lemma getWorkspaceMember_run:
  assumes "getWorkspaceMember env w u s = (r, t)" "task_env_ok T env" "out_ok T (cn_out s)"
  shows "asked T s t" "r = Inr m \<Longrightarrow> T w u m \<and> wm_userId m = u"
proof -
  let ?cached = "live_cell (kv_now env) (to_wsMembers (cn_out s)) (w, u)"
  have "asked T s t \<and> (r = Inr m \<longrightarrow> T w u m \<and> wm_userId m = u)"
  proof (cases ?cached)
    case (Some m')
    then obtain e where "to_wsMembers (cn_out s) (w, u) = Some (m', e)"
      by (auto simp: live_cell_def split: option.splits if_splits)
    then show ?thesis
      using assms Some by (auto simp: getWorkspaceMember_def getOrSetDetail_def rescue_def act_simps andThen_def
          out_ok_def)
  next
    case None
    show ?thesis
    proof (cases "kv_member env w u")
      case (Inl e)
      then show ?thesis
        using assms None by (auto simp: getWorkspaceMember_def getOrSetDetail_def rescue_def act_simps andThen_def)
    next
      case (Inr x)
      show ?thesis
      proof (cases x)
        case None
        then show ?thesis using assms Inr \<open>?cached = None\<close>
          by (auto simp: getWorkspaceMember_def getOrSetDetail_def rescue_def act_simps andThen_def)
      next
        case (Some m')
        then have "T w u m' \<and> wm_userId m' = u" using assms(2) Inr by (simp add: task_env_ok_def)
        then show ?thesis using assms(1) Inr \<open>?cached = None\<close> Some asked_cached [of T w u m' s]
          by (auto simp: getWorkspaceMember_def getOrSetDetail_def rescue_def act_simps andThen_def tell_def
              outside_def Let_def)
      qed
    qed
  qed
  then show "asked T s t" "r = Inr m \<Longrightarrow> T w u m \<and> wm_userId m = u" by simp_all
qed

text \<open>The same for the checks.\<close>

lemma get_board_Inr: "get_board i s = (Inr b, t) \<longleftrightarrow> find_board i (cn_current s) = Some b \<and> t = s"
  by (auto simp: get_board_def inr_iffs)

lemma get_group_Inr: "get_group i s = (Inr g, t) \<longleftrightarrow> find_group i (cn_current s) = Some g \<and> t = s"
  by (auto simp: get_group_def inr_iffs)

lemma get_task_Inr: "get_task i s = (Inr x, t) \<longleftrightarrow> find_task i (cn_current s) = Some x \<and> t = s"
  by (auto simp: get_task_def inr_iffs)

lemma group_of_task_Inr: "group_of_task x s = (Inr g, t) \<longleftrightarrow> find_group (ta_groupId x) (cn_current s) = Some g \<and> t = s"
  by (auto simp: group_of_task_def inr_iffs)

lemmas lookup_Inr = get_board_Inr get_group_Inr get_task_Inr group_of_task_Inr

lemma member_id_Inr:
  assumes "getWorkspaceMemberId env w u s = (Inr m, t)" "out_ok T (cn_out s)" "task_env_ok T env"
  shows "asked T s t \<and> m = u \<and> out_ok T (cn_out t)"
proof -
  obtain x where "getWorkspaceMember env w u s = (Inr x, t)" "m = wm_userId x"
    using assms(1) by (auto simp: getWorkspaceMemberId_def inr_iffs)
  then show ?thesis using getWorkspaceMember_run [OF _ assms(3,2)] assms(2) unfolding asked_def by blast
qed

lemma role_Inr:
  assumes "getWorkspaceMemberRole env w u s = (Inr k, t)" "out_ok T (cn_out s)" "task_env_ok T env"
  shows "asked T s t \<and> (\<exists>m. T w u m \<and> wm_role m = k) \<and> out_ok T (cn_out t)"
proof -
  obtain x where "getWorkspaceMember env w u s = (Inr x, t)" "k = wm_role x"
    using assms(1) by (auto simp: getWorkspaceMemberRole_def inr_iffs)
  then show ?thesis using getWorkspaceMember_run [OF _ assms(3,2)] assms(2) unfolding asked_def by blast
qed

lemma admin_Inr:
  assumes "checkWorkspaceRole env w u s = (Inr k, t)" "out_ok T (cn_out s)" "task_env_ok T env"
  shows "asked T s t \<and> admin T u w \<and> out_ok T (cn_out t)"
proof -
  obtain k' where "getWorkspaceMemberRole env w u s = (Inr k', t)" "k' = ''owner'' \<or> k' = ''admin''"
    using assms(1) by (auto simp: checkWorkspaceRole_def inr_iffs)
  then show ?thesis using role_Inr [OF _ assms(2,3)] unfolding admin_def by metis
qed

lemma membership_Inr:
  assumes "checkBoardMembership_tx env b u s = (Inr k, t)" "out_ok T (cn_out s)" "task_env_ok T env"
  shows "asked T s t \<and> may u b (cn_current s) \<and> out_ok T (cn_out t)"
  using assms member_id_Inr [of env _ u s] asked_fields
  by (fastforce simp: checkBoardMembership_tx_def inr_iffs lookup_Inr may_def)

lemma own_Inr:
  assumes "own_task env i u s = (Inr r, t)" "out_ok T (cn_out s)" "task_env_ok T env"
  shows "asked T s t \<and> own u i (cn_current s) (fst r) (snd r) \<and> out_ok T (cn_out t)"
  using assms membership_Inr [of env _ u s] by (auto simp: own_task_def inr_iffs lookup_Inr own_def)

lemma own_checklist_Inr:
  assumes "own_checklist env i u s = (Inr r, t)" "out_ok T (cn_out s)" "task_env_ok T env"
  shows "asked T s t \<and> out_ok T (cn_out t) \<and> find_checklist i (cn_current s) = Some (fst r) \<and>
    (\<exists>x g. own u (cl_taskId (fst r)) (cn_current s) x g \<and> snd r = ta_groupId x)"
  using assms membership_Inr [of env _ u s]
  by (auto simp: own_checklist_def inr_iffs group_of_checklist_def own_def bind_eq_Some_conv dest: find_ids)

lemma own_item_Inr:
  assumes "own_item env i u s = (Inr r, t)" "out_ok T (cn_out s)" "task_env_ok T env"
  shows "asked T s t \<and> out_ok T (cn_out t) \<and> find_item i (cn_current s) = Some (fst r) \<and>
    (\<exists>c x g. find_checklist (ci_checklistId (fst r)) (cn_current s) = Some c \<and>
       own u (cl_taskId c) (cn_current s) x g \<and> snd r = ta_groupId x)"
  using assms membership_Inr [of env _ u s]
  by (auto simp: own_item_def inr_iffs group_of_checklist_def own_def bind_eq_Some_conv dest: find_ids)

section \<open>Transactions\<close>

definition in_tx :: "answers \<Rightarrow> task_db \<Rightarrow> task_out \<Rightarrow> (task_db, task_out) conn \<Rightarrow> bool" where
  "in_tx T c o' t \<longleftrightarrow> cn_inTx t \<and> cn_committed t = c \<and> (\<exists>w. cn_out t = o'\<lparr>to_wsMembers := w\<rparr>) \<and> out_ok T (cn_out t)"

lemma in_tx_store: "preserves (in_tx T c o') (store f)" "preserves (in_tx T c o') (checked P f)" "preserves (in_tx T c o') (store_count n f)"
  by (auto simp: preserves_def in_tx_def store_def checked_def store_count_def Let_def)

lemma in_tx_asked: "in_tx T c o' s \<Longrightarrow> asked T s t \<Longrightarrow> in_tx T c o' t"
  by (auto simp: in_tx_def asked_def)

lemma in_tx_member: "task_env_ok T env \<Longrightarrow> preserves (in_tx T c o') (getWorkspaceMember env w u)"
  unfolding preserves_def
proof (intro allI impI)
  fix s assume env: "task_env_ok T env" and s: "in_tx T c o' s"
  obtain r t where run: "getWorkspaceMember env w u s = (r, t)" by fastforce
  have "asked T s t" using getWorkspaceMember_run(1) [OF run env] s by (simp add: in_tx_def)
  then show "in_tx T c o' (snd (getWorkspaceMember env w u s))" using in_tx_asked [OF s] by (simp add: run)
qed

lemma in_tx_lookups:
  "preserves (in_tx T c o') (get_board i)" "preserves (in_tx T c o') (get_group i)" "preserves (in_tx T c o') (get_task i)"
  "preserves (in_tx T c o') (group_of_task x)"
  unfolding get_board_def get_group_def get_task_def group_of_task_def by (intro preserves_intros)+

lemma in_tx_checks:
  assumes "task_env_ok T env"
  shows
  "preserves (in_tx T c o') (getWorkspaceMemberId env w u)" "preserves (in_tx T c o') (getWorkspaceMemberRole env w u)"
  "preserves (in_tx T c o') (checkWorkspaceRole env w u)" "preserves (in_tx T c o') (checkBoardMembership_tx env b u)"
  "preserves (in_tx T c o') (own_task env i u)" "preserves (in_tx T c o') (own_checklist env i u)"
  "preserves (in_tx T c o') (own_item env i u)"
  unfolding getWorkspaceMemberId_def getWorkspaceMemberRole_def checkWorkspaceRole_def checkBoardMembership_tx_def
    own_task_def own_checklist_def own_item_def
  by (intro preserves_intros in_tx_lookups in_tx_member [OF assms])+

lemma in_tx_moves: "preserves (in_tx T c o') (shift_tasks env g lo hi d)" "preserves (in_tx T c o') (place_task env i g k)"
  "preserves (in_tx T c o') (shift_groups env b lo h d)" "preserves (in_tx T c o') (save_group x)" "preserves (in_tx T c o') (save_item y)"
  "preserves (in_tx T c o') (moveTaskWithinGroup env z k)" "preserves (in_tx T c o') (moveTaskToDifferentGroup env z g' k)"
  unfolding shift_tasks_def place_task_def shift_groups_def save_group_def save_item_def moveTaskWithinGroup_def
    moveTaskToDifferentGroup_def Let_def
  by (intro preserves_intros in_tx_store)+

lemmas in_tx_intros = preserves_intros in_tx_lookups in_tx_checks in_tx_moves in_tx_store

text \<open>A connection between two operations.\<close>

definition ready :: "answers \<Rightarrow> (task_db, task_out) conn \<Rightarrow> bool" where
  "ready T s \<longleftrightarrow> idle s \<and> out_ok T (cn_out s)"

definition committed_as :: "answers \<Rightarrow> (task_db, task_out) conn \<Rightarrow> task_db \<Rightarrow> (task_db, task_out) conn \<Rightarrow> bool" where
  "committed_as T s d t \<longleftrightarrow> ready T t \<and> cn_committed t = d \<and> (\<exists>w. cn_out t = (cn_out s)\<lparr>to_wsMembers := w\<rparr>)"

lemma transaction_run:
  assumes "ready T s" "transaction m s = (r, t)" "\<And>c o'. preserves (in_tx T c o') m"
  shows "case r of Inl e \<Rightarrow> committed_as T s (cn_committed s) t
    | Inr x \<Rightarrow> \<exists>s' t'. cn_current s' = cn_committed s \<and> cn_inTx s' \<and> out_ok T (cn_out s') \<and> m s' = (Inr x, t') \<and>
        committed_as T s (cn_current t') t"
proof -
  let ?s = "s\<lparr>cn_current := cn_committed s, cn_inTx := True\<rparr>"
  obtain r' t' where m: "m ?s = (r', t')" by fastforce
  have "\<exists>w. cn_out s = (cn_out s)\<lparr>to_wsMembers := w\<rparr>" by (rule exI [of _ "to_wsMembers (cn_out s)"]) simp
  then have "in_tx T (cn_committed s) (cn_out s) ?s" using assms(1) by (simp add: in_tx_def ready_def)
  then have "in_tx T (cn_committed s) (cn_out s) t'" using preservesD [OF assms(3) m] by blast
  moreover have "r' = r" "t = t'\<lparr>cn_committed := (case r of Inl _ \<Rightarrow> cn_committed t' | Inr _ \<Rightarrow> cn_current t'),
      cn_current := (case r of Inl _ \<Rightarrow> cn_committed t' | Inr _ \<Rightarrow> cn_current t'), cn_inTx := False\<rparr>"
    using assms(1,2) m by (auto simp: transaction_def Let_def ready_def idle_def split: sum.splits)
  ultimately show ?thesis
    using m assms(1)
    by (cases r) (auto simp: committed_as_def ready_def idle_def in_tx_def intro: exI [of _ ?s] exI [of _ t'])
qed

section \<open>After the transaction\<close>

text \<open>
  \<open>announces T G K m\<close>: \<open>m\<close> always returns, leaves the database and the cached lists alone,
  increments the versions of \<open>G\<close>, adds no cached membership and deletes those of \<open>K\<close>.
\<close>

definition announces :: "answers \<Rightarrow> uuid list \<Rightarrow> (uuid \<times> uuid) set \<Rightarrow> 'a task_act \<Rightarrow> bool" where
  "announces T G K m \<longleftrightarrow> (\<forall>s. ready T s \<longrightarrow> (\<exists>x t. m s = (Inr x, t) \<and> ready T t \<and> cn_committed t = cn_committed s \<and>
     to_lists (cn_out t) = to_lists (cn_out s) \<and>
     to_listVersion (cn_out t) = fold bumpVersion G (to_listVersion (cn_out s)) \<and>
     (\<forall>k. to_memberships (cn_out t) k \<noteq> None \<longrightarrow> to_memberships (cn_out s) k \<noteq> None \<and> k \<notin> K)))"

named_theorems announce_intros

lemma announces_andThen:
  assumes "announces T G K m" "\<And>x. announces T H L (f x)"
  shows "announces T (G @ H) (K \<union> L) (andThen m f)"
  unfolding announces_def
proof (intro allI impI)
  fix s assume "ready T s"
  then obtain x t where t: "m s = (Inr x, t)" "ready T t" "cn_committed t = cn_committed s"
      "to_lists (cn_out t) = to_lists (cn_out s)" "to_listVersion (cn_out t) = fold bumpVersion G (to_listVersion (cn_out s))"
      "\<forall>k. to_memberships (cn_out t) k \<noteq> None \<longrightarrow> to_memberships (cn_out s) k \<noteq> None \<and> k \<notin> K"
    using assms(1) unfolding announces_def by blast
  then obtain y v where v: "f x t = (Inr y, v)" "ready T v" "cn_committed v = cn_committed t"
      "to_lists (cn_out v) = to_lists (cn_out t)" "to_listVersion (cn_out v) = fold bumpVersion H (to_listVersion (cn_out t))"
      "\<forall>k. to_memberships (cn_out v) k \<noteq> None \<longrightarrow> to_memberships (cn_out t) k \<noteq> None \<and> k \<notin> L"
    using assms(2) [of x] unfolding announces_def by blast
  have "andThen m f s = (Inr y, v)" using t(1) v(1) by (simp add: andThen_def)
  moreover have "\<forall>k. to_memberships (cn_out v) k \<noteq> None \<longrightarrow> to_memberships (cn_out s) k \<noteq> None \<and> k \<notin> K \<union> L"
    using t(6) v(6) by blast
  ultimately show "\<exists>x t. andThen m f s = (Inr x, t) \<and> ready T t \<and> cn_committed t = cn_committed s \<and>
      to_lists (cn_out t) = to_lists (cn_out s) \<and>
      to_listVersion (cn_out t) = fold bumpVersion (G @ H) (to_listVersion (cn_out s)) \<and>
      (\<forall>k. to_memberships (cn_out t) k \<noteq> None \<longrightarrow> to_memberships (cn_out s) k \<noteq> None \<and> k \<notin> K \<union> L)"
    using t(2-5) v(2-5) by simp
qed

lemma announces_tell:
  assumes "\<And>o'. to_lists (f o') = to_lists o'" "\<And>o'. to_listVersion (f o') = fold bumpVersion G (to_listVersion o')"
    "\<And>o'. to_wsMembers (f o') = to_wsMembers o'"
    "\<And>o' k. to_memberships (f o') k \<noteq> None \<Longrightarrow> to_memberships o' k \<noteq> None \<and> k \<notin> K"
  shows "announces T G K (tell f)"
  using assms(4) by (auto simp: announces_def tell_def outside_def Let_def ready_def idle_def out_ok_def assms(1-3))

lemma announces_ret: "announces T [] {} (ret x)"
  by (simp add: announces_def ret_def)

lemma announces_list: "announces T [g] {} (list_changed g)"
  unfolding list_changed_def invalidateList_def by (rule announces_tell) simp_all

lemma announces_bulk: "announces T G {} (invalidateListBulk to_listVersion_update G)"
  unfolding invalidateListBulk_def by (rule announces_tell) simp_all

lemma announces_quiet:
  "announces T [] {} (audit a)" "announces T [] {} (send_push p)" "announces T [] {} (board_list_changed k)"
  "announces T [] {} (invalidateListBulk to_boardListVersion_update ks)"
  "announces T [] {(b, m)} (membership_changed b m)"
  unfolding audit_def send_push_def board_list_changed_def invalidateList_def invalidateListBulk_def membership_changed_def
    invalidateDetail_def
  by (rule announces_tell; simp add: del_cell_def split: if_splits)+

lemma announces_reminder: "announces T [] {} (handleTaskDeadlineJob env i g b d)"
proof -
  have 1: "announces T [] {} (tell (\<lambda>o'. o'\<lparr>to_reminders := (to_reminders o')(i := x)\<rparr>))" for x
    by (rule announces_tell) simp_all
  have "announces T ([] @ []) ({} \<union> {}) (handleTaskDeadlineJob env i g b d)"
    unfolding handleTaskDeadlineJob_def
    by (rule announces_andThen [OF 1]) (auto simp: Let_def announces_ret 1 split: option.split)
  then show ?thesis by simp
qed

lemma announces_members: "announces T [] (Pair b ` set ms) (each (membership_changed b) ms)"
proof (induction ms)
  case Nil
  show ?case by (simp add: announces_ret)
next
  case (Cons m ms)
  have "announces T ([] @ []) ({(b, m)} \<union> Pair b ` set ms) (each (membership_changed b) (m # ms))"
    unfolding each.simps by (rule announces_andThen [OF announces_quiet(5) Cons])
  then show ?case by (simp add: insert_commute)
qed

lemma announces_assigner:
  assumes "task_env_ok T env"
  shows "announces T [] {} (rescue (andThen (getWorkspaceMember env w u) (\<lambda>m. ret (Some m))) (\<lambda>e. ret None))"
  unfolding announces_def
proof (intro allI impI)
  fix s assume s: "ready T s"
  obtain r t where run: "getWorkspaceMember env w u s = (r, t)" by fastforce
  have "asked T s t" using getWorkspaceMember_run(1) [OF run assms] s by (simp add: ready_def)
  then show "\<exists>x t. rescue (andThen (getWorkspaceMember env w u) (\<lambda>m. ret (Some m))) (\<lambda>e. ret None) s = (Inr x, t) \<and> ready T t \<and>
      cn_committed t = cn_committed s \<and> to_lists (cn_out t) = to_lists (cn_out s) \<and>
      to_listVersion (cn_out t) = fold bumpVersion [] (to_listVersion (cn_out s)) \<and>
      (\<forall>k. to_memberships (cn_out t) k \<noteq> None \<longrightarrow> to_memberships (cn_out s) k \<noteq> None \<and> k \<notin> {})"
    using run s by (cases r) (auto simp: rescue_def andThen_def ret_def asked_def ready_def idle_def)
qed

section \<open>The outcome of an operation\<close>

definition memberships_ok :: "(task_db, task_out) conn \<Rightarrow> bool" where
  "memberships_ok s \<longleftrightarrow> (\<forall>b u. to_memberships (cn_out s) (b, u) \<noteq> None \<longrightarrow> is_member b u (cn_committed s))"

definition conn_ok :: "answers \<Rightarrow> (task_db, task_out) conn \<Rightarrow> bool" where
  "conn_ok T s \<longleftrightarrow> ready T s \<and> memberships_ok s"

definition outcome :: "answers \<Rightarrow> uuid set option \<Rightarrow> uuid \<Rightarrow> (task_db, task_out) conn \<Rightarrow> (task_db, task_out) conn \<Rightarrow> bool" where
  "outcome T F u s t \<longleftrightarrow> conn_ok T t \<and> to_lists (cn_out t) = to_lists (cn_out s) \<and>
     (\<exists>G. (cn_committed t = cn_committed s \<or> task_change T F u G (cn_committed s) (cn_committed t)) \<and>
        to_listVersion (cn_out t) = fold bumpVersion G (to_listVersion (cn_out s)))"

lemma outcome_of_run:
  assumes s: "conn_ok T s" and body: "\<And>c o'. preserves (in_tx T c o') m"
    and change: "\<And>s' x t'. cn_inTx s' \<Longrightarrow> cn_current s' = cn_committed s \<Longrightarrow> out_ok T (cn_out s') \<Longrightarrow> m s' = (Inr x, t') \<Longrightarrow>
      cn_current t' = cn_committed s \<or> task_change T F u (G x) (cn_committed s) (cn_current t') \<and>
        (\<forall>b a. is_member b a (cn_committed s) \<longrightarrow> is_member b a (cn_current t') \<or> (b, a) \<in> K x)"
    and post: "\<And>x. announces T (G x) (K x) (f x)"
  shows "outcome T F u s (snd (andThen (transaction m) f s))"
proof -
  obtain r t where run: "transaction m s = (r, t)" by fastforce
  have "ready T s" using s by (simp add: conn_ok_def)
  note result = transaction_run [OF this run body]
  show ?thesis
  proof (cases r)
    case (Inl e)
    then have "committed_as T s (cn_committed s) t" using result by simp
    then show ?thesis using s
      by (auto simp: andThen_def run Inl outcome_def committed_as_def conn_ok_def memberships_ok_def intro: exI [of _ "[]"])
  next
    case (Inr x)
    then obtain s' t' where t: "cn_current s' = cn_committed s" "cn_inTx s'" "out_ok T (cn_out s')" "m s' = (Inr x, t')"
        "committed_as T s (cn_current t') t"
      using result by auto
    then have "ready T t" by (simp add: committed_as_def)
    then obtain y v where v: "f x t = (Inr y, v)" "ready T v" "cn_committed v = cn_committed t"
        "to_lists (cn_out v) = to_lists (cn_out t)" "to_listVersion (cn_out v) = fold bumpVersion (G x) (to_listVersion (cn_out t))"
        "\<forall>k. to_memberships (cn_out v) k \<noteq> None \<longrightarrow> to_memberships (cn_out t) k \<noteq> None \<and> k \<notin> K x"
      using post [of x] unfolding announces_def by blast
    have v': "snd (andThen (transaction m) f s) = v" using run Inr v(1) by (simp add: andThen_def)
    have same: "cn_committed t = cn_current t'" "to_lists (cn_out t) = to_lists (cn_out s)"
        "to_listVersion (cn_out t) = to_listVersion (cn_out s)" "to_memberships (cn_out t) = to_memberships (cn_out s)"
      using t(5) by (auto simp: committed_as_def)
    have kept: "is_member b a (cn_committed v)" if k: "to_memberships (cn_out v) (b, a) \<noteq> None" for b a
    proof -
      have "to_memberships (cn_out s) (b, a) \<noteq> None" "(b, a) \<notin> K x" using v(6) k same(4) by auto
      then show ?thesis
        using change [OF t(2,1,3,4)] s v(3) same(1) unfolding conn_ok_def memberships_ok_def by metis
    qed
    show ?thesis unfolding v' outcome_def
      using change [OF t(2,1,3,4)] v(2-5) same kept by (auto simp: conn_ok_def memberships_ok_def)
  qed
qed

end
