(* ===== verification/Task_Refinement.thy ===== *)
theory Task_Refinement
  imports Task_Run
begin

text \<open>
  Every operation of the task service does nothing to the database or makes one \<open>task_change\<close>, and
  declares the groups of that change out of date.
\<close>

lemma announces_then:
  "announces T G K m \<Longrightarrow> (\<And>x. announces T H L (f x)) \<Longrightarrow> G' = G @ H \<Longrightarrow> K' = K \<union> L \<Longrightarrow> announces T G' K' (andThen m f)"
  using announces_andThen by blast

lemmas announce_rules = announces_list announces_bulk announces_quiet announces_reminder announces_members announces_ret

text \<open>Until a statement changes it, the connection has the database the operation started from.\<close>

lemma asked_current: "asked T s t \<Longrightarrow> cn_current t = cn_current s"
  by (simp add: asked_fields)

lemma same_members: "board_members d' = board_members d \<Longrightarrow> is_member b a d' = is_member b a d"
  by (simp add: is_member_def)

section \<open>Tasks\<close>

lemma createNewTask_outcome:
  assumes "task_env_ok T env" "conn_ok T s"
  shows "outcome T F u s (snd (createNewTask env dto u s))"
  unfolding createNewTask_def
proof (rule outcome_of_run [where G = "\<lambda>_. [ct_groupId dto]" and K = "\<lambda>_. {}", OF assms(2)], goal_cases)
  case (1 c o')
  show ?case unfolding insert_task_def by (intro in_tx_intros assms)
next
  case (2 s' x t')
  have fresh: "kv_newId env d \<notin> all_ids d" for d using assms(1) by (simp add: task_env_ok_def)
  let ?d = "cn_committed s"
  let ?k = "case last_order (ct_groupId dto) ?d of Some k \<Rightarrow> k + 1 | None \<Rightarrow> 0"
  obtain g where g: "find_group (ct_groupId dto) ?d = Some g" "may u (gr_boardId g) ?d"
      "cn_current t' = ?d\<lparr>tasks := tasks ?d @ [new_task env ?d dto ?k]\<rparr>"
    using 2 by (auto simp: inr_iffs lookup_Inr insert_task_def dest!: membership_Inr [OF _ _ assms(1)] asked_current)
  then have "task_change T F u [ct_groupId dto] ?d (cn_current t')"
    using task_created [of "new_task env ?d dto ?k" ?d g] fresh by (simp add: new_task_def)
  then show ?case using g(3) by (simp add: is_member_def)
next
  case (3 x)
  show ?case
    by (cases x, simp add: Let_def, cases "ta_dueDate (fst x)") (auto intro!: announces_then announce_rules)
qed

lemma own_fields: "own u i d t g \<Longrightarrow> find_task i d = Some t \<and> find_group (ta_groupId t) d = Some g \<and> ta_id t = i"
  by (auto simp: own_def dest: find_ids)

lemma board_members_kept [simp]:
  "board_members (delete_checklists Q d) = board_members d" "board_members (delete_tasks P d) = board_members d"
  "board_members (delete_groups R d) = board_members d"
  by (simp_all add: delete_tasks_def delete_checklists_def delete_groups_def Let_def)

lemma members_of_tables [simp]:
  "is_member b a (replaced_task i x d) = is_member b a d" "is_member b a (relabel i ls d) = is_member b a d"
  "is_member b a (placed env i g k d) = is_member b a d" "is_member b a (shifted env g lo hi n d) = is_member b a d"
  "is_member b a (delete_tasks P d) = is_member b a d" "is_member b a (delete_checklists Q d) = is_member b a d"
  "is_member b a (delete_groups R d) = is_member b a d" "is_member b a (replaced_group y d) = is_member b a d"
  "is_member b a (shifted_groups env e l h n d) = is_member b a d"
  by (simp_all add: is_member_def replaced_task_def relabel_def placed_def shifted_def delete_tasks_def delete_checklists_def
      delete_groups_def replaced_group_def shifted_groups_def Let_def)

lemma updateTaskDetails_outcome:
  assumes "task_env_ok T env" "conn_ok T s" "F \<noteq> None \<Longrightarrow> ut_groupId dto = None"
  shows "outcome T F u s (snd (updateTaskDetails env i dto u s))"
  unfolding updateTaskDetails_def
proof (rule outcome_of_run [where G = "\<lambda>(e, b). [ta_groupId (te_row e)]" and K = "\<lambda>_. {}", OF assms(2)], goal_cases)
  case (1 c o')
  show ?case unfolding Let_def by (intro in_tx_intros assms)
next
  case (2 s' x t')
  let ?d = "cn_committed s"
  let ?ids = "map_option (\<lambda>ids. map lb_id (filter (\<lambda>l. lb_id l \<in> set ids) (labels ?d))) (ut_labelIds dto)"
  obtain t g h where t: "own u i ?d t g" "h \<in> set (groups ?d) \<and> gr_id h = ta_groupId (saved_task env dto t)"
      "cn_current t' = (case ?ids of None \<Rightarrow> \<lambda>d. d | Some xs \<Rightarrow> relabel i xs) (replaced_task i (saved_task env dto t) ?d)"
      "ta_groupId (te_row (fst x)) = nullish (ut_groupId dto) (ta_groupId t)"
    using 2 by (cases "ut_labelIds dto")
      (auto simp: inr_iffs lookup_Inr Let_def own_def assign_task_def dest!: membership_Inr [OF _ _ assms(1)] asked_current)
  have "ta_id (saved_task env dto t) = i" "ta_isDone (saved_task env dto t) = ta_isDone t"
    using own_fields [OF t(1)] by (simp_all add: saved_task_def assign_task_def Let_def)
  moreover have "F \<noteq> None \<longrightarrow> ta_groupId (te_row (fst x)) = ta_groupId t \<and> ta_groupId (saved_task env dto t) = ta_groupId t"
    using assms(3) t(4) by (auto simp: saved_task_def assign_task_def Let_def)
  moreover have "\<forall>xs. ?ids = Some xs \<longrightarrow> set xs \<subseteq> lb_id ` set (labels ?d)" by auto
  ultimately have "task_change T F u [ta_groupId (te_row (fst x))] ?d (cn_current t')"
    unfolding t(3) using t(2) by - (rule task_updated [OF t(1)], auto intro: rev_image_eqI)
  then show ?case using t(3) by (simp add: split_beta split: option.split)
next
  case (3 x)
  show ?case
    by (cases x) (auto simp: Let_def intro!: announces_then announce_rules)
qed

lemma removeTask_outcome:
  assumes "task_env_ok T env" "conn_ok T s"
  shows "outcome T F u s (snd (removeTask env i u s))"
  unfolding removeTask_def
proof (rule outcome_of_run [where G = "\<lambda>(g, b). [g]" and K = "\<lambda>_. {}", OF assms(2)], goal_cases)
  case (1 c o')
  show ?case by (intro in_tx_intros assms)
next
  case (2 s' x t')
  then obtain t g where t: "own u i (cn_committed s) t g" "cn_current t' = delete_tasks (\<lambda>x. ta_id x = i) (cn_committed s)"
      "fst x = ta_groupId t"
    by (auto simp: inr_iffs dest!: own_Inr [OF _ _ assms(1)] asked_current)
  then show ?case using task_removed [OF t(1)] by (simp add: split_beta)
next
  case (3 x)
  show ?case by (cases x) (auto intro!: announces_then announce_rules)
qed

text \<open>The operations that change what hangs on one task, and declare its group.\<close>

lemma own_task_outcome:
  assumes "task_env_ok T env" "conn_ok T s" "\<And>c o'. preserves (in_tx T c o') m"
    "\<And>s' g t'. cn_current s' = cn_committed s \<Longrightarrow> out_ok T (cn_out s') \<Longrightarrow> m s' = (Inr g, t') \<Longrightarrow>
       task_change T F u [g] (cn_committed s) (cn_current t') \<and> board_members (cn_current t') = board_members (cn_committed s)"
  shows "outcome T F u s (snd (andThen (transaction m) list_changed s))"
proof (rule outcome_of_run [where G = "\<lambda>g. [g]" and K = "\<lambda>_. {}", OF assms(2,3)], goal_cases)
  case (1 s' x t')
  then show ?case using assms(4) [of s' x t'] same_members [of "cn_current t'" "cn_committed s"] by simp
qed (rule announces_list)

lemma toggleTaskLabel_outcome:
  assumes "task_env_ok T env" "conn_ok T s"
  shows "outcome T F u s (snd (toggleTaskLabel env i l u s))"
  unfolding toggleTaskLabel_def
proof (rule own_task_outcome [OF assms], goal_cases)
  case (1 c o')
  show ?case by (intro in_tx_intros assms)
next
  case (2 s' x t')
  let ?d = "cn_committed s"
  let ?old = "map lb_id (labels_of ?d i)"
  let ?new = "if l \<in> set ?old then filter (\<lambda>k. k \<noteq> l) ?old else ?old @ [l]"
  obtain t g b where t: "own u i ?d t g" "find (\<lambda>b. lb_id b = l) (labels ?d) = Some b" "cn_current t' = relabel i ?new ?d"
      "x = ta_groupId t"
    using 2 by (auto simp: inr_iffs dest!: own_Inr [OF _ _ assms(1)] asked_current split del: if_split cong del: if_weak_cong)
  have "b \<in> set (labels ?d)" "lb_id b = l" using find_SomeD [OF t(2)] by auto
  then have "set ?new \<subseteq> lb_id ` set (labels ?d)" by (auto simp: labels_of_def)
  then show ?case using labels_set [OF t(1)] t(3,4) by (simp add: relabel_def)
qed

lemma addAttachment_outcome:
  assumes "task_env_ok T env" "conn_ok T s"
  shows "outcome T F u s (snd (addAttachment env i n l u s))"
  unfolding addAttachment_def
proof (rule own_task_outcome [OF assms], goal_cases)
  case (1 c o')
  show ?case by (intro in_tx_intros assms)
next
  case (2 s' x t')
  let ?d = "cn_committed s"
  obtain t g where t: "own u i ?d t g" "x = ta_groupId t" "cn_current t' = ?d\<lparr>task_attachments := task_attachments ?d @
      [\<lparr>tt_id = kv_newId env ?d, tt_taskId = i, tt_title = n, tt_link = l\<rparr>]\<rparr>"
    using 2 by (auto simp: inr_iffs dest!: own_Inr [OF _ _ assms(1)] asked_current)
  then show ?case using attachment_added [OF t(1), of "kv_newId env ?d" T F n l] assms(1) by (simp add: task_env_ok_def)
qed

lemma updateAttachment_outcome:
  assumes "task_env_ok T env" "conn_ok T s"
    "\<And>a. F \<noteq> None \<Longrightarrow> find_attachment j (cn_committed s) = Some a \<Longrightarrow> tt_taskId a = i"
  shows "outcome T F u s (snd (updateAttachment env i j n l u s))"
  unfolding updateAttachment_def
proof (rule own_task_outcome [OF assms(1,2)], goal_cases)
  case (1 c o')
  show ?case by (intro in_tx_intros assms)
next
  case (2 s' x t')
  let ?d = "cn_committed s"
  obtain t g a where t: "own u i ?d t g" "x = ta_groupId t" "find_attachment j ?d = Some a"
      "cn_current t' = ?d\<lparr>task_attachments := map (\<lambda>x. if tt_id x = tt_id a
        then x\<lparr>tt_title := n, tt_link := l\<rparr> else x) (task_attachments ?d)\<rparr>"
    using 2 by (auto simp: inr_iffs dest!: own_Inr [OF _ _ assms(1)] asked_current)
  have "task_change T F u [ta_groupId t] ?d (cn_current t')"
    unfolding t(4) by (rule attachment_changed [OF t(1,3)]) (use assms(3) t(3) in blast)
  then show ?case using t(2,4) by simp
qed

lemma deleteAttachment_outcome:
  assumes "task_env_ok T env" "conn_ok T s"
  shows "outcome T F u s (snd (deleteAttachment env j u s))"
  unfolding deleteAttachment_def
proof (rule own_task_outcome [OF assms], goal_cases)
  case (1 c o')
  show ?case by (intro in_tx_intros assms)
next
  case (2 s' x t')
  let ?d = "cn_committed s"
  obtain a t g where t: "find_attachment j ?d = Some a" "own u (tt_taskId a) ?d t g" "x = ta_groupId t"
      "cn_current t' = ?d\<lparr>task_attachments := filter (\<lambda>x. tt_id x \<noteq> j) (task_attachments ?d)\<rparr>"
    using 2 by (auto simp: inr_iffs lookup_Inr own_def dest!: membership_Inr [OF _ _ assms(1)] asked_current)
  then show ?case using attachment_removed [OF t(1,2), of T F] by simp
qed

lemma assignMemberToTask_outcome:
  assumes "task_env_ok T env" "conn_ok T s"
  shows "outcome T F u s (snd (assignMemberToTask env i m u s))"
  unfolding assignMemberToTask_def
proof (rule outcome_of_run [where G = "\<lambda>(t, g, b). [ta_groupId t]" and K = "\<lambda>_. {}", OF assms(2)], goal_cases)
  case (1 c o')
  show ?case by (intro in_tx_intros assms)
next
  case (2 s' x t')
  let ?d = "cn_committed s"
  obtain t g where t: "own u i ?d t g" "is_member (gr_boardId g) m ?d" "fst x = t"
      "\<not> (\<exists>x \<in> set (task_members ?d). tm_taskId x = i \<and> tm_memberId x = m)"
      "cn_current t' = ?d\<lparr>task_members := task_members ?d @ [\<lparr>tm_id = kv_newId env ?d, tm_taskId = i, tm_memberId = m\<rparr>]\<rparr>"
    using 2 by (auto simp: inr_iffs lookup_Inr dest!: own_Inr [OF _ _ assms(1)] asked_current)
  then show ?case
    using member_assigned [OF t(1,2,4), of "kv_newId env ?d" T F] assms(1)
    by (simp add: task_env_ok_def split_beta is_member_def)
next
  case (3 x)
  show ?case
    by (cases x) (auto intro!: announces_then announce_rules announces_assigner assms)
qed

lemma unassignMemberFromTask_outcome:
  assumes "task_env_ok T env" "conn_ok T s"
  shows "outcome T F u s (snd (unassignMemberFromTask env i m u s))"
  unfolding unassignMemberFromTask_def
proof (rule outcome_of_run [where G = "\<lambda>g. [g]" and K = "\<lambda>_. {}", OF assms(2)], goal_cases)
  case (1 c o')
  show ?case by (intro in_tx_intros assms)
next
  case (2 s' x t')
  let ?d = "cn_committed s"
  obtain t g where t: "own u i ?d t g" "x = ta_groupId t"
      "cn_current t' = ?d\<lparr>task_members := filter (\<lambda>x. \<not> (tm_taskId x = i \<and> tm_memberId x = m)) (task_members ?d)\<rparr>"
    using 2 by (auto simp: inr_iffs dest!: own_Inr [OF _ _ assms(1)] asked_current)
  then show ?case using member_unassigned [OF t(1), of T F m] by (simp add: is_member_def)
next
  case (3 x)
  show ?case by (auto intro!: announces_then announce_rules)
qed

section \<open>Moving tasks\<close>

lemma shift_tasks_Inr: "shift_tasks env g lo hi k s = (Inr x, t) \<Longrightarrow> t = wrote (shifted env g lo hi k) s"
  by (auto simp: shift_tasks_def inr_iffs)

lemma place_task_Inr: "place_task env i g k s = (Inr x, t) \<Longrightarrow> t = wrote (placed env i g k) s"
  by (auto simp: place_task_def inr_iffs)

lemma dragDropTask_outcome:
  assumes "task_env_ok T env" "conn_ok T s"
  shows "outcome T F u s (snd (dragDropTask env dto u s))"
  unfolding dragDropTask_def
proof (rule outcome_of_run [where G = "\<lambda>(a, b). if a = b then [a] else [a, b]" and K = "\<lambda>_. {}", OF assms(2)], goal_cases)
  case (1 c o')
  show ?case by (intro in_tx_intros assms)
next
  case (2 s' x t')
  let ?d = "cn_committed s"
  let ?k = "dd_targetOrder dto"
  obtain t g h t1 where t: "own u (dd_taskId dto) ?d t g" "find_group (dd_targetGroupId dto) ?d = Some h"
      "gr_boardId g \<noteq> gr_boardId h \<longrightarrow> may u (gr_boardId h) ?d" "x = (ta_groupId t, gr_id h)" "cn_current t1 = ?d"
      "(if ta_groupId t = gr_id h then moveTaskWithinGroup env t ?k
        else moveTaskToDifferentGroup env t (gr_id h) ?k) t1 = (Inr (), t')"
    using 2 by (fastforce simp: inr_iffs lookup_Inr own_def dest!: membership_Inr [OF _ _ assms(1)] asked_current
        split: if_splits)
  have i: "ta_id t = dd_taskId dto" "gr_id h = dd_targetGroupId dto"
    using own_fields [OF t(1)] find_ids(2) [OF t(2)] by simp_all
  have h: "find_group (gr_id h) ?d = Some h" "may u (gr_boardId h) ?d" using t(1-3) i by (auto simp: own_def)
  show ?case
  proof (cases "ta_groupId t = gr_id h")
    case True
    then have "moveTaskWithinGroup env t ?k t1 = (Inr (), t')" using t(6) by simp
    then consider "ta_order t = ?k" "t' = t1"
      | "ta_order t < ?k" "cn_current t' = placed env (ta_id t) (ta_groupId t) ?k (shifted env (ta_groupId t) (ta_order t + 1) (Some ?k) (- 1) ?d)"
      | "?k < ta_order t" "cn_current t' = placed env (ta_id t) (ta_groupId t) ?k (shifted env (ta_groupId t) ?k (Some (ta_order t - 1)) 1 ?d)"
      using t(5) by (auto simp: moveTaskWithinGroup_def Let_def inr_iffs dest!: shift_tasks_Inr place_task_Inr split: if_splits)
    then show ?thesis
    proof cases
      case 1
      then show ?thesis using t(5) by simp
    next
      case 2
      then show ?thesis using moved_up [OF t(1), of ?k T F env] True t(4) i by simp
    next
      case 3
      then show ?thesis using moved_down [OF t(1), of ?k T F env] True t(4) i by simp
    qed
  next
    case False
    then have "cn_current t' = placed env (ta_id t) (gr_id h) ?k
        (shifted env (gr_id h) ?k None 1 (shifted env (ta_groupId t) (ta_order t + 1) None (- 1) ?d))"
      using t(5,6) by (auto simp: moveTaskToDifferentGroup_def inr_iffs dest!: shift_tasks_Inr place_task_Inr)
    then show ?thesis using moved_over [OF t(1) h, of T F env ?k] False t(4) i by simp
  qed
next
  case (3 x)
  show ?case
    by (cases x) (auto intro!: announces_then announce_rules)
qed

lemma changeTaskGroup_outcome:
  assumes "task_env_ok T env" "conn_ok T s"
  shows "outcome T F u s (snd (changeTaskGroup env i g' u s))"
  unfolding changeTaskGroup_def
proof (rule outcome_of_run [where G = "\<lambda>a. [a, g']" and K = "\<lambda>_. {}", OF assms(2)], goal_cases)
  case (1 c o')
  show ?case by (intro in_tx_intros assms)
next
  case (2 s' x t')
  let ?d = "cn_committed s"
  obtain t g h where t: "own u i ?d t g" "find_group g' ?d = Some h" "may u (gr_boardId h) ?d" "x = ta_groupId t"
      "cn_current t' = placed env i g' (nullish (last_order g' ?d) 0 + 1024) ?d"
    using 2 by (auto simp: inr_iffs lookup_Inr own_def dest!: membership_Inr [OF _ _ assms(1)] asked_current place_task_Inr)
  then show ?case using moved_last [OF t(1-3), of T F env] by simp
next
  case (3 x)
  show ?case by (auto intro!: announces_then announce_rules)
qed

section \<open>Boards\<close>

lemma createNewBoard_outcome:
  assumes "task_env_ok T env" "conn_ok T s"
  shows "outcome T F u s (snd (createNewBoard env w n b u s))"
  unfolding createNewBoard_def
proof (rule outcome_of_run [where G = "\<lambda>_. []" and K = "\<lambda>(r, m). {(bo_id r, m)}", OF assms(2)], goal_cases)
  case (1 c o')
  show ?case by (intro in_tx_intros assms)
next
  case (2 s' x t')
  let ?d = "cn_committed s"
  let ?b = "\<lparr>bo_id = kv_newId env ?d, bo_workspaceId = w, bo_backgroundUrl = b, bo_name = n,
      bo_createdAt = kv_now env, bo_updatedAt = kv_now env\<rparr>"
  let ?k = "kv_newId env (?d\<lparr>boards := boards ?d @ [?b]\<rparr>)"
  have t: "admin T u w" "cn_current t' = ?d\<lparr>boards := boards ?d @ [?b],
      board_members := board_members ?d @ [\<lparr>bm_id = ?k, bm_boardId = bo_id ?b, bm_memberId = u\<rparr>]\<rparr>"
    using 2 by (auto simp: inr_iffs dest!: admin_Inr [OF _ _ assms(1)] member_id_Inr [OF _ _ assms(1)] asked_current)
  have "?k \<notin> all_ids (?d\<lparr>boards := boards ?d @ [?b]\<rparr>)" "bo_id ?b \<notin> all_ids ?d"
    using assms(1) by (simp_all add: task_env_ok_def)
  then have "task_change T F u [] ?d (cn_current t')"
    unfolding t(2) using t(1) by - (rule board_created, simp_all)
  then show ?case unfolding t(2) by (auto simp: is_member_def)
next
  case (3 x)
  show ?case by (cases x) (auto intro!: announces_then announce_rules)
qed

lemma updateBoardInfo_outcome:
  assumes "task_env_ok T env" "conn_ok T s"
  shows "outcome T F u s (snd (updateBoardInfo env i dto u s))"
  unfolding updateBoardInfo_def
proof (rule outcome_of_run [where G = "\<lambda>_. []" and K = "\<lambda>(r, ms). Pair i ` set ms", OF assms(2)], goal_cases)
  case (1 c o')
  show ?case unfolding Let_def by (intro in_tx_intros assms)
next
  case (2 s' x t')
  let ?d = "cn_committed s"
  obtain b where t: "find_board i ?d = Some b" "admin T u (bo_workspaceId b)" "may u i ?d"
      "cn_current t' = ?d\<lparr>boards := map (\<lambda>x. if bo_id x = i then saved_board env dto b else x) (boards ?d)\<rparr>"
    using 2 by (auto simp: inr_iffs lookup_Inr Let_def dest!: admin_Inr [OF _ _ assms(1)] membership_Inr [OF _ _ assms(1)] asked_current)
  have "bo_id (saved_board env dto b) = i" "bo_workspaceId (saved_board env dto b) = bo_workspaceId b"
    using find_ids(1) [OF t(1)] by (simp_all add: saved_board_def Let_def)
  then show ?case using board_updated [OF t(1-3), of "saved_board env dto b" F] t(4) by (simp add: is_member_def)
next
  case (3 x)
  show ?case by (cases x) (auto intro!: announces_then announce_rules)
qed

lemma deleteBoard_outcome:
  assumes "task_env_ok T env" "conn_ok T s"
  shows "outcome T F u s (snd (deleteBoard env i u s))"
  unfolding deleteBoard_def
proof (rule outcome_of_run [where G = "\<lambda>_. []" and K = "\<lambda>(w, ms). Pair i ` set ms", OF assms(2)], goal_cases)
  case (1 c o')
  show ?case by (intro in_tx_intros assms)
next
  case (2 s' x t')
  let ?d = "cn_committed s"
  obtain b where t: "find_board i ?d = Some b" "admin T u (bo_workspaceId b)" "cn_current t' = delete_board i ?d"
      "snd x = member_ids i ?d"
    using 2 by (auto simp: inr_iffs lookup_Inr dest!: admin_Inr [OF _ _ assms(1)] asked_current)
  have "is_member c a (delete_board i ?d) \<or> c = i \<and> a \<in> set (member_ids i ?d)" if "is_member c a ?d" for c a
    using that unfolding delete_board_def by (auto simp: is_member_def member_ids_def)
  then show ?case using board_deleted [OF t(1,2), of F] t(3,4) by (auto simp: split_beta)
next
  case (3 x)
  show ?case by (cases x) (auto intro!: announces_then announce_rules)
qed

lemma addMemberToBoard_outcome:
  assumes "task_env_ok T env" "conn_ok T s"
  shows "outcome T F u s (snd (addMemberToBoard env i m u s))"
  unfolding addMemberToBoard_def
proof (rule outcome_of_run [where G = "\<lambda>_. []" and K = "\<lambda>_. {(i, m)}", OF assms(2)], goal_cases)
  case (1 c o')
  show ?case by (intro in_tx_intros assms)
next
  case (2 s' x t')
  let ?d = "cn_committed s"
  obtain b where t: "find_board i ?d = Some b" "admin T u (bo_workspaceId b)" "\<not> is_member i m ?d"
      "cn_current t' = ?d\<lparr>board_members := board_members ?d @ [\<lparr>bm_id = kv_newId env ?d, bm_boardId = i, bm_memberId = m\<rparr>]\<rparr>"
    using 2 by (auto simp: inr_iffs lookup_Inr dest!: admin_Inr [OF _ _ assms(1)] asked_current)
  then show ?case
    using member_added [OF t(1-3), of "kv_newId env ?d" F] assms(1) by (auto simp: task_env_ok_def is_member_def)
next
  case (3 x)
  show ?case by (auto intro!: announces_then announce_rules)
qed

lemma removeMemberFromBoard_outcome:
  assumes "task_env_ok T env" "conn_ok T s"
  shows "outcome T F u s (snd (removeMemberFromBoard env i m u s))"
  unfolding removeMemberFromBoard_def
proof (rule outcome_of_run [where G = "\<lambda>_. []" and K = "\<lambda>_. {(i, m)}", OF assms(2)], goal_cases)
  case (1 c o')
  show ?case by (intro in_tx_intros assms)
next
  case (2 s' x t')
  let ?d = "cn_committed s"
  obtain b where t: "find_board i ?d = Some b" "may u i ?d" "u \<noteq> m \<longrightarrow> admin T u (bo_workspaceId b)"
      "cn_current t' = ?d\<lparr>board_members := filter (\<lambda>x. \<not> (bm_boardId x = i \<and> bm_memberId x = m)) (board_members ?d)\<rparr>"
    using 2 by (cases "u = m") (auto simp: inr_iffs lookup_Inr dest!: membership_Inr [OF _ _ assms(1)] member_id_Inr [OF _ _ assms(1)]
        admin_Inr [OF _ _ assms(1)] role_Inr [OF _ _ assms(1)] asked_current)
  then show ?case using member_removed [OF t(1-3), of F] by (auto simp: is_member_def)
next
  case (3 x)
  show ?case by (auto intro!: announces_then announce_rules)
qed

section \<open>Groups and labels\<close>

text \<open>An operation that is a transaction and nothing after it.\<close>

lemma andThen_nothing: "andThen m ret = m"
  by (simp add: andThen_def ret_def fun_eq_iff split: prod.split sum.split)

lemma outcome_of_transaction:
  assumes "conn_ok T s" "\<And>c o'. preserves (in_tx T c o') m"
    "\<And>s' x t'. cn_current s' = cn_committed s \<Longrightarrow> out_ok T (cn_out s') \<Longrightarrow> m s' = (Inr x, t') \<Longrightarrow>
      (cn_current t' = cn_committed s \<or> task_change T F u [] (cn_committed s) (cn_current t')) \<and>
      board_members (cn_current t') = board_members (cn_committed s)"
  shows "outcome T F u s (snd (transaction m s))"
proof -
  have "outcome T F u s (snd (andThen (transaction m) ret s))"
  proof (rule outcome_of_run [where G = "\<lambda>_. []" and K = "\<lambda>_. {}", OF assms(1,2)], goal_cases)
    case (1 s' x t')
    then show ?case using assms(3) [of s' x t'] same_members [of "cn_current t'" "cn_committed s"] by auto
  qed (rule announces_ret)
  then show ?thesis by (simp add: andThen_nothing)
qed

lemma addGroupToBoard_outcome:
  assumes "task_env_ok T env" "conn_ok T s" "\<And>C. F = Some C \<Longrightarrow> kv_newId env (cn_committed s) \<notin> C"
  shows "outcome T F u s (snd (addGroupToBoard env b n u s))"
  unfolding addGroupToBoard_def
proof (rule outcome_of_transaction [OF assms(2)], goal_cases)
  case (1 c o')
  show ?case by (intro in_tx_intros assms)
next
  case (2 s' x t')
  let ?d = "cn_committed s"
  let ?g = "\<lparr>gr_id = kv_newId env ?d, gr_boardId = b, gr_name = n,
      gr_order = (case last_group_order b ?d of Some k \<Rightarrow> k + 1 | None \<Rightarrow> 0), gr_createdAt = kv_now env, gr_updatedAt = kv_now env\<rparr>"
  have t: "may u b ?d" "cn_current t' = ?d\<lparr>groups := groups ?d @ [?g]\<rparr>"
    using 2 by (auto simp: inr_iffs dest!: membership_Inr [OF _ _ assms(1)] asked_current)
  then show ?case using group_added [of u ?g ?d F] assms(1,3) by (simp add: task_env_ok_def)
qed

lemma updateGroupInfo_outcome:
  assumes "task_env_ok T env" "conn_ok T s"
  shows "outcome T F u s (snd (updateGroupInfo env i dto u s))"
  unfolding updateGroupInfo_def
proof (rule outcome_of_transaction [OF assms(2)], goal_cases)
  case (1 c o')
  show ?case by (intro in_tx_intros assms)
next
  case (2 s' x t')
  let ?d = "cn_committed s"
  obtain g where t: "find_group i ?d = Some g" "may u (gr_boardId g) ?d" "cn_current t' = replaced_group (saved_group env dto g) ?d"
    using 2 by (auto simp: inr_iffs lookup_Inr save_group_def dest!: membership_Inr [OF _ _ assms(1)] asked_current)
  have "gr_id (saved_group env dto g) = i" "gr_boardId (saved_group env dto g) = gr_boardId g"
    using find_ids(2) [OF t(1)] by (simp_all add: saved_group_def Let_def)
  then show ?case using group_updated [OF t(1,2), of "saved_group env dto g" T F] t(3) by (simp add: replaced_group_def)
qed

lemma changeGroupOrder_outcome:
  assumes "task_env_ok T env" "conn_ok T s"
  shows "outcome T F u s (snd (changeGroupOrder env i j u s))"
  unfolding changeGroupOrder_def
proof (rule outcome_of_transaction [OF assms(2)], goal_cases)
  case (1 c o')
  show ?case by (intro in_tx_intros assms)
next
  case (2 s' x t')
  let ?d = "cn_committed s"
  have shift: "shift_groups env b lo hi k v = (Inr y, w) \<Longrightarrow> w = wrote (shifted_groups env b lo hi k) v" for b lo hi k v y w
    by (auto simp: shift_groups_def inr_iffs)
  obtain g h where t: "find_group i ?d = Some g" "find_group j ?d = Some h" "gr_boardId g = gr_boardId h" "may u (gr_boardId g) ?d"
      "cn_current t' = ?d \<or>
       gr_order g < gr_order h \<and> cn_current t' = replaced_group (g\<lparr>gr_order := gr_order h, gr_updatedAt := kv_now env\<rparr>)
         (shifted_groups env (gr_boardId g) (gr_order g + 1) (gr_order h) (- 1) ?d) \<or>
       gr_order g \<noteq> gr_order h \<and> \<not> gr_order g < gr_order h \<and> cn_current t' = replaced_group (g\<lparr>gr_order := gr_order h, gr_updatedAt := kv_now env\<rparr>)
         (shifted_groups env (gr_boardId g) (gr_order h) (gr_order g - 1) 1 ?d)"
    using 2 by (auto simp: inr_iffs save_group_def dest!: membership_Inr [OF _ _ assms(1)] asked_current shift split: if_splits)
  have same: "board_members (replaced_group z (shifted_groups env b lo hi k ?d)) = board_members ?d" for z b lo hi k
    by (simp add: replaced_group_def shifted_groups_def)
  from t(5) show ?case
    using groups_up [OF t(1-4), of T F "kv_now env" env] groups_down [OF t(1-4), of T F "kv_now env" env]
    by (elim disjE conjE) (simp_all add: same)
qed

lemma removeGroupFromBoard_outcome:
  assumes "task_env_ok T env" "conn_ok T s"
  shows "outcome T F u s (snd (removeGroupFromBoard env i u s))"
  unfolding removeGroupFromBoard_def
proof (rule outcome_of_run [where G = "\<lambda>_. [i]" and K = "\<lambda>_. {}", OF assms(2)], goal_cases)
  case (1 c o')
  show ?case by (intro in_tx_intros assms)
next
  case (2 s' x t')
  let ?d = "cn_committed s"
  obtain g where t: "find_group i ?d = Some g" "may u (gr_boardId g) ?d" "cn_current t' = delete_groups (\<lambda>x. gr_id x = i) ?d"
    using 2 by (auto simp: inr_iffs lookup_Inr dest!: membership_Inr [OF _ _ assms(1)] asked_current)
  then show ?case using group_removed [OF t(1,2), of T F] by simp
next
  case (3 x)
  show ?case by (auto intro!: announces_then announce_rules)
qed

lemma updateLabelInfo_outcome:
  assumes "task_env_ok T env" "conn_ok T s"
    "\<And>l. F \<noteq> None \<Longrightarrow> find_label i (cn_committed s) = Some l \<Longrightarrow>
       label_used_in i (set (group_ids (lb_boardId l) (cn_committed s))) (cn_committed s)"
  shows "outcome T F u s (snd (updateLabelInfo env i dto u s))"
  unfolding updateLabelInfo_def
proof (rule outcome_of_run [where G = "\<lambda>(r, gs). gs" and K = "\<lambda>_. {}", OF assms(2)], goal_cases)
  case (1 c o')
  show ?case by (intro in_tx_intros assms)
next
  case (2 s' x t')
  let ?d = "cn_committed s"
  obtain l where t: "find_label i ?d = Some l" "may u (lb_boardId l) ?d"
      "cn_current t' = ?d\<lparr>labels := map (\<lambda>x. if lb_id x = i then assign_label dto l else x) (labels ?d)\<rparr>"
      "snd x = group_ids (lb_boardId l) (cn_current t')"
    using 2 by (auto simp: inr_iffs dest!: membership_Inr [OF _ _ assms(1)] asked_current)
  have "snd x = group_ids (lb_boardId l) ?d" unfolding t(4) t(3) by (simp add: group_ids_def)
  moreover have "lb_id (assign_label dto l) = i" "lb_boardId (assign_label dto l) = lb_boardId l"
    using find_ids(4) [OF t(1)] by (simp_all add: assign_label_def)
  then have "task_change T F u (group_ids (lb_boardId l) ?d) ?d (cn_current t')"
    unfolding t(3) using assms(3) [OF _ t(1)] by - (rule label_updated [OF t(1,2)], simp_all)
  ultimately show ?case unfolding t(3) by (simp add: split_beta is_member_def)
next
  case (3 x)
  show ?case by (cases x) (auto intro!: announces_then announce_rules)
qed

lemma deleteLabel_outcome:
  assumes "task_env_ok T env" "conn_ok T s"
    "\<And>l. F \<noteq> None \<Longrightarrow> find_label i (cn_committed s) = Some l \<Longrightarrow>
       label_used_in i (set (group_ids (lb_boardId l) (cn_committed s))) (cn_committed s)"
  shows "outcome T F u s (snd (deleteLabel env i u s))"
  unfolding deleteLabel_def
proof (rule outcome_of_run [where G = "\<lambda>gs. gs" and K = "\<lambda>_. {}", OF assms(2)], goal_cases)
  case (1 c o')
  show ?case by (intro in_tx_intros assms)
next
  case (2 s' x t')
  let ?d = "cn_committed s"
  obtain l where t: "find_label i ?d = Some l" "may u (lb_boardId l) ?d" "x = group_ids (lb_boardId l) (cn_current t')"
      "cn_current t' = ?d\<lparr>labels := filter (\<lambda>x. lb_id x \<noteq> i) (labels ?d), task_labels := filter (\<lambda>m. tl_labelId m \<noteq> i) (task_labels ?d)\<rparr>"
    using 2 by (auto simp: inr_iffs dest!: membership_Inr [OF _ _ assms(1)] asked_current)
  have "x = group_ids (lb_boardId l) ?d" unfolding t(3) t(4) by (simp add: group_ids_def)
  moreover have "task_change T F u (group_ids (lb_boardId l) ?d) ?d (cn_current t')"
    unfolding t(4) using assms(3) [OF _ t(1)] by - (rule label_deleted [OF t(1,2)], simp)
  ultimately show ?case unfolding t(4) by (simp add: is_member_def)
next
  case (3 x)
  show ?case by (auto intro!: announces_then announce_rules)
qed

section \<open>Checklists\<close>

text \<open>Most of them answer a value and the group.\<close>

lemma checklist_outcome:
  assumes "task_env_ok T env" "conn_ok T s" "\<And>c o'. preserves (in_tx T c o') m"
    "\<And>s' r t'. cn_current s' = cn_committed s \<Longrightarrow> out_ok T (cn_out s') \<Longrightarrow> m s' = (Inr r, t') \<Longrightarrow>
       task_change T F u [g r] (cn_committed s) (cn_current t') \<and> board_members (cn_current t') = board_members (cn_committed s)"
    "\<And>r. f r = andThen (list_changed (g r)) (\<lambda>_. ret (h r))"
  shows "outcome T F u s (snd (andThen (transaction m) f s))"
proof (rule outcome_of_run [where G = "\<lambda>r. [g r]" and K = "\<lambda>_. {}", OF assms(2,3)], goal_cases)
  case (1 s' x t')
  then show ?case using assms(4) [of s' x t'] same_members [of "cn_current t'" "cn_committed s"] by simp
next
  case (2 x)
  show ?case unfolding assms(5) by (auto intro!: announces_then announce_rules)
qed

lemma createChecklist_outcome:
  assumes "task_env_ok T env" "conn_ok T s"
  shows "outcome T F u s (snd (createChecklist env i n u s))"
  unfolding createChecklist_def
proof (rule checklist_outcome [OF assms, where g = snd and h = fst], goal_cases)
  case (1 c o')
  show ?case by (intro in_tx_intros assms)
next
  case (2 s' x t')
  let ?d = "cn_committed s"
  obtain t g where t: "own u i ?d t g" "snd x = ta_groupId t"
      "cn_current t' = ?d\<lparr>checklists := checklists ?d @ [\<lparr>cl_id = kv_newId env ?d, cl_taskId = i, cl_name = n\<rparr>]\<rparr>"
    using 2 by (auto simp: inr_iffs dest!: own_Inr [OF _ _ assms(1)] asked_current)
  then show ?case using checklist_created [OF t(1), of "kv_newId env ?d" T F n] assms(1) by (simp add: task_env_ok_def)
qed (simp add: split_beta)

lemma updateChecklist_outcome:
  assumes "task_env_ok T env" "conn_ok T s"
  shows "outcome T F u s (snd (updateChecklist env i n u s))"
  unfolding updateChecklist_def
proof (rule checklist_outcome [OF assms, where g = snd and h = fst], goal_cases)
  case (1 c o')
  show ?case unfolding Let_def by (intro in_tx_intros assms)
next
  case (2 s' x t')
  let ?d = "cn_committed s"
  obtain c t g where t: "find_checklist i ?d = Some c" "own u (cl_taskId c) ?d t g" "snd x = ta_groupId t"
      "cn_current t' = ?d\<lparr>checklists := map (\<lambda>x. if cl_id x = i then c\<lparr>cl_name := nullish n (cl_name c)\<rparr> else x) (checklists ?d)\<rparr>"
    using 2 by (auto simp: inr_iffs Let_def dest!: own_checklist_Inr [OF _ _ assms(1)] asked_current)
  then show ?case using checklist_updated [OF t(1,2), of T F "nullish n (cl_name c)"] by simp
qed (simp add: split_beta)

lemma deleteChecklist_outcome:
  assumes "task_env_ok T env" "conn_ok T s"
  shows "outcome T F u s (snd (deleteChecklist env i u s))"
  unfolding deleteChecklist_def
proof (rule checklist_outcome [OF assms, where g = id and h = "\<lambda>_. i"], goal_cases)
  case (1 c o')
  show ?case by (intro in_tx_intros assms)
next
  case (2 s' x t')
  let ?d = "cn_committed s"
  obtain c t g where t: "find_checklist i ?d = Some c" "own u (cl_taskId c) ?d t g" "x = ta_groupId t"
      "cn_current t' = delete_checklists (\<lambda>x. cl_id x = i) ?d"
    using 2 by (auto simp: inr_iffs dest!: own_checklist_Inr [OF _ _ assms(1)] asked_current)
  then show ?case using checklist_deleted [OF t(1,2), of T F] by simp
qed simp

lemma addChecklistItem_outcome:
  assumes "task_env_ok T env" "conn_ok T s"
  shows "outcome T F u s (snd (addChecklistItem env i n u s))"
  unfolding addChecklistItem_def
proof (rule checklist_outcome [OF assms, where g = snd and h = fst], goal_cases)
  case (1 c o')
  show ?case by (intro in_tx_intros assms)
next
  case (2 s' x t')
  let ?d = "cn_committed s"
  obtain c t g where t: "find_checklist i ?d = Some c" "own u (cl_taskId c) ?d t g" "snd x = ta_groupId t"
      "cn_current t' = ?d\<lparr>checklist_items := checklist_items ?d @
         [\<lparr>ci_id = kv_newId env ?d, ci_checklistId = i, ci_content = n, ci_isCompleted = False\<rparr>]\<rparr>"
    using 2 by (auto simp: inr_iffs dest!: own_checklist_Inr [OF _ _ assms(1)] asked_current)
  then show ?case using item_added [OF t(1,2), of "kv_newId env ?d" T F n] assms(1) by (simp add: task_env_ok_def)
qed (simp add: split_beta)

lemma changed_item_outcome:
  assumes "task_env_ok T env" "conn_ok T s" "\<And>x. ci_id (f x) = ci_id x \<and> ci_checklistId (f x) = ci_checklistId x"
  shows "outcome T F u s (snd (changed_item env i f u s))"
  unfolding changed_item_def
proof (rule checklist_outcome [OF assms(1,2), where g = snd and h = fst], goal_cases)
  case (1 c o')
  show ?case by (intro in_tx_intros assms)
next
  case (2 s' x t')
  let ?d = "cn_committed s"
  obtain y c t g where t: "find_item i ?d = Some y" "find_checklist (ci_checklistId y) ?d = Some c" "own u (cl_taskId c) ?d t g"
      "snd x = ta_groupId t" "cn_current t' = ?d\<lparr>checklist_items := map (\<lambda>z. if ci_id z = ci_id (f y) then f y else z) (checklist_items ?d)\<rparr>"
    using 2 by (auto simp: inr_iffs save_item_def dest!: own_item_Inr [OF _ _ assms(1)] asked_current)
  then show ?case using item_changed [OF t(1-3), of "f y" T F] assms(3) by simp
qed (simp add: split_beta)

lemma deleteChecklistItem_outcome:
  assumes "task_env_ok T env" "conn_ok T s"
  shows "outcome T F u s (snd (deleteChecklistItem env i u s))"
  unfolding deleteChecklistItem_def
proof (rule checklist_outcome [OF assms, where g = id and h = "\<lambda>_. i"], goal_cases)
  case (1 c o')
  show ?case by (intro in_tx_intros assms)
next
  case (2 s' x t')
  let ?d = "cn_committed s"
  obtain y c t g where t: "find_item i ?d = Some y" "find_checklist (ci_checklistId y) ?d = Some c" "own u (cl_taskId c) ?d t g"
      "x = ta_groupId t" "cn_current t' = ?d\<lparr>checklist_items := filter (\<lambda>z. ci_id z \<noteq> i) (checklist_items ?d)\<rparr>"
    using 2 by (auto simp: inr_iffs dest!: own_item_Inr [OF _ _ assms(1)] asked_current)
  then show ?case using item_deleted [OF t(1-3), of T F] by simp
qed simp

section \<open>Reading\<close>

text \<open>What a read leaves as it was.\<close>

definition still :: "answers \<Rightarrow> (task_db, task_out) conn \<Rightarrow> (task_db, task_out) conn \<Rightarrow> bool" where
  "still T s t \<longleftrightarrow> conn_ok T t \<and> cn_committed t = cn_committed s \<and> to_lists (cn_out t) = to_lists (cn_out s) \<and>
     to_listVersion (cn_out t) = to_listVersion (cn_out s)"

lemma still_refl: "conn_ok T s \<Longrightarrow> still T s s"
  by (simp add: still_def)

lemma still_trans: "still T s t \<Longrightarrow> still T t v \<Longrightarrow> still T s v"
  by (simp add: still_def)

lemma still_current: "still T s t \<Longrightarrow> cn_current t = cn_committed t"
  by (simp add: still_def conn_ok_def ready_def idle_def)

lemma still_asked: "conn_ok T s \<Longrightarrow> asked T s t \<Longrightarrow> still T s t"
  by (auto simp: still_def conn_ok_def ready_def idle_def memberships_ok_def asked_def)

lemma still_outcome: "still T s t \<Longrightarrow> outcome T F u s t"
  by (auto simp: still_def outcome_def intro: exI [of _ "[]"])

lemma still_out:
  assumes "conn_ok T s" "to_lists o' = to_lists (cn_out s)" "to_listVersion o' = to_listVersion (cn_out s)"
    "to_wsMembers o' = to_wsMembers (cn_out s)"
    "\<And>b u. to_memberships o' (b, u) \<noteq> None \<Longrightarrow> to_memberships (cn_out s) (b, u) = None \<Longrightarrow> is_member b u (cn_committed s)"
  shows "still T s (s\<lparr>cn_out := o'\<rparr>)"
proof -
  have "is_member b u (cn_committed s)" if "to_memberships o' (b, u) \<noteq> None" for b u
    using assms(1) assms(5) [of b u] that by (cases "to_memberships (cn_out s) (b, u)") (auto simp: conn_ok_def memberships_ok_def)
  then show ?thesis using assms(1-4) by (simp add: still_def conn_ok_def ready_def idle_def memberships_ok_def out_ok_def)
qed

lemma getBoardById_run:
  assumes "conn_ok T s" "getBoardById env b s = (r, t)"
  shows "still T s t"
proof (cases "live_cell (kv_now env) (to_boards (cn_out s)) b")
  case None
  then show ?thesis using assms
    by (auto simp: getBoardById_def getOrSetDetail_def act_simps andThen_def get_board_def tell_def outside_def Let_def
        still_refl split: option.splits intro!: still_out)
next
  case (Some x)
  then show ?thesis using assms by (simp add: getBoardById_def getOrSetDetail_def act_simps andThen_def still_refl)
qed

lemma membership_fetch_run:
  assumes "task_env_ok T env" "conn_ok T s"
    "andThen (getBoardById env b) (\<lambda>x. andThen (from_option e x) (\<lambda>x.
       andThen (getWorkspaceMemberId env (bo_workspaceId x) u) (\<lambda>m.
       andThen (fetch (is_member b m)) (\<lambda>found. ret (if found then Some () else None))))) s = (r, t)"
  shows "still T s t \<and> (r = Inr (Some ()) \<longrightarrow> is_member b u (cn_committed s))"
proof -
  obtain r1 s1 where 1: "getBoardById env b s = (r1, s1)" by fastforce
  note s1 = getBoardById_run [OF assms(2) 1]
  show ?thesis
  proof (cases "\<exists>x. r1 = Inr (Some x)")
    case False
    then show ?thesis using assms(3) 1 s1 by (cases r1) (auto simp: andThen_def act_simps split: option.splits)
  next
    case True
    then obtain x where x: "r1 = Inr (Some x)" by blast
    obtain r2 s2 where 2: "getWorkspaceMember env (bo_workspaceId x) u s1 = (r2, s2)" by fastforce
    have ok: "conn_ok T s1" "out_ok T (cn_out s1)" using s1 by (simp_all add: still_def conn_ok_def ready_def)
    note m = getWorkspaceMember_run [OF 2 assms(1) ok(2)]
    have s2: "still T s s2" using still_trans [OF s1 still_asked [OF ok(1) m(1)]] .
    then have "cn_current s2 = cn_committed s" using still_current [OF s2] by (simp add: still_def)
    then show ?thesis
      using assms(3) 1 2 x s2 m(2) by (cases r2) (auto simp: andThen_def act_simps getWorkspaceMemberId_def split: if_splits)
  qed
qed

lemma checkBoardMembership_run:
  assumes "task_env_ok T env" "conn_ok T s" "checkBoardMembership env b u s = (r, t)"
  shows "still T s t" "r = Inr () \<Longrightarrow> is_member b u (cn_committed s)"
proof -
  let ?m = "andThen (getBoardById env b) (\<lambda>x. andThen (from_option (Coded ''BOARD_NOT_FOUND'') x) (\<lambda>x.
       andThen (getWorkspaceMemberId env (bo_workspaceId x) u) (\<lambda>m.
       andThen (fetch (is_member b m)) (\<lambda>found. ret (if found then Some () else None)))))"
  have "still T s t \<and> (r = Inr () \<longrightarrow> is_member b u (cn_committed s))"
  proof (cases "live_cell (kv_now env) (to_memberships (cn_out s)) (b, u)")
    case (Some x)
    then have "to_memberships (cn_out s) (b, u) \<noteq> None" by (auto simp: live_cell_def split: option.splits)
    then have "is_member b u (cn_committed s)" using assms(2) by (simp add: conn_ok_def memberships_ok_def)
    then show ?thesis using assms(2,3) Some
      by (auto simp: checkBoardMembership_def getOrSetDetail_def act_simps andThen_def still_refl)
  next
    case None
    obtain r1 s1 where 1: "?m s = (r1, s1)" by fastforce
    note s1 = membership_fetch_run [OF assms(1,2) 1]
    have ok: "conn_ok T s1" using s1 by (simp add: still_def)
    show ?thesis
    proof (cases "r1 = Inr (Some ())")
      case True
      have "still T s1 (s1\<lparr>cn_out := to_memberships_update (set_cell (kv_random env) (kv_now env) (b, u) () TTL_SHORT) (cn_out s1)\<rparr>)"
        using s1 True by (intro still_out [OF ok]) (auto simp: set_cell_def still_def split: if_splits)
      then show ?thesis using assms(3) None 1 True s1 still_trans [of T s s1]
        by (auto simp: checkBoardMembership_def getOrSetDetail_def act_simps andThen_def tell_def outside_def Let_def)
    next
      case False
      then show ?thesis using assms(3) None 1 s1
        by (cases r1) (auto simp: checkBoardMembership_def getOrSetDetail_def act_simps andThen_def split: option.splits)
    qed
  qed
  then show "still T s t" "r = Inr () \<Longrightarrow> is_member b u (cn_committed s)" by simp_all
qed

text \<open>Actions that are still wherever they start.\<close>

definition stays :: "answers \<Rightarrow> 'a task_act \<Rightarrow> bool" where
  "stays T m \<longleftrightarrow> (\<forall>s. conn_ok T s \<longrightarrow> still T s (snd (m s)))"

lemma stays_andThen: "stays T m \<Longrightarrow> (\<And>x. stays T (f x)) \<Longrightarrow> stays T (andThen m f)"
  unfolding stays_def
proof (intro allI impI)
  fix s assume m: "\<forall>s. conn_ok T s \<longrightarrow> still T s (snd (m s))" and f: "\<And>x. \<forall>s. conn_ok T s \<longrightarrow> still T s (snd (f x s))"
    and s: "conn_ok T s"
  obtain r t where run: "m s = (r, t)" by fastforce
  have t: "still T s t" using m s run by (metis snd_conv)
  then have "conn_ok T t" by (simp add: still_def)
  then show "still T s (snd (andThen m f s))"
    using f t run still_trans [OF t] by (cases r) (simp_all add: andThen_def)
qed

lemma stays_pure:
  "stays T (ret x)" "stays T (throw e)" "stays T (fetch f)" "stays T (ensure e b)" "stays T (from_option e y)"
  by (simp_all add: stays_def act_simps still_refl)

lemma stays_checks:
  assumes "task_env_ok T env"
  shows "stays T (checkBoardMembership env b u)" "stays T (getWorkspaceMemberId env w u)"
proof -
  show "stays T (checkBoardMembership env b u)"
    unfolding stays_def using checkBoardMembership_run(1) [OF assms] by (metis prod.collapse)
  have "stays T (getWorkspaceMember env w u)" unfolding stays_def
  proof (intro allI impI)
    fix s assume s: "conn_ok T s"
    then have "out_ok T (cn_out s)" by (simp add: conn_ok_def ready_def)
    then show "still T s (snd (getWorkspaceMember env w u s))"
      using still_asked [OF s] getWorkspaceMember_run(1) [OF _ assms] by (metis prod.collapse)
  qed
  then show "stays T (getWorkspaceMemberId env w u)"
    unfolding getWorkspaceMemberId_def by (intro stays_andThen stays_pure)
qed

lemma stays_tell:
  "(\<And>o'. to_lists (f o') = to_lists o' \<and> to_listVersion (f o') = to_listVersion o' \<and> to_wsMembers (f o') = to_wsMembers o' \<and>
     to_memberships (f o') = to_memberships o') \<Longrightarrow> stays T (tell f)"
  unfolding stays_def tell_def outside_def Let_def by (auto intro!: still_out)

lemma stays_look: "stays T (look f)"
  by (simp add: stays_def look_run still_refl)

lemma stays_group_cell: "stays T m \<Longrightarrow> stays T (getOrSetDetail to_groups to_groups_update r now g ttl m)"
  unfolding getOrSetDetail_def
  by (intro stays_andThen stays_look) (auto split: option.split intro!: stays_andThen stays_pure stays_tell)

lemma stays_board_list:
  "stays T m \<Longrightarrow> stays T (getOrSetList to_boardListVersion to_boardLists to_boardLists_update r now t key ttl m)"
  unfolding getOrSetList_def getOrSetDetail_def
  by (intro stays_andThen stays_look) (auto split: option.split intro!: stays_andThen stays_pure stays_tell)

lemma stays_lookups: "stays T (get_board i)" "stays T (get_group i)" "stays T (get_task i)" "stays T (group_of_task x)"
  unfolding get_board_def get_group_def get_task_def group_of_task_def by (intro stays_andThen stays_pure)+

lemma stays_group: "stays T (getGroupById env g)"
  unfolding getGroupById_def by (intro stays_group_cell stays_andThen stays_lookups stays_pure)

lemma stays_each: "(\<And>x. stays T (f x)) \<Longrightarrow> stays T (each f xs)"
  by (induction xs) (auto intro: stays_andThen stays_pure)

lemma reads_outcome:
  assumes "task_env_ok T env"
  shows "stays T (getTaskDetails env i u)" "stays T (filterTasks env q u)" "stays T (getBoardsInWorkspace env w p l u)"
    "stays T (getBoardDetails env b u)" "stays T (getBoardMembers env b u)" "stays T (getGroupsByBoardId env b u)"
    "stays T (getLabelsInBoard env b u)" "stays T (getChecklistsInTask env i u)"
  unfolding getTaskDetails_def filterTasks_def getBoardsInWorkspace_def getBoardDetails_def getBoardMembers_def
    getGroupsByBoardId_def getLabelsInBoard_def getChecklistsInTask_def Let_def
  by (intro stays_andThen stays_lookups stays_pure stays_checks [OF assms] stays_board_list)+

lemma reminder_stays: "stays T (process_reminder i)"
  unfolding process_reminder_def
  by (intro stays_andThen stays_tell) (auto split: option.split
      intro!: stays_andThen stays_pure stays_lookups stays_each stays_tell simp: send_push_def)

lemma createNewLabel_outcome:
  assumes "task_env_ok T env" "conn_ok T s"
  shows "outcome T F u s (snd (createNewLabel env b n c u s))"
proof -
  obtain r t where run: "checkBoardMembership env b u s = (r, t)" by fastforce
  note t = checkBoardMembership_run [OF assms run]
  show ?thesis
  proof (cases r)
    case (Inl e)
    then show ?thesis using run t(1) by (simp add: createNewLabel_def andThen_def still_outcome)
  next
    case (Inr x)
    let ?d = "cn_committed s"
    let ?l = "\<lparr>lb_id = kv_newId env ?d, lb_boardId = b, lb_name = n, lb_color = c\<rparr>"
    have same: "cn_committed t = ?d" "cn_current t = ?d" "\<not> cn_inTx t"
      using t(1) by (auto simp: still_def conn_ok_def ready_def idle_def)
    let ?t = "t\<lparr>cn_current := ?d\<lparr>labels := labels ?d @ [?l]\<rparr>, cn_committed := ?d\<lparr>labels := labels ?d @ [?l]\<rparr>\<rparr>"
    have "is_member b u ?d" using t(2) Inr by simp
    then have change: "task_change T F u [] ?d (?d\<lparr>labels := labels ?d @ [?l]\<rparr>)"
      using label_created [of ?l u ?d] assms(1) by (simp add: task_env_ok_def)
    have run': "snd (createNewLabel env b n c u s) = ?t"
      using run Inr same by (simp add: createNewLabel_def andThen_def act_simps store_def Let_def)
    have "is_member e a (?d\<lparr>labels := labels ?d @ [?l]\<rparr>) = is_member e a ?d" for e a by (rule same_members) simp
    then have "conn_ok T ?t"
      using t(1) same by (simp add: still_def conn_ok_def ready_def idle_def memberships_ok_def)
    then show ?thesis unfolding run' outcome_def using t(1) change
      by (auto simp: still_def intro: exI [of _ "[]"])
  qed
qed

end
