(* ===== verification/Task_Invariant.thy ===== *)
theory Task_Invariant
  imports Task_Refinement
begin

text \<open>
  What every change of the task service keeps: keys are unique, references lead to rows, no
  task is done; and which groups' lists a change concerns.
\<close>

section \<open>Keys and references\<close>

definition keys_ok :: "task_db \<Rightarrow> bool" where
  "keys_ok d \<longleftrightarrow> distinct (map bo_id (boards d)) \<and> distinct (map gr_id (groups d)) \<and> distinct (map lb_id (labels d)) \<and>
     distinct (map ta_id (tasks d)) \<and> distinct (map tt_id (task_attachments d)) \<and> distinct (map cl_id (checklists d)) \<and>
     distinct (map ci_id (checklist_items d)) \<and> distinct (map (\<lambda>m. (bm_boardId m, bm_memberId m)) (board_members d)) \<and>
     distinct (map (\<lambda>m. (tm_taskId m, tm_memberId m)) (task_members d))"

definition refers :: "('a \<Rightarrow> uuid) \<Rightarrow> 'a list \<Rightarrow> ('b \<Rightarrow> uuid) \<Rightarrow> 'b list \<Rightarrow> bool" where
  "refers f xs k ys \<longleftrightarrow> f ` set xs \<subseteq> k ` set ys"

definition refs_ok :: "task_db \<Rightarrow> bool" where
  "refs_ok d \<longleftrightarrow>
     refers bm_boardId (board_members d) bo_id (boards d) \<and> refers gr_boardId (groups d) bo_id (boards d) \<and>
     refers ta_groupId (tasks d) gr_id (groups d) \<and> refers tl_taskId (task_labels d) ta_id (tasks d) \<and>
     refers tl_labelId (task_labels d) lb_id (labels d) \<and> refers tm_taskId (task_members d) ta_id (tasks d) \<and>
     refers tt_taskId (task_attachments d) ta_id (tasks d) \<and> refers cl_taskId (checklists d) ta_id (tasks d) \<and>
     refers ci_checklistId (checklist_items d) cl_id (checklists d)"

lemma refers_fewer: "refers f xs k ys \<Longrightarrow> refers f (filter P xs) k ys"
  by (auto simp: refers_def)

lemma refers_more: "refers f xs k ys \<Longrightarrow> refers f xs k (ys @ zs)"
  by (auto simp: refers_def)

lemma refers_append [simp]: "refers f (xs @ zs) k ys \<longleftrightarrow> refers f xs k ys \<and> refers f zs k ys"
  "refers f (x # zs) k ys \<longleftrightarrow> f x \<in> k ` set ys \<and> refers f zs k ys" "refers f [] k ys"
  by (auto simp: refers_def)

lemma refers_deleted:
  "refers f xs k ys \<Longrightarrow> refers f (filter (\<lambda>x. f x \<notin> k ` {y \<in> set ys. P y}) xs) k (filter (\<lambda>y. \<not> P y) ys)"
  "refers f xs k ys \<Longrightarrow> refers f (filter (\<lambda>x. f x \<notin> i) xs) k (filter (\<lambda>y. k y \<notin> i) ys)"
  "refers f xs k ys \<Longrightarrow> refers f (filter (\<lambda>x. f x \<noteq> j) xs) k (filter (\<lambda>y. k y \<noteq> j) ys)"
  by (fastforce simp: refers_def)+

lemma refers_map:
  "(\<And>x. f (g x) = f x) \<Longrightarrow> refers f (map g xs) k ys = refers f xs k ys"
  "(\<And>y. k (h y) = k y) \<Longrightarrow> refers f xs k (map h ys) = refers f xs k ys"
  by (simp_all add: refers_def image_comp comp_def)

lemma refers_map_if:
  "(\<And>x. P x \<Longrightarrow> f (g x) = f x) \<Longrightarrow> refers f (map (\<lambda>x. if P x then g x else x) xs) k ys = refers f xs k ys"
  "(\<And>y. Q y \<Longrightarrow> k (h y) = k y) \<Longrightarrow> refers f xs k (map (\<lambda>y. if Q y then h y else y) ys) = refers f xs k ys"
  by (rule refers_map; simp)+

lemma refers_map_const:
  "f z = i \<Longrightarrow> refers f' xs f (map (\<lambda>y. if f y = i then z else y) ys) = refers f' xs f ys"
  using refers_map_if(2) [of "\<lambda>y. f y = i" f "\<lambda>_. z"] by simp

lemmas refers_rules = refers_fewer refers_more refers_deleted

definition task_ok :: "task_db \<Rightarrow> bool" where
  "task_ok d \<longleftrightarrow> keys_ok d \<and> refs_ok d \<and> (\<forall>t \<in> set (tasks d). \<not> ta_isDone t)"

lemma map_same: "(\<And>x. f (g x) = f x) \<Longrightarrow> map f (map g xs) = map f xs" "(\<And>x. f (g x) = f x) \<Longrightarrow> f ` g ` X = f ` X"
  by (simp_all add: image_comp comp_def)

lemma map_if_same:
  "(\<And>x. P x \<Longrightarrow> f (g x) = f x) \<Longrightarrow> map f (map (\<lambda>x. if P x then g x else x) xs) = map f xs"
  "(\<And>x. P x \<Longrightarrow> f (g x) = f x) \<Longrightarrow> f ` (\<lambda>x. if P x then g x else x) ` X = f ` X"
  by (rule map_same; simp)+

lemma keys_delete:
  "keys_ok d \<Longrightarrow> keys_ok (delete_checklists P d)" "keys_ok d \<Longrightarrow> keys_ok (delete_tasks Q d)"
  "keys_ok d \<Longrightarrow> keys_ok (delete_groups R d)" "keys_ok d \<Longrightarrow> keys_ok (delete_board i d)"
  by (simp_all add: keys_ok_def delete_checklists_def delete_tasks_def delete_groups_def delete_board_def Let_def
      distinct_map_filter)

lemma refs_delete_checklists: "refs_ok d \<Longrightarrow> refs_ok (delete_checklists P d)"
  by (simp add: refs_ok_def delete_checklists_def Let_def refers_rules)

lemma refs_delete_tasks: "refs_ok d \<Longrightarrow> refs_ok (delete_tasks Q d)"
  unfolding delete_tasks_def Let_def by (simp add: refs_ok_def delete_checklists_def Let_def refers_rules)

lemma refs_delete_groups: "refs_ok d \<Longrightarrow> refs_ok (delete_groups R d)"
  unfolding delete_groups_def delete_tasks_def Let_def by (simp add: refs_ok_def delete_checklists_def Let_def refers_rules)

lemma refs_delete_board: "refs_ok d \<Longrightarrow> refs_ok (delete_board i d)"
  unfolding delete_board_def delete_groups_def delete_tasks_def Let_def
  by (simp add: refs_ok_def delete_checklists_def Let_def refers_rules)

text \<open>Changes of one table that keep its keys and its references.\<close>

lemma ids_new: "i \<notin> all_ids d \<Longrightarrow> i \<notin> bo_id ` set (boards d) \<and> i \<notin> gr_id ` set (groups d) \<and> i \<notin> lb_id ` set (labels d) \<and>
    i \<notin> ta_id ` set (tasks d) \<and> i \<notin> tt_id ` set (task_attachments d) \<and> i \<notin> cl_id ` set (checklists d) \<and>
    i \<notin> ci_id ` set (checklist_items d)"
  by (simp add: all_ids_def)

lemma placed_map: "tasks (placed env i g k d) = map (\<lambda>t. if ta_id t = i
    then t\<lparr>ta_groupId := g, ta_order := k, ta_updatedAt := kv_now env\<rparr> else t) (tasks d)"
  by (simp add: placed_def)

lemma keys_moves:
  "keys_ok (placed env i g k d) = keys_ok d" "keys_ok (shifted env h lo hi n d) = keys_ok d"
  "keys_ok (shifted_groups env b l m n d) = keys_ok d" "keys_ok (relabel i ls d) = keys_ok d"
  by (simp_all add: keys_ok_def placed_def shifted_def shifted_groups_def relabel_def comp_def if_distrib cong: if_cong)

lemma keys_replaced:
  "ta_id t = i \<Longrightarrow> keys_ok (replaced_task i t d) = keys_ok d" "keys_ok (replaced_group g d) = keys_ok d"
proof -
  have 1: "map ta_id (map (\<lambda>x. if ta_id x = i then t else x) (tasks d)) = map ta_id (tasks d)" if "ta_id t = i"
    using that by (simp add: map_same)
  have 2: "map gr_id (map (\<lambda>x. if gr_id x = gr_id g then g else x) (groups d)) = map gr_id (groups d)"
    by (simp add: map_same)
  show "ta_id t = i \<Longrightarrow> keys_ok (replaced_task i t d) = keys_ok d" using 1 by (simp add: keys_ok_def replaced_task_def del: map_map)
  show "keys_ok (replaced_group g d) = keys_ok d" using 2 by (simp add: keys_ok_def replaced_group_def del: map_map)
qed

lemma comp_same: "(\<And>x. P x \<Longrightarrow> f (g x) = f x) \<Longrightarrow> f \<circ> (\<lambda>x. if P x then g x else x) = f"
  by (rule ext) simp

lemma comp_const: "f z = i \<Longrightarrow> f \<circ> (\<lambda>x. if f x = i then z else x) = f"
  by (rule ext) simp

lemma keys_kept: "task_change T F u G d d' \<Longrightarrow> keys_ok d \<Longrightarrow> refs_ok d \<Longrightarrow> keys_ok d'"
proof (induction rule: task_change.induct)
  case (task_updated i d t g t' ls announced)
  then show ?case by (cases ls) (simp_all add: keys_moves keys_replaced)
next
  case (board_created b d k)
  then have "bo_id b \<notin> bm_boardId ` set (board_members d)" by (auto simp: refs_ok_def refers_def dest!: ids_new)
  then show ?case using ids_new [OF board_created(2)] board_created(4) by (auto simp: keys_ok_def)
qed (auto simp: keys_delete keys_moves keys_replaced, (auto simp: keys_ok_def is_member_def comp_same comp_const distinct_map_filter dest: ids_new find_ids)+)

text \<open>References.\<close>

lemma refs_moves:
  "refs_ok (shifted env h lo hi n d) = refs_ok d" "refs_ok (shifted_groups env b l m n d) = refs_ok d"
  by (simp_all add: refs_ok_def shifted_def shifted_groups_def refers_map_if)

lemma refs_placed: "refs_ok d \<Longrightarrow> g \<in> gr_id ` set (groups d) \<Longrightarrow> refs_ok (placed env i g k d)"
  by (auto simp: refs_ok_def placed_def refers_map_if) (auto simp: refers_def)

lemma refs_replaced_task: "refs_ok d \<Longrightarrow> ta_groupId t \<in> gr_id ` set (groups d) \<Longrightarrow> ta_id t = i \<Longrightarrow> refs_ok (replaced_task i t d)"
  by (auto simp: refs_ok_def replaced_task_def refers_map_const) (auto simp: refers_def)

lemma refs_replaced_group: "refs_ok d \<Longrightarrow> gr_boardId g \<in> bo_id ` set (boards d) \<Longrightarrow> refs_ok (replaced_group g d)"
  by (auto simp: refs_ok_def replaced_group_def refers_map_const) (auto simp: refers_def)

lemma refs_relabel:
  "refs_ok d \<Longrightarrow> i \<in> ta_id ` set (tasks d) \<Longrightarrow> set ls \<subseteq> lb_id ` set (labels d) \<Longrightarrow> refs_ok (relabel i ls d)"
  by (auto simp: refs_ok_def relabel_def refers_rules) (auto simp: refers_def)

lemma find_in:
  "find_group i d = Some g \<Longrightarrow> i \<in> gr_id ` set (groups d)" "find_board i d = Some b \<Longrightarrow> i \<in> bo_id ` set (boards d)"
  "find_task i d = Some t \<Longrightarrow> i \<in> ta_id ` set (tasks d)" "find_checklist i d = Some c \<Longrightarrow> i \<in> cl_id ` set (checklists d)"
  by (metis find_ids find_mem image_eqI)+

lemma own_in: "own u i d t g \<Longrightarrow> i \<in> ta_id ` set (tasks d)" "own u i d t g \<Longrightarrow> ta_groupId t \<in> gr_id ` set (groups d)"
  by (auto simp: own_def dest: find_in)

lemma may_in: "may u b d \<Longrightarrow> b \<in> bo_id ` set (boards d)"
  by (auto simp: may_def dest: find_in)

lemma groups_kept: "groups (shifted env h lo hi n d) = groups d"
  by (simp add: shifted_def)

lemma replaced_ids:
  assumes "ta_id t = i"
  shows "ta_id ` set (tasks (replaced_task i t d)) = ta_id ` set (tasks d)" "labels (replaced_task i t d) = labels d"
proof -
  have "map ta_id (map (\<lambda>x. if ta_id x = i then t else x) (tasks d)) = map ta_id (tasks d)" using assms by (simp add: map_same)
  then show "ta_id ` set (tasks (replaced_task i t d)) = ta_id ` set (tasks d)"
    unfolding set_map [symmetric] by (simp add: replaced_task_def del: map_map set_map)
qed (simp add: replaced_task_def)

lemma refs_kept: "task_change T F u G d d' \<Longrightarrow> refs_ok d \<Longrightarrow> refs_ok d'"
proof (induction rule: task_change.induct)
  case (task_created t d g)
  then show ?case by (auto simp: refs_ok_def refers_more dest: find_in)
next
  case (task_updated i d t g t' ls announced)
  have "refs_ok (replaced_task i t' d)" using task_updated by (simp add: refs_replaced_task)
  then show ?case using task_updated(5) own_in(1) [OF task_updated(1)] task_updated(2)
    by (cases ls) (auto intro!: refs_relabel simp: replaced_ids)
next
  case (member_assigned i d t g m k)
  then show ?case by (auto simp: refs_ok_def dest: own_in)
next
  case (attachment_added i d t g k n l)
  then show ?case by (auto simp: refs_ok_def dest: own_in)
next
  case (attachment_changed i d t g j a n l)
  then show ?case by (simp add: refs_ok_def refers_map_if)
next
  case (moved_over i d t g g' h env k)
  then show ?case by (auto intro!: refs_placed simp: refs_moves groups_kept dest: find_in)
next
  case (moved_last i d t g g' h env)
  then show ?case by (auto intro!: refs_placed dest: find_in)
next
  case (board_created b d k)
  then show ?case by (auto simp: refs_ok_def refers_more)
next
  case (board_updated i d b b')
  then show ?case by (simp add: refs_ok_def refers_map_const)
next
  case (member_added i d b m k)
  then show ?case by (auto simp: refs_ok_def dest: find_in)
next
  case (group_added g d)
  then show ?case by (auto simp: refs_ok_def refers_more dest: may_in)
next
  case (group_updated i d g g')
  then show ?case by (auto intro!: refs_replaced_group dest: may_in)
next
  case (groups_up i d g j h n env)
  then have "gr_boardId g \<in> bo_id ` set (boards (shifted_groups env (gr_boardId g) (gr_order g + 1) (gr_order h) (- 1) d))"
    by (auto simp: shifted_groups_def dest: may_in)
  then show ?case using groups_up by (intro refs_replaced_group) (simp_all add: refs_moves)
next
  case (groups_down i d g j h n env)
  then have "gr_boardId g \<in> bo_id ` set (boards (shifted_groups env (gr_boardId g) (gr_order h) (gr_order g - 1) 1 d))"
    by (auto simp: shifted_groups_def dest: may_in)
  then show ?case using groups_down by (intro refs_replaced_group) (simp_all add: refs_moves)
next
  case (label_created l d)
  then show ?case by (simp add: refs_ok_def refers_more)
next
  case (label_updated i d l l')
  then show ?case by (simp add: refs_ok_def refers_map_const)
next
  case (label_deleted i d l)
  then show ?case by (simp add: refs_ok_def refers_rules)
next
  case (checklist_created i d t g k n)
  then show ?case by (auto simp: refs_ok_def refers_more dest: own_in)
next
  case (checklist_updated i d c t g n)
  then have "cl_id c = i" "cl_taskId c \<in> ta_id ` set (tasks d)" by (auto dest: find_ids own_in)
  then show ?case using checklist_updated(3) by (auto simp: refs_ok_def refers_map_const) (auto simp: refers_def)
next
  case (item_added i d c t g k n)
  then show ?case by (auto simp: refs_ok_def dest: find_in)
next
  case (item_changed i d x c t g x')
  then show ?case using find_in(4) [OF item_changed(2)] by (auto simp: refs_ok_def) (auto simp: refers_def)
next
  case (moved_up i d t g k env)
  then show ?case by (intro refs_placed) (simp_all add: refs_moves groups_kept own_in)
next
  case (moved_down i d t g k env)
  then show ?case by (intro refs_placed) (simp_all add: refs_moves groups_kept own_in)
next
  case (labels_set i d t g xs)
  then show ?case by (intro refs_relabel) (simp_all add: own_in)
qed (simp_all add: refs_delete_checklists refs_delete_tasks refs_delete_groups refs_delete_board,
  (simp_all add: refs_ok_def refers_rules))

lemma tasks_of_deletes:
  "set (tasks (delete_checklists P d)) \<subseteq> set (tasks d)" "set (tasks (delete_tasks Q d)) \<subseteq> set (tasks d)"
  "set (tasks (delete_groups R d)) \<subseteq> set (tasks d)" "set (tasks (delete_board i d)) \<subseteq> set (tasks d)"
  by (auto simp: delete_checklists_def delete_tasks_def delete_groups_def delete_board_def Let_def)

definition none_done :: "task_db \<Rightarrow> bool" where
  "none_done d \<longleftrightarrow> (\<forall>t \<in> set (tasks d). \<not> ta_isDone t)"

lemma none_done_moves: "none_done (shifted env h lo hi n d) = none_done d" "none_done (placed env i g k d) = none_done d"
proof -
  have alt: "none_done d = (True \<notin> set (map ta_isDone (tasks d)))" for d by (auto simp: none_done_def)
  show "none_done (shifted env h lo hi n d) = none_done d" "none_done (placed env i g k d) = none_done d"
    unfolding alt by (simp_all add: shifted_def placed_def map_if_same del: map_map set_map)
qed

lemma none_done_kept: "task_change T F u G d d' \<Longrightarrow> none_done d \<Longrightarrow> none_done d'"
proof (induction rule: task_change.induct)
  case (task_updated i d t g t' ls announced)
  then have "t \<in> set (tasks d)" by (auto simp: own_def dest: find_mem)
  then show ?case using task_updated by (cases ls) (auto simp: none_done_def replaced_task_def relabel_def)
qed (simp_all add: none_done_moves, (auto simp: none_done_def relabel_def replaced_group_def shifted_groups_def
  dest: tasks_of_deletes [THEN subsetD]))

lemma task_ok_kept: "task_change T F u G d d' \<Longrightarrow> task_ok d \<Longrightarrow> task_ok d'"
  using keys_kept refs_kept none_done_kept unfolding task_ok_def none_done_def by blast

end
