(* ===== verification/Task_Lists.thy ===== *)
theory Task_Lists
  imports Task_Invariant
begin

text \<open>
  The cached lists of tasks: a change leaves the list of every group alone that it does not declare
  out of date, so what a cell of the current version holds is what the query would answer.
\<close>

section \<open>Which lists a change concerns\<close>

definition in_group :: "uuid \<Rightarrow> task \<Rightarrow> bool" where
  "in_group h t \<longleftrightarrow> ta_groupId t = h"

lemma listing_frame:
  assumes "filter (in_group h) (tasks d') = filter (in_group h) (tasks d)"
    "\<And>x. x \<in> set (tasks d) \<Longrightarrow> ta_groupId x = h \<Longrightarrow> load_task d' x = load_task d x"
  shows "group_listing h d' = group_listing h d"
proof -
  have "filter (\<lambda>t. ta_groupId t = h) (tasks d') = filter (\<lambda>t. ta_groupId t = h) (tasks d)"
    using assms(1) by (simp add: in_group_def [abs_def])
  moreover have "load_task d' x = load_task d x" if "x \<in> set (sort_key ta_order (filter (\<lambda>t. ta_groupId t = h) (tasks d)))" for x
    using that assms(2) by simp
  ultimately show ?thesis by (simp add: group_listing_def)
qed

lemma filter_map_same:
  "(\<And>x. x \<in> set xs \<Longrightarrow> P (f x) = P x \<and> (P x \<longrightarrow> f x = x)) \<Longrightarrow> filter P (map f xs) = filter P xs"
  by (induction xs) auto

lemma filter_if_same:
  "(\<And>x. x \<in> set xs \<Longrightarrow> c x \<Longrightarrow> \<not> P x \<and> \<not> P (f x)) \<Longrightarrow> filter P (map (\<lambda>x. if c x then f x else x) xs) = filter P xs"
  by (induction xs) auto

lemma filter_filter_same: "(\<And>x. x \<in> set xs \<Longrightarrow> P x \<Longrightarrow> Q x) \<Longrightarrow> filter P (filter Q xs) = filter P xs"
  by (induction xs) auto

lemma distinct_key: "distinct (map f xs) \<Longrightarrow> x \<in> set xs \<Longrightarrow> y \<in> set xs \<Longrightarrow> f x = f y \<Longrightarrow> x = y"
  by (simp add: distinct_map inj_on_def)

lemma other_task:
  assumes "keys_ok d" "own u i d t g" "x \<in> set (tasks d)" "ta_groupId x \<noteq> ta_groupId t"
  shows "ta_id x \<noteq> i"
proof
  assume "ta_id x = i"
  moreover have "t \<in> set (tasks d)" "ta_id t = i" using assms(2) by (auto simp: own_def dest: find_mem find_ids)
  moreover have "distinct (map ta_id (tasks d))" using assms(1) by (simp add: keys_ok_def)
  ultimately have "x = t" using assms(3) distinct_key by fastforce
  then show False using assms(4) by simp
qed

text \<open>What hangs on other tasks.\<close>

lemma load_other:
  assumes "labels d' = labels d" "\<And>l. (\<lparr>tl_taskId = ta_id x, tl_labelId = l\<rparr> \<in> set (task_labels d')) = (\<lparr>tl_taskId = ta_id x, tl_labelId = l\<rparr> \<in> set (task_labels d))"
    "filter (\<lambda>m. tm_taskId m = ta_id x) (task_members d') = filter (\<lambda>m. tm_taskId m = ta_id x) (task_members d)"
    "filter (\<lambda>a. tt_taskId a = ta_id x) (task_attachments d') = filter (\<lambda>a. tt_taskId a = ta_id x) (task_attachments d)"
    "filter (\<lambda>c. cl_taskId c = ta_id x) (checklists d') = filter (\<lambda>c. cl_taskId c = ta_id x) (checklists d)"
    "\<And>c. c \<in> set (checklists d) \<Longrightarrow> cl_taskId c = ta_id x \<Longrightarrow> items_of d' (cl_id c) = items_of d (cl_id c)"
  shows "load_task d' x = load_task d x"
proof -
  have ex: "(\<exists>m \<in> set (task_labels e). tl_taskId m = i \<and> tl_labelId m = l) = (\<lparr>tl_taskId = i, tl_labelId = l\<rparr> \<in> set (task_labels e))" for e i l
  proof
    assume "\<exists>m \<in> set (task_labels e). tl_taskId m = i \<and> tl_labelId m = l"
    then obtain m where m: "m \<in> set (task_labels e)" "tl_taskId m = i" "tl_labelId m = l" by blast
    have "m = \<lparr>tl_taskId = i, tl_labelId = l\<rparr>" using m(2,3) by (cases m) simp
    then show "\<lparr>tl_taskId = i, tl_labelId = l\<rparr> \<in> set (task_labels e)" using m(1) by simp
  qed force
  have "labels_of d' (ta_id x) = labels_of d (ta_id x)" using assms(1,2) by (simp add: labels_of_def ex)
  moreover have "map (\<lambda>c. (c, items_of d' (cl_id c))) (filter (\<lambda>c. cl_taskId c = ta_id x) (checklists d')) =
      map (\<lambda>c. (c, items_of d (cl_id c))) (filter (\<lambda>c. cl_taskId c = ta_id x) (checklists d))"
    unfolding assms(5) using assms(6) by simp
  ultimately show ?thesis using assms(3,4) by (simp add: load_task_def members_of_def)
qed

lemma load_tables:
  "labels d' = labels d \<Longrightarrow> task_labels d' = task_labels d \<Longrightarrow> task_members d' = task_members d \<Longrightarrow>
   task_attachments d' = task_attachments d \<Longrightarrow> checklists d' = checklists d \<Longrightarrow> checklist_items d' = checklist_items d \<Longrightarrow>
   load_task d' x = load_task d x"
  by (rule load_other) (simp_all add: items_of_def)

lemma relabel_other: "ta_id x \<noteq> i \<Longrightarrow>
  (\<lparr>tl_taskId = ta_id x, tl_labelId = l\<rparr> \<in> set (task_labels (relabel i ls d))) = (\<lparr>tl_taskId = ta_id x, tl_labelId = l\<rparr> \<in> set (task_labels d))"
  by (auto simp: relabel_def)

lemma load_relabel: "ta_id x \<noteq> i \<Longrightarrow> load_task (relabel i ls d) x = load_task d x"
  by (rule load_other) (simp_all add: relabel_other, simp_all add: relabel_def items_of_def)

text \<open>Deleting tasks, with what hangs on them, leaves the others alone.\<close>

lemma load_delete_checklists:
  assumes "keys_ok d" "\<And>c. c \<in> set (checklists d) \<Longrightarrow> cl_taskId c = ta_id x \<Longrightarrow> \<not> P c"
  shows "load_task (delete_checklists P d) x = load_task d x"
proof (rule load_other)
  fix c assume c: "c \<in> set (checklists d)" "cl_taskId c = ta_id x"
  have "cl_id c \<notin> cl_id ` {c \<in> set (checklists d). P c}"
  proof
    assume "cl_id c \<in> cl_id ` {c \<in> set (checklists d). P c}"
    then obtain c' where "c' \<in> set (checklists d)" "P c'" "cl_id c = cl_id c'" by blast
    moreover have "distinct (map cl_id (checklists d))" using assms(1) by (simp add: keys_ok_def)
    ultimately have "c' = c" using distinct_key c(1) by fastforce
    then show False using assms(2) [OF c] \<open>P c'\<close> by simp
  qed
  then show "items_of (delete_checklists P d) (cl_id c) = items_of d (cl_id c)"
    unfolding items_of_def by (simp add: delete_checklists_def Let_def) (rule filter_cong, simp, metis)
qed (use assms(2) in \<open>auto simp: delete_checklists_def Let_def intro!: filter_cong\<close>)

lemma load_delete_tasks:
  assumes "keys_ok d" "ta_id x \<notin> ta_id ` {t \<in> set (tasks d). Q t}"
  shows "load_task (delete_tasks Q d) x = load_task d x"
proof -
  let ?gone = "map ta_id (filter Q (tasks d))"
  let ?e = "d\<lparr>tasks := filter (\<lambda>t. \<not> Q t) (tasks d), task_labels := filter (\<lambda>m. tl_taskId m \<notin> set ?gone) (task_labels d),
      task_members := filter (\<lambda>m. tm_taskId m \<notin> set ?gone) (task_members d),
      task_attachments := filter (\<lambda>a. tt_taskId a \<notin> set ?gone) (task_attachments d)\<rparr>"
  have e: "load_task ?e x = load_task d x"
    by (rule load_other) (use assms(2) in \<open>auto simp: items_of_def intro!: filter_cong dest: sym [of _ "ta_id x"]\<close>)
  have "keys_ok ?e" using assms(1) by (simp add: keys_ok_def distinct_map_filter)
  then have "load_task (delete_checklists (\<lambda>c. cl_taskId c \<in> set ?gone) ?e) x = load_task ?e x"
    by (rule load_delete_checklists) (use assms(2) in auto)
  then show ?thesis unfolding delete_tasks_def Let_def using e by simp
qed

lemma tasks_of_delete: "tasks (delete_checklists P d) = tasks d" "tasks (delete_tasks Q d) = filter (\<lambda>t. \<not> Q t) (tasks d)"
  by (simp_all add: delete_checklists_def delete_tasks_def Let_def)

lemma listing_delete_tasks:
  assumes "keys_ok d" "\<And>t. t \<in> set (tasks d) \<Longrightarrow> Q t \<Longrightarrow> ta_groupId t \<noteq> h"
  shows "group_listing h (delete_tasks Q d) = group_listing h d"
proof (rule listing_frame)
  show "filter (in_group h) (tasks (delete_tasks Q d)) = filter (in_group h) (tasks d)"
    unfolding tasks_of_delete by (rule filter_filter_same) (use assms(2) in \<open>auto simp: in_group_def\<close>)
  fix x assume x: "x \<in> set (tasks d)" "ta_groupId x = h"
  have "ta_id x \<notin> ta_id ` {t \<in> set (tasks d). Q t}"
  proof
    assume "ta_id x \<in> ta_id ` {t \<in> set (tasks d). Q t}"
    then obtain t where t: "t \<in> set (tasks d)" "Q t" "ta_id x = ta_id t" by blast
    moreover have "distinct (map ta_id (tasks d))" using assms(1) by (simp add: keys_ok_def)
    ultimately have "t = x" using distinct_key x(1) by fastforce
    then show False using assms(2) t x by blast
  qed
  then show "load_task (delete_tasks Q d) x = load_task d x" by (rule load_delete_tasks [OF assms(1)])
qed

lemma listing_other_tables:
  "tasks d' = tasks d \<Longrightarrow> labels d' = labels d \<Longrightarrow> task_labels d' = task_labels d \<Longrightarrow> task_members d' = task_members d \<Longrightarrow>
   task_attachments d' = task_attachments d \<Longrightarrow> checklists d' = checklists d \<Longrightarrow> checklist_items d' = checklist_items d \<Longrightarrow>
   group_listing h d' = group_listing h d"
  by (intro listing_frame load_tables) simp_all

lemma listing_delete_groups:
  assumes "keys_ok d" "\<And>g. g \<in> set (groups d) \<Longrightarrow> R g \<Longrightarrow> gr_id g \<noteq> h"
  shows "group_listing h (delete_groups R d) = group_listing h d"
proof -
  let ?e = "d\<lparr>groups := filter (\<lambda>g. \<not> R g) (groups d)\<rparr>"
  have "keys_ok ?e" using assms(1) by (simp add: keys_ok_def distinct_map_filter)
  then have "group_listing h (delete_tasks (\<lambda>t. ta_groupId t \<in> set (map gr_id (filter R (groups d)))) ?e) = group_listing h ?e"
    by (rule listing_delete_tasks) (use assms(2) in fastforce)
  also have "\<dots> = group_listing h d" by (rule listing_other_tables) simp_all
  finally show ?thesis unfolding delete_groups_def Let_def .
qed

text \<open>Moving tasks concerns the groups they are moved in.\<close>

lemma listing_shifted: "g \<noteq> h \<Longrightarrow> group_listing h (shifted env g lo hi n d) = group_listing h d"
proof (rule listing_frame)
  assume "g \<noteq> h"
  then show "filter (in_group h) (tasks (shifted env g lo hi n d)) = filter (in_group h) (tasks d)"
    unfolding shifted_def by (simp, intro filter_map_same) (simp add: in_group_def in_span_def)
qed (intro load_tables; simp add: shifted_def)

lemma listing_placed:
  assumes "\<And>x. x \<in> set (tasks d) \<Longrightarrow> ta_id x = i \<Longrightarrow> ta_groupId x \<noteq> h" "g \<noteq> h"
  shows "group_listing h (placed env i g k d) = group_listing h d"
proof (rule listing_frame)
  show "filter (in_group h) (tasks (placed env i g k d)) = filter (in_group h) (tasks d)"
    unfolding placed_def by (simp, intro filter_map_same) (use assms in \<open>auto simp: in_group_def\<close>)
qed (intro load_tables; simp add: placed_def)

lemma shifted_task: "x \<in> set (tasks (shifted env g lo hi n d)) \<Longrightarrow> \<exists>y \<in> set (tasks d). ta_id y = ta_id x \<and> ta_groupId y = ta_groupId x"
  by (auto simp: shifted_def split: if_splits)

lemma moved_task:
  assumes "keys_ok d" "own u i d t g" "ta_groupId t \<noteq> h" "x \<in> set (tasks d)" "ta_id x = i"
  shows "ta_groupId x \<noteq> h"
  using other_task [OF assms(1,2,4)] assms(3,5) by auto

lemma moved_task_shifted:
  assumes "keys_ok d" "own u i d t g" "ta_groupId t \<noteq> h" "x \<in> set (tasks (shifted env g' lo hi n d))" "ta_id x = i"
  shows "ta_groupId x \<noteq> h"
proof -
  obtain y where "y \<in> set (tasks d)" "ta_id y = ta_id x" "ta_groupId y = ta_groupId x" using shifted_task assms(4) by blast
  then show ?thesis using moved_task [OF assms(1-3)] assms(5) by metis
qed

lemma listing_moved:
  assumes "keys_ok d" "own u i d t g" "ta_groupId t \<noteq> h"
  shows "group_listing h (placed env i (ta_groupId t) k (shifted env (ta_groupId t) lo hi n d)) = group_listing h d"
  using listing_placed [OF moved_task_shifted [OF assms] assms(3)] listing_shifted [OF assms(3)] by simp

lemma other_checklist:
  assumes "keys_ok d" "find_checklist i d = Some c" "own u (cl_taskId c) d t g" "x \<in> set (tasks d)" "ta_groupId x \<noteq> ta_groupId t"
    "y \<in> set (checklists d)" "cl_taskId y = ta_id x"
  shows "cl_id y \<noteq> i"
proof
  assume y: "cl_id y = i"
  have c: "c \<in> set (checklists d)" "cl_id c = i" using assms(2) by (auto dest: find_mem find_ids)
  have "distinct (map cl_id (checklists d))" using assms(1) by (simp add: keys_ok_def)
  then have "y = c" using distinct_key [of cl_id "checklists d" y c] assms(6) c y by simp
  then show False using other_task [OF assms(1,3-5)] assms(7) by simp
qed

text \<open>A change of what hangs on task \<open>i\<close>.\<close>

lemma listing_of_others:
  assumes "keys_ok d" "own u i d t g" "ta_groupId t \<noteq> h" "tasks d' = tasks d" "\<And>x. ta_id x \<noteq> i \<Longrightarrow> load_task d' x = load_task d x"
  shows "group_listing h d' = group_listing h d"
  by (rule listing_frame) (use assms other_task [OF assms(1,2)] in auto)

lemma listing_of_checklists:
  assumes "keys_ok d" "find_checklist i d = Some c" "own u (cl_taskId c) d t g" "ta_groupId t \<noteq> h" "tasks d' = tasks d"
    "labels d' = labels d" "task_labels d' = task_labels d" "task_members d' = task_members d" "task_attachments d' = task_attachments d"
    "\<And>k. k \<noteq> cl_taskId c \<Longrightarrow> filter (\<lambda>c. cl_taskId c = k) (checklists d') = filter (\<lambda>c. cl_taskId c = k) (checklists d)"
    "\<And>k. k \<noteq> i \<Longrightarrow> items_of d' k = items_of d k"
  shows "group_listing h d' = group_listing h d"
proof (rule listing_frame)
  fix x assume x: "x \<in> set (tasks d)" "ta_groupId x = h"
  have k: "ta_id x \<noteq> cl_taskId c" using other_task [OF assms(1,3) x(1)] assms(4) x(2) by simp
  have items: "items_of d' (cl_id y) = items_of d (cl_id y)" if "y \<in> set (checklists d)" "cl_taskId y = ta_id x" for y
    using other_checklist [OF assms(1-3) x(1) _ that] assms(4,11) x(2) by simp
  show "load_task d' x = load_task d x"
    by (rule load_other [OF assms(6) _ _ _ assms(10) [OF k] items]) (simp_all add: assms(7,8,9))
qed (simp add: assms(5))

lemma labels_of_others:
  assumes "label_used_in i (set G) d" "x \<in> set (tasks d)" "ta_groupId x \<notin> set G" "m \<in> set (task_labels d)" "tl_taskId m = ta_id x"
  shows "tl_labelId m \<noteq> i"
proof
  assume "tl_labelId m = i"
  then have "\<forall>t \<in> set (tasks d). ta_id t = tl_taskId m \<longrightarrow> ta_groupId t \<in> set G"
    using assms(1,4) unfolding label_used_in_def by blast
  then show False using assms(2,3,5) by metis
qed

lemma listing_of_labels:
  assumes "label_used_in i (set G) d" "h \<notin> set G" "tasks d' = tasks d" "task_members d' = task_members d"
    "task_attachments d' = task_attachments d" "checklists d' = checklists d" "checklist_items d' = checklist_items d"
    "\<And>k. (\<And>m. m \<in> set (task_labels d) \<Longrightarrow> tl_taskId m = k \<Longrightarrow> tl_labelId m \<noteq> i) \<Longrightarrow> labels_of d' k = labels_of d k"
  shows "group_listing h d' = group_listing h d"
proof (rule listing_frame)
  fix x assume x: "x \<in> set (tasks d)" "ta_groupId x = h"
  have "labels_of d' (ta_id x) = labels_of d (ta_id x)"
    by (rule assms(8)) (use labels_of_others [OF assms(1) x(1)] x(2) assms(2) in blast)
  then show "load_task d' x = load_task d x" using assms by (simp add: load_task_def members_of_def items_of_def)
qed (simp add: assms)

lemma listing_kept:
  "task_change T F u G d d' \<Longrightarrow> F \<noteq> None \<Longrightarrow> keys_ok d \<Longrightarrow> h \<notin> set G \<Longrightarrow> find_group h d' \<noteq> None \<Longrightarrow> refs_ok d \<Longrightarrow>
   group_listing h d' = group_listing h d"
proof (induction rule: task_change.induct)
  case (task_created t d g)
  then show ?case by (intro listing_frame load_tables) (simp_all add: in_group_def)
next
  case (task_updated i d t g t' ls announced)
  then have h: "ta_groupId t \<noteq> h" "ta_groupId t' = ta_groupId t" by auto
  have ids: "ta_id x \<noteq> i" if "x \<in> set (tasks d)" "ta_groupId x = h" for x
    using other_task [OF task_updated(8,1) that(1)] that(2) h by auto
  have "group_listing h (replaced_task i t' d) = group_listing h d"
  proof (rule listing_frame)
    show "filter (in_group h) (tasks (replaced_task i t' d)) = filter (in_group h) (tasks d)"
      unfolding replaced_task_def by (simp, intro filter_map_same) (use h ids in \<open>auto simp: in_group_def\<close>)
  qed (intro load_tables; simp add: replaced_task_def)
  moreover have "group_listing h (relabel i xs (replaced_task i t' d)) = group_listing h (replaced_task i t' d)" for xs
  proof (rule listing_frame)
    fix x assume x: "x \<in> set (tasks (replaced_task i t' d))" "ta_groupId x = h"
    then have "x \<in> set (tasks d)" using h by (auto simp: replaced_task_def split: if_splits)
    then show "load_task (relabel i xs (replaced_task i t' d)) x = load_task (replaced_task i t' d) x"
      by (intro load_relabel ids x)
  qed (simp add: relabel_def)
  ultimately show ?case by (cases ls) simp_all
next
  case (task_removed i d t g)
  show ?case using other_task [OF task_removed(3,1)] task_removed(4)
    by (intro listing_delete_tasks [OF task_removed(3)]) auto
next
  case (member_assigned i d t g m k)
  then show ?case by (intro listing_of_others [OF _ member_assigned(1)] load_other) (auto simp: items_of_def)
next
  case (member_unassigned i d t g m)
  then show ?case by (intro listing_of_others [OF _ member_unassigned(1)] load_other) (auto simp: items_of_def intro!: filter_cong)
next
  case (labels_set i d t g xs)
  then show ?case by (intro listing_of_others [OF _ labels_set(1)] load_relabel) (auto simp: relabel_def)
next
  case (attachment_added i d t g k n l)
  then show ?case by (intro listing_of_others [OF _ attachment_added(1)] load_other) (auto simp: items_of_def)
next
  case (attachment_changed i d t g j a l n)
  have "distinct (map tt_id (task_attachments d))" using attachment_changed(5) by (simp add: keys_ok_def)
  then have "x = a" if "x \<in> set (task_attachments d)" "tt_id x = tt_id a" for x
    using that distinct_key [of tt_id] find_mem(5) [OF attachment_changed(2)] by metis
  moreover have "tt_taskId a = i" using attachment_changed(3,4) by simp
  ultimately have "tt_taskId x = i" if "x \<in> set (task_attachments d)" "tt_id x = tt_id a" for x using that by blast
  then have others: "filter (\<lambda>x. tt_taskId x = k) (map (\<lambda>x. if tt_id x = tt_id a then x\<lparr>tt_title := n, tt_link := l\<rparr> else x) (task_attachments d))
      = filter (\<lambda>x. tt_taskId x = k) (task_attachments d)" if "k \<noteq> i" for k
    using that by (intro filter_if_same) simp
  show ?case
    by (rule listing_of_others [OF attachment_changed(5,1)], use attachment_changed(6) in simp, simp, rule load_other)
      (simp_all add: items_of_def others)
next
  case (attachment_removed j d a t g)
  have "distinct (map tt_id (task_attachments d))" using attachment_removed(4) by (simp add: keys_ok_def)
  then have "x = a" if "x \<in> set (task_attachments d)" "tt_id x = j" for x
    using that distinct_key [of tt_id] find_mem(5) [OF attachment_removed(1)] find_ids(5) [OF attachment_removed(1)] by metis
  then show ?case using attachment_removed
    by (intro listing_of_others [OF _ attachment_removed(2)] load_other) (auto simp: items_of_def intro!: filter_cong)
next
  case (moved_up i d t g k env)
  then show ?case using listing_moved by simp
next
  case (moved_down i d t g k env)
  then show ?case using listing_moved by simp
next
  case (moved_over i d t g g' h' env k)
  have "ta_groupId x \<noteq> h" if x: "x \<in> set (tasks (shifted env g' k None 1 (shifted env (ta_groupId t) (ta_order t + 1) None (- 1) d)))"
      "ta_id x = i" for x
  proof -
    obtain y where y: "y \<in> set (tasks (shifted env (ta_groupId t) (ta_order t + 1) None (- 1) d))" "ta_id y = ta_id x"
        "ta_groupId y = ta_groupId x"
      using shifted_task [OF x(1)] by blast
    then show ?thesis using moved_task_shifted [OF moved_over(6,1) _ y(1)] x(2) moved_over(7) by simp
  qed
  moreover have "g' \<noteq> h" "ta_groupId t \<noteq> h" using moved_over(7) by auto
  ultimately show ?case by (simp add: listing_placed listing_shifted)
next
  case (moved_last i d t g g' h' env)
  then show ?case by (intro listing_placed) (simp_all add: moved_task [OF _ moved_last(1)])
next
  case (board_deleted i d b)
  have "gr_id g \<noteq> h" if g: "g \<in> set (groups d)" "gr_boardId g = i" for g
  proof
    assume "gr_id g = h"
    obtain g' where g': "find_group h (delete_board i d) = Some g'" using board_deleted(6) by auto
    then have "g' \<in> set (groups d)" "gr_boardId g' \<noteq> i" "gr_id g' = h"
      using find_mem(2) [OF g'] find_ids(2) [OF g']
      by (auto simp: delete_board_def delete_groups_def delete_tasks_def delete_checklists_def Let_def)
    moreover have "distinct (map gr_id (groups d))" using board_deleted(4) by (simp add: keys_ok_def)
    ultimately have "g = g'" using distinct_key [of gr_id "groups d" g g'] g \<open>gr_id g = h\<close> by simp
    then show False using g \<open>gr_boardId g' \<noteq> i\<close> by simp
  qed
  moreover have "keys_ok (d\<lparr>boards := filter (\<lambda>b. bo_id b \<noteq> i) (boards d),
      board_members := filter (\<lambda>m. bm_boardId m \<noteq> i) (board_members d)\<rparr>)"
    using board_deleted(4) by (simp add: keys_ok_def distinct_map_filter)
  ultimately show ?case unfolding delete_board_def
    by (subst listing_delete_groups) (auto intro!: listing_other_tables)
next
  case (group_removed i d g)
  then show ?case by (intro listing_delete_groups) auto
next
  case (label_updated i d l l')
  show ?case
  proof (rule listing_of_labels)
    show "label_used_in i (set (group_ids (lb_boardId l) d)) d" using label_updated(5,6) by simp
    fix k assume none: "\<And>m. m \<in> set (task_labels d) \<Longrightarrow> tl_taskId m = k \<Longrightarrow> tl_labelId m \<noteq> i"
    show "labels_of (d\<lparr>labels := map (\<lambda>x. if lb_id x = i then l' else x) (labels d)\<rparr>) k = labels_of d k"
      unfolding labels_of_def using none label_updated(3)
      by (simp, intro filter_map_same) fastforce
  qed (use label_updated(8) in simp_all)
next
  case (label_deleted i d l)
  show ?case
  proof (rule listing_of_labels)
    show "label_used_in i (set (group_ids (lb_boardId l) d)) d" using label_deleted(3,4) by simp
    fix k assume none: "\<And>m. m \<in> set (task_labels d) \<Longrightarrow> tl_taskId m = k \<Longrightarrow> tl_labelId m \<noteq> i"
    show "labels_of (d\<lparr>labels := filter (\<lambda>x. lb_id x \<noteq> i) (labels d), task_labels := filter (\<lambda>m. tl_labelId m \<noteq> i) (task_labels d)\<rparr>) k
        = labels_of d k"
      unfolding labels_of_def using none by (auto intro!: filter_cong)
  qed (use label_deleted(6) in simp_all)
next
  case (label_created l d)
  have "tl_labelId m \<noteq> lb_id l" if "m \<in> set (task_labels d)" for m
  proof -
    have "tl_labelId ` set (task_labels d) \<subseteq> lb_id ` set (labels d)" using label_created(7) by (simp add: refs_ok_def refers_def)
    then have "tl_labelId m \<in> lb_id ` set (labels d)" using that by blast
    moreover have "lb_id l \<notin> lb_id ` set (labels d)" using label_created(2) by (simp add: all_ids_def)
    ultimately show ?thesis by metis
  qed
  then have "labels_of (d\<lparr>labels := labels d @ [l]\<rparr>) k = labels_of d k" for k by (auto simp: labels_of_def)
  then show ?case by (intro listing_frame) (simp_all add: load_task_def members_of_def items_of_def)
next
  case (checklist_created i d t g k n)
  then show ?case by (intro listing_of_others [OF _ checklist_created(1)] load_other) (auto simp: items_of_def)
next
  case (checklist_updated i d c t g n)
  have "distinct (map cl_id (checklists d))" using checklist_updated(4) by (simp add: keys_ok_def)
  then have "x = c" if "x \<in> set (checklists d)" "cl_id x = i" for x
    using that distinct_key [of cl_id] find_mem(6) [OF checklist_updated(1)] find_ids(6) [OF checklist_updated(1)] by metis
  then have "filter (\<lambda>x. cl_taskId x = k) (map (\<lambda>x. if cl_id x = i then c\<lparr>cl_name := n\<rparr> else x) (checklists d))
      = filter (\<lambda>x. cl_taskId x = k) (checklists d)" if "k \<noteq> cl_taskId c" for k
    using that by (intro filter_if_same) auto
  then show ?case using checklist_updated(5)
    by (intro listing_of_checklists [OF checklist_updated(4,1,2)]) (simp_all add: items_of_def)
next
  case (checklist_deleted i d c t g)
  have "distinct (map cl_id (checklists d))" using checklist_deleted(4) by (simp add: keys_ok_def)
  then have c: "x = c" if "x \<in> set (checklists d)" "cl_id x = i" for x
    using that distinct_key [of cl_id] find_mem(6) [OF checklist_deleted(1)] find_ids(6) [OF checklist_deleted(1)] by metis
  show ?case
  proof (rule listing_frame)
    fix x assume "x \<in> set (tasks d)" "ta_groupId x = h"
    then have "ta_id x \<noteq> cl_taskId c" using other_task [OF checklist_deleted(4,2)] checklist_deleted(5) by simp
    then show "load_task (delete_checklists (\<lambda>x. cl_id x = i) d) x = load_task d x"
      by (intro load_delete_checklists [OF checklist_deleted(4)]) (use c in auto)
  qed (simp add: tasks_of_delete)
next
  case (item_added i d c t g k n)
  then show ?case by (intro listing_of_checklists [OF _ item_added(1,2)]) (auto simp: items_of_def)
next
  case (item_changed i d x c t g x')
  have "distinct (map ci_id (checklist_items d))" using item_changed(7) by (simp add: keys_ok_def)
  then have "y = x" if "y \<in> set (checklist_items d)" "ci_id y = ci_id x" for y
    using that distinct_key [of ci_id] find_mem(7) [OF item_changed(1)] by metis
  then have "filter (\<lambda>y. ci_checklistId y = k) (map (\<lambda>y. if ci_id y = ci_id x' then x' else y) (checklist_items d))
      = filter (\<lambda>y. ci_checklistId y = k) (checklist_items d)" if "k \<noteq> ci_checklistId x" for k
    using that item_changed(4,5) by (intro filter_if_same) auto
  moreover have "cl_id c = ci_checklistId x" using find_ids(6) [OF item_changed(2)] by simp
  ultimately show ?case using item_changed(8)
    by (intro listing_of_checklists [OF item_changed(7,2,3)]) (simp_all add: items_of_def)
next
  case (item_deleted i d x c t g)
  have "distinct (map ci_id (checklist_items d))" using item_deleted(5) by (simp add: keys_ok_def)
  then have "y = x" if "y \<in> set (checklist_items d)" "ci_id y = i" for y
    using that distinct_key [of ci_id] find_mem(7) [OF item_deleted(1)] find_ids(7) [OF item_deleted(1)] by metis
  then show ?case using item_deleted
    by (intro listing_of_checklists [OF _ item_deleted(2,3)]) (auto simp: items_of_def intro!: filter_cong)
qed (rule listing_other_tables; simp add: replaced_group_def shifted_groups_def)+

end
