(* ===== verification/Task_Theorems.thy ===== *)
theory Task_Theorems
  imports Task_Lists
begin

text \<open>
  The properties of the task service over any run of its operations: every operation is one of
  the changes of \<open>Task_Spec\<close>, the tables stay consistent, only members change a board, and
  what the cached lists answer.
\<close>

section \<open>One operation\<close>

text \<open>
  \<open>narrowed F env d op\<close>: with \<open>F = Some C\<close>, operation \<open>op\<close> on the tables \<open>d\<close> is none of the
  calls that change a list they do not declare out of date, and makes no group with an id of \<open>C\<close>.
\<close>

definition label_at_home :: "uuid \<Rightarrow> task_db \<Rightarrow> bool" where
  "label_at_home i d \<longleftrightarrow> (case find_label i d of None \<Rightarrow> True
     | Some l \<Rightarrow> label_used_in i (set (group_ids (lb_boardId l) d)) d)"

definition narrowed :: "uuid set option \<Rightarrow> task_env \<Rightarrow> task_db \<Rightarrow> task_op \<Rightarrow> bool" where
  "narrowed F env d op = (case F of None \<Rightarrow> True | Some C \<Rightarrow> (case op of
     UpdateTask i dto \<Rightarrow> ut_groupId dto = None
   | UpdateAttachment i j n l \<Rightarrow> (case find_attachment j d of None \<Rightarrow> True | Some a \<Rightarrow> tt_taskId a = i)
   | UpdateLabel i dto \<Rightarrow> label_at_home i d
   | DeleteLabel i \<Rightarrow> label_at_home i d
   | AddGroup b n \<Rightarrow> kv_newId env d \<notin> C
   | _ \<Rightarrow> True))"

definition lists_tasks :: "task_op \<Rightarrow> bool" where
  "lists_tasks op = (case op of TasksInGroup q \<Rightarrow> True | _ \<Rightarrow> False)"

lemma stays_outcome: "stays T m \<Longrightarrow> conn_ok T s \<Longrightarrow> outcome T F u s (snd (m s))"
  by (simp add: stays_def still_outcome)

lemma perform_outcome:
  assumes "task_env_ok T env" "conn_ok T s" "narrowed F env (cn_committed s) op" "\<not> lists_tasks op"
  shows "outcome T F u s (perform_task env u op s)"
proof (cases op)
  case (UpdateTask i dto)
  have "F \<noteq> None \<Longrightarrow> ut_groupId dto = None" using assms(3) by (auto simp: narrowed_def UpdateTask)
  then show ?thesis using updateTaskDetails_outcome [OF assms(1,2)] by (simp add: UpdateTask perform_task_def)
next
  case (UpdateAttachment i j n l)
  have "F \<noteq> None \<Longrightarrow> find_attachment j (cn_committed s) = Some a \<Longrightarrow> tt_taskId a = i" for a
    using assms(3) by (auto simp: narrowed_def UpdateAttachment)
  then show ?thesis using updateAttachment_outcome [OF assms(1,2)] by (simp add: UpdateAttachment perform_task_def)
next
  case (UpdateLabel i dto)
  have "F \<noteq> None \<Longrightarrow> find_label i (cn_committed s) = Some l \<Longrightarrow>
      label_used_in i (set (group_ids (lb_boardId l) (cn_committed s))) (cn_committed s)" for l
    using assms(3) by (auto simp: narrowed_def label_at_home_def UpdateLabel)
  then show ?thesis using updateLabelInfo_outcome [OF assms(1,2)] by (simp add: UpdateLabel perform_task_def)
next
  case (DeleteLabel i)
  have "F \<noteq> None \<Longrightarrow> find_label i (cn_committed s) = Some l \<Longrightarrow>
      label_used_in i (set (group_ids (lb_boardId l) (cn_committed s))) (cn_committed s)" for l
    using assms(3) by (auto simp: narrowed_def label_at_home_def DeleteLabel)
  then show ?thesis using deleteLabel_outcome [OF assms(1,2)] by (simp add: DeleteLabel perform_task_def)
next
  case (AddGroup b n)
  have "F = Some C \<Longrightarrow> kv_newId env (cn_committed s) \<notin> C" for C using assms(3) by (simp add: narrowed_def AddGroup)
  then show ?thesis using addGroupToBoard_outcome [OF assms(1,2)] by (simp add: AddGroup perform_task_def)
next
  case (UpdateItem i dto)
  then show ?thesis using changed_item_outcome [OF assms(1,2)] by (simp add: perform_task_def updateChecklistItem_def)
next
  case (ToggleItem i)
  then show ?thesis using changed_item_outcome [OF assms(1,2)] by (simp add: perform_task_def toggleChecklistItem_def)
next
  case (TasksInGroup q)
  then show ?thesis using assms(4) by (simp add: lists_tasks_def)
next
  case (CreateTask dto)
  then show ?thesis using createNewTask_outcome [OF assms(1,2)] by (simp add: perform_task_def)
next
  case (RemoveTask i)
  then show ?thesis using removeTask_outcome [OF assms(1,2)] by (simp add: perform_task_def)
next
  case (TaskDetails i)
  then show ?thesis using stays_outcome [OF reads_outcome(1) [OF assms(1)] assms(2)] by (simp add: perform_task_def)
next
  case (AssignMember i m)
  then show ?thesis using assignMemberToTask_outcome [OF assms(1,2)] by (simp add: perform_task_def)
next
  case (UnassignMember i m)
  then show ?thesis using unassignMemberFromTask_outcome [OF assms(1,2)] by (simp add: perform_task_def)
next
  case (ToggleLabel i l)
  then show ?thesis using toggleTaskLabel_outcome [OF assms(1,2)] by (simp add: perform_task_def)
next
  case (AddAttachment i n l)
  then show ?thesis using addAttachment_outcome [OF assms(1,2)] by (simp add: perform_task_def)
next
  case (DeleteAttachment i)
  then show ?thesis using deleteAttachment_outcome [OF assms(1,2)] by (simp add: perform_task_def)
next
  case (DragDrop dto)
  then show ?thesis using dragDropTask_outcome [OF assms(1,2)] by (simp add: perform_task_def)
next
  case (ChangeTaskGroup i g)
  then show ?thesis using changeTaskGroup_outcome [OF assms(1,2)] by (simp add: perform_task_def)
next
  case (FilterTasks q)
  then show ?thesis using stays_outcome [OF reads_outcome(2) [OF assms(1)] assms(2)] by (simp add: perform_task_def)
next
  case (CreateBoard w n b)
  then show ?thesis using createNewBoard_outcome [OF assms(1,2)] by (simp add: perform_task_def)
next
  case (UpdateBoard i dto)
  then show ?thesis using updateBoardInfo_outcome [OF assms(1,2)] by (simp add: perform_task_def)
next
  case (DeleteBoard i)
  then show ?thesis using deleteBoard_outcome [OF assms(1,2)] by (simp add: perform_task_def)
next
  case (BoardsInWorkspace w p l)
  then show ?thesis using stays_outcome [OF reads_outcome(3) [OF assms(1)] assms(2)] by (simp add: perform_task_def)
next
  case (BoardDetails b)
  then show ?thesis using stays_outcome [OF reads_outcome(4) [OF assms(1)] assms(2)] by (simp add: perform_task_def)
next
  case (BoardMembers b)
  then show ?thesis using stays_outcome [OF reads_outcome(5) [OF assms(1)] assms(2)] by (simp add: perform_task_def)
next
  case (AddMember b m)
  then show ?thesis using addMemberToBoard_outcome [OF assms(1,2)] by (simp add: perform_task_def)
next
  case (RemoveMember b m)
  then show ?thesis using removeMemberFromBoard_outcome [OF assms(1,2)] by (simp add: perform_task_def)
next
  case (UpdateGroup i dto)
  then show ?thesis using updateGroupInfo_outcome [OF assms(1,2)] by (simp add: perform_task_def)
next
  case (RemoveGroup i)
  then show ?thesis using removeGroupFromBoard_outcome [OF assms(1,2)] by (simp add: perform_task_def)
next
  case (GroupsInBoard b)
  then show ?thesis using stays_outcome [OF reads_outcome(6) [OF assms(1)] assms(2)] by (simp add: perform_task_def)
next
  case (ChangeGroupOrder i j)
  then show ?thesis using changeGroupOrder_outcome [OF assms(1,2)] by (simp add: perform_task_def)
next
  case (CreateLabel b n c)
  then show ?thesis using createNewLabel_outcome [OF assms(1,2)] by (simp add: perform_task_def)
next
  case (LabelsInBoard b)
  then show ?thesis using stays_outcome [OF reads_outcome(7) [OF assms(1)] assms(2)] by (simp add: perform_task_def)
next
  case (CreateChecklist i n)
  then show ?thesis using createChecklist_outcome [OF assms(1,2)] by (simp add: perform_task_def)
next
  case (UpdateChecklist i n)
  then show ?thesis using updateChecklist_outcome [OF assms(1,2)] by (simp add: perform_task_def)
next
  case (DeleteChecklist i)
  then show ?thesis using deleteChecklist_outcome [OF assms(1,2)] by (simp add: perform_task_def)
next
  case (ChecklistsInTask i)
  then show ?thesis using stays_outcome [OF reads_outcome(8) [OF assms(1)] assms(2)] by (simp add: perform_task_def)
next
  case (AddItem i n)
  then show ?thesis using addChecklistItem_outcome [OF assms(1,2)] by (simp add: perform_task_def)
next
  case (DeleteItem i)
  then show ?thesis using deleteChecklistItem_outcome [OF assms(1,2)] by (simp add: perform_task_def)
next
  case (Reminder i)
  then show ?thesis using stays_outcome [OF reminder_stays assms(2)] by (simp add: perform_task_def)
qed

section \<open>Reading a list\<close>

definition page_size :: "query_task \<Rightarrow> nat" where
  "page_size q = min (case qt_limit q of None \<Rightarrow> 20 | Some n \<Rightarrow> if n = 0 then 20 else n) 100"

text \<open>What the query behind \<open>getTasksInGroup\<close> answers.\<close>

definition queried :: "query_task \<Rightarrow> task_db \<Rightarrow> task_response offset_page" where
  "queried q d = offset_page (nullish (qt_page q) 1) (page_size q) (group_listing (qt_groupId q) d)"

definition list_key_of :: "query_task \<Rightarrow> task_out \<Rightarrow> list_key" where
  "list_key_of q o' = (qt_groupId q, to_listVersion o' (qt_groupId q), nullish (qt_page q) 1, page_size q)"

text \<open>A read of a list changes at most the cell it reads.\<close>

lemma getTasksInGroup_run:
  assumes "task_env_ok T env" "conn_ok T s" "getTasksInGroup env q u s = (r, t)"
  shows "conn_ok T t \<and> cn_committed t = cn_committed s \<and> to_listVersion (cn_out t) = to_listVersion (cn_out s) \<and>
    (to_lists (cn_out t) = to_lists (cn_out s) \<or>
     (\<exists>e. to_lists (cn_out t) = (to_lists (cn_out s))(list_key_of q (cn_out s) \<mapsto> (queried q (cn_committed s), e)))) \<and>
    (\<forall>pg. r = Inr pg \<longrightarrow> live_cell (kv_now env) (to_lists (cn_out s)) (list_key_of q (cn_out s)) = Some pg \<or>
       live_cell (kv_now env) (to_lists (cn_out s)) (list_key_of q (cn_out s)) = None \<and> pg = queried q (cn_committed s))"
proof -
  let ?g = "qt_groupId q"
  obtain r1 s1 where 1: "getGroupById env ?g s = (r1, s1)" by fastforce
  have s1: "still T s s1" using stays_group [unfolded stays_def] assms(2) 1 by (metis snd_conv)
  show ?thesis
  proof (cases "\<exists>group. r1 = Inr (Some group)")
    case False
    then show ?thesis using assms(3) 1 s1
      by (cases r1) (auto simp: getTasksInGroup_def Let_def andThen_def act_simps still_def split: option.splits)
  next
    case True
    then obtain group where group: "r1 = Inr (Some group)" by blast
    have ok1: "conn_ok T s1" using s1 by (simp add: still_def)
    obtain r2 s2 where 2: "checkBoardMembership env (gr_boardId group) u s1 = (r2, s2)" by fastforce
    have s2: "still T s s2" using still_trans [OF s1] checkBoardMembership_run(1) [OF assms(1) ok1 2] by blast
    show ?thesis
    proof (cases r2)
      case (Inl e)
      then show ?thesis using assms(3) 1 2 group s2
        by (auto simp: getTasksInGroup_def Let_def andThen_def act_simps still_def)
    next
      case (Inr x)
      have key: "list_key_of q (cn_out s2) = list_key_of q (cn_out s)" using s2 by (simp add: list_key_of_def still_def)
      have same: "cn_committed s2 = cn_committed s" "cn_current s2 = cn_committed s" "to_lists (cn_out s2) = to_lists (cn_out s)"
          "to_listVersion (cn_out s2) = to_listVersion (cn_out s)" "conn_ok T s2"
        using s2 still_current [OF s2] by (auto simp: still_def)
      show ?thesis
      proof (cases "live_cell (kv_now env) (to_lists (cn_out s2)) (list_key_of q (cn_out s2))")
        case (Some pg)
        then have "r = Inr pg \<and> t = s2" using assms(3) 1 2 group Inr
          by (auto simp: getTasksInGroup_def Let_def andThen_def act_simps getOrSetList_def getOrSetDetail_def look_run
              getVersion_def list_key_of_def page_size_def)
        then show ?thesis using Some same key by simp
      next
        case None
        let ?cells = "set_cell (kv_random env) (kv_now env) (list_key_of q (cn_out s2)) (queried q (cn_committed s)) TTL_LONG"
        let ?t = "s2\<lparr>cn_out := to_lists_update ?cells (cn_out s2)\<rparr>"
        have run: "r = Inr (queried q (cn_committed s)) \<and> t = ?t" using assms(3) 1 2 group Inr None same(2)
          by (auto simp: getTasksInGroup_def Let_def andThen_def act_simps getOrSetList_def getOrSetDetail_def look_run
              getVersion_def list_key_of_def page_size_def queried_def tell_def outside_def)
        have "conn_ok T ?t" using same(5) by (auto simp: conn_ok_def ready_def idle_def out_ok_def memberships_ok_def)
        then show ?thesis using run None same key by (auto simp: set_cell_def)
      qed
    qed
  qed
qed

section \<open>Runs\<close>

definition same_or_changed :: "answers \<Rightarrow> uuid set option \<Rightarrow> uuid \<Rightarrow> uuid list \<Rightarrow> task_db \<Rightarrow> task_db \<Rightarrow> bool" where
  "same_or_changed T F u G d d' \<longleftrightarrow> d' = d \<or> task_change T F u G d d'"


lemma perform_change:
  assumes "task_env_ok T env" "conn_ok T s"
  obtains "conn_ok T (perform_task env u op s)" "cn_committed (perform_task env u op s) = cn_committed s"
  | G where "conn_ok T (perform_task env u op s)" "task_change T None u G (cn_committed s) (cn_committed (perform_task env u op s))"
proof (cases "lists_tasks op")
  case False
  have "outcome T None u s (perform_task env u op s)"
    by (rule perform_outcome [OF assms _ False]) (simp add: narrowed_def)
  then show ?thesis using that unfolding outcome_def by blast
next
  case True
  then obtain q where q: "op = TasksInGroup q" by (auto simp: lists_tasks_def split: task_op.splits)
  obtain r t where "getTasksInGroup env q u s = (r, t)" by fastforce
  then show ?thesis using getTasksInGroup_run [OF assms, of q u r t] that(1) by (simp add: q perform_task_def)
qed

definition envs_ok :: "answers \<Rightarrow> (task_env \<times> uuid \<times> task_op) list \<Rightarrow> bool" where
  "envs_ok T ops \<longleftrightarrow> (\<forall>(env, u, op) \<in> set ops. task_env_ok T env)"

lemma performs_Cons: "performs_task ((env, u, op) # ops) s = performs_task ops (perform_task env u op s)"
  by (simp add: performs_task_def)

lemma performs_Nil: "performs_task [] s = s"
  by (simp add: performs_task_def)

lemma consistent_run:
  "envs_ok T ops \<Longrightarrow> conn_ok T s \<Longrightarrow> task_ok (cn_committed s) \<Longrightarrow>
   conn_ok T (performs_task ops s) \<and> task_ok (cn_committed (performs_task ops s))"
proof (induction ops arbitrary: s)
  case Nil
  then show ?case by (simp add: performs_Nil)
next
  case (Cons x ops)
  obtain env u op where x: "x = (env, u, op)" by (cases x) auto
  have env: "task_env_ok T env" "envs_ok T ops" using Cons.prems(1) by (auto simp: envs_ok_def x)
  have "conn_ok T (perform_task env u op s) \<and> task_ok (cn_committed (perform_task env u op s))"
    by (rule perform_change [OF env(1) Cons.prems(2), of u op]) (use Cons.prems(3) task_ok_kept in auto)
  then show ?case using Cons.IH [OF env(2)] by (simp add: x performs_Cons)
qed


section \<open>Cached lists\<close>

definition cached_groups :: "(task_db, task_out) conn \<Rightarrow> uuid set" where
  "cached_groups s = {g. \<exists>v p l. to_lists (cn_out s) (g, v, p, l) \<noteq> None}"

primrec fair_run :: "(task_env \<times> uuid \<times> task_op) list \<Rightarrow> (task_db, task_out) conn \<Rightarrow> bool" where
  "fair_run [] s = True"
| "fair_run (x # ops) s =
    (case x of (env, u, op) \<Rightarrow> narrowed (Some (cached_groups s)) env (cn_committed s) op \<and> fair_run ops (perform_task env u op s))"

text \<open>A cell of the current version of a group that exists holds what the query answers.\<close>

definition lists_fresh :: "(task_db, task_out) conn \<Rightarrow> bool" where
  "lists_fresh s \<longleftrightarrow> (\<forall>g v p l pg e. to_lists (cn_out s) (g, v, p, l) = Some (pg, e) \<longrightarrow>
     v \<le> to_listVersion (cn_out s) g \<and>
     (v = to_listVersion (cn_out s) g \<longrightarrow> find_group g (cn_committed s) \<noteq> None \<longrightarrow>
        pg = offset_page p l (group_listing g (cn_committed s))))"

lemma find_group_in: "find_group h d \<noteq> None \<longleftrightarrow> h \<in> gr_id ` set (groups d)"
proof
  assume "h \<in> gr_id ` set (groups d)"
  then show "find_group h d \<noteq> None" unfolding find_group_def by (auto simp: find_None_iff)
qed (auto dest: find_in)

lemma groups_shrink:
  "set (groups (delete_tasks P d)) = set (groups d)" "set (groups (delete_checklists Q d)) = set (groups d)"
  "set (groups (delete_groups R d)) \<subseteq> set (groups d)" "set (groups (delete_board b d)) \<subseteq> set (groups d)"
  by (auto simp: delete_board_def delete_groups_def delete_tasks_def delete_checklists_def Let_def)

lemma groups_moved:
  "groups (replaced_task i t d) = groups d" "groups (relabel i ls d) = groups d" "groups (placed env i g k d) = groups d"
  "gr_id ` set (groups (shifted_groups env b lo hi n d)) = gr_id ` set (groups d)"
  by (simp_all add: replaced_task_def relabel_def placed_def shifted_groups_def map_if_same del: if_image_distrib)

lemma replaced_group_ids: "gr_id ` set (groups (replaced_group x d)) = gr_id ` set (groups d)"
  using map_if_same(2) [of "\<lambda>y. gr_id y = gr_id x" gr_id "\<lambda>_. x" "set (groups d)"]
  by (simp add: replaced_group_def del: if_image_distrib)

lemma known_groups:
  "task_change T F u G d d' \<Longrightarrow> F = Some C \<Longrightarrow> h \<in> C \<Longrightarrow> h \<in> gr_id ` set (groups d') \<Longrightarrow> h \<in> gr_id ` set (groups d)"
proof (induction rule: task_change.induct)
  case (task_updated i d t g t' ls announced)
  then show ?case by (cases ls) (simp_all add: groups_moved)
next
  case (board_deleted i d b)
  then show ?case using groups_shrink(4) by blast
next
  case (group_removed i d g)
  then show ?case using groups_shrink(3) by blast
qed (auto simp: groups_shrink groups_moved groups_kept replaced_group_ids)

lemma fresh_kept:
  assumes "lists_fresh s" "outcome T (Some (cached_groups s)) u s t" "task_ok (cn_committed s)"
  shows "lists_fresh t"
  unfolding lists_fresh_def
proof (intro allI impI)
  fix g v p l pg e assume "to_lists (cn_out t) (g, v, p, l) = Some (pg, e)"
  then have cell: "to_lists (cn_out s) (g, v, p, l) = Some (pg, e)" using assms(2) by (simp add: outcome_def)
  obtain G where G: "cn_committed t = cn_committed s \<or> task_change T (Some (cached_groups s)) u G (cn_committed s) (cn_committed t)"
      "to_listVersion (cn_out t) = fold bumpVersion G (to_listVersion (cn_out s))"
    using assms(2) unfolding outcome_def by blast
  have le: "v \<le> to_listVersion (cn_out s) g" using assms(1) cell unfolding lists_fresh_def by blast
  have version: "to_listVersion (cn_out t) g = to_listVersion (cn_out s) g + count_list G g" by (simp add: G(2) bump_all)
  have "pg = offset_page p l (group_listing g (cn_committed t))"
    if v: "v = to_listVersion (cn_out t) g" and there: "find_group g (cn_committed t) \<noteq> None"
  proof -
    have now: "v = to_listVersion (cn_out s) g" "count_list G g = 0" using le version v by auto
    then have "g \<notin> set G" by (simp add: count_list_0_iff)
    have "to_lists (cn_out s) (g, v, p, l) \<noteq> None" using cell by simp
    then have "g \<in> cached_groups s" unfolding cached_groups_def by blast
    have "find_group g (cn_committed s) \<noteq> None \<and> group_listing g (cn_committed t) = group_listing g (cn_committed s)"
      using G(1)
    proof
      assume "cn_committed t = cn_committed s"
      then show ?thesis using there by simp
    next
      assume change: "task_change T (Some (cached_groups s)) u G (cn_committed s) (cn_committed t)"
      have "group_listing g (cn_committed t) = group_listing g (cn_committed s)"
        by (rule listing_kept [OF change _ _ \<open>g \<notin> set G\<close> there]) (use assms(3) in \<open>simp_all add: task_ok_def\<close>)
      then show ?thesis using known_groups [OF change refl \<open>g \<in> cached_groups s\<close>] there unfolding find_group_in by blast
    qed
    then show ?thesis using assms(1) cell now(1) unfolding lists_fresh_def by metis
  qed
  then show "v \<le> to_listVersion (cn_out t) g \<and> (v = to_listVersion (cn_out t) g \<longrightarrow> find_group g (cn_committed t) \<noteq> None \<longrightarrow>
      pg = offset_page p l (group_listing g (cn_committed t)))"
    using le version by simp
qed

lemma fresh_read:
  assumes "lists_fresh s" "task_env_ok T env" "conn_ok T s" "getTasksInGroup env q u s = (r, t)"
  shows "lists_fresh t"
  unfolding lists_fresh_def
proof (intro allI impI)
  fix g v p l pg e assume cell: "to_lists (cn_out t) (g, v, p, l) = Some (pg, e)"
  note run = getTasksInGroup_run [OF assms(2-4)]
  then have same: "to_listVersion (cn_out t) = to_listVersion (cn_out s)" "cn_committed t = cn_committed s" by simp_all
  consider "to_lists (cn_out s) (g, v, p, l) = Some (pg, e)"
    | "(g, v, p, l) = list_key_of q (cn_out s)" "pg = queried q (cn_committed s)"
    using run cell by (auto split: if_splits)
  then show "v \<le> to_listVersion (cn_out t) g \<and> (v = to_listVersion (cn_out t) g \<longrightarrow> find_group g (cn_committed t) \<noteq> None \<longrightarrow>
      pg = offset_page p l (group_listing g (cn_committed t)))"
  proof cases
    case 1
    then show ?thesis using assms(1) unfolding lists_fresh_def same by blast
  next
    case 2
    then show ?thesis by (simp add: same list_key_of_def queried_def)
  qed
qed

lemma fresh_run:
  "envs_ok T ops \<Longrightarrow> conn_ok T s \<Longrightarrow> task_ok (cn_committed s) \<Longrightarrow> lists_fresh s \<Longrightarrow> fair_run ops s \<Longrightarrow>
   lists_fresh (performs_task ops s)"
proof (induction ops arbitrary: s)
  case Nil
  then show ?case by (simp add: performs_Nil)
next
  case (Cons x ops)
  obtain env u op where x: "x = (env, u, op)" by (cases x) auto
  let ?t = "perform_task env u op s"
  have env: "task_env_ok T env" "envs_ok T ops" using Cons.prems(1) by (auto simp: envs_ok_def x)
  have one: "envs_ok T [x]" using env(1) by (simp add: envs_ok_def x)
  have t: "conn_ok T ?t" "task_ok (cn_committed ?t)"
    using consistent_run [OF one Cons.prems(2,3)] by (simp_all add: x performs_Cons performs_Nil)
  have fair: "narrowed (Some (cached_groups s)) env (cn_committed s) op" "fair_run ops ?t" using Cons.prems(5) by (simp_all add: x)
  have "lists_fresh ?t"
  proof (cases "lists_tasks op")
    case False
    then show ?thesis using fresh_kept [OF Cons.prems(4) perform_outcome [OF env(1) Cons.prems(2) fair(1)] Cons.prems(3)] by blast
  next
    case True
    then obtain q where q: "op = TasksInGroup q" by (auto simp: lists_tasks_def split: task_op.splits)
    obtain r t where "getTasksInGroup env q u s = (r, t)" by fastforce
    then show ?thesis using fresh_read [OF Cons.prems(4) env(1) Cons.prems(2)] by (simp add: q perform_task_def)
  qed
  then show ?case using Cons.IH [OF env(2) t] fair(2) by (simp add: x performs_Cons)
qed

text \<open>
  C12: The cache of task lists is transparent: after any run of operations that starts with an empty
  cache and in which no call changes a list it does not declare out of date (\<open>fair_run\<close>), what
  \<open>getTasksInGroup\<close> answers for a group that exists is what its query answers on the tables of
  that moment, whether it comes from the cache or from the database.
\<close>

theorem cached_lists_are_current:
  assumes "envs_ok T ops" "conn_ok T s" "task_ok (cn_committed s)" "to_lists (cn_out s) = Map.empty" "fair_run ops s"
    "task_env_ok T env" "getTasksInGroup env q u (performs_task ops s) = (Inr pg, t)"
    "find_group (qt_groupId q) (cn_committed (performs_task ops s)) \<noteq> None"
  shows "pg = queried q (cn_committed (performs_task ops s))"
proof -
  let ?s = "performs_task ops s"
  have "lists_fresh s" using assms(4) by (simp add: lists_fresh_def)
  then have fresh: "lists_fresh ?s" using fresh_run assms(1-3,5) by blast
  have ok: "conn_ok T ?s" using consistent_run [OF assms(1-3)] by blast
  have "live_cell (kv_now env) (to_lists (cn_out ?s)) (list_key_of q (cn_out ?s)) = Some pg \<or> pg = queried q (cn_committed ?s)"
    using getTasksInGroup_run [OF assms(6) ok assms(7)] by blast
  then show ?thesis
  proof
    assume "live_cell (kv_now env) (to_lists (cn_out ?s)) (list_key_of q (cn_out ?s)) = Some pg"
    then obtain e where "to_lists (cn_out ?s) (list_key_of q (cn_out ?s)) = Some (pg, e)"
      by (auto simp: live_cell_def split: option.splits if_splits)
    then show ?thesis using fresh assms(8) unfolding lists_fresh_def list_key_of_def queried_def by blast
  qed
qed

end
