(* ===== verification/Task_Authority.thy ===== *)
theory Task_Authority
  imports Task_Theorems
begin

text \<open>
  Whose boards an operation changes: not those of others, the calls set apart by \<open>narrowed\<close>
  excepted.
\<close>

section \<open>What others see of a board\<close>

record board_view =
  bv_board :: "board option"
  bv_members :: "board_member list"
  bv_groups :: "task_group list"
  bv_labels :: "label list"

definition view_of :: "uuid \<Rightarrow> task_db \<Rightarrow> board_view" where
  "view_of b d = \<lparr>bv_board = find_board b d, bv_members = filter (\<lambda>m. bm_boardId m = b) (board_members d),
     bv_groups = filter (\<lambda>g. gr_boardId g = b) (groups d), bv_labels = filter (\<lambda>l. lb_boardId l = b) (labels d)\<rparr>"

lemma view_frame:
  "boards d' = boards d \<Longrightarrow> board_members d' = board_members d \<Longrightarrow> groups d' = groups d \<Longrightarrow> labels d' = labels d \<Longrightarrow>
   view_of b d' = view_of b d"
  by (simp add: view_of_def find_board_def)

lemma own_elsewhere:
  assumes "keys_ok d" "own u i d t g" "\<not> is_member b u d"
  shows "ta_groupId t \<notin> set (group_ids b d)"
proof
  assume "ta_groupId t \<in> set (group_ids b d)"
  then obtain g' where g': "g' \<in> set (groups d)" "gr_boardId g' = b" "gr_id g' = ta_groupId t" by (auto simp: group_ids_def)
  have g: "g \<in> set (groups d)" "gr_id g = ta_groupId t" "is_member (gr_boardId g) u d"
    using assms(2) by (auto simp: own_def may_def dest: find_mem find_ids)
  have "distinct (map gr_id (groups d))" using assms(1) by (simp add: keys_ok_def)
  then have "g' = g" using distinct_key [of gr_id "groups d" g' g] g g' by simp
  then show False using g(3) g'(2) assms(3) by simp
qed

lemma group_elsewhere:
  assumes "keys_ok d" "find_group i d = Some g" "may u (gr_boardId g) d" "\<not> is_member b u d"
  shows "i \<notin> set (group_ids b d)"
proof
  assume "i \<in> set (group_ids b d)"
  then obtain g' where g': "g' \<in> set (groups d)" "gr_boardId g' = b" "gr_id g' = i" by (auto simp: group_ids_def)
  have g: "g \<in> set (groups d)" "gr_id g = i" using assms(2) by (auto dest: find_mem find_ids)
  have "distinct (map gr_id (groups d))" using assms(1) by (simp add: keys_ok_def)
  then have "g' = g" using distinct_key [of gr_id "groups d" g' g] g g' by simp
  then show False using assms(3,4) g'(2) by (simp add: may_def)
qed

lemma labels_elsewhere:
  assumes "keys_ok d" "a \<noteq> b"
  shows "set (group_ids a d) \<inter> set (group_ids b d) = {}"
proof -
  have dis: "distinct (map gr_id (groups d))" using assms(1) by (simp add: keys_ok_def)
  have False if k: "k \<in> set (group_ids a d)" "k \<in> set (group_ids b d)" for k
  proof -
    obtain x where "x \<in> set (groups d)" "gr_boardId x = a" "gr_id x = k" using k(1) by (auto simp: group_ids_def)
    moreover obtain y where "y \<in> set (groups d)" "gr_boardId y = b" "gr_id y = k" using k(2) by (auto simp: group_ids_def)
    ultimately have "x = y" using distinct_key [OF dis, of x y] by simp
    then show False using assms(2) \<open>gr_boardId x = a\<close> \<open>gr_boardId y = b\<close> by simp
  qed
  then show ?thesis by blast
qed

lemma view_deletes:
  "view_of b (delete_checklists Q d) = view_of b d" "view_of b (delete_tasks P d) = view_of b d"
  "view_of b (placed env i g k d) = view_of b d" "view_of b (shifted env g lo hi n d) = view_of b d"
  "view_of b (relabel i ls d) = view_of b d" "view_of b (replaced_task i t d) = view_of b d"
  by (simp_all add: view_of_def find_board_def delete_tasks_def delete_checklists_def Let_def placed_def shifted_def relabel_def
      replaced_task_def)

lemma view_delete_groups:
  "(\<And>g. g \<in> set (groups d) \<Longrightarrow> R g \<Longrightarrow> gr_boardId g \<noteq> b) \<Longrightarrow> view_of b (delete_groups R d) = view_of b d"
  unfolding delete_groups_def Let_def view_deletes
  by (auto simp: view_of_def find_board_def intro!: filter_cong)

lemma view_shifted_groups: "a \<noteq> b \<Longrightarrow> view_of b (shifted_groups env a lo hi n d) = view_of b d"
  unfolding view_of_def shifted_groups_def
  by (simp add: find_board_def) (rule filter_if_same, simp add: in_group_span_def)

lemma find_map_other: "(\<And>x. P x \<Longrightarrow> f x = x) \<Longrightarrow> (\<And>x. P (f x) = P x) \<Longrightarrow> find P (map f xs) = find P xs"
  by (induction xs) auto

lemma find_filter_other: "(\<And>x. P x \<Longrightarrow> Q x) \<Longrightarrow> find P (filter Q xs) = find P xs"
  by (induction xs) auto

lemma find_append_other: "find P xs = Some x \<Longrightarrow> find P (xs @ ys) = Some x"
  by (induction xs) (auto split: if_splits)

lemma replaced_group_elsewhere:
  assumes "\<And>x. x \<in> set (groups d) \<Longrightarrow> gr_id x = gr_id g \<Longrightarrow> gr_boardId x \<noteq> b" "gr_boardId g \<noteq> b"
  shows "view_of b (replaced_group g d) = view_of b d"
  unfolding view_of_def replaced_group_def
  by (simp add: find_board_def) (rule filter_if_same, use assms in simp)

lemma group_unique: "keys_ok d \<Longrightarrow> find_group i d = Some g \<Longrightarrow> x \<in> set (groups d) \<Longrightarrow> gr_id x = i \<Longrightarrow> x = g"
  using distinct_key [of gr_id "groups d" x g] find_mem(2) [of i d g] find_ids(2) [of i d g] by (simp add: keys_ok_def)

lemma shifted_group: "x \<in> set (groups (shifted_groups env a lo hi n d)) \<Longrightarrow>
  \<exists>y \<in> set (groups d). gr_id y = gr_id x \<and> gr_boardId y = gr_boardId x"
  by (auto simp: shifted_groups_def split: if_splits)

lemma view_moved_groups:
  assumes "keys_ok d" "find_group i d = Some g" "gr_boardId g \<noteq> b"
  shows "view_of b (replaced_group (g\<lparr>gr_order := k, gr_updatedAt := n\<rparr>) (shifted_groups env (gr_boardId g) lo hi m d)) = view_of b d"
proof -
  have "view_of b (replaced_group (g\<lparr>gr_order := k, gr_updatedAt := n\<rparr>) (shifted_groups env (gr_boardId g) lo hi m d)) =
      view_of b (shifted_groups env (gr_boardId g) lo hi m d)"
  proof (rule replaced_group_elsewhere)
    fix x assume x: "x \<in> set (groups (shifted_groups env (gr_boardId g) lo hi m d))" "gr_id x = gr_id (g\<lparr>gr_order := k, gr_updatedAt := n\<rparr>)"
    obtain y where y: "y \<in> set (groups d)" "gr_id y = gr_id x" "gr_boardId y = gr_boardId x" using shifted_group [OF x(1)] by blast
    have "y = g" using group_unique [OF assms(1,2) y(1)] x(2) y(2) find_ids(2) [OF assms(2)] by simp
    then show "gr_boardId x \<noteq> b" using assms(3) y(3) by simp
  qed (use assms(3) in simp)
  then show ?thesis using view_shifted_groups [OF assms(3)] by simp
qed

lemma board_unique: "keys_ok d \<Longrightarrow> find_board i d = Some g \<Longrightarrow> x \<in> set (boards d) \<Longrightarrow> bo_id x = i \<Longrightarrow> x = g"
  using distinct_key [of bo_id "boards d" x g] find_mem(1) [of i d g] find_ids(1) [of i d g] by (simp add: keys_ok_def)

lemma label_unique: "keys_ok d \<Longrightarrow> find_label i d = Some g \<Longrightarrow> x \<in> set (labels d) \<Longrightarrow> lb_id x = i \<Longrightarrow> x = g"
  using distinct_key [of lb_id "labels d" x g] find_mem(4) [of i d g] find_ids(4) [of i d g] by (simp add: keys_ok_def)

text \<open>A change by someone who is neither a member of a board nor an administrator of its workspace.\<close>

lemma foreign_change:
  "task_change T F u G d d' \<Longrightarrow> F \<noteq> None \<Longrightarrow> keys_ok d \<Longrightarrow> find_board b d = Some bd \<Longrightarrow> \<not> is_member b u d \<Longrightarrow>
   \<not> admin T u (bo_workspaceId bd) \<Longrightarrow> view_of b d' = view_of b d \<and> set G \<inter> set (group_ids b d) = {}"
proof (induction rule: task_change.induct)
  case (task_created t d g)
  then show ?case using group_elsewhere [OF _ task_created(1,2)] by (auto intro: view_frame)
next
  case (task_updated i d t g t' ls announced)
  then show ?case using own_elsewhere [OF _ task_updated(1)] by (cases ls) (auto simp: view_deletes)
next
  case (board_created b' d k)
  have "bo_id b' \<noteq> b" using board_created(2,6) by (auto simp: all_ids_def dest: find_in)
  then show ?case using board_created(6) by (auto simp: view_of_def find_board_def intro: find_append_other)
next
  case (board_updated i d x b')
  then have "i \<noteq> b" by (auto simp: may_def)
  then show ?case using board_updated(4) by (auto simp: view_of_def find_board_def intro!: find_map_other)
next
  case (board_deleted i d x)
  have "i \<noteq> b" using board_deleted by auto
  then show ?case unfolding delete_board_def
    by (subst view_delete_groups) (auto simp: view_of_def find_board_def intro!: find_filter_other filter_cong)
next
  case (member_added i d x m k)
  then have "i \<noteq> b" by auto
  then show ?case by (simp add: view_of_def find_board_def)
next
  case (member_removed i d x m)
  then have "i \<noteq> b" by (auto simp: may_def)
  then show ?case by (auto simp: view_of_def find_board_def intro!: filter_cong)
next
  case (group_added g d)
  then have "gr_boardId g \<noteq> b" by (auto simp: may_def)
  then show ?case by (simp add: view_of_def find_board_def)
next
  case (group_updated i d g g')
  then have "gr_boardId g \<noteq> b" by (auto simp: may_def)
  then show ?case using group_updated group_unique [OF group_updated(6,1)]
    by (auto intro!: replaced_group_elsewhere)
next
  case (group_removed i d g)
  then have "gr_boardId g \<noteq> b" by (auto simp: may_def)
  then show ?case using group_removed group_unique [OF group_removed(4,1)] group_elsewhere [OF _ group_removed(1,2)]
    by (auto intro!: view_delete_groups)
next
  case (groups_up i d g j h n env)
  then have "gr_boardId g \<noteq> b" by (auto simp: may_def)
  then show ?case using view_moved_groups [OF groups_up(7,1)] by simp
next
  case (groups_down i d g j h n env)
  then have "gr_boardId g \<noteq> b" by (auto simp: may_def)
  then show ?case using view_moved_groups [OF groups_down(7,1)] by simp
next
  case (label_created l d)
  then have "lb_boardId l \<noteq> b" by auto
  then show ?case by (simp add: view_of_def find_board_def)
next
  case (label_updated i d l l')
  then have "lb_boardId l \<noteq> b" by (auto simp: may_def)
  then show ?case using label_updated label_unique [OF label_updated(7,1)] labels_elsewhere [OF label_updated(7)]
    by (auto simp: view_of_def find_board_def intro!: filter_if_same)
next
  case (label_deleted i d l)
  then have "lb_boardId l \<noteq> b" by (auto simp: may_def)
  then show ?case using label_deleted label_unique [OF label_deleted(5,1)] labels_elsewhere [OF label_deleted(5)]
    by (auto simp: view_of_def find_board_def intro!: filter_cong)
qed (use own_elsewhere group_elsewhere in \<open>auto simp: view_deletes own_def intro: view_frame\<close>)

section \<open>The property\<close>

text \<open>
  C13: Someone who is neither a member of a board nor an owner or administrator of its workspace changes
  nothing of it with any operation of the task service: not the board, its members, groups and labels,
  nor what \<open>getTasksInGroup\<close> shows of any of its groups that remain. Set apart by \<open>narrowed\<close>
  are the calls that do not look at the board they reach: an update that names another group, an
  attachment of another task, and a label hung on tasks of another board.
\<close>

theorem only_members_change_boards:
  assumes "task_env_ok T env" "conn_ok T s" "task_ok (cn_committed s)" "narrowed (Some {}) env (cn_committed s) op"
    "find_board b (cn_committed s) = Some bd" "\<not> is_member b u (cn_committed s)" "\<not> admin T u (bo_workspaceId bd)"
  shows "view_of b (cn_committed (perform_task env u op s)) = view_of b (cn_committed s) \<and>
    (\<forall>h \<in> set (group_ids b (cn_committed s)).
       group_listing h (cn_committed (perform_task env u op s)) = group_listing h (cn_committed s))"
proof -
  let ?d = "cn_committed s" and ?d' = "cn_committed (perform_task env u op s)"
  have keys: "keys_ok ?d" "refs_ok ?d" using assms(3) by (simp_all add: task_ok_def)
  consider "?d' = ?d" | G where "task_change T (Some {}) u G ?d ?d'"
  proof (cases "lists_tasks op")
    case True
    then obtain q where q: "op = TasksInGroup q" by (auto simp: lists_tasks_def split: task_op.splits)
    obtain r t where "getTasksInGroup env q u s = (r, t)" by fastforce
    then show ?thesis using getTasksInGroup_run [OF assms(1,2), of q u r t] that(1) by (simp add: q perform_task_def)
  next
    case False
    then show ?thesis using perform_outcome [OF assms(1,2,4) False] that unfolding outcome_def by blast
  qed
  then show ?thesis
  proof cases
    case 1
    then show ?thesis by simp
  next
    case (2 G)
    have view: "view_of b ?d' = view_of b ?d" "set G \<inter> set (group_ids b ?d) = {}"
      using foreign_change [OF 2 _ keys(1) assms(5-7)] by simp_all
    have "group_listing h ?d' = group_listing h ?d" if h: "h \<in> set (group_ids b ?d)" for h
    proof (rule listing_kept [OF 2 _ keys(1) _ _ keys(2)])
      have "set (group_ids b ?d') = set (group_ids b ?d)"
        using view(1) by (simp add: view_of_def group_ids_def)
      then show "find_group h ?d' \<noteq> None" using h unfolding find_group_in by (auto simp: group_ids_def)
    qed (use view(2) h in auto)
    then show ?thesis using view(1) by blast
  qed
qed

end
