(* ===== verification/Task_Moves.thy ===== *)
theory Task_Moves
  imports Task_Authority "HOL-Library.Multiset"
begin

text \<open>
  What single operations do: an update of a task with its reminder, and a task dragged within its
  group.
\<close>

section \<open>An update that returns\<close>

definition reminder_for :: "int \<Rightarrow> uuid \<Rightarrow> uuid \<Rightarrow> int option \<Rightarrow> reminder option" where
  "reminder_for now g b due = (case due of None \<Rightarrow> None
     | Some d \<Rightarrow> if d < now then None else Some \<lparr>rm_groupId = g, rm_boardId = b, rm_at = max now (d - reminderBuffer)\<rparr>)"

lemma deadline_run: "handleTaskDeadlineJob env i g b due s =
  (Inr (), s\<lparr>cn_out := (cn_out s)\<lparr>to_reminders := (to_reminders (cn_out s))(i := reminder_for (kv_now env) g b due)\<rparr>\<rparr>)"
  by (auto simp: handleTaskDeadlineJob_def reminder_for_def andThen_def tell_def outside_def Let_def act_simps max_def split: option.split)

lemma find_replaced: "find_task i d = Some x \<Longrightarrow> ta_id y = i \<Longrightarrow> find_task i (replaced_task i y d) = Some y"
proof -
  have "find (\<lambda>t. ta_id t = i) xs = Some x \<Longrightarrow> ta_id y = i \<Longrightarrow> find (\<lambda>t. ta_id t = i) (map (\<lambda>t. if ta_id t = i then y else t) xs) = Some y" for xs
    by (induction xs) (auto split: if_splits)
  then show "find_task i d = Some x \<Longrightarrow> ta_id y = i \<Longrightarrow> ?thesis" by (simp add: find_task_def replaced_task_def)
qed

lemma find_relabel: "find_task i (relabel j ls d) = find_task i d"
  by (simp add: find_task_def relabel_def)

lemma saved_fields:
  "ta_dueDate (saved_task env dto x) = nullish (ut_dueDate dto) (ta_dueDate x)" "ta_id (saved_task env dto x) = ta_id x"
  "ta_groupId (saved_task env dto x) = (case ut_groupId dto of None \<Rightarrow> ta_groupId x | Some g \<Rightarrow> kv_savedGroup env (ta_groupId x) g)"
  unfolding saved_task_def assign_task_def Let_def
  by (auto dest: arg_cong [of _ x ta_dueDate] arg_cong [of _ x ta_groupId] split: option.split)

lemma committed_run:
  assumes "andThen (transaction m) f s = (Inr r, t)" "ready T s" "\<And>c o'. preserves (in_tx T c o') m"
  obtains x s' t' t1 where "cn_current s' = cn_committed s" "out_ok T (cn_out s')" "m s' = (Inr x, t')"
    "committed_as T s (cn_current t') t1" "f x t1 = (Inr r, t)"
proof -
  obtain x t1 where "transaction m s = (Inr x, t1)" "f x t1 = (Inr r, t)" using assms(1) by (auto simp: inr_iffs)
  then show ?thesis using transaction_run [OF assms(2) _ assms(3), of "Inr x" t1] that by auto
qed

lemma update_run:
  assumes "task_env_ok T env" "conn_ok T s" "updateTaskDetails env i dto u s = (Inr r, t)"
  obtains x g where "own u i (cn_committed s) x g" "find_task i (cn_committed t) = Some (saved_task env dto x)"
    "to_lists (cn_out t) = to_lists (cn_out s)"
    "to_listVersion (cn_out t) = bumpVersion (nullish (ut_groupId dto) (ta_groupId x)) (to_listVersion (cn_out s))"
    "to_reminders (cn_out t) = (to_reminders (cn_out s))(i := reminder_for (kv_now env) (nullish (ut_groupId dto) (ta_groupId x))
       (gr_boardId g) (ta_dueDate (saved_task env dto x)))"
    "conn_ok T t" "tr_dueDate r = ta_dueDate (saved_task env dto x)" "tr_groupId r = nullish (ut_groupId dto) (ta_groupId x)"
proof -
  let ?d = "cn_committed s"
  have ok: "conn_ok T t" using updateTaskDetails_outcome [OF assms(1,2), of None dto u i] assms(3) by (simp add: outcome_def)
  have ready: "ready T s" using assms(2) by (simp add: conn_ok_def)
  have pres: "preserves (in_tx T c o') (case ids of None \<Rightarrow> ret a | Some xs \<Rightarrow> fetch (h xs))" for c o' ids a and h :: "uuid list \<Rightarrow> task_db \<Rightarrow> label list"
    by (cases ids) (auto intro: in_tx_intros)
  show ?thesis
  proof (rule committed_run [OF assms(3) [unfolded updateTaskDetails_def] ready], goal_cases)
    case (1 c o')
    show ?case unfolding Let_def by (intro in_tx_intros assms)
  next
    case (2 e s' t' t1)
    obtain x g where x: "own u i ?d x g" "snd e = gr_boardId g" "ta_groupId (te_row (fst e)) = nullish (ut_groupId dto) (ta_groupId x)"
        "ta_dueDate (te_row (fst e)) = ta_dueDate (assign_task dto x)"
        "find_task i (cn_current t') = find_task i (replaced_task i (saved_task env dto x) ?d)"
      using 2(1-3) by (cases "ut_labelIds dto")
        (auto simp: inr_iffs lookup_Inr Let_def own_def assign_task_def find_relabel dest!: membership_Inr [OF _ _ assms(1)] asked_current)
    have due: "ta_dueDate (saved_task env dto x) = ta_dueDate (assign_task dto x)" "ta_id (saved_task env dto x) = i"
      using own_fields [OF x(1)] by (simp_all add: saved_fields assign_task_def)
    have found: "find_task i (cn_current t') = Some (saved_task env dto x)"
      using x(5) find_replaced [OF _ due(2)] own_fields [OF x(1)] by simp
    have t1: "cn_committed t1 = cn_current t'" "to_lists (cn_out t1) = to_lists (cn_out s)"
        "to_listVersion (cn_out t1) = to_listVersion (cn_out s)" "to_reminders (cn_out t1) = to_reminders (cn_out s)"
      using 2(4) by (auto simp: committed_as_def)
    show ?thesis
      by (rule that [OF x(1) _ _ _ _ ok _ _])
        (use 2(5) x(2-4) found t1 due(1) in \<open>auto simp: split_beta Let_def inr_iffs deadline_run list_changed_def
          invalidateList_def audit_def tell_def outside_def mapTaskResponse_def\<close>)
  qed
qed



section \<open>A task dragged within its group\<close>

lemma insort_map: "insort_key f (h x) (map h xs) = map h (insort_key (\<lambda>x. f (h x)) x xs)"
  by (induction xs) auto

lemma sort_map: "sort_key f (map h xs) = map h (sort_key (\<lambda>x. f (h x)) xs)"
  by (induction xs) (simp_all add: insort_map)

lemma sorted_map_mono:
  "sorted (map f xs) \<Longrightarrow> (\<And>a b. a \<in> set xs \<Longrightarrow> b \<in> set xs \<Longrightarrow> f a \<le> f b \<Longrightarrow> p a \<le> p b) \<Longrightarrow> sorted (map p xs)"
  for f p :: "'a \<Rightarrow> int"
  by (induction xs) auto

lemma sorted_filter_map: "sorted (map f xs) \<Longrightarrow> sorted (map f (filter P xs))"
  by (induction xs) auto

lemma mset_split: "mset (filter Q xs) + mset (filter (\<lambda>y. \<not> Q y) xs) = mset xs"
  by (induction xs) auto

text \<open>
  A list in the order of \<open>f\<close>, keys distinct; element \<open>x\<close> is given a new key \<open>p x\<close>, and the keys of the others
  keep their order: \<open>x\<close> comes after those with a lower new key.
\<close>

lemma sorted_moved:
  fixes f p :: "'a \<Rightarrow> int"
  assumes x: "x \<in> set xs" and "distinct xs" and inj: "inj_on p (set xs)"
    and mono: "\<And>a b. a \<in> set xs - {x} \<Longrightarrow> b \<in> set xs - {x} \<Longrightarrow> f a \<le> f b \<Longrightarrow> p a \<le> p b"
  shows "sort_key p xs = filter (\<lambda>y. y \<noteq> x \<and> p y < p x) (sort_key f xs) @ x # filter (\<lambda>y. y \<noteq> x \<and> \<not> p y < p x) (sort_key f xs)"
    (is "_ = ?A @ x # ?B")
proof (rule sort_key_inj_key_eq [OF _ inj])
  let ?S = "sort_key f xs" and ?Q = "\<lambda>y. p y < p x"
  have "filter (\<lambda>y. y \<noteq> x) ?S = remove1 x ?S"
    using assms(2) by (simp add: distinct_remove1_removeAll removeAll_filter_not_eq eq_commute)
  then have rest: "add_mset x (mset (filter (\<lambda>y. y \<noteq> x) ?S)) = mset xs" using x by simp
  have "mset ?A + mset ?B = mset (filter (\<lambda>y. y \<noteq> x) ?S)"
    using mset_split [of ?Q "filter (\<lambda>y. y \<noteq> x) ?S"] by (simp add: conj_commute)
  then show "mset xs = mset (?A @ x # ?B)" using rest by simp
  have part: "sorted (map p (filter (\<lambda>y. y \<noteq> x \<and> Q y) (sort_key f xs)))" for Q
    by (rule sorted_map_mono [where f = f]) (use mono in \<open>auto intro!: sorted_filter_map\<close>)
  show "sorted (map p (?A @ x # ?B))"
    using part by (auto simp: sorted_append)
qed

lemma task_response_fields: "tr_id (mapTaskResponse (load_task d t)) = ta_id t" "tr_order (mapTaskResponse (load_task d t)) = ta_order t"
  by (simp_all add: mapTaskResponse_def load_task_def Let_def)

lemma listing_ids: "map tr_id (group_listing g d) = map ta_id (sort_key ta_order (filter (\<lambda>t. ta_groupId t = g) (tasks d)))"
  "map tr_order (group_listing g d) = map ta_order (sort_key ta_order (filter (\<lambda>t. ta_groupId t = g) (tasks d)))"
  by (simp_all add: group_listing_def task_response_fields)

lemma listing_filter: "map tr_id (filter (\<lambda>r. P (tr_id r) (tr_order r)) (group_listing g d)) =
  map ta_id (filter (\<lambda>t. P (ta_id t) (ta_order t)) (sort_key ta_order (filter (\<lambda>t. ta_groupId t = g) (tasks d))))"
  by (simp add: group_listing_def filter_map comp_def task_response_fields)

text \<open>The rows of a group, each replaced, the orders of all but one kept in their order.\<close>

lemma listing_reordered:
  assumes keys: "keys_ok d" and x: "x \<in> set (tasks d)" "ta_groupId x = g"
    and h: "tasks d' = map h (tasks d)" "\<And>y. y \<in> set (tasks d) \<Longrightarrow> ta_id (h y) = ta_id y \<and> ta_groupId (h y) = ta_groupId y"
    and inj: "\<And>y z. y \<in> set (tasks d) \<Longrightarrow> z \<in> set (tasks d) \<Longrightarrow> ta_groupId y = g \<Longrightarrow> ta_groupId z = g \<Longrightarrow>
      ta_order (h y) = ta_order (h z) \<Longrightarrow> y = z"
    and mono: "\<And>y z. y \<in> set (tasks d) \<Longrightarrow> z \<in> set (tasks d) \<Longrightarrow> ta_groupId y = g \<Longrightarrow> ta_groupId z = g \<Longrightarrow> y \<noteq> x \<Longrightarrow> z \<noteq> x \<Longrightarrow>
      ta_order y \<le> ta_order z \<Longrightarrow> ta_order (h y) \<le> ta_order (h z)"
    and below: "\<And>y. y \<in> set (tasks d) \<Longrightarrow> ta_groupId y = g \<Longrightarrow> y \<noteq> x \<Longrightarrow> (ta_order (h y) < ta_order (h x)) = P (ta_order y)"
  shows "map tr_id (group_listing g d') =
      map tr_id (filter (\<lambda>r. tr_id r \<noteq> ta_id x \<and> P (tr_order r)) (group_listing g d)) @ ta_id x #
      map tr_id (filter (\<lambda>r. tr_id r \<noteq> ta_id x \<and> \<not> P (tr_order r)) (group_listing g d)) \<and>
    distinct (map tr_order (group_listing g d'))"
proof -
  let ?xs = "filter (\<lambda>t. ta_groupId t = g) (tasks d)" and ?p = "\<lambda>y. ta_order (h y)"
  let ?S = "sort_key ta_order ?xs"
  have dis: "distinct (map ta_id (tasks d))" using keys by (simp add: keys_ok_def)
  have ids: "(ta_id y \<noteq> ta_id x) = (y \<noteq> x)" if "y \<in> set ?xs" for y using distinct_key [OF dis, of y x] that x by auto
  have rows: "filter (\<lambda>t. ta_groupId t = g) (tasks d') = map h ?xs"
    using h(2) by (simp add: h(1) filter_map comp_def cong: filter_cong)
  have injp: "inj_on ?p (set ?xs)" using inj by (auto intro: inj_onI)
  have mo: "?p a \<le> ?p b" if "a \<in> set ?xs - {x}" "b \<in> set ?xs - {x}" "ta_order a \<le> ta_order b" for a b using mono that by auto
  have "distinct ?xs" using dis by (simp add: distinct_map)
  then have sorted: "sort_key ?p ?xs = filter (\<lambda>y. y \<noteq> x \<and> ?p y < ?p x) ?S @ x # filter (\<lambda>y. y \<noteq> x \<and> \<not> ?p y < ?p x) ?S"
    using x by (intro sorted_moved [OF _ _ injp mo]) simp_all
  have parts: "filter (\<lambda>y. y \<noteq> x \<and> ?p y < ?p x) ?S = filter (\<lambda>y. ta_id y \<noteq> ta_id x \<and> P (ta_order y)) ?S"
      "filter (\<lambda>y. y \<noteq> x \<and> \<not> ?p y < ?p x) ?S = filter (\<lambda>y. ta_id y \<noteq> ta_id x \<and> \<not> P (ta_order y)) ?S"
    by (rule filter_cong, simp, use below ids in auto)+
  have "map ta_id (map h (sort_key ?p ?xs)) = map ta_id (sort_key ?p ?xs)" using h(2) by simp
  then have "map tr_id (group_listing g d') = map ta_id (sort_key ?p ?xs)" by (simp only: listing_ids rows sort_map)
  moreover have "distinct (map tr_order (group_listing g d'))"
    using injp \<open>distinct ?xs\<close> by (simp add: listing_ids rows sort_map comp_def distinct_map)
  ultimately show ?thesis unfolding sorted parts
    by (simp add: listing_filter [where P = "\<lambda>i n. i \<noteq> ta_id x \<and> P n"] listing_filter [where P = "\<lambda>i n. i \<noteq> ta_id x \<and> \<not> P n"])
qed

text \<open>Where the order \<open>m\<close> of a task goes when the task of order \<open>c\<close> is dragged to order \<open>k\<close>.\<close>

definition dragged_order :: "int \<Rightarrow> int \<Rightarrow> int \<Rightarrow> int" where
  "dragged_order c k m = (if m = c then k else if c < m \<and> m \<le> k then m - 1 else if k \<le> m \<and> m < c then m + 1 else m)"

lemma dragged_inj: "dragged_order c k m = dragged_order c k n \<Longrightarrow> m = n"
  by (auto simp: dragged_order_def split: if_splits)

lemma dragged_mono: "m \<noteq> c \<Longrightarrow> n \<noteq> c \<Longrightarrow> m \<le> n \<Longrightarrow> dragged_order c k m \<le> dragged_order c k n"
  by (auto simp: dragged_order_def)

definition stays_ahead :: "int \<Rightarrow> int \<Rightarrow> int \<Rightarrow> bool" where
  "stays_ahead c k m \<longleftrightarrow> (if c < k then m \<le> k else m < k)"

lemma dragged_below: "m \<noteq> c \<Longrightarrow> (dragged_order c k m < k) = stays_ahead c k m"
  by (auto simp: dragged_order_def stays_ahead_def)

lemma moved_orders:
  assumes keys: "keys_ok d" and x: "x \<in> set (tasks d)" and dis: "distinct (map tr_order (group_listing (ta_groupId x) d))"
    and h: "tasks d' = map h (tasks d)" "\<And>y. y \<in> set (tasks d) \<Longrightarrow> ta_id (h y) = ta_id y \<and> ta_groupId (h y) = ta_groupId y"
    and orders: "\<And>y. y \<in> set (tasks d) \<Longrightarrow> ta_groupId y = ta_groupId x \<Longrightarrow> ta_order y = ta_order x \<longrightarrow> y = x \<Longrightarrow>
      ta_order (h y) = dragged_order (ta_order x) k (ta_order y)"
  shows "map tr_id (group_listing (ta_groupId x) d') =
      map tr_id (filter (\<lambda>r. tr_id r \<noteq> ta_id x \<and> stays_ahead (ta_order x) k (tr_order r)) (group_listing (ta_groupId x) d)) @ ta_id x #
      map tr_id (filter (\<lambda>r. tr_id r \<noteq> ta_id x \<and> \<not> stays_ahead (ta_order x) k (tr_order r)) (group_listing (ta_groupId x) d)) \<and>
    distinct (map tr_order (group_listing (ta_groupId x) d'))"
proof -
  have "inj_on ta_order (set (filter (\<lambda>t. ta_groupId t = ta_groupId x) (tasks d)))"
    using dis by (simp add: listing_ids distinct_map)
  then have inj: "y = z" if "y \<in> set (tasks d)" "z \<in> set (tasks d)" "ta_groupId y = ta_groupId x" "ta_groupId z = ta_groupId x"
      "ta_order y = ta_order z" for y z
    using that by (auto dest: inj_onD)
  have hy: "ta_order (h y) = dragged_order (ta_order x) k (ta_order y)" if "y \<in> set (tasks d)" "ta_groupId y = ta_groupId x" for y
    using orders [OF that] inj [OF that(1) x that(2) refl] by blast
  have hx: "ta_order (h x) = k" using hy [OF x refl] by (simp add: dragged_order_def)
  have ne: "ta_order y \<noteq> ta_order x" if "y \<in> set (tasks d)" "ta_groupId y = ta_groupId x" "y \<noteq> x" for y
    using inj [OF that(1) x that(2) refl] that(3) by blast
  show ?thesis
  proof (rule listing_reordered [OF keys x refl h])
    fix y z assume y: "y \<in> set (tasks d)" "ta_groupId y = ta_groupId x" and z: "z \<in> set (tasks d)" "ta_groupId z = ta_groupId x"
    show "ta_order (h y) = ta_order (h z) \<Longrightarrow> y = z" using dragged_inj inj [OF y(1) z(1) y(2) z(2)] by (auto simp: hy y z)
    show "y \<noteq> x \<Longrightarrow> z \<noteq> x \<Longrightarrow> ta_order y \<le> ta_order z \<Longrightarrow> ta_order (h y) \<le> ta_order (h z)"
      using dragged_mono ne y z by (simp add: hy)
    show "y \<noteq> x \<Longrightarrow> (ta_order (h y) < ta_order (h x)) = stays_ahead (ta_order x) k (ta_order y)"
      using dragged_below ne y by (simp add: hy hx)
  qed
qed

lemma drag_run:
  assumes "task_env_ok T env" "conn_ok T s" "dragDropTask env dto u s = (Inr r, t)"
    "find_task (dd_taskId dto) (cn_committed s) = Some x" "ta_groupId x = dd_targetGroupId dto"
  obtains "ta_order x = dd_targetOrder dto" "cn_committed t = cn_committed s"
  | "ta_order x < dd_targetOrder dto" "cn_committed t = placed env (ta_id x) (ta_groupId x) (dd_targetOrder dto)
      (shifted env (ta_groupId x) (ta_order x + 1) (Some (dd_targetOrder dto)) (- 1) (cn_committed s))"
  | "dd_targetOrder dto < ta_order x" "cn_committed t = placed env (ta_id x) (ta_groupId x) (dd_targetOrder dto)
      (shifted env (ta_groupId x) (dd_targetOrder dto) (Some (ta_order x - 1)) 1 (cn_committed s))"
proof -
  let ?d = "cn_committed s"
  have ready: "ready T s" using assms(2) by (simp add: conn_ok_def)
  show ?thesis
  proof (rule committed_run [OF assms(3) [unfolded dragDropTask_def] ready], goal_cases)
    case (1 c o')
    show ?case by (intro in_tx_intros assms)
  next
    case (2 e s' t' t1)
    obtain h s1 where h: "find_group (dd_targetGroupId dto) ?d = Some h" "cn_current s1 = ?d"
        "(if ta_groupId x = gr_id h then moveTaskWithinGroup env x (dd_targetOrder dto)
          else moveTaskToDifferentGroup env x (gr_id h) (dd_targetOrder dto)) s1 = (Inr (), t')"
      using 2(1-3) assms(4) by (fastforce simp: inr_iffs lookup_Inr dest!: membership_Inr [OF _ _ assms(1)] asked_current split: if_splits)
    have run: "moveTaskWithinGroup env x (dd_targetOrder dto) s1 = (Inr (), t')"
      using h(3) find_ids(2) [OF h(1)] assms(5) by simp
    have t: "cn_committed t = cn_current t'"
      using 2(4,5) by (cases e) (auto simp: committed_as_def list_changed_def invalidateList_def tell_def outside_def Let_def
          inr_iffs split: if_splits)
    show ?thesis
      using run h(2) that unfolding t
      by (auto simp: moveTaskWithinGroup_def Let_def inr_iffs dest!: shift_tasks_Inr place_task_Inr split: if_splits)
  qed
qed

text \<open>
  C21: Dragging a task to a place in its own group is a removal and an insertion: in what
  \<open>getTasksInGroup\<close> shows, the others keep their order, and the task comes after those whose order was
  at most the target (below it, when the task moves down the numbers); the orders stay distinct when
  they were.
\<close>

theorem drag_within_group:
  assumes "task_env_ok T env" "conn_ok T s" "task_ok (cn_committed s)" "dragDropTask env dto u s = (Inr r, t)"
    "find_task (dd_taskId dto) (cn_committed s) = Some x" "ta_groupId x = dd_targetGroupId dto"
    "distinct (map tr_order (group_listing (ta_groupId x) (cn_committed s)))"
  shows "map tr_id (group_listing (ta_groupId x) (cn_committed t)) =
      map tr_id (filter (\<lambda>r. tr_id r \<noteq> dd_taskId dto \<and> stays_ahead (ta_order x) (dd_targetOrder dto) (tr_order r))
        (group_listing (ta_groupId x) (cn_committed s))) @
      dd_taskId dto #
      map tr_id (filter (\<lambda>r. tr_id r \<noteq> dd_taskId dto \<and> \<not> stays_ahead (ta_order x) (dd_targetOrder dto) (tr_order r))
        (group_listing (ta_groupId x) (cn_committed s))) \<and>
    distinct (map tr_order (group_listing (ta_groupId x) (cn_committed t)))"
proof -
  let ?d = "cn_committed s" and ?k = "dd_targetOrder dto"
  have keys: "keys_ok ?d" using assms(3) by (simp add: task_ok_def)
  have x: "x \<in> set (tasks ?d)" "ta_id x = dd_taskId dto" using assms(5) by (auto dest: find_mem find_ids)
  have "distinct (map ta_id (tasks ?d))" using keys by (simp add: keys_ok_def)
  then have same: "y = x" if "y \<in> set (tasks ?d)" "ta_id y = ta_id x" for y using distinct_key that x(1) by metis
  let ?h = "\<lambda>lo hi n y. let y = (if in_span (ta_groupId x) lo (Some hi) y then y\<lparr>ta_order := ta_order y + n, ta_updatedAt := kv_now env\<rparr> else y)
      in if ta_id y = ta_id x then y\<lparr>ta_groupId := ta_groupId x, ta_order := ?k, ta_updatedAt := kv_now env\<rparr> else y"
  have rows: "tasks (placed env (ta_id x) (ta_groupId x) ?k (shifted env (ta_groupId x) lo (Some hi) n ?d)) = map (?h lo hi n) (tasks ?d)" for lo hi n
    by (simp add: placed_def shifted_def Let_def comp_def)
  have ids: "ta_id (?h lo hi n y) = ta_id y \<and> ta_groupId (?h lo hi n y) = ta_groupId y" if "y \<in> set (tasks ?d)" for lo hi n y
    using same [OF that] by (auto simp: Let_def)
  have fields: "ta_order (?h lo hi n y) = (if y = x then ?k else if lo \<le> ta_order y \<and> ta_order y \<le> hi then ta_order y + n else ta_order y)"
    if "y \<in> set (tasks ?d)" "ta_groupId y = ta_groupId x" for lo hi n y
    using same [OF that(1)] that(2) by (auto simp: in_span_def Let_def)
  note moved = moved_orders [OF keys x(1) assms(7), where k = ?k]
  show ?thesis unfolding x(2) [symmetric]
  proof (rule drag_run [OF assms(1,2,4,5,6)], goal_cases)
    case 1
    then show ?case by (intro moved [where h = "\<lambda>y. y"]) (auto simp: dragged_order_def)
  next
    case 2
    show ?case by (intro moved [OF rows [of "ta_order x + 1" ?k "- 1", folded 2(2)] ids]) (use 2(1) in \<open>auto simp: fields dragged_order_def\<close>)
  next
    case 3
    show ?case by (intro moved [OF rows [of ?k "ta_order x - 1" 1, folded 3(2)] ids]) (use 3(1) in \<open>auto simp: fields dragged_order_def\<close>)
  qed
qed

end
