(* ===== verification/Task_Witnesses.thy ===== *)
theory Task_Witnesses
  imports Task_Moves
begin

text \<open>
  The properties of the task service at a concrete input: two boards, Ann's with two groups and Bob's with
  one, and an environment that gives every new row an id greater than those in use.
\<close>

section \<open>A workspace with two boards\<close>

definition used_ids :: "task_db \<Rightarrow> uuid list" where
  "used_ids d = map bo_id (boards d) @ map bm_id (board_members d) @ map gr_id (groups d) @ map lb_id (labels d) @
     map ta_id (tasks d) @ map tm_id (task_members d) @ map tt_id (task_attachments d) @ map cl_id (checklists d) @
     map ci_id (checklist_items d)"

definition fresh_id :: "task_db \<Rightarrow> uuid" where
  "fresh_id d = Suc (sum_list (used_ids d))"

lemma fresh_id_new: "fresh_id d \<notin> all_ids d"
proof
  assume "fresh_id d \<in> all_ids d"
  then have "fresh_id d \<in> set (used_ids d)" by (simp add: all_ids_def used_ids_def)
  then show False using member_le_sum_list [of "fresh_id d" "used_ids d"] by (simp add: fresh_id_def)
qed

definition sample_env :: task_env where
  "sample_env = \<lparr>kv_now = 1000, kv_random = 0,
     kv_member = (\<lambda>w u. Inr (Some \<lparr>wm_userId = u, wm_role = ''member'', wm_firstName = None, wm_lastName = None\<rparr>)),
     kv_newId = fresh_id, kv_ilike = (\<lambda>p t. p = t), kv_savedGroup = (\<lambda>old new. new)\<rparr>"

definition sample_answers :: answers where
  "sample_answers w u m \<longleftrightarrow> wm_userId m = u \<and> wm_role m = ''member''"

definition sample_task :: "uuid \<Rightarrow> uuid \<Rightarrow> int \<Rightarrow> task" where
  "sample_task i g k = \<lparr>ta_id = i, ta_groupId = g, ta_title = js ''x'', ta_description = None, ta_startDate = None, ta_dueDate = None,
     ta_order = k, ta_isDone = False, ta_createdAt = 0, ta_updatedAt = 0\<rparr>"

definition sample_db :: task_db where
  "sample_db = \<lparr>boards = [\<lparr>bo_id = 1, bo_workspaceId = 9, bo_backgroundUrl = [], bo_name = js ''A'', bo_createdAt = 0, bo_updatedAt = 0\<rparr>,
       \<lparr>bo_id = 2, bo_workspaceId = 9, bo_backgroundUrl = [], bo_name = js ''B'', bo_createdAt = 0, bo_updatedAt = 0\<rparr>],
     board_members = [\<lparr>bm_id = 11, bm_boardId = 1, bm_memberId = 101\<rparr>, \<lparr>bm_id = 12, bm_boardId = 2, bm_memberId = 102\<rparr>],
     groups = [\<lparr>gr_id = 21, gr_boardId = 1, gr_name = js ''to do'', gr_order = 0, gr_createdAt = 0, gr_updatedAt = 0\<rparr>,
       \<lparr>gr_id = 22, gr_boardId = 1, gr_name = js ''done'', gr_order = 1, gr_createdAt = 0, gr_updatedAt = 0\<rparr>,
       \<lparr>gr_id = 23, gr_boardId = 2, gr_name = js ''to do'', gr_order = 0, gr_createdAt = 0, gr_updatedAt = 0\<rparr>],
     labels = [], tasks = [sample_task 31 21 0, sample_task 32 21 1, sample_task 33 21 2, sample_task 34 23 0],
     task_labels = [], task_members = [], task_attachments = [], checklists = [], checklist_items = []\<rparr>"

definition sample_conn :: "(task_db, task_out) conn" where
  "sample_conn = \<lparr>cn_committed = sample_db, cn_current = sample_db, cn_inTx = False,
     cn_out = \<lparr>to_lists = Map.empty, to_boardLists = Map.empty, to_memberships = Map.empty, to_boards = Map.empty,
       to_groups = Map.empty, to_wsMembers = Map.empty, to_listVersion = (\<lambda>g. 0), to_boardListVersion = (\<lambda>g. 0),
       to_reminders = Map.empty, to_audit = [], to_pushes = []\<rparr>\<rparr>"

definition first_page :: "uuid \<Rightarrow> query_task" where
  "first_page g = \<lparr>qt_groupId = g, qt_page = None, qt_limit = None\<rparr>"

lemma sample_env_ok: "task_env_ok sample_answers sample_env"
  by (simp add: task_env_ok_def sample_env_def sample_answers_def fresh_id_new)

lemma sample_conn_ok: "conn_ok sample_answers sample_conn"
  by (simp add: conn_ok_def ready_def idle_def out_ok_def memberships_ok_def sample_conn_def)

lemma sample_db_ok: "task_ok (cn_committed sample_conn)"
  by code_simp

text \<open>Runs of Ann's.\<close>

abbreviation ann :: "task_op \<Rightarrow> task_env \<times> uuid \<times> task_op" where
  "ann op \<equiv> (sample_env, 101, op)"

lemma sample_run_ok: "envs_ok sample_answers (map ann ops)"
  by (auto simp: envs_ok_def sample_env_ok)



lemma only_members_change_boards_witness:
  "view_of 2 (cn_committed (perform_task sample_env 101 (RemoveGroup 23) sample_conn)) = view_of 2 sample_db \<and>
   group_listing 23 (cn_committed (perform_task sample_env 101 (RemoveGroup 23) sample_conn)) = group_listing 23 sample_db"
  using only_members_change_boards [OF sample_env_ok sample_conn_ok sample_db_ok, of "RemoveGroup 23" 2
      "\<lparr>bo_id = 2, bo_workspaceId = 9, bo_backgroundUrl = [], bo_name = js ''B'', bo_createdAt = 0, bo_updatedAt = 0\<rparr>" 101]
  by (simp add: sample_conn_def sample_db_def narrowed_def find_board_def is_member_def admin_def sample_answers_def group_ids_def)

text \<open>A run of reads and a task dragged to another group.\<close>

definition sample_run :: "(task_env \<times> uuid \<times> task_op) list" where
  "sample_run = map ann [TasksInGroup (first_page 21), DragDrop \<lparr>dd_taskId = 31, dd_targetGroupId = 22, dd_targetOrder = 0\<rparr>,
     TasksInGroup (first_page 21)]"

lemma fair_sample_run: "fair_run sample_run sample_conn"
  by (simp add: sample_run_def narrowed_def)

lemma sample_run_read:
  "case fst (getTasksInGroup sample_env (first_page 21) 101 (performs_task sample_run sample_conn)) of
     Inl e \<Rightarrow> False | Inr pg \<Rightarrow> map tr_id (op_data pg) = [32, 33]"
  by code_simp

lemma cached_lists_are_current_witness:
  "\<exists>pg t. getTasksInGroup sample_env (first_page 21) 101 (performs_task sample_run sample_conn) = (Inr pg, t) \<and>
     pg = queried (first_page 21) (cn_committed (performs_task sample_run sample_conn)) \<and> map tr_id (op_data pg) = [32, 33]"
proof -
  obtain r t where run: "getTasksInGroup sample_env (first_page 21) 101 (performs_task sample_run sample_conn) = (r, t)" by fastforce
  obtain pg where pg: "r = Inr pg" "map tr_id (op_data pg) = [32, 33]"
    using sample_run_read by (cases r) (simp_all add: run)
  have there: "find_group (qt_groupId (first_page 21)) (cn_committed (performs_task sample_run sample_conn)) \<noteq> None" by code_simp
  have "envs_ok sample_answers sample_run" unfolding sample_run_def by (rule sample_run_ok)
  moreover have "to_lists (cn_out sample_conn) = Map.empty" by (simp add: sample_conn_def)
  ultimately have "pg = queried (first_page 21) (cn_committed (performs_task sample_run sample_conn))"
    using cached_lists_are_current [OF _ sample_conn_ok sample_db_ok _ fair_sample_run sample_env_ok run [unfolded pg(1)] there] by blast
  then show ?thesis using run [unfolded pg(1)] pg(2) by (intro exI conjI)
qed

definition no_update :: update_task where
  "no_update = \<lparr>ut_title = None, ut_description = None, ut_startDate = None, ut_dueDate = None, ut_labelIds = None, ut_order = None,
     ut_groupId = None\<rparr>"


text \<open>Ann reads the first page of her group, then updates task 31 with Bob's group, of whose board she is no member.\<close>

definition read_conn :: "(task_db, task_out) conn" where
  "read_conn = performs_task [ann (TasksInGroup (first_page 21))] sample_conn"


lemma drag_within_group_witness:
  "\<exists>r t. dragDropTask sample_env \<lparr>dd_taskId = 31, dd_targetGroupId = 21, dd_targetOrder = 1\<rparr> 101 sample_conn = (Inr r, t) \<and>
     map tr_id (group_listing 21 (cn_committed t)) = [32, 31, 33]"
proof -
  let ?dto = "\<lparr>dd_taskId = 31, dd_targetGroupId = 21, dd_targetOrder = 1\<rparr>"
  obtain r t where run: "dragDropTask sample_env ?dto 101 sample_conn = (r, t)" by fastforce
  have "\<not> isl (fst (dragDropTask sample_env ?dto 101 sample_conn))" by code_simp
  then obtain x where r: "r = Inr x" by (cases r) (simp_all add: run)
  have found: "find_task (dd_taskId ?dto) (cn_committed sample_conn) = Some (sample_task 31 21 0)" by code_simp
  have listing: "map (\<lambda>r. (tr_id r, tr_order r)) (group_listing 21 (cn_committed sample_conn)) = [(31, 0), (32, 1), (33, 2)]" by code_simp
  have orders: "distinct (map tr_order (group_listing (ta_groupId (sample_task 31 21 0)) (cn_committed sample_conn)))" by code_simp
  have parts: "map tr_id (filter (\<lambda>r. tr_id r \<noteq> dd_taskId ?dto \<and> stays_ahead (ta_order (sample_task 31 21 0)) (dd_targetOrder ?dto) (tr_order r))
      (group_listing (ta_groupId (sample_task 31 21 0)) (cn_committed sample_conn))) = [32]"
    "map tr_id (filter (\<lambda>r. tr_id r \<noteq> dd_taskId ?dto \<and> \<not> stays_ahead (ta_order (sample_task 31 21 0)) (dd_targetOrder ?dto) (tr_order r))
      (group_listing (ta_groupId (sample_task 31 21 0)) (cn_committed sample_conn))) = [33]"
    by code_simp+
  have group: "ta_groupId (sample_task 31 21 0) = dd_targetGroupId ?dto" by (simp add: sample_task_def)
  have "map tr_id (group_listing (ta_groupId (sample_task 31 21 0)) (cn_committed t)) = [32] @ dd_taskId ?dto # [33]"
    using drag_within_group [OF sample_env_ok sample_conn_ok sample_db_ok run [unfolded r] found group orders] unfolding parts by blast
  then show ?thesis using run r by (auto simp: sample_task_def)
qed

end
