(* ===== verification/List_Cache.thy ===== *)
theory List_Cache
  imports Service
begin

text \<open>
  The lists of \<open>libs/cached/src/cached.service.ts\<close> under concurrency: any number of
  processes serve any number of requests, each of them an \<open>await\<close> at a time. A reader runs
  \<open>getOrSetList\<close>: it reads the version, then the cell of that version; on a miss it joins
  the fetch its own process has in flight for that key, or starts one, writes what it fetched
  into the cell and answers it. A writer commits its change to the database, then increments the
  version. Cells expire at any time, a fetch may fail.

  The database is the list of the writers that have committed, the newest first, and so is what
  a query returns.
\<close>

type_synonym commits = "nat list"

datatype reader =
    Start
  | HasVersion nat                  \<comment> \<open>after \<open>getVersion\<close>\<close>
  | Fetching nat                    \<comment> \<open>registered in \<open>inFlightRequests\<close>\<close>
  | Fetched nat commits             \<comment> \<open>before \<open>set\<close> has returned\<close>
  | Joined nat nat                  \<comment> \<open>waits for the fetch of another reader\<close>
  | Done nat commits
  | Failed

datatype writer = NotYet | Committed | Written nat    \<comment> \<open>with the version its \<open>INCR\<close> made\<close>

record list_cache =
  lc_db :: commits
  lc_version :: nat
  lc_cells :: "nat \<rightharpoonup> commits"
  lc_flight :: "nat \<times> nat \<rightharpoonup> nat"   \<comment> \<open>process and version to the reader that fetches\<close>
  lc_readers :: "nat \<Rightarrow> reader"
  lc_writers :: "nat \<Rightarrow> writer"

text \<open>\<open>home i\<close> is the process that serves reader \<open>i\<close>.\<close>

inductive lc_step :: "(nat \<Rightarrow> nat) \<Rightarrow> list_cache \<Rightarrow> list_cache \<Rightarrow> bool" for home where
  read_version: "lc_readers s i = Start \<Longrightarrow>
    lc_step home s (s\<lparr>lc_readers := (lc_readers s)(i := HasVersion (lc_version s))\<rparr>)"
| hit: "lc_readers s i = HasVersion v \<Longrightarrow> lc_cells s v = Some d \<Longrightarrow>
    lc_step home s (s\<lparr>lc_readers := (lc_readers s)(i := Done v d)\<rparr>)"
| join: "lc_readers s i = HasVersion v \<Longrightarrow> lc_cells s v = None \<Longrightarrow> lc_flight s (home i, v) = Some j \<Longrightarrow>
    lc_step home s (s\<lparr>lc_readers := (lc_readers s)(i := Joined v j)\<rparr>)"
| miss: "lc_readers s i = HasVersion v \<Longrightarrow> lc_cells s v = None \<Longrightarrow> lc_flight s (home i, v) = None \<Longrightarrow>
    lc_step home s (s\<lparr>lc_readers := (lc_readers s)(i := Fetching v), lc_flight := (lc_flight s)((home i, v) \<mapsto> i)\<rparr>)"
| query: "lc_readers s i = Fetching v \<Longrightarrow>
    lc_step home s (s\<lparr>lc_readers := (lc_readers s)(i := Fetched v (lc_db s))\<rparr>)"
| query_fails: "lc_readers s i = Fetching v \<Longrightarrow>
    lc_step home s (s\<lparr>lc_readers := (lc_readers s)(i := Failed), lc_flight := (lc_flight s)((home i, v) := None)\<rparr>)"
| set: "lc_readers s i = Fetched v d \<Longrightarrow>
    lc_step home s (s\<lparr>lc_readers := (lc_readers s)(i := Done v d), lc_cells := (lc_cells s)(v \<mapsto> d),
      lc_flight := (lc_flight s)((home i, v) := None)\<rparr>)"
| joined_done: "lc_readers s i = Joined v j \<Longrightarrow> lc_readers s j = Done u d \<Longrightarrow>
    lc_step home s (s\<lparr>lc_readers := (lc_readers s)(i := Done v d)\<rparr>)"
| joined_fails: "lc_readers s i = Joined v j \<Longrightarrow> lc_readers s j = Failed \<Longrightarrow>
    lc_step home s (s\<lparr>lc_readers := (lc_readers s)(i := Failed)\<rparr>)"
| expire: "lc_step home s (s\<lparr>lc_cells := (lc_cells s)(v := None)\<rparr>)"
| commit: "lc_writers s w = NotYet \<Longrightarrow>
    lc_step home s (s\<lparr>lc_db := w # lc_db s, lc_writers := (lc_writers s)(w := Committed)\<rparr>)"
| bump: "lc_writers s w = Committed \<Longrightarrow>
    lc_step home s (s\<lparr>lc_version := lc_version s + 1, lc_writers := (lc_writers s)(w := Written (lc_version s + 1))\<rparr>)"

inductive lc_steps :: "(nat \<Rightarrow> nat) \<Rightarrow> list_cache \<Rightarrow> list_cache \<Rightarrow> bool" for home where
  refl: "lc_steps home s s"
| step: "lc_steps home s t \<Longrightarrow> lc_step home t u \<Longrightarrow> lc_steps home s u"

definition lc_start :: list_cache where
  "lc_start = \<lparr>lc_db = [], lc_version = 0, lc_cells = Map.empty, lc_flight = Map.empty,
     lc_readers = \<lambda>_. Start, lc_writers = \<lambda>_. NotYet\<rparr>"

section \<open>The invariant\<close>

text \<open>Whoever has a list of version \<open>v\<close> has seen every writer that has made a version up to \<open>v\<close>.\<close>

definition complete :: "(nat \<Rightarrow> writer) \<Rightarrow> nat \<Rightarrow> commits \<Rightarrow> bool" where
  "complete ws v d \<longleftrightarrow> (\<forall>w b. ws w = Written b \<longrightarrow> b \<le> v \<longrightarrow> w \<in> set d)"

fun reader_ok :: "list_cache \<Rightarrow> reader \<Rightarrow> bool" where
  "reader_ok s Start \<longleftrightarrow> True"
| "reader_ok s (HasVersion v) \<longleftrightarrow> v \<le> lc_version s"
| "reader_ok s (Fetching v) \<longleftrightarrow> v \<le> lc_version s"
| "reader_ok s (Fetched v d) \<longleftrightarrow> v \<le> lc_version s \<and> complete (lc_writers s) v d"
| "reader_ok s (Joined v j) \<longleftrightarrow> v \<le> lc_version s"
| "reader_ok s (Done v d) \<longleftrightarrow> v \<le> lc_version s \<and> complete (lc_writers s) v d"
| "reader_ok s Failed \<longleftrightarrow> True"

definition writers_ok :: "list_cache \<Rightarrow> bool" where
  "writers_ok s \<longleftrightarrow> (\<forall>w. lc_writers s w \<noteq> NotYet \<longrightarrow> w \<in> set (lc_db s)) \<and>
     (\<forall>w b. lc_writers s w = Written b \<longrightarrow> b \<le> lc_version s)"

definition cells_ok :: "list_cache \<Rightarrow> bool" where
  "cells_ok s \<longleftrightarrow> (\<forall>v d. lc_cells s v = Some d \<longrightarrow> v \<le> lc_version s \<and> complete (lc_writers s) v d)"

text \<open>A fetch in flight, or one somebody waits for, is of the version it is registered under.\<close>

definition fetches :: "nat \<Rightarrow> reader \<Rightarrow> bool" where
  "fetches v r \<longleftrightarrow> r = Fetching v \<or> (\<exists>d. r = Fetched v d)"

definition joinable :: "nat \<Rightarrow> reader \<Rightarrow> bool" where
  "joinable v r \<longleftrightarrow> fetches v r \<or> (\<exists>d. r = Done v d) \<or> r = Failed"

definition flights_ok :: "(nat \<Rightarrow> nat) \<Rightarrow> list_cache \<Rightarrow> bool" where
  "flights_ok home s \<longleftrightarrow> (\<forall>p v j. lc_flight s (p, v) = Some j \<longrightarrow> home j = p \<and> fetches v (lc_readers s j))"

definition joined_ok :: "list_cache \<Rightarrow> bool" where
  "joined_ok s \<longleftrightarrow> (\<forall>i v j. lc_readers s i = Joined v j \<longrightarrow> joinable v (lc_readers s j))"

definition lc_inv :: "(nat \<Rightarrow> nat) \<Rightarrow> list_cache \<Rightarrow> bool" where
  "lc_inv home s \<longleftrightarrow> writers_ok s \<and> cells_ok s \<and> flights_ok home s \<and> joined_ok s \<and> (\<forall>i. reader_ok s (lc_readers s i))"

lemma complete_now: "writers_ok s \<Longrightarrow> complete (lc_writers s) v (lc_db s)"
  by (auto simp: writers_ok_def complete_def)

lemma complete_commit: "complete ws v d \<Longrightarrow> complete (ws(w := Committed)) v d"
  by (auto simp: complete_def)

lemma complete_bump: "complete ws v d \<Longrightarrow> v < b \<Longrightarrow> complete (ws(w := Written b)) v d"
  by (auto simp: complete_def)

lemma reader_ok_frame:
  "reader_ok s r \<Longrightarrow> lc_version t = lc_version s \<Longrightarrow> lc_writers t = lc_writers s \<Longrightarrow> reader_ok t r"
  by (cases r) auto

lemma reader_ok_commit:
  "reader_ok s r \<Longrightarrow> lc_version t = lc_version s \<Longrightarrow> lc_writers t = (lc_writers s)(w := Committed) \<Longrightarrow> reader_ok t r"
  by (cases r) (auto simp: complete_commit)

lemma reader_ok_bump:
  "reader_ok s r \<Longrightarrow> lc_version t = lc_version s + 1 \<Longrightarrow> lc_writers t = (lc_writers s)(w := Written (lc_version s + 1)) \<Longrightarrow>
   reader_ok t r"
  by (cases r) (auto intro!: complete_bump)

lemma writers_ok_step: "lc_step home s t \<Longrightarrow> writers_ok s \<Longrightarrow> writers_ok t"
  by (induction rule: lc_step.induct) (auto simp: writers_ok_def le_SucI)

lemma flights_ok_step: "lc_step home s t \<Longrightarrow> flights_ok home s \<Longrightarrow> flights_ok home t"
proof (induction rule: lc_step.induct)
  case (query_fails s i v)
  then have "p = home i \<and> u = v" if "lc_flight s (p, u) = Some i" for p u
    using that unfolding flights_ok_def fetches_def by fastforce
  then show ?case using query_fails by (auto simp: flights_ok_def)
next
  case (set s i v d)
  then have "p = home i \<and> u = v" if "lc_flight s (p, u) = Some i" for p u
    using that unfolding flights_ok_def fetches_def by fastforce
  then show ?case using set by (auto simp: flights_ok_def)
next
  case (query s i v)
  then have "home i = p \<and> u = v" if "lc_flight s (p, u) = Some i" for p u
    using that unfolding flights_ok_def fetches_def by fastforce
  then show ?case using query by (auto simp: flights_ok_def fetches_def)
qed (fastforce simp: flights_ok_def fetches_def)+

lemma joinable_simps [simp]:
  "\<not> joinable v Start" "\<not> joinable v (HasVersion u)" "joinable v (Fetching u) \<longleftrightarrow> u = v" "joinable v (Fetched u d) \<longleftrightarrow> u = v"
  "\<not> joinable v (Joined u j)" "joinable v (Done u d) \<longleftrightarrow> u = v" "joinable v Failed"
  by (auto simp: joinable_def fetches_def)

lemma joinable_step: "lc_step home s t \<Longrightarrow> joinable v (lc_readers s k) \<Longrightarrow> joinable v (lc_readers t k)"
  by (induction rule: lc_step.induct) auto

lemma new_joined:
  "lc_step home s t \<Longrightarrow> flights_ok home s \<Longrightarrow> lc_readers t i = Joined v j \<Longrightarrow>
   lc_readers s i = Joined v j \<or> joinable v (lc_readers s j)"
proof (induction rule: lc_step.induct)
  case (join s k u j')
  then have "fetches u (lc_readers s j')" unfolding flights_ok_def by blast
  then show ?case using join by (auto simp: joinable_def split: if_splits)
qed (auto split: if_splits)

lemma joined_ok_step: "lc_step home s t \<Longrightarrow> flights_ok home s \<Longrightarrow> joined_ok s \<Longrightarrow> joined_ok t"
  using new_joined joinable_step unfolding joined_ok_def by blast

lemma cells_ok_step: "lc_step home s t \<Longrightarrow> lc_inv home s \<Longrightarrow> cells_ok t"
proof (induction rule: lc_step.induct)
  case (set s i v d)
  have "reader_ok s (lc_readers s i)" using set(2) by (simp add: lc_inv_def)
  then show ?case using set by (simp add: lc_inv_def cells_ok_def)
next
  case (bump s w)
  then have "v \<le> lc_version s" "complete (lc_writers s) v d" if "lc_cells s v = Some d" for v d
    using that unfolding lc_inv_def cells_ok_def by blast+
  then show ?case by (auto simp: cells_ok_def le_imp_less_Suc le_SucI intro!: complete_bump)
qed (auto simp: lc_inv_def cells_ok_def complete_commit split: if_splits)

lemma readers_ok_update:
  "lc_inv home s \<Longrightarrow> lc_version t = lc_version s \<Longrightarrow> lc_writers t = lc_writers s \<Longrightarrow> reader_ok s r \<Longrightarrow>
   lc_readers t = (lc_readers s)(i := r) \<Longrightarrow> reader_ok t (lc_readers t k)"
  by (auto simp: lc_inv_def intro: reader_ok_frame)

lemma readers_ok_step: "lc_step home s t \<Longrightarrow> lc_inv home s \<Longrightarrow> reader_ok t (lc_readers t k)"
proof (induction rule: lc_step.induct)
  case (commit s w)
  show ?case by (rule reader_ok_commit [of s]) (use commit in \<open>auto simp: lc_inv_def\<close>)
next
  case (bump s w)
  show ?case by (rule reader_ok_bump [of s]) (use bump in \<open>auto simp: lc_inv_def\<close>)
next
  case (expire s v)
  show ?case by (rule reader_ok_frame [of s]) (use expire in \<open>auto simp: lc_inv_def\<close>)
next
  case (query s i v)
  have "reader_ok s (lc_readers s i)" using query(2) by (simp add: lc_inv_def)
  moreover have "complete (lc_writers s) v (lc_db s)" using query(2) by (simp add: lc_inv_def complete_now)
  ultimately show ?case
    using query(1) by - (rule readers_ok_update [OF query(2), where r = "Fetched v (lc_db s)" and i = i], auto)
next
  case (hit s i v d)
  then have "v \<le> lc_version s" "complete (lc_writers s) v d" unfolding lc_inv_def cells_ok_def by blast+
  then show ?case by - (rule readers_ok_update [OF hit(3), where r = "Done v d" and i = i], auto)
next
  case (joined_done s i v j u d)
  have "joinable v (lc_readers s j)" using joined_done unfolding lc_inv_def joined_ok_def by blast
  then have "u = v" using joined_done(2) by simp
  moreover have "reader_ok s (lc_readers s j)" using joined_done(3) by (simp add: lc_inv_def)
  ultimately show ?case
    using joined_done(2) by - (rule readers_ok_update [OF joined_done(3), where r = "Done v d" and i = i], auto)
next
  case (set s i v d)
  have "reader_ok s (lc_readers s i)" using set(2) by (simp add: lc_inv_def)
  then show ?case using set by - (rule readers_ok_update [OF set(2), where r = "Done v d" and i = i], auto)
next
  case (join s i v j)
  have "reader_ok s (lc_readers s i)" using join(4) by (simp add: lc_inv_def)
  then show ?case using join by - (rule readers_ok_update [OF join(4), where r = "Joined v j" and i = i], auto)
next
  case (miss s i v)
  have "reader_ok s (lc_readers s i)" using miss(4) by (simp add: lc_inv_def)
  then show ?case using miss by - (rule readers_ok_update [OF miss(4), where r = "Fetching v" and i = i], auto)
next
  case (read_version s i)
  show ?case by (rule readers_ok_update [OF read_version(2), where r = "HasVersion (lc_version s)" and i = i]) auto
next
  case (query_fails s i v)
  show ?case by (rule readers_ok_update [OF query_fails(2), where r = Failed and i = i]) auto
next
  case (joined_fails s i v j)
  show ?case by (rule readers_ok_update [OF joined_fails(3), where r = Failed and i = i]) auto
qed

lemma lc_inv_step: "lc_step home s t \<Longrightarrow> lc_inv home s \<Longrightarrow> lc_inv home t"
  using writers_ok_step flights_ok_step joined_ok_step cells_ok_step readers_ok_step unfolding lc_inv_def by blast

lemma lc_inv_steps: "lc_steps home s t \<Longrightarrow> lc_inv home s \<Longrightarrow> lc_inv home t"
  by (induction rule: lc_steps.induct) (auto intro: lc_inv_step)

lemma lc_inv_start: "lc_inv home lc_start"
  by (simp add: lc_inv_def lc_start_def writers_ok_def cells_ok_def flights_ok_def joined_ok_def)

section \<open>A list read after a write shows it\<close>

fun later :: "nat \<Rightarrow> reader \<Rightarrow> bool" where   \<comment> \<open>started, if at all, at version \<open>b\<close> or later\<close>
  "later b Start \<longleftrightarrow> True"
| "later b (HasVersion v) \<longleftrightarrow> b \<le> v"
| "later b (Fetching v) \<longleftrightarrow> b \<le> v"
| "later b (Fetched v d) \<longleftrightarrow> b \<le> v"
| "later b (Joined v j) \<longleftrightarrow> b \<le> v"
| "later b (Done v d) \<longleftrightarrow> b \<le> v"
| "later b Failed \<longleftrightarrow> True"

lemma version_grows: "lc_step home s t \<Longrightarrow> lc_version s \<le> lc_version t"
  by (induction rule: lc_step.induct) auto

lemma written_stays: "lc_step home s t \<Longrightarrow> lc_writers s w = Written b \<Longrightarrow> lc_writers t w = Written b"
  by (induction rule: lc_step.induct) auto

lemma later_lc_step: "lc_step home s t \<Longrightarrow> later b (lc_readers s i) \<Longrightarrow> b \<le> lc_version s \<Longrightarrow> later b (lc_readers t i)"
  by (induction rule: lc_step.induct) auto

lemma later_lc_steps:
  "lc_steps home s t \<Longrightarrow> b \<le> lc_version s \<Longrightarrow> later b (lc_readers s i) \<Longrightarrow> lc_writers s w = Written b \<Longrightarrow>
   later b (lc_readers t i) \<and> b \<le> lc_version t \<and> lc_writers t w = Written b"
  by (induction rule: lc_steps.induct) (auto dest: later_lc_step version_grows written_stays)


lemma read_after_write_run:
  fixes home :: "nat \<Rightarrow> nat"
  defines "s \<equiv> lc_start\<lparr>lc_db := [0], lc_version := 1, lc_writers := (\<lambda>_. NotYet)(0 := Written 1)\<rparr>"
  shows "lc_steps home lc_start s"
    "lc_steps home s (s\<lparr>lc_readers := (\<lambda>_. Start)(0 := Done 1 [0]), lc_cells := Map.empty(1 \<mapsto> [0])\<rparr>)"
proof -
  let ?c = "lc_start\<lparr>lc_db := [0], lc_writers := (\<lambda>_. NotYet)(0 := Committed)\<rparr>"
  have "lc_step home lc_start ?c" using lc_step.commit [of lc_start 0 home] by (simp add: lc_start_def)
  moreover have "lc_step home ?c s" using lc_step.bump [of ?c 0 home] by (simp add: s_def lc_start_def)
  ultimately show "lc_steps home lc_start s" by (meson lc_steps.intros)
  let ?r = "\<lambda>r. s\<lparr>lc_readers := (\<lambda>_. Start)(0 := r)\<rparr>"
  let ?f = "Map.empty((home 0, 1) \<mapsto> 0)"
  have "lc_step home s (?r (HasVersion 1))" using lc_step.read_version [of s 0 home] by (simp add: s_def lc_start_def)
  moreover have "lc_step home (?r (HasVersion 1)) (?r (Fetching 1)\<lparr>lc_flight := ?f\<rparr>)"
    using lc_step.miss [of "?r (HasVersion 1)" 0 1 home] by (simp add: s_def lc_start_def)
  moreover have "lc_step home (?r (Fetching 1)\<lparr>lc_flight := ?f\<rparr>) (?r (Fetched 1 [0])\<lparr>lc_flight := ?f\<rparr>)"
    using lc_step.query [of "?r (Fetching 1)\<lparr>lc_flight := ?f\<rparr>" 0 1 home] by (simp add: s_def lc_start_def)
  moreover have "lc_step home (?r (Fetched 1 [0])\<lparr>lc_flight := ?f\<rparr>) (?r (Done 1 [0])\<lparr>lc_cells := Map.empty(1 \<mapsto> [0])\<rparr>)"
    using lc_step.set [of "?r (Fetched 1 [0])\<lparr>lc_flight := ?f\<rparr>" 0 1 "[0]" home] by (simp add: s_def lc_start_def)
  ultimately show "lc_steps home s (?r (Done 1 [0])\<lparr>lc_cells := Map.empty(1 \<mapsto> [0])\<rparr>)" by (meson lc_steps.intros)
qed


section \<open>A value under a fixed key\<close>

text \<open>
  \<open>getOrSetDetail\<close> beside a writer that commits and then deletes the key, as the membership of
  a board and the member of a workspace are kept.
\<close>

datatype detail_reader = DStart | DFetching | DFetched commits | DDone commits

record detail_cache =
  dc_db :: commits
  dc_cell :: "commits option"
  dc_readers :: "nat \<Rightarrow> detail_reader"
  dc_writers :: "nat \<Rightarrow> writer"

inductive dc_step :: "detail_cache \<Rightarrow> detail_cache \<Rightarrow> bool" where
  d_hit: "dc_readers s i = DStart \<Longrightarrow> dc_cell s = Some d \<Longrightarrow> dc_step s (s\<lparr>dc_readers := (dc_readers s)(i := DDone d)\<rparr>)"
| d_miss: "dc_readers s i = DStart \<Longrightarrow> dc_cell s = None \<Longrightarrow> dc_step s (s\<lparr>dc_readers := (dc_readers s)(i := DFetching)\<rparr>)"
| d_query: "dc_readers s i = DFetching \<Longrightarrow> dc_step s (s\<lparr>dc_readers := (dc_readers s)(i := DFetched (dc_db s))\<rparr>)"
| d_set: "dc_readers s i = DFetched d \<Longrightarrow>
    dc_step s (s\<lparr>dc_readers := (dc_readers s)(i := DDone d), dc_cell := Some d\<rparr>)"
| d_expire: "dc_step s (s\<lparr>dc_cell := None\<rparr>)"
| d_commit: "dc_writers s w = NotYet \<Longrightarrow>
    dc_step s (s\<lparr>dc_db := w # dc_db s, dc_writers := (dc_writers s)(w := Committed)\<rparr>)"
| d_del: "dc_writers s w = Committed \<Longrightarrow> dc_step s (s\<lparr>dc_cell := None, dc_writers := (dc_writers s)(w := Written 0)\<rparr>)"

definition dc_start :: detail_cache where
  "dc_start = \<lparr>dc_db = [], dc_cell = None, dc_readers = \<lambda>_. DStart, dc_writers = \<lambda>_. NotYet\<rparr>"

text \<open>
  C40: a value under a fixed key can be read out of date after the write that changed it has
  returned: a reader that fetched before the commit writes its value after the key was deleted.
\<close>

theorem detail_read_is_stale:
  "\<exists>s t. dc_step\<^sup>*\<^sup>* dc_start s \<and> dc_writers s 0 = Written 0 \<and> dc_readers s 1 = DStart \<and>
     dc_step\<^sup>*\<^sup>* s t \<and> dc_readers t 1 = DDone []"
proof -
  let ?r = "\<lambda>r. dc_start\<lparr>dc_readers := (\<lambda>_. DStart)(0 := r)\<rparr>"
  let ?w = "\<lambda>w. ?r (DFetched [])\<lparr>dc_db := [0], dc_writers := (\<lambda>_. NotYet)(0 := w)\<rparr>"
  let ?s = "?w (Written 0)\<lparr>dc_readers := (\<lambda>_. DStart)(0 := DDone []), dc_cell := Some []\<rparr>"
  have "dc_step dc_start (?r DFetching)" using d_miss [of dc_start 0] by (simp add: dc_start_def)
  moreover have "dc_step (?r DFetching) (?r (DFetched []))"
    using d_query [of "?r DFetching" 0] by (simp add: dc_start_def)
  moreover have "dc_step (?r (DFetched [])) (?w Committed)"
    using d_commit [of "?r (DFetched [])" 0] by (simp add: dc_start_def)
  moreover have "dc_step (?w Committed) (?w (Written 0))"
    using d_del [of "?w Committed" 0] by (simp add: dc_start_def)
  moreover have "dc_step (?w (Written 0)) ?s"
    using d_set [of "?w (Written 0)" 0 "[]"] by (simp add: dc_start_def)
  ultimately have "dc_step\<^sup>*\<^sup>* dc_start ?s" by (meson rtranclp.rtrancl_into_rtrancl rtranclp.rtrancl_refl)
  moreover have "dc_step ?s (?s\<lparr>dc_readers := (dc_readers ?s)(1 := DDone [])\<rparr>)"
    using d_hit [of ?s 1 "[]"] by (simp add: dc_start_def)
  ultimately show ?thesis
    by (intro exI [of _ ?s] exI [of _ "?s\<lparr>dc_readers := (dc_readers ?s)(1 := DDone [])\<rparr>"]) (auto simp: dc_start_def)
qed

end
