(* ===== verification/Message_Depth.thy ===== *)
theory Message_Depth
  imports Message_Faults
begin

text \<open>
  The recursion of \<open>createMessage\<close> ends: a notice of the agent is a message, which could call for
  a notice again, but does not.
\<close>

section \<open>The sender of a message\<close>

lemma mentions_keep_row: "handleMentionsAndAttachments env m dto s = (Inr saved, t) \<Longrightarrow> en_row saved = m"
  by (auto simp: handleMentionsAndAttachments_def Let_def bare_def inr_iffs)

lemma body_sender:
  assumes "create_body env dto s = (Inr (r, saved), t)"
  shows "ms_userId (en_row saved) = Some (cr_senderId dto)"
proof -
  obtain m x s1 s2 where "m = new_message env x dto" "handleMentionsAndAttachments env m dto s1 = (Inr saved, s2)"
    using assms unfolding create_body_def transaction_def
    by (auto simp: Let_def inr_iffs split: prod.splits sum.splits)
  then show ?thesis using mentions_keep_row by (auto simp: new_message_def)
qed

section \<open>Depth\<close>

definition channels_agree :: "msg_env \<Rightarrow> bool" where
  "channels_agree env \<longleftrightarrow> (\<forall>c u ch. me_channel env c u = Inr (Some ch) \<longrightarrow> ch_id ch = c \<and>
     (\<forall>v ch'. me_channel env c v = Inr (Some ch') \<longrightarrow> ch_memberIds ch' = ch_memberIds ch))"

lemma create_cong:
  assumes "\<And>ch (saved :: entity). me_channel env (cr_channelId dto) (cr_senderId dto) = Inr (Some ch) \<Longrightarrow>
    ms_userId (en_row saved) = Some (cr_senderId dto) \<Longrightarrow>
    maybeTriggerAiOrchestration n env ch dto (en_row saved) = maybeTriggerAiOrchestration m env ch dto (en_row saved)"
  shows "createMessage n env dto = createMessage m env dto"
proof
  fix s
  show "createMessage n env dto s = createMessage m env dto s"
  proof (cases "\<exists>ch. me_channel env (cr_channelId dto) (cr_senderId dto) = Inr (Some ch)")
    case False
    then show ?thesis
      by (auto simp: createMessage.simps checkChannelExist_def andThen_def act_simps split: sum.splits option.splits)
  next
    case True
    then obtain ch where ch: "me_channel env (cr_channelId dto) (cr_senderId dto) = Inr (Some ch)" by blast
    then have check: "checkChannelExist env (cr_channelId dto) (cr_senderId dto) s = (Inr ch, s)"
      by (simp add: checkChannelExist_def act_simps)
    obtain r t where body: "create_body env dto s = (r, t)" by fastforce
    show ?thesis
    proof (cases r)
      case (Inl e)
      then show ?thesis using check body by (simp add: createMessage.simps andThen_def)
    next
      case (Inr x)
      obtain response saved where x: "x = (response, saved)" by (cases x) auto
      have "ms_userId (en_row saved) = Some (cr_senderId dto)" using body_sender body Inr x by blast
      from assms [OF ch this]
      have "maybeTriggerAiOrchestration n env ch dto (en_row saved) = maybeTriggerAiOrchestration m env ch dto (en_row saved)" .
      then show ?thesis using check body Inr x by (simp add: createMessage.simps andThen_def)
    qed
  qed
qed

text \<open>A notice is sent by the bot of the channel.\<close>

lemma gated_notice:
  "(if a then ret Quiet else if b then ret Quiet else if c then ret Quiet else
      andThen mx (\<lambda>x. if \<not> x then ret (Notice g t0) else andThen my (\<lambda>y. if p y then ret (Notice g t1) else if q then ret (Notice g t2)
        else ret (Trigger f (k y))))) s = (Inr (Notice h z), t) \<Longrightarrow> h = g"
  by (auto simp: inr_iffs split: if_splits)

lemma notice_sender:
  assumes "trigger_outcome_of env ch dto m s = (Inr (Notice g x), t)"
  shows "\<exists>agent. find us_isBot (map snd (getUsersInfo env (nullish (ch_memberIds ch) []))) = Some agent \<and> g = us_id agent"
proof (cases "find us_isBot (map snd (getUsersInfo env (nullish (ch_memberIds ch) [])))")
  case None
  then show ?thesis using assms by (auto simp: trigger_outcome_of_def inr_iffs split: if_splits)
next
  case (Some agent)
  have "g = us_id agent" using assms unfolding trigger_outcome_of_def Let_def Some option.case by (rule gated_notice)
  then show ?thesis using Some by blast
qed

lemma notice_depth:
  assumes "channels_agree env" "me_channel env c u = Inr (Some ch)"
    "find us_isBot (map snd (getUsersInfo env (nullish (ch_memberIds ch) []))) = Some agent" "us_id agent = Some a"
  shows "createMessage n env (notice_dto ch a x) = createMessage 0 env (notice_dto ch a x)"
proof (rule create_cong)
  fix ch' and saved :: entity assume ch': "me_channel env (cr_channelId (notice_dto ch a x)) (cr_senderId (notice_dto ch a x)) = Inr (Some ch')"
    and sender: "ms_userId (en_row saved) = Some (cr_senderId (notice_dto ch a x))"
  have "ch_memberIds ch' = ch_memberIds ch"
  proof -
    have "ch_id ch = c" using assms(1,2) unfolding channels_agree_def by blast
    then have "me_channel env c a = Inr (Some ch')" using ch' by (simp add: notice_dto_def)
    then show ?thesis using assms(1,2) unfolding channels_agree_def by metis
  qed
  then have f: "find us_isBot (map snd (getUsersInfo env (nullish (ch_memberIds ch') []))) = Some agent" using assms(3) by simp
  have "trigger_outcome_of env ch' (notice_dto ch a x) (en_row saved) = ret Quiet"
    by (rule notice_quiet [OF f]) (simp add: sender assms(4) notice_dto_def)
  then show "maybeTriggerAiOrchestration n env ch' (notice_dto ch a x) (en_row saved) =
      maybeTriggerAiOrchestration 0 env ch' (notice_dto ch a x) (en_row saved)"
    by (simp add: maybeTriggerAiOrchestration.simps andThen_def act_simps fun_eq_iff)
qed

text \<open>
  C10: Creating a message ends: a notice of the bot (too fast, workspace busy, system busy) is itself created
  as a message, and that one asks for no further notice, so that a depth of one is never exceeded. What
  is relied on is that the channel service tells every member of a channel the same members.
\<close>

theorem notices_do_not_nest:
  assumes "channels_agree env"
  shows "createMessage (Suc n) env dto = createMessage 1 env dto"
proof (rule create_cong)
  fix ch and saved :: entity assume ch: "me_channel env (cr_channelId dto) (cr_senderId dto) = Inr (Some ch)"
  let ?m = "en_row saved"
  show "maybeTriggerAiOrchestration (Suc n) env ch dto ?m = maybeTriggerAiOrchestration 1 env ch dto ?m"
  proof
    fix s
    obtain r t where run: "trigger_outcome_of env ch dto ?m s = (r, t)" by fastforce
    show "maybeTriggerAiOrchestration (Suc n) env ch dto ?m s = maybeTriggerAiOrchestration 1 env ch dto ?m s"
    proof (cases "\<exists>a x. r = Inr (Notice (Some a) x)")
      case True
      then obtain a x where r: "r = Inr (Notice (Some a) x)" by blast
      then obtain agent where "find us_isBot (map snd (getUsersInfo env (nullish (ch_memberIds ch) []))) = Some agent"
          "us_id agent = Some a" using notice_sender run by metis
      then have "createMessage n env (notice_dto ch a x) = createMessage 0 env (notice_dto ch a x)"
        by (rule notice_depth [OF assms ch])
      then show ?thesis using run r by (simp add: maybeTriggerAiOrchestration.simps andThen_def)
    next
      case False
      then show ?thesis using run
        by (cases r) (auto simp: maybeTriggerAiOrchestration.simps andThen_def act_simps split: trigger_outcome.split option.split)
    qed
  qed
qed

text \<open>
  A direct conversation of user 7 with the bot 5 while the queue is full: two messages are stored,
  that of the user and the notice of the bot, however deep notices may nest.
\<close>

definition busy_env :: msg_env where
  "busy_env = demo_env
     \<lparr>me_channel := \<lambda>c u. Inr (Some ((demo_channel c)\<lparr>ch_direct := True, ch_memberIds := Some [5, 7]\<rparr>)),
      me_users := \<lambda>is. Inr (map (\<lambda>i. (demo_user i)\<lparr>us_isBot := (i = 5)\<rparr>) is), me_depth := 101\<rparr>"

lemma notices_do_not_nest_witness:
  "map ms_userId (messages (cn_committed (snd
     (createMessage 7 busy_env (notice_dto (demo_channel 1) 7 (js ''hi'')) (connect empty_db demo_out))))) = [Some 7, Some 5]"
proof -
  have "channels_agree busy_env" by (simp add: channels_agree_def busy_env_def demo_channel_def)
  moreover have "map ms_userId (messages (cn_committed (snd
      (createMessage 1 busy_env (notice_dto (demo_channel 1) 7 (js ''hi'')) (connect empty_db demo_out))))) = [Some 7, Some 5]"
    by code_simp
  ultimately show ?thesis using notices_do_not_nest [of busy_env 6] by (simp add: eval_nat_numeral)
qed

end
