(* ===== verification/Spec2Isabelle.thy ===== *)
theory Spec2Isabelle
  imports Turn_Theorems Tool_Theorems React_Theorems Approval_Theorems Limiter Thread_Service Oauth_Theorems
    Task_Witnesses List_Cache Message_Depth
begin

text \<open>
  A verification development of the agent backend of a Slack-like workspace: NestJS
  services under \<open>src/apps\<close>, of which the orchestration service, which lets language
  models call tools on behalf of users, is the core, and the message service its largest client.

  \<^bold>\<open>How the parts interact.\<close> A message of a user (\<open>apps/message\<close>) is stored, announced through
  jobs on queues and, if a bot is addressed, becomes a turn. The turn
  (\<open>processor/turn-resolver-run.ts\<close>) lets the supervisor choose agents and runs each of them
  in a ReAct loop (\<open>llm/react-loop-run.ts\<close>); the tool calls of the model go through the
  executor (\<open>llm/tool-call-executor.ts\<close>), which asks the risk gate
  (\<open>llm/tool-risk-gate.ts\<close>) and the repeat guard (\<open>llm/tool-repeat-guard.ts\<close>). A
  destructive call stops the turn: a checkpoint is stored (\<open>checkpoint/checkpoint.service.ts\<close>)
  and the user approves, edits, rejects or clarifies (\<open>processor/approval-request.service.ts\<close>);
  a job of the queue then runs the tool and resumes the turn
  (\<open>processor/approval-execution.service.ts\<close>), and two cron jobs clean up
  (\<open>checkpoint/checkpoint-cleanup.service.ts\<close>). Calls to models and providers pass the
  circuit breaker and the concurrency limiter (\<open>common/\<close>).

  \<^bold>\<open>Theories.\<close>
  \<^item> \<open>Prelude\<close>: strings as lists of UTF-16 code units, JavaScript's \<open>trim\<close>, \<open>Set\<close>,
    truthiness; \<open>Regex\<close>: a backtracking matcher with captures; \<open>Json\<close>, \<open>Json_Parse\<close>:
    \<open>JSON.stringify\<close> and \<open>JSON.parse\<close>.
  \<^item> \<open>Agent_Types\<close>: enumerations, limits and DTOs (\<open>libs/constants\<close>, \<open>dto/\<close>).
  \<^item> \<open>Sql_Text\<close>, \<open>Risk_Gate\<close>: recognition of SQL statements, the accumulator of INSERTs
    and the gate.
  \<^item> \<open>Claim_Once\<close>: the interface of an operation that grants a key at most once, interpreted
    by \<open>Repeat_Guard\<close> (an attempt at a tool signature) and \<open>Checkpoint\<close> (an execution).
  \<^item> \<open>Tool_Executor\<close>, \<open>Tool_Run\<close>, \<open>Tool_Safety\<close>, \<open>Tool_Runner\<close>, \<open>Tool_Theorems\<close>: one tool call
    as a program of atomic steps between awaits, several calls interleaving under an
    arbitrary schedule, the invariant of all schedules, the interface \<open>tool_runner\<close> the
    loop needs and its interpretation by the executor under fair schedules.
  \<^item> \<open>Llm_Call\<close>, \<open>React_Loop\<close>, \<open>React_Theorems\<close>: timeouts, retries and the loop.
  \<^item> \<open>Result_Cap\<close>, \<open>Agent_Ranking\<close>, \<open>Supervisor\<close>, \<open>Turn_Resolver\<close>, \<open>Turn_Safety\<close>, \<open>Turn_Theorems\<close>:
    budgets of results, the choice of agents, plans and evaluations, the turn and its
    theorems. \<open>Turn_Safety\<close> states as the interface \<open>turn_invariant\<close> what a turn needs of an
    invariant of its rounds; the real executor under fair schedules provides it.
  \<^item> \<open>Circuit_Breaker\<close>, \<open>Limiter\<close>: transition systems of requests over shared state.
  \<^item> \<open>Checkpoint\<close>, \<open>Approval_Request\<close>, \<open>Approval_Flow\<close>, \<open>Approval_Theorems\<close>: the table of
    checkpoints, the guards of a request, and requests, redelivered jobs and cron jobs as
    interleaving processes.
  \<^item> \<open>Service\<close>: what the services over a database share: an action that may fail, on a
    connection with the committed tables, the tables as the running transaction sees them
    and an outside (queues, Redis) no rollback undoes; which actions preserve an invariant
    and which effect a transaction has.
  \<^item> \<open>Rate_Limit\<close>: the counters of \<open>libs/cached/src/rateLimit.service.ts\<close>.
  \<^item> \<open>Message_Data\<close>, \<open>Message_Service\<close>: rows, DTOs, jobs and every operation of
    \<open>apps/message/src/service/message.service.ts\<close>; \<open>Message_Invariant\<close>, \<open>Message_Effects\<close>,
    \<open>Message_Theorems\<close>, \<open>Message_Faults\<close>: the invariant of the tables, the effect of each
    operation as a relation, who may change what, and where the code goes wrong; \<open>Message_Depth\<close>:
    the notices of the bot, themselves messages, do not call for further notices.
  \<^item> \<open>Keyset\<close>: the interface \<open>keyset_pages\<close> of a list read page by page, interpreted in
    \<open>Message_Pages\<close> by the pages of channels, threads and searches; \<open>Thread_Service\<close>: the
    list of threads, which does not keep it.

  \<^item> \<open>Auth_Data\<close>, \<open>Auth_Service\<close>: rows, tokens, Redis keys and every operation of
    \<open>apps/auth/src/auth.service.ts\<close>, and the guard of the gateway; \<open>Auth_Theorems\<close> states what
    an invariant of the service needs as the interface \<open>auth_invariant\<close>, interpreted by the
    consistency of the tables, by who comes by a session, by closed sessions and by used
    codes (\<open>Auth_Faults\<close>). \<open>Oauth_Service\<close>, \<open>Oauth_Theorems\<close>: the OAuth provider
    (\<open>apps/auth/src/oauth.service.ts\<close>, \<open>strategy/oauth\<close>). JSON web tokens, SHA-256 and argon2 are
    arguments; \<open>jwt_ok\<close>, \<open>sha_ok\<close>, \<open>signs_for\<close> name what is relied on.

  \<^item> \<open>Cached\<close>: the cells and versions of \<open>libs/cached/src/cached.service.ts\<close>; \<open>List_Cache\<close>: its
    lists read and written by interleaving processes.
  \<^item> \<open>Task_Data\<close>, \<open>Task_Service\<close>, \<open>Board_Service\<close>: the ten tables, the DTOs and every operation of the
    five services and the queue processor of \<open>apps/task\<close>. \<open>Task_Spec\<close> says in one relation,
    \<open>task_change\<close>, what may change, by whom, and whose cached lists are then out of date;
    \<open>Task_Run\<close> is the calculus of runs with which \<open>Task_Refinement\<close> shows that every operation is
    such a change. On the relation rest the consistency of the tables (\<open>Task_Invariant\<close>), the
    cached lists (\<open>Task_Lists\<close>, \<open>Task_Theorems\<close>) and whose boards are changed (\<open>Task_Authority\<close>);
    \<open>Task_Moves\<close> has the reminder of a task and the order after a drag, \<open>Task_Witnesses\<close> the
    properties at a concrete workspace. \<open>task_env_ok\<close> names what is relied on: the workspace
    service answers the member it is asked for, and new rows get new ids.

  \<^bold>\<open>Modelling.\<close> A service that awaits is a process whose steps are the code between two
  awaits; a crash is a process that is never stepped again. Redis scripts and conditional
  SQL updates are single steps. Times are \<open>int\<close> milliseconds. What is not under \<open>src/\<close>
  (models, MCP servers, Redis, the queue) is a parameter or an answer of the world that
  the theorems quantify over.

  \<^bold>\<open>Bounds and fuel.\<close> \<open>settle\<close> runs the calls of a round by fuel; \<open>executor_settles\<close> shows
  that nine fair rounds per call are enough. Loops with a counter terminate by a measure.
  \<open>json_parse\<close> uses twice the length of its input as fuel, enough by \<open>fuel_enough\<close>. A turn runs
  at most fifteen agents, asks for six plans and adds twenty-one rounds (\<open>turn_is_bounded\<close>).
  The trigger that deletes replies recurs at most once per message (\<open>delete_row_thread\<close>);
  \<open>createMessage\<close> takes the depth of notices as an argument, one being enough (\<open>notices_do_not_nest\<close>).

  \<^bold>\<open>Not modelled.\<close> Transactions of the message, auth and task services run one after the other
  (so no version of a row is ever out of date when it is saved); the times of a
  row are those of the operation that wrote it. Postgres' text search, the channel, user and
  app services are arguments. The services around the core (their components and reasons are
  listed in the manifest) are HTTP and TCP forwarding and third-party clients, or not done yet.
\<close>

end
